(* ===== verification/Prelude.thy ===== *)
theory Prelude
  imports Main "HOL-Library.Word" "HOL-Library.Multiset"
begin

text \<open>
  Shared vocabulary of the development: the machine-integer types of
  \<open>rservr/api/command.h\<close>, lemma collections, and generic facts on lists that
  several components use. Nothing here models a particular routine.
\<close>

unbundle bit_operations_syntax

section \<open>Machine types of the API header\<close>

type_synonym mask16 = "16 word"
type_synonym u2 = "2 word"
type_synonym u8 = "8 word"
type_synonym u32 = "32 word"
type_synonym u64 = "64 word"

text \<open>
  An \<open>entity_handle\<close> is the address of a \<open>client_id\<close>; \<open>0\<close> is the null pointer.
\<close>

type_synonym handle = nat

text \<open>\<open>multi_result\<close>: success, failure, or a command that cannot be right.\<close>

datatype multi_result = result_success | result_fail | result_invalid

section \<open>Collections\<close>

named_theorems flag_defs \<open>definitions of the bit-mask constants\<close>
named_theorems route_defs \<open>definitions of the routing stages\<close>
named_theorems frame_simps \<open>fields an operation leaves alone\<close>

section \<open>Positions in lists\<close>

fun find_index :: "('a \<Rightarrow> bool) \<Rightarrow> 'a list \<Rightarrow> nat option" where
  "find_index P [] = None"
| "find_index P (x # xs) = (if P x then Some 0 else map_option Suc (find_index P xs))"

lemma find_index_None [simp]: "find_index P xs = None \<longleftrightarrow> (\<forall>x \<in> set xs. \<not> P x)"
  by (induction xs) auto

lemma find_index_Some:
  "find_index P xs = Some i \<Longrightarrow> i < length xs \<and> P (xs ! i) \<and> (\<forall>j < i. \<not> P (xs ! j))"
proof (induction xs arbitrary: i)
  case Nil
  then show ?case by simp
next
  case (Cons x xs)
  show ?case
  proof (cases "P x")
    case True
    with Cons.prems show ?thesis by auto
  next
    case False
    with Cons.prems obtain k where k: "find_index P xs = Some k" and i: "i = Suc k"
      by auto
    from Cons.IH [OF k] False i show ?thesis
      by (auto simp: nth_Cons split: nat.splits)
  qed
qed

lemma find_index_SomeD:
  assumes "find_index P xs = Some i"
  shows "i < length xs" and "P (xs ! i)" and "xs ! i \<in> set xs"
  using find_index_Some [OF assms] by auto

lemma find_index_ex: "x \<in> set xs \<Longrightarrow> P x \<Longrightarrow> \<exists>i. find_index P xs = Some i"
  by (cases "find_index P xs") auto

text \<open>With distinct keys the search for a key finds the one element that has it.\<close>

lemma find_index_key:
  assumes "distinct (map f xs)" and "i < length xs"
  shows "find_index (\<lambda>x. f x = f (xs ! i)) xs = Some i"
proof -
  obtain k where k: "find_index (\<lambda>x. f x = f (xs ! i)) xs = Some k"
    using find_index_ex [of "xs ! i" xs "\<lambda>x. f x = f (xs ! i)"] assms(2) by auto
  from find_index_SomeD [OF this] have "k < length xs" "f (xs ! k) = f (xs ! i)" by auto
  with assms have "k = i" by (simp add: distinct_conv_nth) (metis)
  with k show ?thesis by simp
qed

definition remove_at :: "nat \<Rightarrow> 'a list \<Rightarrow> 'a list" where
  "remove_at i xs = take i xs @ drop (Suc i) xs"

lemma remove_at_Nil [simp]: "remove_at i [] = []"
  by (simp add: remove_at_def)

lemma remove_at_0 [simp]: "remove_at 0 xs = tl xs"
  by (cases xs) (simp_all add: remove_at_def)

lemma length_remove_at: "i < length xs \<Longrightarrow> length (remove_at i xs) = length xs - 1"
  by (simp add: remove_at_def)

lemma length_remove_at_less: "i < length xs \<Longrightarrow> length (remove_at i xs) < length xs"
  by (simp add: remove_at_def)

lemma set_remove_at_subset: "set (remove_at i xs) \<subseteq> set xs"
  by (auto simp: remove_at_def dest: in_set_takeD in_set_dropD)

lemma map_remove_at: "map f (remove_at i xs) = remove_at i (map f xs)"
  by (simp add: remove_at_def take_map drop_map)

lemma distinct_remove_at: "distinct xs \<Longrightarrow> distinct (remove_at i xs)"
  unfolding remove_at_def
  by (simp add: distinct_drop distinct_take set_take_disj_set_drop_if_distinct)

lemma mset_remove_at: "i < length xs \<Longrightarrow> mset (remove_at i xs) = mset xs - {#xs ! i#}"
proof -
  assume i: "i < length xs"
  then have "mset xs = mset (take i xs @ xs ! i # drop (Suc i) xs)"
    by (simp add: id_take_nth_drop [symmetric])
  then show ?thesis by (simp add: remove_at_def)
qed

lemma set_remove_at_distinct:
  assumes "distinct (map f xs)" and "i < length xs"
  shows "set (remove_at i xs) = {x \<in> set xs. f x \<noteq> f (xs ! i)}"
proof -
  have split: "xs = take i xs @ xs ! i # drop (Suc i) xs"
    using assms(2) by (rule id_take_nth_drop)
  have "distinct (map f (take i xs @ xs ! i # drop (Suc i) xs))"
    using assms(1) split by simp
  then have "\<forall>x \<in> set (take i xs) \<union> set (drop (Suc i) xs). f x \<noteq> f (xs ! i)"
    by (auto simp: image_iff)
  moreover have "set xs = set (take i xs) \<union> {xs ! i} \<union> set (drop (Suc i) xs)"
    by (subst split) auto
  ultimately show ?thesis by (auto simp: remove_at_def)
qed

section \<open>Updating the element at a position\<close>

definition update_at :: "nat \<Rightarrow> ('a \<Rightarrow> 'a) \<Rightarrow> 'a list \<Rightarrow> 'a list" where
  "update_at i f xs = (if i < length xs then xs[i := f (xs ! i)] else xs)"

lemma length_update_at [simp]: "length (update_at i f xs) = length xs"
  by (simp add: update_at_def)

lemma nth_update_at: "j < length xs \<Longrightarrow>
    update_at i f xs ! j = (if i = j then f (xs ! j) else xs ! j)"
  by (simp add: update_at_def nth_list_update)

lemma map_update_at_same [simp]:
  "i < length xs \<Longrightarrow> g (f (xs ! i)) = g (xs ! i) \<Longrightarrow> map g (update_at i f xs) = map g xs"
  by (rule nth_equalityI) (auto simp: nth_update_at)

lemma map_update_at: "(\<And>x. g (f x) = g x) \<Longrightarrow> map g (update_at i f xs) = map g xs"
  by (rule nth_equalityI) (auto simp: nth_update_at)

section \<open>Simulation\<close>

text \<open>Operations on a state that are mirrored by operations on a simpler one: then so are all their
  sequences.\<close>

locale simulation =
  fixes good :: "'s \<Rightarrow> bool"
    and view :: "'s \<Rightarrow> 'a"
    and step :: "'o \<Rightarrow> 's \<Rightarrow> 's"
    and spec :: "'o \<Rightarrow> 'a \<Rightarrow> 'a"
  assumes step_good: "good s \<Longrightarrow> good (step x s)"
    and step_view: "good s \<Longrightarrow> view (step x s) = spec x (view s)"
begin

lemma run_good: "good s \<Longrightarrow> good (fold step xs s)"
  by (induction xs arbitrary: s) (auto simp: step_good)

lemma run_view: "good s \<Longrightarrow> view (fold step xs s) = fold spec xs (view s)"
  by (induction xs arbitrary: s) (auto simp: step_good step_view)

end

end
