(* ===== verification/Address_Scope.thy ===== *)
theory Address_Scope
  imports Prelude
begin

text \<open>
  Scoped addresses, after \<open>libs/protocol/conversion.cpp\<close>. An address names the route of a
  command through several servers: \<open>c?a|c?a|...\<close>, where each hop is the client a server
  hands the command to and the address that client forwards it to. The routines build and
  take apart such routes with \<open>strsep\<close>; the lemmas read them as operations on the list
  of hops.
\<close>

section \<open>\<open>strsep\<close>\<close>

definition client_scope_char :: char where "client_scope_char = CHR ''?''"
definition address_scope_char :: char where "address_scope_char = CHR ''|''"

lemma scope_chars_differ [simp]:
  "client_scope_char \<noteq> address_scope_char" "address_scope_char \<noteq> client_scope_char"
  by (simp_all add: client_scope_char_def address_scope_char_def)

text \<open>
  \<open>split_first d s\<close> is the text before the first \<open>d\<close> and, when there is one, the text after
  it. \<open>strsep\<close> is the C routine for a one-character delimiter: the token (null for a null
  string) and the string left (null once the last token is taken).
\<close>

fun split_first :: "char \<Rightarrow> string \<Rightarrow> string \<times> string option" where
  "split_first d [] = ([], None)"
| "split_first d (c # cs) =
     (if c = d then ([], Some cs)
      else (case split_first d cs of (tok, rest) \<Rightarrow> (c # tok, rest)))"

definition strsep :: "char \<Rightarrow> string option \<Rightarrow> string option \<times> string option" where
  "strsep d s = (case s of None \<Rightarrow> (None, None)
     | Some t \<Rightarrow> (Some (fst (split_first d t)), snd (split_first d t)))"

lemma split_first_append [simp]: "d \<notin> set a \<Longrightarrow> split_first d (a @ d # b) = (a, Some b)"
  by (induction a) auto

lemma split_first_none [simp]: "d \<notin> set a \<Longrightarrow> split_first d a = (a, None)"
  by (induction a) auto

lemma split_first_token: "d \<notin> set (fst (split_first d s))"
  by (induction s) (auto split: prod.splits)

lemma split_first_join:
  "split_first d s = (tok, rest) \<Longrightarrow>
    s = tok @ (case rest of None \<Rightarrow> [] | Some r \<Rightarrow> d # r) \<and> d \<notin> set tok"
proof (induction s arbitrary: tok)
  case Nil
  then show ?case by auto
next
  case (Cons c cs)
  then show ?case by (cases "split_first d cs") (auto split: if_splits)
qed

lemma split_first_rest_length: "split_first d s = (tok, Some r) \<Longrightarrow> length r < length s"
  using split_first_join [of d s tok "Some r"] by simp

text \<open>The loop \<open>while ((working = strsep(...)))\<close> visits all tokens of a string.\<close>

function tokens :: "char \<Rightarrow> string \<Rightarrow> string list" where
  "tokens d s = (case split_first d s of
       (tok, None) \<Rightarrow> [tok]
     | (tok, Some r) \<Rightarrow> tok # tokens d r)"
  by auto
termination
  by (relation "measure (length \<circ> snd)") (auto simp: split_first_rest_length dest: sym)

declare tokens.simps [simp del]

lemma tokens_none [simp]: "d \<notin> set a \<Longrightarrow> tokens d a = [a]"
  by (subst tokens.simps) simp

lemma tokens_append [simp]: "d \<notin> set a \<Longrightarrow> tokens d (a @ d # b) = a # tokens d b"
  by (subst tokens.simps) simp

lemma tokens_not_Nil [simp]: "tokens d s \<noteq> []"
  by (subst tokens.simps) (auto split: prod.split option.split)

lemma tokens_join:
  "(\<forall>a \<in> set as. d \<notin> set a) \<Longrightarrow> d \<notin> set b \<Longrightarrow>
    tokens d (concat (map (\<lambda>a. a @ [d]) as) @ b) = as @ [b]"
  by (induction as) auto

section \<open>Taking scopes off\<close>

text \<open>
  The C++ routines update their reference arguments; here they return the new values.
  \<open>next_client_scope\<close> overwrites the client in both branches.
\<close>

definition next_client_scope :: "string \<Rightarrow> string \<times> string" where
  "next_client_scope a =
     (case strsep client_scope_char (Some a) of
        (working, Some rest) \<Rightarrow> (the working, rest)
      | (working, None) \<Rightarrow> ([], (case working of Some w \<Rightarrow> w | None \<Rightarrow> [])))"

definition next_address_scope :: "string \<Rightarrow> string" where
  "next_address_scope a =
     (case strsep address_scope_char (Some a) of
        (Some working, rest) \<Rightarrow> (case rest of Some r \<Rightarrow> r | None \<Rightarrow> [])
      | (None, rest) \<Rightarrow> a)"

definition copy_next_scope :: "string \<Rightarrow> string option" where
  "copy_next_scope a = fst (strsep address_scope_char (Some a))"

text \<open>The result and the new address; on failure the address is unchanged.\<close>

definition only_last_address :: "string \<Rightarrow> bool \<times> string" where
  "only_last_address a =
     (if a = [] then (True, a)
      else (case strsep client_scope_char (Some a) of
          (None, left_over) \<Rightarrow> (left_over = None \<or> left_over = Some [], a)
        | (Some _, left_over) \<Rightarrow>
            (case strsep address_scope_char left_over of
               (None, None) \<Rightarrow> (False, a)
             | (None, Some l) \<Rightarrow> (True, l)
             | (Some w, _) \<Rightarrow> (True, w))))"

text \<open>
  \<open>is_next_server\<close>: the block after the second \<open>strsep\<close> has lost its condition, so it
  always returns, and the computation of \<open>outcome\<close> is unreachable.
\<close>

definition is_next_server :: "string \<Rightarrow> bool" where
  "is_next_server a =
     (case strsep address_scope_char (Some a) of
        (None, _) \<Rightarrow> False
      | (Some _, left_over) \<Rightarrow>
          (case strsep client_scope_char left_over of _ \<Rightarrow> False))"

section \<open>Putting scopes on\<close>

definition insert_remote_address :: "string \<Rightarrow> string \<Rightarrow> string" where
  "insert_remote_address cur a =
     (if cur \<noteq> [] then (a @ [address_scope_char]) @ cur else a)"

definition insert_remote_client :: "string \<Rightarrow> string \<Rightarrow> string" where
  "insert_remote_client cur c = (c @ [client_scope_char]) @ cur"

definition insert_separate_scope ::
  "string \<times> string \<Rightarrow> string \<Rightarrow> string \<Rightarrow> string \<times> string" where
  "insert_separate_scope ca nc na = (case ca of (client, address) \<Rightarrow>
     (nc, insert_remote_client (insert_remote_address address na) client))"

definition prepend_existing_scope :: "string \<Rightarrow> string \<Rightarrow> string" where
  "prepend_existing_scope a na = (if na \<noteq> [] then insert_remote_address a na else a)"

text \<open>The loop over the reversed tokens of the scope; it ends at the first one without a client.\<close>

fun insert_scope_tokens :: "string \<times> string \<Rightarrow> string list \<Rightarrow> string \<times> string" where
  "insert_scope_tokens ca [] = ca"
| "insert_scope_tokens ca (t # ts) =
     (case strsep client_scope_char (Some t) of
        (Some c, Some a) \<Rightarrow> insert_scope_tokens (insert_separate_scope ca c a) ts
      | _ \<Rightarrow> ca)"

definition insert_existing_scope ::
  "string \<times> string \<Rightarrow> string \<Rightarrow> string \<times> string" where
  "insert_existing_scope ca sScope = insert_scope_tokens ca (rev (tokens address_scope_char sScope))"

definition set_to_server_scope :: "string \<times> string \<Rightarrow> string \<times> string" where
  "set_to_server_scope ca = (case ca of (client, address) \<Rightarrow>
     (if address = [] then ([], address)
      else (let ts = rev (tokens address_scope_char address)
            in (client, foldl prepend_existing_scope []
                  (snd (next_client_scope (hd ts)) # tl ts)))))"

section \<open>Routes as lists of hops\<close>

text \<open>
  A hop is a client and the address it forwards to. \<open>scope_of\<close> writes a list of hops as the
  text the routines handle. \<open>hop_ok\<close> says the names hold no separator.
\<close>

type_synonym hop = "string \<times> string"

definition plain :: "string \<Rightarrow> bool" where
  "plain s \<longleftrightarrow> client_scope_char \<notin> set s \<and> address_scope_char \<notin> set s"

definition hop_ok :: "hop \<Rightarrow> bool" where
  "hop_ok h \<longleftrightarrow> plain (fst h) \<and> plain (snd h)"

definition hop_text :: "hop \<Rightarrow> string" where
  "hop_text h = fst h @ client_scope_char # snd h"

fun scope_of :: "hop list \<Rightarrow> string" where
  "scope_of [] = []"
| "scope_of [h] = hop_text h"
| "scope_of (h # hs) = hop_text h @ address_scope_char # scope_of hs"

lemma scope_of_Cons: "scope_of (h # hs) =
    hop_text h @ (if hs = [] then [] else address_scope_char # scope_of hs)"
  by (cases hs) simp_all

lemma hop_text_not_Nil [simp]: "hop_text h \<noteq> []"
  by (simp add: hop_text_def)

lemma scope_of_Nil_iff [simp]: "scope_of hs = [] \<longleftrightarrow> hs = []"
  by (cases hs) (simp_all add: scope_of_Cons)

lemma address_not_in_hop_text: "hop_ok h \<Longrightarrow> address_scope_char \<notin> set (hop_text h)"
  by (auto simp: hop_ok_def plain_def hop_text_def)

lemma tokens_scope_of:
  assumes "\<forall>h \<in> set hs. hop_ok h" and "hs \<noteq> []"
  shows "tokens address_scope_char (scope_of hs) = map hop_text hs"
  using assms
proof (induction hs)
  case Nil
  then show ?case by simp
next
  case (Cons h hs)
  then have h: "address_scope_char \<notin> set (hop_text h)" by (simp add: address_not_in_hop_text)
  show ?case
  proof (cases "hs = []")
    case True
    with h show ?thesis by simp
  next
    case False
    with Cons have "tokens address_scope_char (scope_of hs) = map hop_text hs" by simp
    with h False show ?thesis by (simp add: scope_of_Cons)
  qed
qed

lemma next_client_scope_hop:
  "client_scope_char \<notin> set c \<Longrightarrow> next_client_scope (c @ client_scope_char # r) = (c, r)"
  by (simp add: next_client_scope_def strsep_def)

lemma next_client_scope_none:
  "client_scope_char \<notin> set a \<Longrightarrow> next_client_scope a = ([], a)"
  by (simp add: next_client_scope_def strsep_def)

lemma next_address_scope_sep:
  "address_scope_char \<notin> set a \<Longrightarrow> next_address_scope (a @ address_scope_char # r) = r"
  by (simp add: next_address_scope_def strsep_def)

lemma next_address_scope_none:
  "address_scope_char \<notin> set a \<Longrightarrow> next_address_scope a = []"
  by (simp add: next_address_scope_def strsep_def)

lemmas scope_steps =
  next_client_scope_hop next_client_scope_none next_address_scope_sep next_address_scope_none

text \<open>
  One server's treatment of a command that arrives for a remote server: take the next
  client, note the address it will contact, and leave the rest of the route.
\<close>

definition take_hop :: "string \<Rightarrow> hop \<times> string" where
  "take_hop a = (case next_client_scope a of (c, r) \<Rightarrow>
     ((c, the (copy_next_scope r)), next_address_scope r))"

fun walk_route :: "nat \<Rightarrow> string \<Rightarrow> hop list" where
  "walk_route 0 a = []"
| "walk_route (Suc n) a = (case take_hop a of (h, r) \<Rightarrow> h # walk_route n r)"

lemma take_hop_scope_of:
  assumes "hop_ok h"
  shows "take_hop (scope_of (h # hs)) = (h, scope_of hs)"
proof (cases hs)
  case Nil
  with assms show ?thesis
    by (cases h)
      (simp add: take_hop_def hop_ok_def plain_def hop_text_def scope_steps copy_next_scope_def
        strsep_def)
next
  case (Cons g gs)
  obtain c a where h: "h = (c, a)" by (cases h)
  from assms h have na: "client_scope_char \<notin> set c" "address_scope_char \<notin> set a"
    by (simp_all add: hop_ok_def plain_def)
  from h Cons have e: "scope_of (h # hs)
      = c @ client_scope_char # (a @ address_scope_char # scope_of hs)"
    by (simp add: scope_of_Cons hop_text_def)
  from na show ?thesis
    unfolding e take_hop_def next_client_scope_hop [OF na(1)]
    by (simp add: next_address_scope_sep copy_next_scope_def strsep_def h)
qed

lemma walk_route_scope_of:
  "\<forall>h \<in> set hs. hop_ok h \<Longrightarrow> n \<le> length hs \<Longrightarrow> walk_route n (scope_of hs) = take n hs"
proof (induction hs arbitrary: n)
  case Nil
  then show ?case by simp
next
  case (Cons h hs)
  show ?case
  proof (cases n)
    case (Suc m)
    with Cons show ?thesis by (simp add: take_hop_scope_of)
  qed simp
qed

section \<open>Wrapping a route around a destination\<close>

text \<open>
  \<open>insert_separate_scope\<close> puts one hop in front; the client it displaces becomes the client of
  the hop behind. Going through the hops of an existing scope from the last to the first
  shifts all clients by one place.
\<close>

lemma insert_separate_scope_scope_of:
  "insert_separate_scope (c, scope_of hs) nc na = (nc, scope_of ((c, na) # hs))"
  by (simp add: insert_separate_scope_def insert_remote_client_def insert_remote_address_def
      scope_of_Cons hop_text_def)

fun shift_route :: "hop list \<Rightarrow> string \<Rightarrow> hop list" where
  "shift_route [] c = []"
| "shift_route [(c1, a1)] c = [(c, a1)]"
| "shift_route ((c1, a1) # (c2, a2) # hs) c = (c2, a1) # shift_route ((c2, a2) # hs) c"

lemma shift_route_snoc:
  "shift_route (hs @ [(c1, a1)]) c = shift_route hs c1 @ [(c, a1)]"
proof (induction hs rule: induct_list012)
  case (3 h1 h2 hs)
  then show ?case by (cases h1; cases h2) auto
next
  case (2 h)
  then show ?case by (cases h) auto
qed simp

lemma insert_scope_tokens_route:
  assumes "\<forall>h \<in> set hs. hop_ok h"
  shows "insert_scope_tokens (c, scope_of rs) (map hop_text (rev hs))
    = (fst (hd (hs @ [(c, [])])), scope_of (shift_route hs c @ rs))"
  using assms
proof (induction hs arbitrary: c rs rule: rev_induct)
  case Nil
  then show ?case by simp
next
  case (snoc h hs)
  obtain c1 a1 where h: "h = (c1, a1)" by (cases h)
  from snoc.prems h have "client_scope_char \<notin> set c1" by (simp add: hop_ok_def plain_def)
  then have "insert_scope_tokens (c, scope_of rs) (map hop_text (rev (hs @ [h])))
      = insert_scope_tokens (c1, scope_of ((c, a1) # rs)) (map hop_text (rev hs))"
    by (simp add: h strsep_def hop_text_def insert_separate_scope_scope_of)
  also have "\<dots> = (fst (hd (hs @ [(c1, [])])), scope_of (shift_route hs c1 @ (c, a1) # rs))"
    using snoc by simp
  finally have step: "insert_scope_tokens (c, scope_of rs) (map hop_text (rev (hs @ [h])))
      = (fst (hd (hs @ [(c1, [])])), scope_of (shift_route hs c1 @ (c, a1) # rs))" .
  have "fst (hd (hs @ [(c1, [])])) = fst (hd ((hs @ [h]) @ [(c, [])]))"
    by (cases hs) (simp_all add: h)
  moreover have "shift_route (hs @ [h]) c @ rs = shift_route hs c1 @ (c, a1) # rs"
    unfolding h shift_route_snoc by simp
  ultimately show ?case unfolding step by simp
qed

lemma insert_existing_scope_route:
  assumes "\<forall>h \<in> set hs. hop_ok h" and "hs \<noteq> []"
  shows "insert_existing_scope (c, scope_of rs) (scope_of hs)
    = (fst (hd hs), scope_of (shift_route hs c @ rs))"
  using insert_scope_tokens_route [of hs c rs] assms
  by (cases hs) (simp_all add: insert_existing_scope_def tokens_scope_of rev_map)

section \<open>Addressing the last server of a route\<close>

lemma foldl_prepend_map:
  assumes "\<forall>t \<in> set ts. t \<noteq> []" and "a \<noteq> []"
  shows "foldl prepend_existing_scope a ts
    = concat (map (\<lambda>t. t @ [address_scope_char]) (rev ts)) @ a"
  using assms
  by (induction ts arbitrary: a) (auto simp: prepend_existing_scope_def insert_remote_address_def)

lemma concat_scope_of:
  "concat (map (\<lambda>h. hop_text h @ [address_scope_char]) hs) @ a
    = (if hs = [] then a else scope_of hs @ address_scope_char # a)"
  by (induction hs) (auto simp: scope_of_Cons)

lemma set_to_server_scope_route:
  assumes "\<forall>h \<in> set (hs @ [(c1, a1)]). hop_ok h" and "a1 \<noteq> []"
  shows "set_to_server_scope (c, scope_of (hs @ [(c1, a1)]))
    = (c, if hs = [] then a1 else scope_of hs @ address_scope_char # a1)"
proof -
  have ne: "client_scope_char \<notin> set c1" using assms by (simp add: hop_ok_def plain_def)
  have t: "rev (tokens address_scope_char (scope_of (hs @ [(c1, a1)])))
      = hop_text (c1, a1) # rev (map hop_text hs)"
    using assms tokens_scope_of [of "hs @ [(c1, a1)]"] by simp
  have "next_client_scope (hop_text (c1, a1)) = (c1, a1)"
    using ne by (simp add: hop_text_def next_client_scope_hop)
  with t have "set_to_server_scope (c, scope_of (hs @ [(c1, a1)]))
      = (c, foldl prepend_existing_scope a1 (rev (map hop_text hs)))"
    using assms(2)
    by (simp add: set_to_server_scope_def prepend_existing_scope_def insert_remote_address_def)
  also have "foldl prepend_existing_scope a1 (rev (map hop_text hs))
      = concat (map (\<lambda>h. hop_text h @ [address_scope_char]) hs) @ a1"
    using foldl_prepend_map [of "rev (map hop_text hs)" a1] assms(2) by (auto simp: comp_def)
  finally show ?thesis by (simp add: concat_scope_of)
qed

lemma is_next_server_never [simp]: "\<not> is_next_server a"
  by (auto simp: is_next_server_def split: prod.split option.split)

lemma shift_route_ok:
  "\<forall>h \<in> set hs. hop_ok h \<Longrightarrow> plain c \<Longrightarrow> \<forall>h \<in> set (shift_route hs c). hop_ok h"
proof (induction hs c rule: shift_route.induct)
  case (3 c1 a1 c2 a2 hs c)
  from "3.IH" "3.prems" have "\<forall>h \<in> set (shift_route ((c2, a2) # hs) c). hop_ok h" by simp
  moreover have "hop_ok (c2, a1)" using "3.prems"(1) by (simp add: hop_ok_def)
  ultimately show ?case by (simp only: shift_route.simps list.set ball_simps simp_thms)
qed (simp_all add: hop_ok_def)

lemma length_shift_route [simp]: "length (shift_route hs c) = length hs"
  by (induction hs c rule: shift_route.induct) simp_all

text \<open>
  C27. Wrapping a route \<open>hs\<close> around a command for client \<open>c\<close> (which may already carry a route
  \<open>rs\<close>) with \<open>insert_existing_scope\<close> and letting every server on the way take its hop visits the
  addresses of \<open>hs\<close> in order, each with the client of the next hop, ends at \<open>c\<close>, and
  leaves \<open>rs\<close>: no hop is lost, repeated or reordered.
\<close>

theorem insert_existing_scope_walk:
  assumes "\<forall>h \<in> set (hs @ rs). hop_ok h" and "hs \<noteq> []" and "plain c"
  shows "insert_existing_scope (c, scope_of rs) (scope_of hs)
      = (fst (hd hs), scope_of (shift_route hs c @ rs)) \<and>
    walk_route (length hs) (snd (insert_existing_scope (c, scope_of rs) (scope_of hs)))
      = shift_route hs c \<and>
    map snd (shift_route hs c) = map snd hs \<and>
    map fst (shift_route hs c) = map fst (tl hs) @ [c]"
proof -
  have ins: "insert_existing_scope (c, scope_of rs) (scope_of hs)
      = (fst (hd hs), scope_of (shift_route hs c @ rs))"
    using assms by (intro insert_existing_scope_route) auto
  have "\<forall>h \<in> set (shift_route hs c @ rs). hop_ok h"
    using assms shift_route_ok [of hs c] by auto
  then have "walk_route (length hs) (scope_of (shift_route hs c @ rs)) = shift_route hs c"
    by (simp add: walk_route_scope_of)
  moreover have "map snd (shift_route hs c) = map snd hs"
    by (induction hs c rule: shift_route.induct) simp_all
  moreover have "map fst (shift_route hs c) = map fst (tl hs) @ [c]"
    using assms(2) by (induction hs c rule: shift_route.induct) simp_all
  ultimately show ?thesis using ins by simp
qed

theorem insert_existing_scope_walk_witness:
  "insert_existing_scope (''c'', scope_of [(''x'', ''y'')]) (scope_of [(''p'', ''1''), (''q'', ''2'')])
      = (''p'', scope_of [(''q'', ''1''), (''c'', ''2''), (''x'', ''y'')])"
  using insert_existing_scope_walk [of "[(''p'', ''1''), (''q'', ''2'')]" "[(''x'', ''y'')]" "''c''"]
  by (simp add: hop_ok_def plain_def client_scope_char_def address_scope_char_def)

end
