(* ===== verification/Label_Check.thy ===== *)
theory Label_Check
  imports Address_Scope
begin

text \<open>
  The checks on names and routes of \<open>libs/protocol/api-label-check.cpp\<close>, which run on every
  label a command carries. The two regular expressions \<open>^[...]*$\<close> are membership of every
  character in the bracket of \<open>PARAM_ENTITY_FILTER\<close> and \<open>PARAM_ADDRESS_FILTER\<close> (C locale; the
  compilation of the expressions is taken to succeed). The null pointer is \<open>None\<close>.
  The main lemma reads the pointer scan of \<open>check_address_label\<close> as the grammar of routes.
\<close>

section \<open>Limits and filters of \<open>param.h\<close>\<close>

definition PARAM_ENTITY_LIMIT :: nat where "PARAM_ENTITY_LIMIT = 128"
definition PARAM_ADDRESS_LIMIT :: nat where "PARAM_ADDRESS_LIMIT = 256"
definition PARAM_SCOPE_LIMIT :: nat where "PARAM_SCOPE_LIMIT = 2048"

definition entity_filter :: "char \<Rightarrow> bool" where
  "entity_filter c \<longleftrightarrow> c \<in> set (''-abcdefghijklmnopqrstuvwxyz'' @ ''ABCDEFGHIJKLMNOPQRSTUVWXYZ''
     @ ''0123456789~`#$%^&_+;:'' @ [CHR 0x27] @ '',./@'')"

definition address_filter :: "char \<Rightarrow> bool" where
  "address_filter c \<longleftrightarrow> entity_filter c \<or> c \<in> set ''?|''"

lemma entity_filter_no_scope:
  "\<not> entity_filter client_scope_char" "\<not> entity_filter address_scope_char"
  by (simp_all add: entity_filter_def client_scope_char_def address_scope_char_def)

section \<open>The checks\<close>

definition check_entity_label :: "string option \<Rightarrow> bool" where
  "check_entity_label l = (case l of None \<Rightarrow> True
     | Some s \<Rightarrow> if length s > PARAM_ENTITY_LIMIT then False else list_all entity_filter s)"

text \<open>
  The loop of \<open>check_address_label\<close>; \<open>pos\<close> is \<open>current - lLabel\<close>, the other arguments are
  \<open>target\<close>, \<open>address\<close>, \<open>current_address\<close> and \<open>checking_address\<close>. Labels have at most 2048
  characters, so the C \<open>int\<close>s do not wrap.
\<close>

fun scan_label :: "int \<Rightarrow> int \<Rightarrow> int \<Rightarrow> nat \<Rightarrow> bool \<Rightarrow> string \<Rightarrow> bool" where
  "scan_label pos target address current_address checking [] \<longleftrightarrow> target < 0 \<or> target > address"
| "scan_label pos target address current_address checking (c # cs) \<longleftrightarrow>
     (if c = client_scope_char then
        (if target > address then False
         else scan_label (pos + 1) pos address current_address True cs)
      else if c = address_scope_char then
        (if address > target then False
         else scan_label (pos + 1) target pos 0 False cs)
      else if checking then
        (if current_address + 1 > PARAM_ADDRESS_LIMIT then False
         else scan_label (pos + 1) target address (current_address + 1) checking cs)
      else scan_label (pos + 1) target address current_address checking cs)"

definition check_address_label :: "string option \<Rightarrow> bool" where
  "check_address_label l = (case l of None \<Rightarrow> True
     | Some s \<Rightarrow> if length s > PARAM_SCOPE_LIMIT then False
         else if \<not> list_all address_filter s then False
         else scan_label 0 (-1) 0 0 False s)"

fun scan_to_address :: "string \<Rightarrow> bool" where
  "scan_to_address [] = True"
| "scan_to_address (c # cs) = (if c = client_scope_char then False
     else if c = address_scope_char then True else scan_to_address cs)"

definition check_next_to_address :: "string option \<Rightarrow> bool" where
  "check_next_to_address l = (case l of None \<Rightarrow> False | Some s \<Rightarrow> scan_to_address s)"

fun scan_to_client :: "string \<Rightarrow> bool" where
  "scan_to_client [] = False"
| "scan_to_client (c # cs) = (if c = client_scope_char then True
     else if c = address_scope_char then False else scan_to_client cs)"

definition check_next_to_client :: "string option \<Rightarrow> bool" where
  "check_next_to_client l = (case l of None \<Rightarrow> False
     | Some s \<Rightarrow> if length s = 0 then True else scan_to_client s)"

section \<open>The grammar of routes\<close>

definition hop_token :: "string \<Rightarrow> bool" where
  "hop_token t \<longleftrightarrow> (case split_first client_scope_char t of
     (c, None) \<Rightarrow> False
   | (c, Some a) \<Rightarrow> client_scope_char \<notin> set a \<and> length a \<le> PARAM_ADDRESS_LIMIT)"

lemma hop_token_Nil [simp]: "\<not> hop_token []"
  by (simp add: hop_token_def)

lemma hop_token_sep [simp]: "hop_token (client_scope_char # a) \<longleftrightarrow>
    client_scope_char \<notin> set a \<and> length a \<le> PARAM_ADDRESS_LIMIT"
  by (simp add: hop_token_def)

lemma hop_token_Cons [simp]: "x \<noteq> client_scope_char \<Longrightarrow> hop_token (x # t) = hop_token t"
  by (auto simp: hop_token_def split: prod.split option.split)

lemma tokens_Cons:
  "tokens d (x # xs) =
    (if x = d then [] # tokens d xs else (x # hd (tokens d xs)) # tl (tokens d xs))"
proof (cases "x = d")
  case True
  then show ?thesis using tokens_append [of d "[]" xs] by simp
next
  case False
  then show ?thesis
    by (subst tokens.simps, subst (2 3) tokens.simps) (auto split: prod.split option.split)
qed

lemma set_tokens_hd_tl: "set (tokens d s) = insert (hd (tokens d s)) (set (tl (tokens d s)))"
  by (cases "tokens d s") simp_all

text \<open>
  The scan outside an address, at the start (\<open>target < 0\<close>) or after a \<open>|\<close>, and inside one,
  as conditions on the tokens of what is left.
\<close>

definition scan_outside_spec :: "int \<Rightarrow> string \<Rightarrow> bool" where
  "scan_outside_spec target s \<longleftrightarrow>
     target < 0 \<and> plain s \<or> (\<forall>t \<in> set (tokens address_scope_char s). hop_token t)"

definition scan_inside_spec :: "nat \<Rightarrow> string \<Rightarrow> bool" where
  "scan_inside_spec n s \<longleftrightarrow> (let ts = tokens address_scope_char s in
     client_scope_char \<notin> set (hd ts) \<and> n + length (hd ts) \<le> PARAM_ADDRESS_LIMIT \<and>
     (\<forall>t \<in> set (tl ts). hop_token t))"

lemma scan_outside_Cons:
  "scan_outside_spec target (x # xs) \<longleftrightarrow>
    (if x = client_scope_char then scan_inside_spec 0 xs
     else if x = address_scope_char then False
     else scan_outside_spec target xs)"
  by (cases "tokens address_scope_char xs")
    (auto simp: scan_outside_spec_def scan_inside_spec_def tokens_Cons plain_def Let_def)

lemma scan_inside_Cons:
  "n \<le> PARAM_ADDRESS_LIMIT \<Longrightarrow> scan_inside_spec n (x # xs) \<longleftrightarrow>
    (if x = client_scope_char then False
     else if x = address_scope_char then scan_outside_spec 0 xs
     else n + 1 \<le> PARAM_ADDRESS_LIMIT \<and> scan_inside_spec (n + 1) xs)"
  by (auto simp: scan_outside_spec_def scan_inside_spec_def tokens_Cons Let_def)

lemma scan_label_spec:
  "(\<forall>pos target address. address > target \<longrightarrow> address \<ge> 0 \<longrightarrow> pos > address \<longrightarrow>
      scan_label pos target address 0 False s = scan_outside_spec target s) \<and>
   (\<forall>pos target address n. target > address \<longrightarrow> address \<ge> 0 \<longrightarrow> pos > target \<longrightarrow>
      n \<le> PARAM_ADDRESS_LIMIT \<longrightarrow>
      scan_label pos target address n True s = scan_inside_spec n s)"
proof (induction s)
  case Nil
  then show ?case by (auto simp: scan_outside_spec_def scan_inside_spec_def plain_def)
next
  case (Cons x xs)
  then have out: "\<And>pos target address. address > target \<Longrightarrow> address \<ge> 0 \<Longrightarrow> pos > address \<Longrightarrow>
      scan_label pos target address 0 False xs = scan_outside_spec target xs"
    and ins: "\<And>pos target address n. target > address \<Longrightarrow> address \<ge> 0 \<Longrightarrow> pos > target \<Longrightarrow>
      n \<le> PARAM_ADDRESS_LIMIT \<Longrightarrow> scan_label pos target address n True xs = scan_inside_spec n xs"
    by blast+
  have same: "scan_outside_spec t xs = scan_outside_spec 0 xs" if "t > 0" for t
    using that by (simp add: scan_outside_spec_def)
  show ?case
    by (auto simp: scan_outside_Cons scan_inside_Cons out ins same)
qed

lemma hop_token_iff:
  "address_scope_char \<notin> set t \<Longrightarrow>
    hop_token t \<longleftrightarrow> (\<exists>h. hop_ok h \<and> length (snd h) \<le> PARAM_ADDRESS_LIMIT \<and> t = hop_text h)"
proof
  assume t: "address_scope_char \<notin> set t" and "hop_token t"
  then obtain c a where sp: "split_first client_scope_char t = (c, Some a)"
    and a: "client_scope_char \<notin> set a" "length a \<le> PARAM_ADDRESS_LIMIT"
    by (auto simp: hop_token_def split: prod.splits option.splits)
  from split_first_join [OF sp] have "t = c @ client_scope_char # a" "client_scope_char \<notin> set c"
    by auto
  with t a have "hop_ok (c, a) \<and> length (snd (c, a)) \<le> PARAM_ADDRESS_LIMIT \<and> t = hop_text (c, a)"
    by (simp add: hop_ok_def plain_def hop_text_def)
  then show "\<exists>h. hop_ok h \<and> length (snd h) \<le> PARAM_ADDRESS_LIMIT \<and> t = hop_text h" by blast
next
  assume "\<exists>h. hop_ok h \<and> length (snd h) \<le> PARAM_ADDRESS_LIMIT \<and> t = hop_text h"
  then show "hop_token t"
    by (auto simp: hop_token_def hop_ok_def plain_def hop_text_def)
qed

lemma tokens_no_sep: "t \<in> set (tokens d s) \<Longrightarrow> d \<notin> set t"
proof (induction s arbitrary: t)
  case (Cons x xs)
  then show ?case
    by (cases "tokens d xs") (auto simp: tokens_Cons split: if_splits)
qed simp

text \<open>Every string is the join of its tokens; with hops for tokens it is a route.\<close>

fun join_tokens :: "char \<Rightarrow> string list \<Rightarrow> string" where
  "join_tokens d [] = []"
| "join_tokens d [t] = t"
| "join_tokens d (t # ts) = t @ d # join_tokens d ts"

lemma join_tokens_Cons: "join_tokens d (t # ts) = t @ (if ts = [] then [] else d # join_tokens d ts)"
  by (cases ts) simp_all

lemma join_tokens_tokens: "join_tokens d (tokens d s) = s"
proof (induction s)
  case (Cons x xs)
  then show ?case
    by (cases "tokens d xs") (auto simp: tokens_Cons join_tokens_Cons)
qed simp

lemma join_hop_texts: "join_tokens address_scope_char (map hop_text hs) = scope_of hs"
  by (induction hs) (auto simp: join_tokens_Cons scope_of_Cons)

lemma hop_tokens_route:
  "(\<forall>t \<in> set (tokens address_scope_char s). hop_token t) \<longleftrightarrow>
    (\<exists>hs. hs \<noteq> [] \<and> (\<forall>h \<in> set hs. hop_ok h \<and> length (snd h) \<le> PARAM_ADDRESS_LIMIT) \<and>
      s = scope_of hs)"
proof
  assume a: "\<forall>t \<in> set (tokens address_scope_char s). hop_token t"
  have "\<forall>t \<in> set (tokens address_scope_char s). \<exists>h. hop_ok h \<and>
      length (snd h) \<le> PARAM_ADDRESS_LIMIT \<and> t = hop_text h"
    using a tokens_no_sep hop_token_iff by blast
  then obtain f where f: "\<forall>t \<in> set (tokens address_scope_char s). hop_ok (f t) \<and>
      length (snd (f t)) \<le> PARAM_ADDRESS_LIMIT \<and> t = hop_text (f t)"
    by metis
  let ?hs = "map f (tokens address_scope_char s)"
  have "map hop_text ?hs = tokens address_scope_char s"
    using f by (auto intro: map_idI simp: comp_def)
  then have "s = scope_of ?hs"
    using join_tokens_tokens [of address_scope_char s] join_hop_texts [of ?hs] by simp
  moreover have "\<forall>h \<in> set ?hs. hop_ok h \<and> length (snd h) \<le> PARAM_ADDRESS_LIMIT"
    using f by simp
  ultimately show "\<exists>hs. hs \<noteq> [] \<and>
      (\<forall>h \<in> set hs. hop_ok h \<and> length (snd h) \<le> PARAM_ADDRESS_LIMIT) \<and> s = scope_of hs"
    by (intro exI [of _ ?hs]) simp
next
  assume "\<exists>hs. hs \<noteq> [] \<and>
      (\<forall>h \<in> set hs. hop_ok h \<and> length (snd h) \<le> PARAM_ADDRESS_LIMIT) \<and> s = scope_of hs"
  then obtain hs where "hs \<noteq> []"
      "\<forall>h \<in> set hs. hop_ok h \<and> length (snd h) \<le> PARAM_ADDRESS_LIMIT" "s = scope_of hs"
    by blast
  moreover from this have "\<forall>h \<in> set hs. hop_token (hop_text h)"
    using hop_token_iff [OF address_not_in_hop_text] by blast
  ultimately show "\<forall>t \<in> set (tokens address_scope_char s). hop_token t"
    by (simp add: tokens_scope_of)
qed

text \<open>A route whose last part is only an address is refused, whatever stands before it.\<close>

lemma scan_label_no_client:
  "address > target \<Longrightarrow> target \<ge> 0 \<Longrightarrow> client_scope_char \<notin> set s \<Longrightarrow> 
    \<not> scan_label pos target address n chk s"
  by (induction s arbitrary: pos n chk) (auto split: if_splits)

lemma scan_label_dangling:
  assumes "client_scope_char \<notin> set v"
  shows "address \<ge> 0 \<Longrightarrow> pos > target \<Longrightarrow> pos \<ge> address \<Longrightarrow>
    \<not> scan_label pos target address n chk (u @ address_scope_char # v)"
proof (induction u arbitrary: pos target address n chk)
  case Nil
  then show ?case using assms by (auto simp: scan_label_no_client)
qed (auto split: if_splits)

lemma client_not_in_plain: "plain s \<Longrightarrow> client_scope_char \<notin> set s"
  by (simp add: plain_def)

definition route_hops :: "(string \<times> string) list \<Rightarrow> bool" where
  "route_hops hs \<longleftrightarrow> (\<forall>h \<in> set hs. hop_ok h \<and> length (snd h) \<le> PARAM_ADDRESS_LIMIT)"

text \<open>
  A label that begins with \<open>?\<close>: \<open>target\<close> and \<open>address\<close> are both 0 after it, so neither separator is refused
  next, and the address is counted on across a second \<open>?\<close>.
\<close>

lemma scan_label_lead:
  "n \<le> PARAM_ADDRESS_LIMIT \<Longrightarrow> 0 < pos \<Longrightarrow> scan_label pos 0 0 n True t \<longleftrightarrow>
    (\<exists>u r. plain u \<and> n + length u \<le> PARAM_ADDRESS_LIMIT \<and>
      (t = u @ address_scope_char # r \<and> scan_outside_spec 0 r \<or>
       t = u @ client_scope_char # r \<and> scan_inside_spec (n + length u) r))"
proof (induction t arbitrary: n pos)
  case Nil
  then show ?case by simp
next
  case (Cons x xs)
  let ?R = "\<lambda>n t. \<exists>u r. plain u \<and> n + length u \<le> PARAM_ADDRESS_LIMIT \<and>
      (t = u @ address_scope_char # r \<and> scan_outside_spec 0 r \<or>
       t = u @ client_scope_char # r \<and> scan_inside_spec (n + length u) r)"
  have nil: "plain []" by (simp add: plain_def)
  consider (client) "x = client_scope_char" | (addr) "x = address_scope_char" "x \<noteq> client_scope_char"
    | (other) "x \<noteq> client_scope_char" "x \<noteq> address_scope_char" by blast
  then show ?case
  proof cases
    case client
    have "scan_label pos 0 0 n True (x # xs) = scan_inside_spec n xs"
      using scan_label_spec [of xs] Cons.prems client by simp
    moreover have "?R n (x # xs) \<longleftrightarrow> scan_inside_spec n xs"
    proof
      assume "?R n (x # xs)"
      then obtain u r where u: "plain u" "x # xs = u @ address_scope_char # r \<and> scan_outside_spec 0 r \<or>
          x # xs = u @ client_scope_char # r \<and> scan_inside_spec (n + length u) r" by blast
      have "u = []" using u client by (cases u) (auto simp: plain_def)
      with u client show "scan_inside_spec n xs" by auto
    next
      assume "scan_inside_spec n xs"
      with nil client Cons.prems show "?R n (x # xs)" by (intro exI [of _ "[]"] exI [of _ xs]) simp
    qed
    ultimately show ?thesis by simp
  next
    case addr
    have "scan_label pos 0 0 n True (x # xs) = scan_outside_spec 0 xs"
      using scan_label_spec [of xs] Cons.prems addr by simp
    moreover have "?R n (x # xs) \<longleftrightarrow> scan_outside_spec 0 xs"
    proof
      assume "?R n (x # xs)"
      then obtain u r where u: "plain u" "x # xs = u @ address_scope_char # r \<and> scan_outside_spec 0 r \<or>
          x # xs = u @ client_scope_char # r \<and> scan_inside_spec (n + length u) r" by blast
      have "u = []" using u addr by (cases u) (auto simp: plain_def)
      with u addr show "scan_outside_spec 0 xs" by auto
    next
      assume "scan_outside_spec 0 xs"
      with nil addr Cons.prems show "?R n (x # xs)" by (intro exI [of _ "[]"] exI [of _ xs]) simp
    qed
    ultimately show ?thesis by simp
  next
    case other
    have "scan_label pos 0 0 n True (x # xs) \<longleftrightarrow>
        n + 1 \<le> PARAM_ADDRESS_LIMIT \<and> scan_label (pos + 1) 0 0 (n + 1) True xs"
      using other by auto
    also have "\<dots> \<longleftrightarrow> n + 1 \<le> PARAM_ADDRESS_LIMIT \<and> ?R (n + 1) xs"
      using Cons.IH [of "n + 1" "pos + 1"] Cons.prems by auto
    also have "\<dots> \<longleftrightarrow> ?R n (x # xs)"
    proof
      assume "n + 1 \<le> PARAM_ADDRESS_LIMIT \<and> ?R (n + 1) xs"
      then obtain u r where "plain u" "n + 1 + length u \<le> PARAM_ADDRESS_LIMIT"
        "xs = u @ address_scope_char # r \<and> scan_outside_spec 0 r \<or>
         xs = u @ client_scope_char # r \<and> scan_inside_spec (n + 1 + length u) r" by auto
      with other show "?R n (x # xs)" by (intro exI [of _ "x # u"] exI [of _ r]) (auto simp: plain_def)
    next
      assume "?R n (x # xs)"
      then obtain u r where u: "plain u" "n + length u \<le> PARAM_ADDRESS_LIMIT"
        "x # xs = u @ address_scope_char # r \<and> scan_outside_spec 0 r \<or>
         x # xs = u @ client_scope_char # r \<and> scan_inside_spec (n + length u) r" by blast
      with other obtain v where v: "u = x # v" by (cases u) auto
      with u have "plain v" "n + 1 + length v \<le> PARAM_ADDRESS_LIMIT"
        "xs = v @ address_scope_char # r \<and> scan_outside_spec 0 r \<or>
         xs = v @ client_scope_char # r \<and> scan_inside_spec (n + 1 + length v) r"
        by (auto simp: plain_def)
      then show "n + 1 \<le> PARAM_ADDRESS_LIMIT \<and> ?R (n + 1) xs" by auto
    qed
    finally show ?thesis .
  qed
qed

lemma outside_route: "scan_outside_spec 0 r \<longleftrightarrow> (\<exists>hs. hs \<noteq> [] \<and> route_hops hs \<and> r = scope_of hs)"
  unfolding scan_outside_spec_def route_hops_def hop_tokens_route [symmetric] by simp

lemma inside_route:
  "scan_inside_spec n r \<longleftrightarrow>
    (\<exists>a hs. plain a \<and> n + length a \<le> PARAM_ADDRESS_LIMIT \<and> route_hops hs \<and>
      r = a @ (if hs = [] then [] else address_scope_char # scope_of hs))"
proof -
  let ?ts = "tokens address_scope_char r"
  obtain a ts where t: "?ts = a # ts" by (cases ?ts) (simp_all add: tokens_not_Nil)
  have r: "r = a @ (if ts = [] then [] else address_scope_char # join_tokens address_scope_char ts)"
    using join_tokens_tokens [of address_scope_char r] unfolding t join_tokens_Cons by simp
  have na: "address_scope_char \<notin> set a" using tokens_no_sep [of a address_scope_char r] t by simp
  have spec: "scan_inside_spec n r \<longleftrightarrow>
      plain a \<and> n + length a \<le> PARAM_ADDRESS_LIMIT \<and> (\<forall>x \<in> set ts. hop_token x)"
    using na by (auto simp: scan_inside_spec_def t plain_def)
  show ?thesis
  proof
    assume "scan_inside_spec n r"
    then have s: "plain a" "n + length a \<le> PARAM_ADDRESS_LIMIT" "\<forall>x \<in> set ts. hop_token x" by (simp_all add: spec)
    show "\<exists>a hs. plain a \<and> n + length a \<le> PARAM_ADDRESS_LIMIT \<and> route_hops hs \<and>
      r = a @ (if hs = [] then [] else address_scope_char # scope_of hs)"
    proof (cases "ts = []")
      case True
      with s r show ?thesis by (intro exI [of _ a] exI [of _ "[]"]) (simp add: route_hops_def)
    next
      case False
      define r' where "r' = join_tokens address_scope_char ts"
      have "ts = tokens address_scope_char r'"
        using t tokens_append [OF na, of r'] r False by (simp add: r'_def)
      with s(3) have "\<exists>hs. hs \<noteq> [] \<and> (\<forall>h \<in> set hs. hop_ok h \<and> length (snd h) \<le> PARAM_ADDRESS_LIMIT) \<and> r' = scope_of hs"
        unfolding hop_tokens_route [symmetric] by simp
      with s r False show ?thesis by (auto simp: r'_def route_hops_def)
    qed
  next
    assume "\<exists>a hs. plain a \<and> n + length a \<le> PARAM_ADDRESS_LIMIT \<and> route_hops hs \<and>
      r = a @ (if hs = [] then [] else address_scope_char # scope_of hs)"
    then obtain b hs where b: "plain b" "n + length b \<le> PARAM_ADDRESS_LIMIT" "route_hops hs"
      "r = b @ (if hs = [] then [] else address_scope_char # scope_of hs)" by blast
    have nb: "address_scope_char \<notin> set b" using b(1) by (simp add: plain_def)
    have "?ts = b # (if hs = [] then [] else map hop_text hs)"
      using b nb tokens_none [OF nb]
      by (auto simp: tokens_scope_of route_hops_def)
    moreover have "\<forall>h \<in> set hs. hop_token (hop_text h)"
      using b(3) hop_token_iff [OF address_not_in_hop_text] unfolding route_hops_def by blast
    ultimately show "scan_inside_spec n r" using b(1,2) t by (auto simp: spec)
  qed
qed

text \<open>
  C26. The labels \<open>check_address_label\<close> accepts, for every label: of at most 2048 characters, all in the filter, they
  are the names without separators; the routes, sequences of hops whose addresses have at most 256 characters,
  except a single hop without a client (\<open>?address\<close>); and, beyond the grammar of routes, routes with one \<open>?\<close> more
  in front, where client and address of the first hop together have at most 256 characters. The last two are
  deviations of the scan at position 0.
\<close>

theorem check_address_label_exact:
  "check_address_label (Some s) \<longleftrightarrow>
    length s \<le> PARAM_SCOPE_LIMIT \<and> list_all address_filter s \<and>
    (plain s \<or>
     (\<exists>hs. hs \<noteq> [] \<and> route_hops hs \<and> s = scope_of hs \<and> \<not> (fst (hd hs) = [] \<and> tl hs = [])) \<or>
     (\<exists>h hs. hop_ok h \<and> length (fst h) + length (snd h) \<le> PARAM_ADDRESS_LIMIT \<and> route_hops hs \<and>
        s = client_scope_char # scope_of (h # hs)))"
proof (cases "s = [] \<or> hd s \<noteq> client_scope_char")
  case True
  have "scan_label 0 (-1) 0 0 False s = scan_outside_spec (-1) s"
  proof (cases s)
    case Nil
    then show ?thesis by (simp add: scan_outside_spec_def plain_def)
  next
    case (Cons x xs)
    have "scan_label 1 (-1) 0 0 False xs = scan_outside_spec (-1) xs"
      using scan_label_spec [of xs] by simp
    with True Cons show ?thesis by (simp add: scan_outside_Cons)
  qed
  also have "\<dots> \<longleftrightarrow> plain s \<or> (\<exists>hs. hs \<noteq> [] \<and> route_hops hs \<and> s = scope_of hs)"
    unfolding route_hops_def hop_tokens_route [symmetric] by (auto simp: scan_outside_spec_def)
  also have "\<dots> \<longleftrightarrow> plain s \<or>
      (\<exists>hs. hs \<noteq> [] \<and> route_hops hs \<and> s = scope_of hs \<and> \<not> (fst (hd hs) = [] \<and> tl hs = []))"
  proof -
    have "fst (hd hs) \<noteq> []" if "hs \<noteq> []" "s = scope_of hs" for hs
      using True that by (cases hs; cases "hd hs") (auto simp: scope_of_Cons hop_text_def)
    then show ?thesis by blast
  qed
  finally show ?thesis using True by (auto simp: check_address_label_def)
next
  case False
  then obtain t where s: "s = client_scope_char # t" by (cases s) auto
  have "scan_label 0 (-1) 0 0 False s = scan_label 1 0 0 0 True t" by (simp add: s)
  also have "\<dots> \<longleftrightarrow>
      (\<exists>u r. plain u \<and> length u \<le> PARAM_ADDRESS_LIMIT \<and> t = u @ address_scope_char # r \<and> scan_outside_spec 0 r) \<or>
      (\<exists>u r. plain u \<and> t = u @ client_scope_char # r \<and> scan_inside_spec (length u) r)"
  proof -
    have "scan_inside_spec n r \<Longrightarrow> n \<le> PARAM_ADDRESS_LIMIT" for n r by (auto simp: inside_route)
    moreover have "scan_label 1 0 0 0 True t \<longleftrightarrow> (\<exists>u r. plain u \<and> length u \<le> PARAM_ADDRESS_LIMIT \<and>
        (t = u @ address_scope_char # r \<and> scan_outside_spec 0 r \<or>
         t = u @ client_scope_char # r \<and> scan_inside_spec (length u) r))"
      using scan_label_lead [of 0 1 t] by simp
    ultimately show ?thesis by blast
  qed
  also have "(\<exists>u r. plain u \<and> length u \<le> PARAM_ADDRESS_LIMIT \<and> t = u @ address_scope_char # r \<and> scan_outside_spec 0 r)
      \<longleftrightarrow> (\<exists>hs. hs \<noteq> [] \<and> route_hops hs \<and> s = scope_of hs \<and> \<not> (fst (hd hs) = [] \<and> tl hs = []))"
  proof
    assume "\<exists>u r. plain u \<and> length u \<le> PARAM_ADDRESS_LIMIT \<and> t = u @ address_scope_char # r \<and> scan_outside_spec 0 r"
    then obtain u hs where u: "plain u" "length u \<le> PARAM_ADDRESS_LIMIT" "hs \<noteq> []" "route_hops hs"
      "t = u @ address_scope_char # scope_of hs" by (auto simp: outside_route)
    then show "\<exists>hs. hs \<noteq> [] \<and> route_hops hs \<and> s = scope_of hs \<and> \<not> (fst (hd hs) = [] \<and> tl hs = [])"
      by (intro exI [of _ "([], u) # hs"])
        (simp add: s scope_of_Cons hop_text_def route_hops_def hop_ok_def, simp add: plain_def)
  next
    assume "\<exists>hs. hs \<noteq> [] \<and> route_hops hs \<and> s = scope_of hs \<and> \<not> (fst (hd hs) = [] \<and> tl hs = [])"
    then obtain c a hs where h: "route_hops ((c, a) # hs)" "s = scope_of ((c, a) # hs)" "\<not> (c = [] \<and> hs = [])"
      by (auto simp: neq_Nil_conv)
    have "c = []" using h s by (cases c) (auto simp: scope_of_Cons hop_text_def route_hops_def hop_ok_def plain_def)
    with h s show "\<exists>u r. plain u \<and> length u \<le> PARAM_ADDRESS_LIMIT \<and> t = u @ address_scope_char # r \<and> scan_outside_spec 0 r"
      by (intro exI [of _ a] exI [of _ "scope_of hs"])
        (auto simp: scope_of_Cons hop_text_def route_hops_def hop_ok_def outside_route split: if_splits)
  qed
  also have "(\<exists>u r. plain u \<and> t = u @ client_scope_char # r \<and> scan_inside_spec (length u) r) \<longleftrightarrow>
      (\<exists>h hs. hop_ok h \<and> length (fst h) + length (snd h) \<le> PARAM_ADDRESS_LIMIT \<and> route_hops hs \<and>
        s = client_scope_char # scope_of (h # hs))"
    by (auto simp: inside_route s scope_of_Cons hop_text_def hop_ok_def)
  finally show ?thesis using s by (auto simp: check_address_label_def plain_def)
qed

text \<open>The two deviations: a hop that is refused, and a label that is no route and is accepted.\<close>

lemma lone_address_refused: "\<not> check_address_label (Some ''?a'')"
  by (simp add: check_address_label_def client_scope_char_def address_scope_char_def PARAM_ADDRESS_LIMIT_def
      PARAM_SCOPE_LIMIT_def address_filter_def entity_filter_def)

lemma doubled_mark_accepted: "check_address_label (Some ''?a?b|c?d'')"
  by (simp add: check_address_label_def client_scope_char_def address_scope_char_def PARAM_ADDRESS_LIMIT_def
      PARAM_SCOPE_LIMIT_def address_filter_def entity_filter_def)

text \<open>
  \<open>set_to_server_scope\<close> strips the last client of a route together with its separator.
  On a route of two or more hops the result is an address the label check refuses, so a
  command for the last server of such a route is never accepted, although the route
  before the call was a valid label.
\<close>

theorem set_to_server_scope_refused:
  assumes "\<forall>h \<in> set (hs @ [h1]). hop_ok h" and "hs \<noteq> []" and "snd h1 \<noteq> []"
  shows "snd (set_to_server_scope (c, scope_of (hs @ [h1])))
      = scope_of hs @ address_scope_char # snd h1 \<and>
    \<not> check_address_label (Some (snd (set_to_server_scope (c, scope_of (hs @ [h1])))))"
proof -
  obtain c1 a1 where h1: "h1 = (c1, a1)" by (cases h1)
  have eq: "snd (set_to_server_scope (c, scope_of (hs @ [h1])))
      = scope_of hs @ address_scope_char # a1"
    using set_to_server_scope_route [of hs c1 a1 c] assms by (simp add: h1)
  have "client_scope_char \<notin> set a1"
    using assms(1) by (simp add: h1 hop_ok_def plain_def)
  then have "\<not> scan_label 0 (-1) 0 0 False (scope_of hs @ address_scope_char # a1)"
    by (intro scan_label_dangling) simp_all
  with eq show ?thesis by (simp add: check_address_label_def h1)
qed

theorem set_to_server_scope_refused_witness:
  "check_address_label (Some ''c1?127.0.0.1|c2?host'') \<and>
    \<not> check_address_label (Some (snd (set_to_server_scope (''c'', ''c1?127.0.0.1|c2?host''))))"
proof
  show "check_address_label (Some ''c1?127.0.0.1|c2?host'')"
    by (simp add: check_address_label_def client_scope_char_def address_scope_char_def
        PARAM_ADDRESS_LIMIT_def PARAM_SCOPE_LIMIT_def address_filter_def entity_filter_def)
  have eq: "scope_of ([(''c1'', ''127.0.0.1'')] @ [(''c2'', ''host'')]) = ''c1?127.0.0.1|c2?host''"
    by (simp add: hop_text_def client_scope_char_def address_scope_char_def)
  from set_to_server_scope_refused [of "[(''c1'', ''127.0.0.1'')]" "(''c2'', ''host'')" "''c''"]
  show "\<not> check_address_label (Some (snd (set_to_server_scope (''c'', ''c1?127.0.0.1|c2?host''))))"
    unfolding eq by (auto simp: hop_ok_def plain_def client_scope_char_def address_scope_char_def)
qed

end
