(* ===== verification/Numbers.thy ===== *)
theory Numbers
  imports Prelude
begin

text \<open>
  The text forms of numbers of \<open>libs/protocol/api-tools.cpp\<close>: \<open>convert_integer16\<close> and
  \<open>parse_integer16\<close> (hexadecimal, unsigned), \<open>convert_integer10\<close> and \<open>parse_integer10\<close>
  (decimal, signed), with the C library's \<open>strtoul\<close> and \<open>strtol\<close> written out: leading white
  space, a sign, the \<open>0x\<close> prefix, saturation at the limits of a 64-bit \<open>long\<close> and the truncation
  of the result to the 32-bit variable. The lemmas show that printing and parsing are inverse.
\<close>

section \<open>Digits\<close>

definition lower_digits :: string where "lower_digits = ''0123456789abcdef''"
definition upper_digits :: string where "upper_digits = ''0123456789ABCDEF''"

definition digit_char :: "nat \<Rightarrow> char" where
  "digit_char n = lower_digits ! n"

definition digit_value :: "nat \<Rightarrow> char \<Rightarrow> nat option" where
  "digit_value base c =
     (case (case find_index (\<lambda>d. d = c) lower_digits of
              Some i \<Rightarrow> Some i | None \<Rightarrow> find_index (\<lambda>d. d = c) upper_digits) of
        Some i \<Rightarrow> (if i < base then Some i else None)
      | None \<Rightarrow> None)"

lemma digit_value_char [simp]: "base \<le> 16 \<Longrightarrow> n < base \<Longrightarrow> digit_value base (digit_char n) = Some n"
  using find_index_key [of "\<lambda>x. x" lower_digits n]
  by (simp add: digit_value_def digit_char_def lower_digits_def)

fun print_digits :: "nat \<Rightarrow> nat \<Rightarrow> string" where
  "print_digits base n =
     (if n < base \<or> base < 2 then [digit_char n]
      else print_digits base (n div base) @ [digit_char (n mod base)])"

declare print_digits.simps [simp del]

fun read_digits :: "nat \<Rightarrow> nat \<Rightarrow> string \<Rightarrow> nat \<times> string" where
  "read_digits base acc [] = (acc, [])"
| "read_digits base acc (c # cs) =
     (case digit_value base c of None \<Rightarrow> (acc, c # cs)
      | Some d \<Rightarrow> read_digits base (acc * base + d) cs)"

lemma read_digits_append:
  "read_digits base acc s = (m, []) \<Longrightarrow> read_digits base acc (s @ t) = read_digits base m t"
  by (induction base acc s rule: read_digits.induct) (auto split: option.splits)

lemma read_print_digits:
  "2 \<le> base \<Longrightarrow> base \<le> 16 \<Longrightarrow> read_digits base 0 (print_digits base n) = (n, [])"
proof (induction base n rule: print_digits.induct)
  case (1 base n)
  show ?case
  proof (cases "n < base")
    case True
    with 1 show ?thesis by (simp add: print_digits.simps [of base n])
  next
    case False
    with 1 have "read_digits base 0 (print_digits base (n div base)) = (n div base, [])" by simp
    then have "read_digits base 0 (print_digits base (n div base) @ [digit_char (n mod base)])
        = read_digits base (n div base) [digit_char (n mod base)]"
      by (rule read_digits_append)
    with False 1 show ?thesis by (simp add: print_digits.simps [of base n])
  qed
qed

lemma print_digits_not_Nil [simp]: "print_digits base n \<noteq> []" "[] \<noteq> print_digits base n"
  by (subst print_digits.simps, simp)+

lemma set_print_digits: "2 \<le> base \<Longrightarrow> base \<le> 16 \<Longrightarrow> set (print_digits base n) \<subseteq> set lower_digits"
proof (induction base n rule: print_digits.induct)
  case (1 base n)
  have d: "k < 16 \<Longrightarrow> digit_char k \<in> set lower_digits" for k
    unfolding digit_char_def by (rule nth_mem) (simp add: lower_digits_def)
  show ?case
  proof (cases "n < base")
    case True
    with 1 show ?thesis by (simp add: print_digits.simps [of base n] d)
  next
    case False
    moreover have "n mod base < 16" using 1(2,3) mod_less_divisor [of base n] by linarith
    ultimately show ?thesis using 1 by (subst print_digits.simps) (simp add: d)
  qed
qed

section \<open>\<open>strtoul\<close> and \<open>strtol\<close>\<close>

definition is_space :: "char \<Rightarrow> bool" where
  "is_space c \<longleftrightarrow> c \<in> {CHR '' '', CHR 0x09, CHR 0x0A, CHR 0x0B, CHR 0x0C, CHR 0x0D}"

text \<open>The sign and what follows it.\<close>

definition take_sign :: "string \<Rightarrow> bool \<times> string" where
  "take_sign s = (case s of
       c # cs \<Rightarrow> if c = CHR ''-'' then (True, cs) else if c = CHR ''+'' then (False, cs) else (False, s)
     | [] \<Rightarrow> (False, s))"

text \<open>With base 16 a \<open>0x\<close> counts as a prefix only when a digit follows it.\<close>

definition take_prefix :: "nat \<Rightarrow> string \<Rightarrow> string" where
  "take_prefix base s = (case s of
       z # x # d # cs \<Rightarrow>
         if base = 16 \<and> z = CHR ''0'' \<and> (x = CHR ''x'' \<or> x = CHR ''X'') \<and> digit_value 16 d \<noteq> None
         then d # cs else s
     | _ \<Rightarrow> s)"

text \<open>The sign, the magnitude and the rest; the rest is the whole text if there is no digit.\<close>

definition strto :: "nat \<Rightarrow> string \<Rightarrow> bool \<times> nat \<times> string" where
  "strto base s =
     (let (neg, u) = take_sign (dropWhile is_space s);
          v = take_prefix base u;
          (m, rest) = read_digits base 0 v
      in if rest = v then (False, 0, s) else (neg, m, rest))"

definition strtoul16 :: "string \<Rightarrow> nat \<times> string" where
  "strtoul16 s = (case strto 16 s of (neg, m, rest) \<Rightarrow>
     (if m \<ge> 2 ^ 64 then 2 ^ 64 - 1 else if neg \<and> m > 0 then 2 ^ 64 - m else m, rest))"

definition strtol10 :: "string \<Rightarrow> int \<times> string" where
  "strtol10 s = (case strto 10 s of (neg, m, rest) \<Rightarrow>
     (let v = (if neg then - int m else int m)
      in if v > 2 ^ 63 - 1 then 2 ^ 63 - 1 else if v < - (2 ^ 63) then - (2 ^ 63) else v, rest))"

section \<open>The conversions\<close>

text \<open>\<open>RSERVR_MAX_CONVERT_SIZE\<close> is 32, more than any 32-bit number needs, so \<open>snprintf\<close> never
  truncates. A null argument is not passed by the sources. An \<open>int\<close> is an \<^typ>\<open>int\<close> in its
  32-bit range; \<open>signed_take_bit 31\<close> is the truncation of a \<open>long\<close> to it.\<close>

definition convert_integer16 :: "u32 \<Rightarrow> string" where
  "convert_integer16 w = print_digits 16 (unat w)"

definition parse_integer16 :: "string \<Rightarrow> u32 option" where
  "parse_integer16 s = (if s = [] then None
     else (case strtoul16 s of (v, endpoint) \<Rightarrow> if endpoint = [] then Some (of_nat v) else None))"

definition convert_integer10 :: "int \<Rightarrow> string" where
  "convert_integer10 i = (if i < 0 then CHR ''-'' # print_digits 10 (nat (- i))
     else print_digits 10 (nat i))"

definition parse_integer10 :: "string \<Rightarrow> int option" where
  "parse_integer10 s = (if s = [] then None
     else (case strtol10 s of (v, endpoint) \<Rightarrow>
       if endpoint = [] then Some (signed_take_bit 31 v) else None))"

lemma digits_no_space_sign:
  assumes "set s \<subseteq> set lower_digits"
  shows "dropWhile is_space s = s" and "take_sign s = (False, s)" and "take_prefix base s = s"
proof -
  have n: "c \<in> set lower_digits \<Longrightarrow> \<not> is_space c \<and> c \<noteq> CHR ''-'' \<and> c \<noteq> CHR ''+'' \<and>
      c \<noteq> CHR ''x'' \<and> c \<noteq> CHR ''X''" for c
    by (auto simp: lower_digits_def is_space_def)
  show "dropWhile is_space s = s" "take_sign s = (False, s)"
    using assms n by (cases s; auto simp: take_sign_def)+
  have "CHR ''x'' \<notin> set lower_digits" "CHR ''X'' \<notin> set lower_digits"
    by (simp_all add: lower_digits_def)
  then show "take_prefix base s = s"
    using assms by (auto simp: take_prefix_def split: list.splits)
qed

lemma strto_print:
  assumes "2 \<le> base" and "base \<le> 16"
  shows "strto base (print_digits base n) = (False, n, [])"
  using digits_no_space_sign [OF set_print_digits [OF assms]] read_print_digits [OF assms, of n]
  by (auto simp: strto_def Let_def)

lemma strto_print_neg:
  assumes "2 \<le> base" and "base \<le> 16"
  shows "strto base (CHR ''-'' # print_digits base n) = (True, n, [])"
  using digits_no_space_sign(3) [OF set_print_digits [OF assms]] read_print_digits [OF assms, of n]
  by (auto simp: strto_def is_space_def take_sign_def Let_def)

lemma parse_convert_integer16 [simp]: "parse_integer16 (convert_integer16 w) = Some w"
proof -
  have "unat w < 2 ^ 32" using unsigned_less [of w] by (simp add: word_less_nat_alt)
  then show ?thesis
    by (simp add: parse_integer16_def convert_integer16_def strtoul16_def strto_print)
qed

lemma signed_take_bit_31: "- (2 ^ 31) \<le> i \<Longrightarrow> i < 2 ^ 31 \<Longrightarrow> signed_take_bit 31 i = (i :: int)"
  by (simp add: signed_take_bit_int_eq_self)

lemma parse_convert_integer10:
  assumes "- (2 ^ 31) \<le> i" and "i < 2 ^ 31"
  shows "parse_integer10 (convert_integer10 i) = Some i"
  using assms
  by (auto simp: parse_integer10_def convert_integer10_def strtol10_def strto_print strto_print_neg
      signed_take_bit_31 Let_def)

lemma convert_integer16_no_NUL: "CHR 0x00 \<notin> set (convert_integer16 w)"
  using set_print_digits [of 16 "unat w"] by (auto simp: convert_integer16_def lower_digits_def)

lemma convert_integer10_no_NUL: "CHR 0x00 \<notin> set (convert_integer10 i)"
  using set_print_digits [of 10 "nat i"] set_print_digits [of 10 "nat (- i)"]
  by (auto simp: convert_integer10_def lower_digits_def)

end
