(* ===== verification/Command_Types.thy ===== *)
theory Command_Types
  imports Prelude
begin

text \<open>
  The bit-mask vocabulary of \<open>libs/protocol/api-command.cpp\<close>, the four bit tests the
  macro \<open>BIT_CHECK_FUNCTIONS\<close> of \<open>libs/include/protocol/api-command.h\<close> generates for
  every mask type, and the execution-type checks of \<open>local-check.h\<close>. The lemmas read the
  tests as statements on single bits, which is how every later permission argument goes.
\<close>

section \<open>Bit tests\<close>

text \<open>
  The macro is instantiated at 8, 16 and 32 bits; the definitions are polymorphic in the
  width. The C integer promotions around \<open>~\<close> do not show: the result is masked again.
\<close>

definition check_any :: "'a::len word \<Rightarrow> 'a word \<Rightarrow> bool" where
  "check_any c r \<longleftrightarrow> c AND r \<noteq> 0 \<or> r = 0"

definition check_all :: "'a::len word \<Rightarrow> 'a word \<Rightarrow> bool" where
  "check_all c r \<longleftrightarrow> NOT (c AND r) AND r = 0"

definition check_only :: "'a::len word \<Rightarrow> 'a word \<Rightarrow> bool" where
  "check_only c r \<longleftrightarrow> c XOR r = 0"

definition check_none :: "'a::len word \<Rightarrow> 'a word \<Rightarrow> bool" where
  "check_none c r \<longleftrightarrow> c AND r = 0"

lemmas check_defs = check_any_def check_all_def check_only_def check_none_def

lemma check_all_bits:
  "check_all (c :: 'a::len word) r \<longleftrightarrow> (\<forall>n < LENGTH('a). bit r n \<longrightarrow> bit c n)"
  by (auto simp: check_all_def bit_eq_iff bit_simps)

lemma check_none_bits:
  "check_none (c :: 'a::len word) r \<longleftrightarrow> (\<forall>n < LENGTH('a). \<not> (bit r n \<and> bit c n))"
  by (auto simp: check_none_def bit_eq_iff bit_simps)

lemma check_any_bits:
  "check_any (c :: 'a::len word) r \<longleftrightarrow> r = 0 \<or> (\<exists>n < LENGTH('a). bit r n \<and> bit c n)"
  by (auto simp: check_any_def bit_eq_iff bit_simps)

lemma check_only_eq: "check_only c r \<longleftrightarrow> c = r"
  by (auto simp: check_only_def bit_eq_iff bit_simps)

lemma check_all_iff_and: "check_all c r \<longleftrightarrow> c AND r = r"
  by (auto simp: check_all_bits bit_eq_iff bit_simps)

lemma check_all_refl [simp]: "check_all c c"
  by (simp add: check_all_bits)

lemma check_all_zero [simp]: "check_all c 0"
  by (simp add: check_all_bits)

lemma check_all_trans: "check_all a b \<Longrightarrow> check_all b c \<Longrightarrow> check_all a c"
  by (auto simp: check_all_bits)

lemma check_all_or: "check_all c (a OR b) \<longleftrightarrow> check_all c a \<and> check_all c b"
  by (auto simp: check_all_bits bit_simps)

lemma check_all_and1: "check_all (a AND b) c \<longleftrightarrow> check_all a c \<and> check_all b c"
  by (auto simp: check_all_bits bit_simps)

lemma check_all_andI: "check_all m a \<Longrightarrow> check_all m (a AND b)"
  by (auto simp: check_all_bits bit_simps)

lemma check_all_and_lower [simp]: "check_all b (a AND b)" "check_all a (a AND b)"
  by (auto simp: check_all_bits bit_simps)

lemma check_all_mono_mask: "check_all b a \<Longrightarrow> check_all (b AND m) (a AND m)"
  by (auto simp: check_all_bits bit_simps)

lemma check_none_or: "check_none c (a OR b) \<longleftrightarrow> check_none c a \<and> check_none c b"
  by (auto simp: check_none_bits bit_simps)

section \<open>Response types and their conversion\<close>

definition response_ignore :: mask16 where [flag_defs]: "response_ignore = 0"
definition response_normal :: mask16 where [flag_defs]: "response_normal = 0x01"
definition response_error :: mask16 where [flag_defs]: "response_error = 0x02"
definition response_rejected :: mask16 where [flag_defs]: "response_rejected = 0x04"
definition response_wait :: mask16 where [flag_defs]: "response_wait = 0x08"
definition response_group :: mask16 where [flag_defs]: "response_group = 0x10"
definition response_start :: mask16 where [flag_defs]: "response_start = 0x20"
definition response_partial :: mask16 where [flag_defs]: "response_partial = 0x40"
definition response_end :: mask16 where [flag_defs]: "response_end = 0x80"

section \<open>Client types and permissions\<close>

definition type_none :: mask16 where [flag_defs]: "type_none = 0"
definition type_server :: mask16 where [flag_defs]: "type_server = 0x01"
definition type_any_client :: mask16 where [flag_defs]: "type_any_client = 0x02"
definition type_active_client :: mask16 where [flag_defs]: "type_active_client = 0x04"
definition type_admin_client :: mask16 where [flag_defs]: "type_admin_client = 0x08"
definition type_service_client :: mask16 where [flag_defs]: "type_service_client = 0x10"
definition type_monitor_client :: mask16 where [flag_defs]: "type_monitor_client = 0x20"
definition type_resource_client :: mask16 where [flag_defs]: "type_resource_client = 0x40"
definition type_control_client :: mask16 where [flag_defs]: "type_control_client = 0x80"
definition type_detached_client :: mask16 where [flag_defs]: "type_detached_client = 0x100"
definition type_server_control :: mask16 where [flag_defs]: "type_server_control = 0x200"

definition type_monitor_client_all :: mask16 where [flag_defs]:
  "type_monitor_client_all = type_monitor_client OR type_any_client"
definition type_admin_client_all :: mask16 where [flag_defs]:
  "type_admin_client_all = type_admin_client OR type_active_client
     OR type_server_control OR type_monitor_client_all"
definition type_resource_client_all :: mask16 where [flag_defs]:
  "type_resource_client_all = type_resource_client OR type_active_client
     OR type_service_client OR type_monitor_client_all"
definition type_control_client_all :: mask16 where [flag_defs]:
  "type_control_client_all = type_control_client OR type_active_client
     OR type_service_client OR type_monitor_client_all"
definition type_all_clients :: mask16 where [flag_defs]:
  "type_all_clients = type_admin_client OR type_monitor_client
     OR type_service_client OR type_resource_client OR type_control_client"
definition type_client_flags :: mask16 where [flag_defs]:
  "type_client_flags = type_all_clients OR type_any_client OR type_active_client
     OR type_server_control OR type_detached_client"
definition type_allow_message :: mask16 where [flag_defs]:
  "type_allow_message = type_admin_client OR type_resource_client OR type_control_client"
definition type_allow_response :: mask16 where [flag_defs]:
  "type_allow_response = type_any_client"
definition type_require_name :: mask16 where [flag_defs]:
  "type_require_name = type_admin_client OR type_control_client"
definition type_deny_name_mask :: mask16 where [flag_defs]:
  "type_deny_name_mask = type_admin_client OR type_control_client
     OR type_resource_client OR type_monitor_client"
definition type_deny_name :: mask16 where [flag_defs]:
  "type_deny_name = type_monitor_client"
definition type_only_builtin_response :: mask16 where [flag_defs]:
  "type_only_builtin_response = type_control_client"
definition type_terminal_equal :: mask16 where [flag_defs]:
  "type_terminal_equal = type_allow_message OR type_server_control"
definition type_active :: mask16 where [flag_defs]:
  "type_active = type_server OR type_any_client"

section \<open>Execution types of commands\<close>

definition command_none :: mask16 where [flag_defs]: "command_none = 0"
definition command_builtin :: mask16 where [flag_defs]: "command_builtin = 0x01"
definition command_plugin :: mask16 where [flag_defs]: "command_plugin = 0x02"
definition command_server :: mask16 where [flag_defs]: "command_server = 0x04"
definition command_privileged :: mask16 where [flag_defs]: "command_privileged = 0x08"
definition command_no_remote :: mask16 where [flag_defs]: "command_no_remote = 0x10"
definition command_bypass :: mask16 where [flag_defs]: "command_bypass = 0x20"
definition command_request :: mask16 where [flag_defs]: "command_request = 0x40"
definition command_response :: mask16 where [flag_defs]: "command_response = 0x80"
definition command_remote :: mask16 where [flag_defs]: "command_remote = 0x100"
definition command_null :: mask16 where [flag_defs]: "command_null = 0x200"
definition command_plugin_allowed :: mask16 where [flag_defs]:
  "command_plugin_allowed = command_request OR command_response OR command_null"
definition command_all :: mask16 where [flag_defs]:
  "command_all = command_server OR command_request OR command_response OR command_null"

section \<open>Command events\<close>

definition event_none :: u32 where [flag_defs]: "event_none = 0"
definition event_error :: u32 where [flag_defs]: "event_error = 0x01"
definition event_bad_target :: u32 where [flag_defs]: "event_bad_target = 0x02"
definition event_rejected :: u32 where [flag_defs]: "event_rejected = 0x04"
definition event_bad_permissions :: u32 where [flag_defs]: "event_bad_permissions = 0x08"
definition event_retry :: u32 where [flag_defs]: "event_retry = 0x10"
definition event_wait :: u32 where [flag_defs]: "event_wait = 0x20"
definition event_discarded :: u32 where [flag_defs]: "event_discarded = 0x40"
definition event_unavailable :: u32 where [flag_defs]: "event_unavailable = 0x80"
definition event_exit_mask :: u32 where [flag_defs]: "event_exit_mask = 0xff"
definition event_no_connection :: u32 where [flag_defs]: "event_no_connection = 0x100"
definition event_sent :: u32 where [flag_defs]: "event_sent = 0x200"
definition event_unsent :: u32 where [flag_defs]: "event_unsent = 0x400"
definition event_received_server :: u32 where [flag_defs]: "event_received_server = 0x800"
definition event_received_client :: u32 where [flag_defs]: "event_received_client = 0x1000"
definition event_partial :: u32 where [flag_defs]: "event_partial = 0x2000"
definition event_complete :: u32 where [flag_defs]: "event_complete = 0x4000"
definition event_modified :: u32 where [flag_defs]: "event_modified = 0x8000"
definition event_register :: u32 where [flag_defs]: "event_register = 0x10000"
definition event_no_success :: u32 where [flag_defs]:
  "event_no_success = event_exit_mask OR event_unsent OR event_no_connection"
definition event_forward :: u32 where [flag_defs]:
  "event_forward = NOT (event_received_server OR event_received_client
     OR event_sent OR event_unsent OR event_unavailable OR event_no_connection)"

definition directed_none :: u8 where [flag_defs]: "directed_none = 0"
definition directed_disconnect :: u8 where [flag_defs]: "directed_disconnect = 0x01"
definition directed_terminate :: u8 where [flag_defs]: "directed_terminate = 0x02"

definition convert_response :: "mask16 \<Rightarrow> u32" where
  "convert_response r =
     (let c0 = event_none;
          c1 = (if r AND (response_normal OR response_end) \<noteq> 0
                then c0 OR event_complete else c0);
          c2 = (if r AND (response_partial OR response_group OR response_start) \<noteq> 0
                then c1 OR event_partial else c1);
          c3 = (if r AND response_error \<noteq> 0 then c2 OR event_error else c2);
          c4 = (if r AND response_rejected \<noteq> 0 then c3 OR event_rejected else c3);
          c5 = (if r AND response_wait \<noteq> 0 then c4 OR event_wait else c4)
      in c5)"

section \<open>Security levels, priorities, monitor events\<close>

definition security_0 :: mask16 where [flag_defs]: "security_0 = type_client_flags"
definition security_1 :: mask16 where [flag_defs]:
  "security_1 = security_0 AND NOT type_server_control"
definition security_2 :: mask16 where [flag_defs]:
  "security_2 = security_1 AND NOT type_detached_client"
definition security_3 :: mask16 where [flag_defs]:
  "security_3 = security_2 AND NOT type_admin_client"
definition security_4 :: mask16 where [flag_defs]:
  "security_4 = security_3 AND NOT type_monitor_client"
definition security_5 :: mask16 where [flag_defs]:
  "security_5 = security_4 AND NOT type_control_client"
definition security_6 :: mask16 where [flag_defs]:
  "security_6 = security_5 AND NOT type_resource_client"
definition security_7 :: mask16 where [flag_defs]: "security_7 = type_none"
definition security_mask_admin :: mask16 where [flag_defs]: "security_mask_admin = security_1"
definition security_mask_detached :: mask16 where [flag_defs]:
  "security_mask_detached = (type_control_client_all OR type_resource_client_all)
     AND NOT type_monitor_client"
definition type_default_allowed :: mask16 where [flag_defs]: "type_default_allowed = security_0"
definition permission_maximum :: mask16 where [flag_defs]: "permission_maximum = security_0"

definition priority_default :: u8 where [flag_defs]: "priority_default = 127"
definition priority_immediate :: u8 where [flag_defs]: "priority_immediate = 0"

definition monitor_none :: u32 where [flag_defs]: "monitor_none = 0"
definition monitor_add :: u32 where [flag_defs]: "monitor_add = 0x01"
definition monitor_remove :: u32 where [flag_defs]: "monitor_remove = 0x02"
definition monitor_rejection :: u32 where [flag_defs]: "monitor_rejection = 0x04"
definition monitor_change :: u32 where [flag_defs]: "monitor_change = 0x08"
definition monitor_limit :: u32 where [flag_defs]: "monitor_limit = 0x10"
definition monitor_attached_clients :: u32 where [flag_defs]: "monitor_attached_clients = 0x20"
definition monitor_registered_clients :: u32 where [flag_defs]:
  "monitor_registered_clients = 0x40"
definition monitor_registered_services :: u32 where [flag_defs]:
  "monitor_registered_services = 0x80"
definition monitor_terminal_status :: u32 where [flag_defs]: "monitor_terminal_status = 0x100"
definition monitor_server :: u32 where [flag_defs]: "monitor_server = 0x200"
definition monitor_clients :: u32 where [flag_defs]: "monitor_clients = 0x400"

section \<open>Which execution types may run where\<close>

text \<open>\<open>check_valid_type\<close>, \<open>allow_execute_server\<close> and the others of \<open>local-check.h\<close>.
  The program that runs them is the server or a client: \<open>is_server()\<close> is the first argument.\<close>

definition check_valid_type :: "mask16 \<Rightarrow> bool" where
  "check_valid_type t \<longleftrightarrow>
     (if check_all t command_server \<and>
         (check_all t command_null \<or> check_all t command_request \<or> check_all t command_response)
      then False
      else if check_all t (command_request OR command_response) then False
      else if check_all t (command_request OR command_null) then False
      else if check_all t (command_response OR command_null) then False
      else check_any t command_all)"

definition allow_execute_server :: "bool \<Rightarrow> mask16 \<Rightarrow> bool" where
  "allow_execute_server is_srv t \<longleftrightarrow>
     (if \<not> is_srv then False
      else if check_all t command_plugin then False
      else if \<not> check_all t command_builtin then False
      else if \<not> check_any t (command_server OR command_response) then False
      else if check_all t command_privileged then False
      else if \<not> check_valid_type t then False
      else True)"

definition allow_execute_client :: "bool \<Rightarrow> mask16 \<Rightarrow> bool" where
  "allow_execute_client is_srv t \<longleftrightarrow>
     (if is_srv then False
      else if check_all t command_server then False
      else if check_all t (command_plugin OR command_privileged) then False
      else if \<not> check_valid_type t then False
      else True)"

definition allow_override_priority :: "mask16 \<Rightarrow> bool" where
  "allow_override_priority t \<longleftrightarrow> \<not> check_all t command_plugin"

lemma check_valid_type_exclusive:
  assumes "check_valid_type t"
  shows "\<not> (check_all t command_server \<and> check_all t command_response)"
    and "\<not> (check_all t command_server \<and> check_all t command_request)"
    and "\<not> (check_all t command_request \<and> check_all t command_response)"
  using assms by (auto simp: check_valid_type_def check_all_or split: if_splits)

text \<open>No execution type may run on both sides, and none that is privileged runs on the server.\<close>

lemma allow_execute_disjoint:
  "\<not> (allow_execute_server True t \<and> allow_execute_client False t \<and> check_all t command_server)"
  by (auto simp: allow_execute_client_def)

lemma allow_execute_server_not_privileged:
  "allow_execute_server b t \<Longrightarrow> \<not> check_all t command_privileged"
  by (auto simp: allow_execute_server_def split: if_splits)

section \<open>The ladder of security levels\<close>

lemma security_ladder:
  "check_all security_0 security_1" "check_all security_1 security_2"
  "check_all security_2 security_3" "check_all security_3 security_4"
  "check_all security_4 security_5" "check_all security_5 security_6"
  "check_all security_6 security_7"
  by (simp_all add: flag_defs check_all_def)

lemma security_1_no_control: "\<not> check_all security_1 type_server_control"
  by (simp add: flag_defs check_all_def)

lemma security_mask_detached_excludes:
  "\<not> check_all security_mask_detached type_admin_client"
  "\<not> check_all security_mask_detached type_monitor_client"
  "\<not> check_all security_mask_detached type_server_control"
  by (simp_all add: flag_defs check_all_def)

end
