(* ===== verification/Sections.thy ===== *)
theory Sections
  imports Numbers Command_Types
begin

text \<open>
  The data tree of a command and the macros that write and read it
  (\<open>include/rservr/plugin-dev/source-macro.hpp\<close>, the section classes of
  \<open>libs/protocol/ipc/api-external-command.cpp\<close>), the local program a command is built or
  parsed in (\<open>local_type()\<close>, \<open>is_server()\<close>, \<open>entity_name()\<close>), the routing fields of
  \<open>command_info\<close> and the command generators of \<open>libs/protocol/command-generator.cpp\<close>.
\<close>

section \<open>C strings\<close>

text \<open>A \<open>std::string\<close> read through \<open>c_str()\<close>, or assigned from a \<open>const char*\<close>, ends at the
  first null character.\<close>

definition c_str :: "string \<Rightarrow> string" where
  "c_str s = takeWhile (\<lambda>c. c \<noteq> CHR 0x00) s"

definition no_NUL :: "string \<Rightarrow> bool" where
  "no_NUL s \<longleftrightarrow> CHR 0x00 \<notin> set s"

lemma c_str_no_NUL [simp]: "no_NUL s \<Longrightarrow> c_str s = s"
  by (induction s) (auto simp: c_str_def no_NUL_def)

lemma no_NUL_c_str [simp]: "no_NUL (c_str s)"
  by (induction s) (auto simp: c_str_def no_NUL_def)

lemma c_str_idem [simp]: "c_str (c_str s) = c_str s"
  by simp

lemma c_str_Nil [simp]: "c_str [] = []"
  by (simp add: c_str_def)

lemma no_NUL_convert [simp]: "no_NUL (convert_integer16 w)" "no_NUL (convert_integer10 i)"
  by (simp_all add: no_NUL_def convert_integer16_no_NUL convert_integer10_no_NUL)

section \<open>Sections\<close>

text \<open>A linked list of sections is a HOL list; the child of a group is the list below it.\<close>

datatype data_section =
    Empty_Section string
  | Data_Section string bool string
  | Group_Section string "data_section list"

fun get_name :: "data_section \<Rightarrow> string" where
  "get_name (Empty_Section n) = n"
| "get_name (Data_Section n b d) = n"
| "get_name (Group_Section n cs) = n"

fun get_data :: "data_section \<Rightarrow> string option" where
  "get_data (Empty_Section n) = None"
| "get_data (Data_Section n b d) = Some d"
| "get_data (Group_Section n cs) = None"

text \<open>\<open>enum section_type\<close>: empty 0, text 1, binary 2, group 4.\<close>

fun data_type :: "data_section \<Rightarrow> u8" where
  "data_type (Empty_Section n) = 0"
| "data_type (Data_Section n b d) = (if b then 2 else 1)"
| "data_type (Group_Section n cs) = 4"

fun child :: "data_section \<Rightarrow> data_section list" where
  "child (Group_Section n cs) = cs"
| "child _ = []"

text \<open>The constructors of \<open>actual_data_section\<close>: text from a C string, binary from a buffer with
  a size; with size 0 the buffer is taken as text.\<close>

definition text_data_section :: "string \<Rightarrow> string \<Rightarrow> data_section" where
  "text_data_section n s = Data_Section n False (c_str s)"

definition sized_data_section :: "string \<Rightarrow> string \<Rightarrow> data_section" where
  "sized_data_section n s =
     (if length s \<noteq> 0 then Data_Section n True s else Data_Section n False (c_str s))"

text \<open>\<open>RSERVR_COMMAND_DATA\<close>, copied to a string.\<close>

definition command_data :: "data_section \<Rightarrow> string" where
  "command_data x = (case get_data x of Some d \<Rightarrow> c_str d | None \<Rightarrow> [])"

definition is_data :: "data_section \<Rightarrow> bool" where
  "is_data x \<longleftrightarrow> data_type x AND (1 OR 2) \<noteq> 0"

lemma command_data_text [simp]: "command_data (text_data_section n s) = c_str s"
  by (simp add: command_data_def text_data_section_def)

lemma data_type_text [simp]: "data_type (text_data_section n s) = 1"
  by (simp add: text_data_section_def)

lemma is_data_text [simp]: "is_data (text_data_section n s)"
  by (simp add: is_data_def)

lemma get_name_text [simp]: "get_name (text_data_section n s) = n"
  by (simp add: text_data_section_def)

lemma command_data_sized [simp]: "command_data (sized_data_section n s) = c_str s"
  by (auto simp: command_data_def sized_data_section_def)

lemma data_type_sized [simp]: "data_type (sized_data_section n s) = (if s = [] then 1 else 2)"
  by (auto simp: sized_data_section_def)

text \<open>Narrower C integers pass through the 32-bit conversions unchanged.\<close>

lemma ucast_up_down [simp]:
  "(ucast (ucast (a :: u8) :: u32) :: u8) = a" "(ucast (ucast (b :: mask16) :: u32) :: mask16) = b"
  "(ucast (ucast (c :: u2) :: u32) :: u2) = c" "(ucast (ucast (c :: u2) :: mask16) :: u2) = c"
  by (rule bit_word_eqI; auto simp: bit_simps)+

lemma map_c_str [simp]: "list_all no_NUL ds \<Longrightarrow> map c_str ds = ds"
  by (induction ds) simp_all

lemma no_NUL_Cons: "no_NUL (c # cs) \<longleftrightarrow> c \<noteq> CHR 0x00 \<and> no_NUL cs"
  by (auto simp: no_NUL_def)

lemma no_NUL_Nil [simp]: "no_NUL []"
  by (simp add: no_NUL_def)

lemmas literal_no_NUL = no_NUL_Cons

section \<open>The building macros\<close>

definition add_empty :: "data_section list \<Rightarrow> data_section list" where
  "add_empty t = t @ [Empty_Section []]"

definition add_text :: "string \<Rightarrow> string \<Rightarrow> data_section list \<Rightarrow> data_section list" where
  "add_text n v t = t @ [text_data_section n v]"

definition add_binary :: "string \<Rightarrow> string \<Rightarrow> data_section list \<Rightarrow> data_section list" where
  "add_binary n v t = t @ [sized_data_section n v]"

definition add_convert16 :: "string \<Rightarrow> u32 \<Rightarrow> data_section list \<Rightarrow> data_section list" where
  "add_convert16 n v t = add_text n (convert_integer16 v) t"

definition add_convert10 :: "string \<Rightarrow> int \<Rightarrow> data_section list \<Rightarrow> data_section list" where
  "add_convert10 n v t = add_text n (convert_integer10 v) t"

definition add_group :: "string \<Rightarrow> data_section list \<Rightarrow> data_section list \<Rightarrow> data_section list" where
  "add_group n cs t = t @ [Group_Section n cs]"

text \<open>The loop that writes a list of strings into a group.\<close>

definition text_list :: "string list \<Rightarrow> data_section list" where
  "text_list ds = fold (add_text []) ds []"

lemma text_list_map: "text_list ds = map (text_data_section []) ds"
proof -
  have "fold (add_text []) ds t = t @ map (text_data_section []) ds" for t
    by (induction ds arbitrary: t) (simp_all add: add_text_def)
  then show ?thesis by (simp add: text_list_def)
qed

lemmas add_defs = add_empty_def add_text_def add_binary_def add_convert16_def add_convert10_def
  add_group_def text_list_map

section \<open>The parsing macros\<close>

text \<open>
  \<open>RSERVR_COMMAND_PARSE_START\<close> to \<open>RSERVR_COMMAND_PARSE_END\<close>: the loop over the sections with
  their index. The body of an iteration ends normally, with \<open>break\<close>, or with
  \<open>return false\<close>.
\<close>

datatype 's parse_step = Next 's | Break 's | Abort

fun parse_sections :: "(nat \<Rightarrow> data_section \<Rightarrow> 's \<Rightarrow> 's parse_step) \<Rightarrow> nat \<Rightarrow> data_section list \<Rightarrow> 's \<Rightarrow> 's option"
where
  "parse_sections f i [] s = Some s"
| "parse_sections f i (x # xs) s =
     (case f i x s of
        Next s' \<Rightarrow> parse_sections f (Suc i) xs s'
      | Break s' \<Rightarrow> Some s'
      | Abort \<Rightarrow> None)"

definition parse16 :: "data_section \<Rightarrow> (u32 \<Rightarrow> 's) \<Rightarrow> 's parse_step" where
  "parse16 x f = (case parse_integer16 (command_data x) of None \<Rightarrow> Abort | Some v \<Rightarrow> Next (f v))"

definition parse10 :: "data_section \<Rightarrow> (int \<Rightarrow> 's) \<Rightarrow> 's parse_step" where
  "parse10 x f = (case parse_integer10 (command_data x) of None \<Rightarrow> Abort | Some v \<Rightarrow> Next (f v))"

text \<open>The nested loop that reads a group of texts.\<close>

definition parse_text_list :: "data_section \<Rightarrow> string list \<Rightarrow> string list option" where
  "parse_text_list x acc =
     parse_sections (\<lambda>i y ds. if is_data y then Next (ds @ [command_data y]) else Abort) 0
       (child x) acc"

definition parse_group :: "data_section \<Rightarrow> string list \<Rightarrow> (string list \<Rightarrow> 's) \<Rightarrow> 's parse_step" where
  "parse_group x acc f = (case parse_text_list x acc of None \<Rightarrow> Abort | Some ds \<Rightarrow> Next (f ds))"

lemma parse16_convert [simp]: "parse16 (text_data_section n (convert_integer16 w)) f = Next (f w)"
  by (simp add: parse16_def)

lemma parse10_convert [simp]:
  "- (2 ^ 31) \<le> i \<Longrightarrow> i < 2 ^ 31 \<Longrightarrow> parse10 (text_data_section n (convert_integer10 i)) f = Next (f i)"
  by (simp add: parse10_def parse_convert_integer10)

lemma parse_text_list_texts:
  "parse_text_list (Group_Section n (map (text_data_section []) ds)) acc = Some (acc @ map c_str ds)"
proof -
  have "parse_sections (\<lambda>i y ds. if is_data y then Next (ds @ [command_data y]) else Abort) k
      (map (text_data_section []) ds) acc = Some (acc @ map c_str ds)" for k
    by (induction ds arbitrary: k acc) simp_all
  then show ?thesis by (simp add: parse_text_list_def)
qed

lemma parse_group_texts [simp]:
  "parse_group (Group_Section n (map (text_data_section []) ds)) acc f = Next (f (acc @ map c_str ds))"
  by (simp add: parse_group_def parse_text_list_texts)

section \<open>The local program\<close>

record local_info =
  is_server :: bool
  local_type :: mask16
  entity_name :: string

definition allow_create_builtin :: "local_info \<Rightarrow> mask16 \<Rightarrow> mask16 \<Rightarrow> bool" where
  "allow_create_builtin l rRequire eExclude \<longleftrightarrow>
     check_all (local_type l) rRequire \<and> check_none (local_type l) eExclude"

definition allow_parse_builtin :: "local_info \<Rightarrow> mask16 \<Rightarrow> mask16 \<Rightarrow> bool" where
  "allow_parse_builtin l rRequire eExclude \<longleftrightarrow>
     is_server l \<or> (check_all (local_type l) rRequire \<and> check_none (local_type l) eExclude)"

definition allow_create_plugin :: "local_info \<Rightarrow> mask16 \<Rightarrow> bool" where
  "allow_create_plugin l rRequire \<longleftrightarrow> check_any (local_type l) rRequire"

definition allow_parse_plugin :: "local_info \<Rightarrow> mask16 \<Rightarrow> bool" where
  "allow_parse_plugin l rRequire \<longleftrightarrow> is_server l \<or> check_any (local_type l) rRequire"

section \<open>Generators\<close>

record command_generator =
  create_require :: mask16
  create_exclude :: mask16
  parse_require :: mask16
  parse_exclude :: mask16
  execution_type :: mask16

definition create_permissions :: "local_info \<Rightarrow> command_generator \<Rightarrow> bool" where
  "create_permissions l g \<longleftrightarrow>
     (if check_all (execution_type g) command_plugin then allow_create_plugin l (create_require g)
      else allow_create_builtin l (create_require g) (create_exclude g))"

definition parse_permissions_gen :: "local_info \<Rightarrow> command_generator \<Rightarrow> bool" where
  "parse_permissions_gen l g \<longleftrightarrow>
     (if check_all (execution_type g) command_plugin then allow_parse_plugin l (parse_require g)
      else allow_parse_builtin l (parse_require g) (parse_exclude g))"

definition generator :: "mask16 \<Rightarrow> mask16 \<Rightarrow> mask16 \<Rightarrow> mask16 \<Rightarrow> mask16 \<Rightarrow> command_generator" where
  "generator c1 c2 p1 p2 t = \<lparr>create_require = c1, create_exclude = c2, parse_require = p1,
     parse_exclude = p2, execution_type = t\<rparr>"

lemma generator_sel [simp]:
  "create_require (generator a b c d e) = a" "create_exclude (generator a b c d e) = b"
  "parse_require (generator a b c d e) = c" "parse_exclude (generator a b c d e) = d"
  "execution_type (generator a b c d e) = e"
  by (simp_all add: generator_def)

text \<open>The execution type of a built-in command never has the plugin bit.\<close>

lemma generator_not_plugin [simp]: "\<not> check_all (command_server OR command_builtin) command_plugin"
  "\<not> check_all (command_server OR command_builtin OR command_no_remote) command_plugin"
  "\<not> check_all (command_request OR command_builtin) command_plugin"
  "\<not> check_all (command_request OR command_builtin OR command_no_remote) command_plugin"
  "\<not> check_all (command_response OR command_builtin) command_plugin"
  "\<not> check_all (command_response OR command_builtin OR command_bypass) command_plugin"
  "\<not> check_all (command_null OR command_builtin OR command_bypass) command_plugin"
  "\<not> check_all (command_response OR command_privileged OR command_builtin) command_plugin"
  "\<not> check_all (command_response OR command_privileged OR command_builtin OR command_no_remote)
     command_plugin"
  "\<not> check_all (command_null OR command_privileged OR command_builtin OR command_no_remote)
     command_plugin"
  by (simp_all add: flag_defs check_all_def)

section \<open>Routing fields of a command\<close>

record command_info =
  priority :: u8
  penalty :: "16 word"
  orig_reference :: u32
  target_reference :: u32
  remote_reference :: u32
  creator_pid :: u32
  send_time :: u32
  silent_auto_response :: bool
  orig_entity :: string
  orig_address :: string
  target_entity :: string
  target_address :: string
  sender_type :: mask16

text \<open>The constructor and \<open>clear_info\<close>; the process id is an argument.\<close>

definition clear_info :: "u32 \<Rightarrow> command_info" where
  "clear_info pid = \<lparr>priority = priority_default, penalty = 0, orig_reference = 0,
     target_reference = 0, remote_reference = 0, creator_pid = pid, send_time = 0,
     silent_auto_response = False, orig_entity = [], orig_address = [], target_entity = [],
     target_address = [], sender_type = type_none\<rparr>"

definition is_command_from_remote :: "('a) command_info_scheme \<Rightarrow> bool" where
  "is_command_from_remote i \<longleftrightarrow> length (orig_address i) \<noteq> 0"

definition is_command_to_remote :: "('a) command_info_scheme \<Rightarrow> bool" where
  "is_command_to_remote i \<longleftrightarrow> length (target_address i) \<noteq> 0"

definition get_sender_type :: "('a) command_info_scheme \<Rightarrow> mask16" where
  "get_sender_type i = sender_type i AND NOT (type_detached_client OR type_server_control)"

text \<open>
  C34. Numbers survive their text form: what \<open>convert_integer16\<close> prints is read back by
  \<open>parse_integer16\<close> as the same 32-bit value, and what \<open>convert_integer10\<close> prints of an
  \<open>int\<close> is read back by \<open>parse_integer10\<close>, the sign included.
\<close>

theorem number_round_trip:
  assumes "- (2 ^ 31) \<le> i" and "i < 2 ^ 31"
  shows "parse_integer16 (convert_integer16 w) = Some w \<and>
    parse_integer10 (convert_integer10 i) = Some i"
  using assms by (simp add: parse_convert_integer10)

theorem number_round_trip_witness:
  "parse_integer16 (convert_integer16 0xFFFFFFFF) = Some 0xFFFFFFFF \<and>
    parse_integer10 (convert_integer10 (-25)) = Some (-25)"
  using number_round_trip [of "-25" "0xFFFFFFFF"] by simp

end
