(* ===== verification/Proto_Common.thy ===== *)
theory Proto_Common
  imports Sections
begin

text \<open>
  This theory holds the commands every client has: responses, registration, readiness, messages, the terminal and pings (\<open>libs/proto/proto-common/proto-common.cpp\<close>):
  for each its fields, \<open>assemble_command\<close> (\<open>build_...\<close>), \<open>compile_command\<close>
  (\<open>parse_...\<close>), its generator, \<open>execute_permissions\<close> and \<open>override_priority\<close>. The lemmas
  \<open>parse_build_...\<close> are the round trips of the single commands, \<open>common_round_trip\<close> the one of the
  group.
\<close>

section \<open>The commands\<close>

subsection \<open>\<open>proto_client_response\<close>\<close>

definition build_client_response ::
  "local_info \<Rightarrow> string \<Rightarrow> u32 \<Rightarrow> string \<Rightarrow> data_section list option" where
  "build_client_response l event_origin event_type event_message =
     (if \<not> allow_create_builtin l type_any_client type_server then None
      else Some (add_text [] event_message
          (add_convert16 [] event_type
          (add_text [] event_origin
          []))))"

definition parse_client_response :: "local_info \<Rightarrow> data_section list \<Rightarrow> (string \<times> u32 \<times> string) option" where
  "parse_client_response l t =
     (if \<not> allow_parse_builtin l type_any_client type_none then None
      else parse_sections (\<lambda>i x (event_origin, event_type, event_message).
          if i = 0 then Next (command_data x, event_type, event_message)
          else if i = 1 then parse16 x (\<lambda>v. (event_origin, v, event_message))
          else if i = 2 then Next (event_origin, event_type, command_data x)
          else Break (event_origin, event_type, event_message))
        0 t ([], event_none, []))"

lemma parse_build_client_response:
  "build_client_response l event_origin event_type event_message = Some t \<Longrightarrow>
    allow_parse_builtin m type_any_client type_none \<Longrightarrow> no_NUL event_origin \<Longrightarrow> no_NUL event_message \<Longrightarrow>
    parse_client_response m t = Some (event_origin, event_type, event_message)"
  by (auto simp: build_client_response_def parse_client_response_def add_defs split: if_splits)

subsection \<open>\<open>proto_client_response_list\<close>\<close>

definition build_client_response_list ::
  "local_info \<Rightarrow> string \<Rightarrow> u32 \<Rightarrow> string list \<Rightarrow> data_section list option" where
  "build_client_response_list l event_origin event_type response_data =
     (if \<not> allow_create_builtin l type_any_client type_server then None
      else Some (add_group [] (text_list response_data)
          (add_convert16 [] event_type
          (add_text [] event_origin
          []))))"

definition parse_client_response_list :: "local_info \<Rightarrow> data_section list \<Rightarrow> (string \<times> u32 \<times> string list) option" where
  "parse_client_response_list l t =
     (if \<not> allow_parse_builtin l type_any_client type_none then None
      else parse_sections (\<lambda>i x (event_origin, event_type, response_data).
          if i = 0 then Next (command_data x, event_type, response_data)
          else if i = 1 then parse16 x (\<lambda>v. (event_origin, v, response_data))
          else if i = 2 then parse_group x response_data (\<lambda>v. (event_origin, event_type, v))
          else Break (event_origin, event_type, response_data))
        0 t ([], event_none, []))"

lemma parse_build_client_response_list:
  "build_client_response_list l event_origin event_type response_data = Some t \<Longrightarrow>
    allow_parse_builtin m type_any_client type_none \<Longrightarrow> no_NUL event_origin \<Longrightarrow> list_all no_NUL response_data \<Longrightarrow>
    parse_client_response_list m t = Some (event_origin, event_type, response_data)"
  by (auto simp: build_client_response_list_def parse_client_response_list_def add_defs split: if_splits)

subsection \<open>\<open>proto_short_response\<close>\<close>

definition build_short_response ::
  "local_info \<Rightarrow> u32 \<Rightarrow> data_section list option" where
  "build_short_response l event_type =
     (if \<not> allow_create_builtin l type_any_client type_server then None
      else Some (add_convert16 [] event_type
          []))"

definition parse_short_response :: "local_info \<Rightarrow> data_section list \<Rightarrow> u32 option" where
  "parse_short_response l t =
     (parse_sections (\<lambda>i x event_type.
          if i = 0 then parse16 x (\<lambda>v. v)
          else Break event_type)
        0 t event_none)"

lemma parse_build_short_response:
  "build_short_response l event_type = Some t \<Longrightarrow>
    parse_short_response m t = Some event_type"
  by (auto simp: build_short_response_def parse_short_response_def add_defs split: if_splits)

subsection \<open>\<open>proto_register_client\<close>\<close>

definition build_register_client ::
  "local_info \<Rightarrow> string \<Rightarrow> mask16 \<Rightarrow> bool \<Rightarrow> data_section list option" where
  "build_register_client l client_name register_type disable =
     (if \<not> allow_create_builtin l type_none type_server then None
      else let t1 = (if disable then add_convert16 ''disable'' 1 [] else []);
               t2 = add_text ''name'' client_name t1
           in if register_type = type_admin_client_all then Some (add_text ''type'' ''admin'' t2)
              else if register_type = type_monitor_client_all then Some (add_text ''type'' ''monitor'' t2)
              else if register_type = type_resource_client_all then Some (add_text ''type'' ''resource'' t2)
              else if register_type = type_control_client_all then Some (add_text ''type'' ''control'' t2)
              else if register_type = type_none then Some (add_text ''type'' ''deregister'' t2)
              else None)"

definition parse_register_client ::
  "local_info \<Rightarrow> data_section list \<Rightarrow> (string \<times> mask16 \<times> bool) option" where
  "parse_register_client l t =
     (if \<not> allow_parse_builtin l type_server type_any_client then None
      else parse_sections (\<lambda>i x (client_name, register_type, disable).
          if get_name x = ''disable'' then parse16 x (\<lambda>v. (client_name, register_type, v \<noteq> 0))
          else if get_name x = ''name'' then Next (command_data x, register_type, disable)
          else if get_name x = ''type'' then
            (if command_data x = ''admin'' then Next (client_name, type_admin_client_all, disable)
             else if command_data x = ''monitor'' then
               Next (client_name, type_monitor_client_all, disable)
             else if command_data x = ''resource'' then
               Next (client_name, type_resource_client_all, disable)
             else if command_data x = ''control'' then
               Next (client_name, type_control_client_all, disable)
             else if command_data x = ''deregister'' then Next (client_name, type_none, disable)
             else Abort)
          else Abort)
        0 t ([], type_none, False))"

lemma parse_build_register_client:
  "build_register_client l client_name register_type disable = Some t \<Longrightarrow>
    allow_parse_builtin m type_server type_any_client \<Longrightarrow> no_NUL client_name \<Longrightarrow>
    parse_register_client m t = Some (client_name, register_type, disable)"
  by (auto simp: build_register_client_def parse_register_client_def add_defs Let_def
      literal_no_NUL split: if_splits)

subsection \<open>\<open>proto_indicate_ready\<close>\<close>

definition build_indicate_ready ::
  "local_info \<Rightarrow> data_section list option" where
  "build_indicate_ready l =
     (if \<not> allow_create_builtin l type_any_client type_server then None
      else Some (add_empty []))"

definition parse_indicate_ready :: "local_info \<Rightarrow> data_section list \<Rightarrow> unit option" where
  "parse_indicate_ready l t =
     (if \<not> allow_parse_builtin l type_server type_any_client then None
      else Some ())"

lemma parse_build_indicate_ready:
  "build_indicate_ready l = Some t \<Longrightarrow>
    allow_parse_builtin m type_server type_any_client \<Longrightarrow>
    parse_indicate_ready m t = Some ()"
  by (auto simp: build_indicate_ready_def parse_indicate_ready_def add_defs split: if_splits)

subsection \<open>\<open>proto_client_register_response\<close>\<close>

definition build_client_register_response ::
  "local_info \<Rightarrow> mask16 \<Rightarrow> data_section list option" where
  "build_client_register_response l client_type =
     (if \<not> allow_create_builtin l type_server type_any_client then None
      else Some (add_convert16 [] (ucast client_type)
          []))"

definition parse_client_register_response :: "local_info \<Rightarrow> data_section list \<Rightarrow> mask16 option" where
  "parse_client_register_response l t =
     (parse_sections (\<lambda>i x client_type.
          if i = 0 then parse16 x (\<lambda>v. ucast v)
          else Break client_type)
        0 t type_none)"

lemma parse_build_client_register_response:
  "build_client_register_response l client_type = Some t \<Longrightarrow>
    parse_client_register_response m t = Some client_type"
  by (auto simp: build_client_register_response_def parse_client_register_response_def add_defs split: if_splits)

subsection \<open>\<open>proto_client_message\<close>\<close>

definition build_client_message ::
  "local_info \<Rightarrow> string \<Rightarrow> data_section list option" where
  "build_client_message l client_message =
     (if \<not> allow_create_builtin l type_active_client type_server then None
      else Some (add_text [] client_message
          []))"

definition parse_client_message :: "local_info \<Rightarrow> data_section list \<Rightarrow> string option" where
  "parse_client_message l t =
     (if \<not> allow_parse_builtin l type_active_client type_none then None
      else parse_sections (\<lambda>i x client_message.
          if i = 0 then Next (command_data x)
          else Break client_message)
        0 t [])"

lemma parse_build_client_message:
  "build_client_message l client_message = Some t \<Longrightarrow>
    allow_parse_builtin m type_active_client type_none \<Longrightarrow> no_NUL client_message \<Longrightarrow>
    parse_client_message m t = Some client_message"
  by (auto simp: build_client_message_def parse_client_message_def add_defs split: if_splits)

subsection \<open>\<open>proto_term_request\<close>\<close>

definition build_term_request ::
  "local_info \<Rightarrow> data_section list option" where
  "build_term_request l =
     (if \<not> allow_create_builtin l type_active_client type_server then None
      else Some (add_empty []))"

definition parse_term_request :: "local_info \<Rightarrow> data_section list \<Rightarrow> unit option" where
  "parse_term_request l t =
     (if \<not> allow_parse_builtin l type_server type_any_client then None
      else Some ())"

lemma parse_build_term_request:
  "build_term_request l = Some t \<Longrightarrow>
    allow_parse_builtin m type_server type_any_client \<Longrightarrow>
    parse_term_request m t = Some ()"
  by (auto simp: build_term_request_def parse_term_request_def add_defs split: if_splits)

subsection \<open>\<open>proto_term_return\<close>\<close>

definition build_term_return ::
  "local_info \<Rightarrow> data_section list option" where
  "build_term_return l =
     (if \<not> allow_create_builtin l type_active_client type_server then None
      else Some (add_empty []))"

definition parse_term_return :: "local_info \<Rightarrow> data_section list \<Rightarrow> unit option" where
  "parse_term_return l t =
     (if \<not> allow_parse_builtin l type_server type_any_client then None
      else Some ())"

lemma parse_build_term_return:
  "build_term_return l = Some t \<Longrightarrow>
    allow_parse_builtin m type_server type_any_client \<Longrightarrow>
    parse_term_return m t = Some ()"
  by (auto simp: build_term_return_def parse_term_return_def add_defs split: if_splits)

subsection \<open>\<open>proto_ping_client\<close>\<close>

definition build_ping_client ::
  "local_info \<Rightarrow> data_section list option" where
  "build_ping_client l =
     (if \<not> allow_create_builtin l type_active_client type_server then None
      else Some (add_empty []))"

definition parse_ping_client :: "local_info \<Rightarrow> data_section list \<Rightarrow> unit option" where
  "parse_ping_client l t =
     (if \<not> allow_parse_builtin l type_active_client type_none then None
      else Some ())"

lemma parse_build_ping_client:
  "build_ping_client l = Some t \<Longrightarrow>
    allow_parse_builtin m type_active_client type_none \<Longrightarrow>
    parse_ping_client m t = Some ()"
  by (auto simp: build_ping_client_def parse_ping_client_def add_defs split: if_splits)

subsection \<open>\<open>proto_ping_server\<close>\<close>

definition build_ping_server ::
  "local_info \<Rightarrow> data_section list option" where
  "build_ping_server l =
     (if \<not> allow_create_builtin l type_any_client type_server then None
      else Some (add_empty []))"

definition parse_ping_server :: "local_info \<Rightarrow> data_section list \<Rightarrow> unit option" where
  "parse_ping_server l t =
     (if \<not> allow_parse_builtin l type_active_client type_none then None
      else Some ())"

lemma parse_build_ping_server:
  "build_ping_server l = Some t \<Longrightarrow>
    allow_parse_builtin m type_active_client type_none \<Longrightarrow>
    parse_ping_server m t = Some ()"
  by (auto simp: build_ping_server_def parse_ping_server_def add_defs split: if_splits)

section \<open>The group as one type\<close>

datatype common_body =
    Client_Response string u32 string
  | Client_Response_List string u32 "string list"
  | Short_Response u32
  | Register_Client string mask16 bool
  | Indicate_Ready
  | Client_Register_Response mask16
  | Client_Message string
  | Term_Request
  | Term_Return
  | Ping_Client
  | Ping_Server

text \<open>\<open>RSERVR_BUILTIN_TAG\<close>: the label of a command.\<close>

fun common_tag :: "common_body \<Rightarrow> string" where
  "common_tag (Client_Response _ _ _) = ''proto_client_response''"
| "common_tag (Client_Response_List _ _ _) = ''proto_client_response_list''"
| "common_tag (Short_Response _) = ''proto_short_response''"
| "common_tag (Register_Client _ _ _) = ''proto_register_client''"
| "common_tag Indicate_Ready = ''proto_indicate_ready''"
| "common_tag (Client_Register_Response _) = ''proto_client_register_response''"
| "common_tag (Client_Message _) = ''proto_client_message''"
| "common_tag Term_Request = ''proto_term_request''"
| "common_tag Term_Return = ''proto_term_return''"
| "common_tag Ping_Client = ''proto_ping_client''"
| "common_tag Ping_Server = ''proto_ping_server''"

fun common_build :: "local_info \<Rightarrow> common_body \<Rightarrow> data_section list option" where
  "common_build l (Client_Response a b c) = build_client_response l a b c"
| "common_build l (Client_Response_List a b c) = build_client_response_list l a b c"
| "common_build l (Short_Response a) = build_short_response l a"
| "common_build l (Register_Client a b c) = build_register_client l a b c"
| "common_build l Indicate_Ready = build_indicate_ready l"
| "common_build l (Client_Register_Response a) = build_client_register_response l a"
| "common_build l (Client_Message a) = build_client_message l a"
| "common_build l Term_Request = build_term_request l"
| "common_build l Term_Return = build_term_return l"
| "common_build l Ping_Client = build_ping_client l"
| "common_build l Ping_Server = build_ping_server l"

text \<open>\<open>generate\<close> for the label, then \<open>compile_command\<close>.\<close>

definition common_parse :: "local_info \<Rightarrow> string \<Rightarrow> data_section list \<Rightarrow> common_body option" where
  "common_parse l label t =
     (if label = ''proto_client_response'' then map_option (\<lambda>(a, b, c). Client_Response a b c) (parse_client_response l t)
      else if label = ''proto_client_response_list'' then map_option (\<lambda>(a, b, c). Client_Response_List a b c) (parse_client_response_list l t)
      else if label = ''proto_short_response'' then map_option (\<lambda>a. Short_Response a) (parse_short_response l t)
      else if label = ''proto_register_client'' then map_option (\<lambda>(a, b, c). Register_Client a b c) (parse_register_client l t)
      else if label = ''proto_indicate_ready'' then map_option (\<lambda>_. Indicate_Ready) (parse_indicate_ready l t)
      else if label = ''proto_client_register_response'' then map_option (\<lambda>a. Client_Register_Response a) (parse_client_register_response l t)
      else if label = ''proto_client_message'' then map_option (\<lambda>a. Client_Message a) (parse_client_message l t)
      else if label = ''proto_term_request'' then map_option (\<lambda>_. Term_Request) (parse_term_request l t)
      else if label = ''proto_term_return'' then map_option (\<lambda>_. Term_Return) (parse_term_return l t)
      else if label = ''proto_ping_client'' then map_option (\<lambda>_. Ping_Client) (parse_ping_client l t)
      else if label = ''proto_ping_server'' then map_option (\<lambda>_. Ping_Server) (parse_ping_server l t)
      else None)"

fun common_permissions :: "common_body \<Rightarrow> mask16" where
  "common_permissions (Client_Response _ _ _) = type_any_client"
| "common_permissions (Client_Response_List _ _ _) = type_any_client"
| "common_permissions (Short_Response _) = type_any_client"
| "common_permissions (Register_Client _ _ _) = type_none"
| "common_permissions Indicate_Ready = type_any_client"
| "common_permissions (Client_Register_Response _) = type_none"
| "common_permissions (Client_Message _) = type_active_client"
| "common_permissions Term_Request = type_active_client"
| "common_permissions Term_Return = type_active_client"
| "common_permissions Ping_Client = type_active_client"
| "common_permissions Ping_Server = type_any_client"

fun common_override :: "common_body \<Rightarrow> u8 \<Rightarrow> u8" where
  "common_override (Client_Response _ _ _) p = p"
| "common_override (Client_Response_List _ _ _) p = p"
| "common_override (Short_Response _) p = p"
| "common_override (Register_Client _ _ _) p = priority_immediate"
| "common_override Indicate_Ready p = priority_immediate"
| "common_override (Client_Register_Response _) p = priority_immediate"
| "common_override (Client_Message _) p = p"
| "common_override Term_Request p = p"
| "common_override Term_Return p = p"
| "common_override Ping_Client p = p"
| "common_override Ping_Server p = p"

fun common_generator :: "common_body \<Rightarrow> command_generator" where
  "common_generator (Client_Response _ _ _) =
     generator type_any_client type_server type_any_client type_none
       (command_response OR command_builtin OR command_bypass)"
| "common_generator (Client_Response_List _ _ _) =
     generator type_any_client type_server type_any_client type_none
       (command_response OR command_builtin OR command_bypass)"
| "common_generator (Short_Response _) =
     generator type_any_client type_server type_none type_none
       (command_response OR command_builtin OR command_bypass)"
| "common_generator (Register_Client _ _ _) =
     generator type_none type_server type_server type_any_client
       (command_server OR command_builtin OR command_no_remote)"
| "common_generator Indicate_Ready =
     generator type_any_client type_server type_server type_any_client
       (command_server OR command_builtin OR command_no_remote)"
| "common_generator (Client_Register_Response _) =
     generator type_server type_any_client type_none type_none
       (command_response OR command_privileged OR command_builtin OR command_no_remote)"
| "common_generator (Client_Message _) =
     generator type_active_client type_server type_active_client type_none
       (command_request OR command_builtin)"
| "common_generator Term_Request =
     generator type_active_client type_server type_server type_any_client
       (command_server OR command_builtin OR command_no_remote)"
| "common_generator Term_Return =
     generator type_active_client type_server type_server type_any_client
       (command_server OR command_builtin OR command_no_remote)"
| "common_generator Ping_Client =
     generator type_active_client type_server type_active_client type_none
       (command_null OR command_builtin OR command_bypass)"
| "common_generator Ping_Server =
     generator type_any_client type_server type_active_client type_none
       (command_server OR command_builtin)"

text \<open>Texts without null characters, numbers in the range of their C type.\<close>

fun common_ok :: "common_body \<Rightarrow> bool" where
  "common_ok (Client_Response a _ c) \<longleftrightarrow> no_NUL a \<and> no_NUL c"
| "common_ok (Client_Response_List a _ c) \<longleftrightarrow> no_NUL a \<and> list_all no_NUL c"
| "common_ok (Short_Response _) \<longleftrightarrow> True"
| "common_ok (Register_Client a _ _) \<longleftrightarrow> no_NUL a"
| "common_ok Indicate_Ready \<longleftrightarrow> True"
| "common_ok (Client_Register_Response _) \<longleftrightarrow> True"
| "common_ok (Client_Message a) \<longleftrightarrow> no_NUL a"
| "common_ok Term_Request \<longleftrightarrow> True"
| "common_ok Term_Return \<longleftrightarrow> True"
| "common_ok Ping_Client \<longleftrightarrow> True"
| "common_ok Ping_Server \<longleftrightarrow> True"

lemmas common_parse_build =
  parse_build_client_response parse_build_client_response_list parse_build_short_response
  parse_build_register_client parse_build_indicate_ready parse_build_client_register_response
  parse_build_client_message parse_build_term_request parse_build_term_return
  parse_build_ping_client parse_build_ping_server

lemma common_round_trip:
  assumes "common_build l b = Some t"
    and "parse_permissions_gen m (common_generator b)" and "common_ok b"
  shows "common_parse m (common_tag b) t = Some b"
  using assms
  by (cases b) (auto simp: common_parse_def parse_permissions_gen_def generator_not_plugin
      intro: common_parse_build)

end
