(* ===== verification/Proto_Server.thy ===== *)
theory Proto_Server
  imports Sections
begin

text \<open>
  This theory holds the commands the server sends: responses, directives, timing tables and monitor data (\<open>libs/proto/proto-server/proto-server.cpp\<close>):
  for each its fields, \<open>assemble_command\<close> (\<open>build_...\<close>), \<open>compile_command\<close>
  (\<open>parse_...\<close>), its generator, \<open>execute_permissions\<close> and \<open>override_priority\<close>. The lemmas
  \<open>parse_build_...\<close> are the round trips of the single commands, \<open>server_round_trip\<close> the one of the
  group.
\<close>

section \<open>The commands\<close>

subsection \<open>\<open>proto_server_response\<close>\<close>

definition build_server_response ::
  "local_info \<Rightarrow> string \<Rightarrow> u32 \<Rightarrow> string \<Rightarrow> data_section list option" where
  "build_server_response l event_origin event_type event_message =
     (if \<not> allow_create_builtin l type_server type_any_client then None
      else Some (add_text [] event_message
          (add_convert16 [] event_type
          (add_text [] event_origin
          []))))"

definition parse_server_response :: "local_info \<Rightarrow> data_section list \<Rightarrow> (string \<times> u32 \<times> string) option" where
  "parse_server_response l t =
     (parse_sections (\<lambda>i x (event_origin, event_type, event_message).
          if i = 0 then Next (command_data x, event_type, event_message)
          else if i = 1 then parse16 x (\<lambda>v. (event_origin, v, event_message))
          else if i = 2 then Next (event_origin, event_type, command_data x)
          else Break (event_origin, event_type, event_message))
        0 t ([], event_none, []))"

lemma parse_build_server_response:
  "build_server_response l event_origin event_type event_message = Some t \<Longrightarrow>
    no_NUL event_origin \<Longrightarrow> no_NUL event_message \<Longrightarrow>
    parse_server_response m t = Some (event_origin, event_type, event_message)"
  by (auto simp: build_server_response_def parse_server_response_def add_defs split: if_splits)

subsection \<open>\<open>proto_server_response_list\<close>\<close>

definition build_server_response_list ::
  "local_info \<Rightarrow> string \<Rightarrow> u32 \<Rightarrow> string list \<Rightarrow> data_section list option" where
  "build_server_response_list l event_origin event_type response_data =
     (if \<not> allow_create_builtin l type_server type_any_client then None
      else Some (add_group [] (text_list response_data)
          (add_convert16 [] event_type
          (add_text [] event_origin
          []))))"

definition parse_server_response_list :: "local_info \<Rightarrow> data_section list \<Rightarrow> (string \<times> u32 \<times> string list) option" where
  "parse_server_response_list l t =
     (parse_sections (\<lambda>i x (event_origin, event_type, response_data).
          if i = 0 then Next (command_data x, event_type, response_data)
          else if i = 1 then parse16 x (\<lambda>v. (event_origin, v, response_data))
          else if i = 2 then parse_group x response_data (\<lambda>v. (event_origin, event_type, v))
          else Break (event_origin, event_type, response_data))
        0 t ([], event_none, []))"

lemma parse_build_server_response_list:
  "build_server_response_list l event_origin event_type response_data = Some t \<Longrightarrow>
    no_NUL event_origin \<Longrightarrow> list_all no_NUL response_data \<Longrightarrow>
    parse_server_response_list m t = Some (event_origin, event_type, response_data)"
  by (auto simp: build_server_response_list_def parse_server_response_list_def add_defs split: if_splits)

subsection \<open>\<open>proto_server_directive\<close>\<close>

definition build_server_directive ::
  "local_info \<Rightarrow> u8 \<Rightarrow> data_section list option" where
  "build_server_directive l directive_type =
     (if \<not> allow_create_builtin l type_server type_any_client then None
      else Some (add_convert16 [] (ucast directive_type)
          []))"

definition parse_server_directive :: "local_info \<Rightarrow> data_section list \<Rightarrow> u8 option" where
  "parse_server_directive l t =
     (parse_sections (\<lambda>i x directive_type.
          if i = 0 then parse16 x (\<lambda>v. ucast v)
          else Break directive_type)
        0 t directed_none)"

lemma parse_build_server_directive:
  "build_server_directive l directive_type = Some t \<Longrightarrow>
    parse_server_directive m t = Some directive_type"
  by (auto simp: build_server_directive_def parse_server_directive_def add_defs split: if_splits)

subsection \<open>\<open>proto_set_timing\<close>\<close>

definition build_set_timing ::
  "local_info \<Rightarrow> string list \<Rightarrow> data_section list option" where
  "build_set_timing l timing_data =
     (if \<not> allow_create_builtin l type_server type_any_client then None
      else Some (add_group [] (text_list timing_data)
          []))"

definition parse_set_timing :: "local_info \<Rightarrow> data_section list \<Rightarrow> (string list) option" where
  "parse_set_timing l t =
     (parse_sections (\<lambda>i x timing_data.
          if i = 0 then parse_group x timing_data (\<lambda>v. v)
          else Break timing_data)
        0 t [])"

lemma parse_build_set_timing:
  "build_set_timing l timing_data = Some t \<Longrightarrow>
    list_all no_NUL timing_data \<Longrightarrow>
    parse_set_timing m t = Some timing_data"
  by (auto simp: build_set_timing_def parse_set_timing_def add_defs split: if_splits)

subsection \<open>\<open>proto_update_timing\<close>\<close>

definition build_update_timing ::
  "local_info \<Rightarrow> string list \<Rightarrow> data_section list option" where
  "build_update_timing l timing_data =
     (if \<not> allow_create_builtin l type_server type_any_client then None
      else Some (add_group [] (text_list timing_data)
          []))"

definition parse_update_timing :: "local_info \<Rightarrow> data_section list \<Rightarrow> (string list) option" where
  "parse_update_timing l t =
     (parse_sections (\<lambda>i x timing_data.
          if i = 0 then parse_group x timing_data (\<lambda>v. v)
          else Break timing_data)
        0 t [])"

lemma parse_build_update_timing:
  "build_update_timing l timing_data = Some t \<Longrightarrow>
    list_all no_NUL timing_data \<Longrightarrow>
    parse_update_timing m t = Some timing_data"
  by (auto simp: build_update_timing_def parse_update_timing_def add_defs split: if_splits)

subsection \<open>\<open>proto_monitor_data\<close>\<close>

definition build_monitor_data ::
  "local_info \<Rightarrow> u32 \<Rightarrow> string list \<Rightarrow> data_section list option" where
  "build_monitor_data l event_type monitor_data =
     (if \<not> allow_create_builtin l type_server type_any_client then None
      else Some (add_group [] (text_list monitor_data)
          (add_convert16 [] event_type
          [])))"

definition parse_monitor_data :: "local_info \<Rightarrow> data_section list \<Rightarrow> (u32 \<times> string list) option" where
  "parse_monitor_data l t =
     (if \<not> allow_parse_builtin l type_monitor_client type_none then None
      else parse_sections (\<lambda>i x (event_type, monitor_data).
          if i = 0 then parse16 x (\<lambda>v. (v, monitor_data))
          else if i = 1 then parse_group x monitor_data (\<lambda>v. (event_type, v))
          else Break (event_type, monitor_data))
        0 t (event_none, []))"

lemma parse_build_monitor_data:
  "build_monitor_data l event_type monitor_data = Some t \<Longrightarrow>
    allow_parse_builtin m type_monitor_client type_none \<Longrightarrow> list_all no_NUL monitor_data \<Longrightarrow>
    parse_monitor_data m t = Some (event_type, monitor_data)"
  by (auto simp: build_monitor_data_def parse_monitor_data_def add_defs split: if_splits)

section \<open>The group as one type\<close>

datatype server_body =
    Server_Response string u32 string
  | Server_Response_List string u32 "string list"
  | Server_Directive u8
  | Set_Timing "string list"
  | Update_Timing "string list"
  | Monitor_Data u32 "string list"

text \<open>\<open>RSERVR_BUILTIN_TAG\<close>: the label of a command.\<close>

fun server_tag :: "server_body \<Rightarrow> string" where
  "server_tag (Server_Response _ _ _) = ''proto_server_response''"
| "server_tag (Server_Response_List _ _ _) = ''proto_server_response_list''"
| "server_tag (Server_Directive _) = ''proto_server_directive''"
| "server_tag (Set_Timing _) = ''proto_set_timing''"
| "server_tag (Update_Timing _) = ''proto_update_timing''"
| "server_tag (Monitor_Data _ _) = ''proto_monitor_data''"

fun server_build :: "local_info \<Rightarrow> server_body \<Rightarrow> data_section list option" where
  "server_build l (Server_Response a b c) = build_server_response l a b c"
| "server_build l (Server_Response_List a b c) = build_server_response_list l a b c"
| "server_build l (Server_Directive a) = build_server_directive l a"
| "server_build l (Set_Timing a) = build_set_timing l a"
| "server_build l (Update_Timing a) = build_update_timing l a"
| "server_build l (Monitor_Data a b) = build_monitor_data l a b"

text \<open>\<open>generate\<close> for the label, then \<open>compile_command\<close>.\<close>

definition server_parse :: "local_info \<Rightarrow> string \<Rightarrow> data_section list \<Rightarrow> server_body option" where
  "server_parse l label t =
     (if label = ''proto_server_response'' then map_option (\<lambda>(a, b, c). Server_Response a b c) (parse_server_response l t)
      else if label = ''proto_server_response_list'' then map_option (\<lambda>(a, b, c). Server_Response_List a b c) (parse_server_response_list l t)
      else if label = ''proto_server_directive'' then map_option (\<lambda>a. Server_Directive a) (parse_server_directive l t)
      else if label = ''proto_set_timing'' then map_option (\<lambda>a. Set_Timing a) (parse_set_timing l t)
      else if label = ''proto_update_timing'' then map_option (\<lambda>a. Update_Timing a) (parse_update_timing l t)
      else if label = ''proto_monitor_data'' then map_option (\<lambda>(a, b). Monitor_Data a b) (parse_monitor_data l t)
      else None)"

fun server_permissions :: "server_body \<Rightarrow> mask16" where
  "server_permissions (Server_Response _ _ _) = type_none"
| "server_permissions (Server_Response_List _ _ _) = type_none"
| "server_permissions (Server_Directive _) = type_none"
| "server_permissions (Set_Timing _) = type_none"
| "server_permissions (Update_Timing _) = type_none"
| "server_permissions (Monitor_Data _ _) = type_monitor_client"

fun server_override :: "server_body \<Rightarrow> u8 \<Rightarrow> u8" where
  "server_override (Server_Response _ _ _) p = priority_immediate"
| "server_override (Server_Response_List _ _ _) p = p"
| "server_override (Server_Directive _) p = priority_immediate"
| "server_override (Set_Timing _) p = priority_immediate"
| "server_override (Update_Timing _) p = priority_immediate"
| "server_override (Monitor_Data _ _) p = p"

fun server_generator :: "server_body \<Rightarrow> command_generator" where
  "server_generator (Server_Response _ _ _) =
     generator type_server type_any_client type_none type_none
       (command_response OR command_privileged OR command_builtin)"
| "server_generator (Server_Response_List _ _ _) =
     generator type_server type_any_client type_none type_none
       (command_response OR command_privileged OR command_builtin)"
| "server_generator (Server_Directive _) =
     generator type_server type_any_client type_none type_none
       (command_response OR command_privileged OR command_builtin OR command_no_remote)"
| "server_generator (Set_Timing _) =
     generator type_server type_any_client type_none type_none
       (command_response OR command_privileged OR command_builtin OR command_no_remote)"
| "server_generator (Update_Timing _) =
     generator type_server type_any_client type_none type_none
       (command_response OR command_privileged OR command_builtin OR command_no_remote)"
| "server_generator (Monitor_Data _ _) =
     generator type_server type_any_client type_monitor_client type_none
       (command_null OR command_privileged OR command_builtin OR command_no_remote)"

text \<open>Texts without null characters, numbers in the range of their C type.\<close>

fun server_body_ok :: "server_body \<Rightarrow> bool" where
  "server_body_ok (Server_Response a _ c) \<longleftrightarrow> no_NUL a \<and> no_NUL c"
| "server_body_ok (Server_Response_List a _ c) \<longleftrightarrow> no_NUL a \<and> list_all no_NUL c"
| "server_body_ok (Server_Directive _) \<longleftrightarrow> True"
| "server_body_ok (Set_Timing a) \<longleftrightarrow> list_all no_NUL a"
| "server_body_ok (Update_Timing a) \<longleftrightarrow> list_all no_NUL a"
| "server_body_ok (Monitor_Data _ b) \<longleftrightarrow> list_all no_NUL b"

lemmas server_parse_build =
  parse_build_server_response parse_build_server_response_list parse_build_server_directive
  parse_build_set_timing parse_build_update_timing parse_build_monitor_data

lemma server_round_trip:
  assumes "server_build l b = Some t"
    and "parse_permissions_gen m (server_generator b)" and "server_body_ok b"
  shows "server_parse m (server_tag b) t = Some b"
  using assms
  by (cases b) (auto simp: server_parse_def parse_permissions_gen_def generator_not_plugin
      intro: server_parse_build)

end
