(* ===== verification/Proto_Admin.thy ===== *)
theory Proto_Admin
  imports Sections
begin

text \<open>
  This theory holds the commands of administrators, with those of control and monitor clients (\<open>proto-admin-client.cpp\<close>, \<open>proto-control-client.cpp\<close>, \<open>proto-monitor-client.cpp\<close> under \<open>libs/proto/\<close>):
  for each its fields, \<open>assemble_command\<close> (\<open>build_...\<close>), \<open>compile_command\<close>
  (\<open>parse_...\<close>), its generator, \<open>execute_permissions\<close> and \<open>override_priority\<close>. The lemmas
  \<open>parse_build_...\<close> are the round trips of the single commands, \<open>admin_round_trip\<close> the one of the
  group.
\<close>

section \<open>The commands\<close>

subsection \<open>\<open>proto_create_client\<close>\<close>

definition CREATE_SYSTEM :: u8 where "CREATE_SYSTEM = 0x01"
definition CREATE_EXEC :: u8 where "CREATE_EXEC = 0x02"

definition build_create_client ::
  "local_info \<Rightarrow> u8 \<Rightarrow> bool \<Rightarrow> u32 \<Rightarrow> u32 \<Rightarrow> u8 \<Rightarrow> mask16 \<Rightarrow> u8 \<Rightarrow> string list \<Rightarrow>
    data_section list option" where
  "build_create_client l create_type return_pid user_id group_id min_priority max_permissions
     options command_text =
     (if \<not> allow_create_builtin l type_admin_client type_server then None
      else case (if create_type = CREATE_SYSTEM then Some (add_text ''type'' ''system'' [])
                 else if create_type = CREATE_EXEC then Some (add_text ''type'' ''exec'' [])
                 else None) of
        None \<Rightarrow> None
      | Some t \<Rightarrow> Some (add_group ''command'' (text_list command_text)
          (add_convert16 ''opt'' (ucast options)
          (add_convert16 ''perms'' (ucast max_permissions)
          (add_convert16 ''priority'' (ucast min_priority)
          (add_convert16 ''gid'' group_id
          (add_convert16 ''uid'' user_id
          (if return_pid then add_convert16 ''pid'' 1 t else t))))))))"

definition parse_create_client ::
  "local_info \<Rightarrow> data_section list \<Rightarrow>
    (u8 \<times> bool \<times> u32 \<times> u32 \<times> u8 \<times> mask16 \<times> u8 \<times> string list) option" where
  "parse_create_client l t =
     (if \<not> allow_parse_builtin l type_server type_any_client then None
      else parse_sections (\<lambda>i x (ty, pid, uid, gid, pri, perm, opt, cmd).
          if get_name x = ''type'' then
            (if command_data x = ''system'' then Next (CREATE_SYSTEM, pid, uid, gid, pri, perm, opt, cmd)
             else if command_data x = ''exec'' then
               Next (CREATE_EXEC, pid, uid, gid, pri, perm, opt, cmd)
             else Abort)
          else if get_name x = ''pid'' then
            parse16 x (\<lambda>v. (ty, v \<noteq> 0, uid, gid, pri, perm, opt, cmd))
          else if get_name x = ''uid'' then parse16 x (\<lambda>v. (ty, pid, v, gid, pri, perm, opt, cmd))
          else if get_name x = ''gid'' then parse16 x (\<lambda>v. (ty, pid, uid, v, pri, perm, opt, cmd))
          else if get_name x = ''priority'' then
            parse16 x (\<lambda>v. (ty, pid, uid, gid, ucast v, perm, opt, cmd))
          else if get_name x = ''perms'' then
            parse16 x (\<lambda>v. (ty, pid, uid, gid, pri, ucast v, opt, cmd))
          else if get_name x = ''opt'' then
            parse16 x (\<lambda>v. (ty, pid, uid, gid, pri, perm, ucast v, cmd))
          else if get_name x = ''command'' then
            parse_group x cmd (\<lambda>v. (ty, pid, uid, gid, pri, perm, opt, v))
          else Abort)
        0 t (0, False, 0, 0, 0, 0, 0, []))"

lemma parse_build_create_client:
  "build_create_client l ty pid uid gid pri perm opt cmd = Some t \<Longrightarrow>
    allow_parse_builtin m type_server type_any_client \<Longrightarrow> list_all no_NUL cmd \<Longrightarrow>
    parse_create_client m t = Some (ty, pid, uid, gid, pri, perm, opt, cmd)"
  by (auto simp: build_create_client_def parse_create_client_def add_defs
      literal_no_NUL CREATE_SYSTEM_def CREATE_EXEC_def split: if_splits)

subsection \<open>\<open>proto_detached_client\<close>\<close>

definition build_detached_client ::
  "local_info \<Rightarrow> string \<Rightarrow> u8 \<Rightarrow> mask16 \<Rightarrow> u8 \<Rightarrow> data_section list option" where
  "build_detached_client l socket_name min_priority max_permissions options =
     (if \<not> allow_create_builtin l (type_admin_client OR type_server_control) type_server then None
      else Some (add_convert16 [] (ucast options)
          (add_convert16 [] (ucast max_permissions)
          (add_convert16 [] (ucast min_priority)
          (add_text [] socket_name
          [])))))"

definition parse_detached_client :: "local_info \<Rightarrow> data_section list \<Rightarrow> (string \<times> u8 \<times> mask16 \<times> u8) option" where
  "parse_detached_client l t =
     (if \<not> allow_parse_builtin l type_server type_any_client then None
      else parse_sections (\<lambda>i x (socket_name, min_priority, max_permissions, options).
          if i = 0 then Next (command_data x, min_priority, max_permissions, options)
          else if i = 1 then parse16 x (\<lambda>v. (socket_name, ucast v, max_permissions, options))
          else if i = 2 then parse16 x (\<lambda>v. (socket_name, min_priority, ucast v, options))
          else if i = 3 then parse16 x (\<lambda>v. (socket_name, min_priority, max_permissions, ucast v))
          else Break (socket_name, min_priority, max_permissions, options))
        0 t ([], 0, 0, 0))"

lemma parse_build_detached_client:
  "build_detached_client l socket_name min_priority max_permissions options = Some t \<Longrightarrow>
    allow_parse_builtin m type_server type_any_client \<Longrightarrow> no_NUL socket_name \<Longrightarrow>
    parse_detached_client m t = Some (socket_name, min_priority, max_permissions, options)"
  by (auto simp: build_detached_client_def parse_detached_client_def add_defs split: if_splits)

subsection \<open>\<open>proto_remove_client\<close>\<close>

definition CLIENT_TERM :: u8 where "CLIENT_TERM = 0x01"
definition CLIENT_KILL :: u8 where "CLIENT_KILL = 0x02"

definition build_remove_client :: "local_info \<Rightarrow> u8 \<Rightarrow> string \<Rightarrow> data_section list option" where
  "build_remove_client l remove_type client_name =
     (if remove_type = CLIENT_TERM then
        (if \<not> allow_create_builtin l (type_admin_client OR type_server_control) type_server then None
         else Some (add_text [] client_name (add_text [] ''term'' [])))
      else if remove_type = CLIENT_KILL then
        (if \<not> allow_create_builtin l type_admin_client type_server then None
         else Some (add_text [] client_name (add_text [] ''kill'' [])))
      else None)"

definition parse_remove_client :: "local_info \<Rightarrow> data_section list \<Rightarrow> (u8 \<times> string) option" where
  "parse_remove_client l t =
     (if \<not> allow_parse_builtin l type_server type_any_client then None
      else parse_sections (\<lambda>i x (remove_type, client_name).
          if i = 0 then
            (if command_data x = ''term'' then Next (CLIENT_TERM, client_name)
             else if command_data x = ''kill'' then Next (CLIENT_KILL, client_name)
             else Abort)
          else if i = 1 then Next (remove_type, command_data x)
          else Break (remove_type, client_name))
        0 t (0, []))"

lemma parse_build_remove_client:
  "build_remove_client l remove_type client_name = Some t \<Longrightarrow>
    allow_parse_builtin m type_server type_any_client \<Longrightarrow> no_NUL client_name \<Longrightarrow>
    parse_remove_client m t = Some (remove_type, client_name)"
  by (auto simp: build_remove_client_def parse_remove_client_def add_defs literal_no_NUL
      split: if_splits)

subsection \<open>\<open>proto_remove_find_client\<close>\<close>

definition build_remove_find_client :: "local_info \<Rightarrow> u8 \<Rightarrow> string \<Rightarrow> data_section list option" where
  "build_remove_find_client l remove_type client_expression =
     (if remove_type = CLIENT_TERM then
        (if \<not> allow_create_builtin l (type_admin_client OR type_server_control) type_server then None
         else Some (add_text [] client_expression (add_text [] ''term'' [])))
      else if remove_type = CLIENT_KILL then
        (if \<not> allow_create_builtin l type_admin_client type_server then None
         else Some (add_text [] client_expression (add_text [] ''kill'' [])))
      else None)"

definition parse_remove_find_client :: "local_info \<Rightarrow> data_section list \<Rightarrow> (u8 \<times> string) option" where
  "parse_remove_find_client l t =
     (if \<not> allow_parse_builtin l type_server type_any_client then None
      else parse_sections (\<lambda>i x (remove_type, client_expression).
          if i = 0 then
            (if command_data x = ''term'' then Next (CLIENT_TERM, client_expression)
             else if command_data x = ''kill'' then Next (CLIENT_KILL, client_expression)
             else Abort)
          else if i = 1 then Next (remove_type, command_data x)
          else Break (remove_type, client_expression))
        0 t (0, []))"

lemma parse_build_remove_find_client:
  "build_remove_find_client l remove_type client_expression = Some t \<Longrightarrow>
    allow_parse_builtin m type_server type_any_client \<Longrightarrow> no_NUL client_expression \<Longrightarrow>
    parse_remove_find_client m t = Some (remove_type, client_expression)"
  by (auto simp: build_remove_find_client_def parse_remove_find_client_def add_defs literal_no_NUL
      split: if_splits)

subsection \<open>\<open>proto_remove_pid_client\<close>\<close>

definition build_remove_pid_client :: "local_info \<Rightarrow> u8 \<Rightarrow> int \<Rightarrow> data_section list option" where
  "build_remove_pid_client l remove_type client_pid =
     (if remove_type = CLIENT_TERM then
        (if \<not> allow_create_builtin l (type_admin_client OR type_server_control) type_server then None
         else Some (add_convert10 [] client_pid (add_text [] ''term'' [])))
      else if remove_type = CLIENT_KILL then
        (if \<not> allow_create_builtin l type_admin_client type_server then None
         else Some (add_convert10 [] client_pid (add_text [] ''kill'' [])))
      else None)"

definition parse_remove_pid_client :: "local_info \<Rightarrow> data_section list \<Rightarrow> (u8 \<times> int) option" where
  "parse_remove_pid_client l t =
     (if \<not> allow_parse_builtin l type_server type_any_client then None
      else parse_sections (\<lambda>i x (remove_type, client_pid).
          if i = 0 then
            (if command_data x = ''term'' then Next (CLIENT_TERM, client_pid)
             else if command_data x = ''kill'' then Next (CLIENT_KILL, client_pid)
             else Abort)
          else if i = 1 then parse10 x (\<lambda>v. (remove_type, v))
          else Break (remove_type, client_pid))
        0 t (0, -1))"

lemma parse_build_remove_pid_client:
  "build_remove_pid_client l remove_type client_pid = Some t \<Longrightarrow>
    allow_parse_builtin m type_server type_any_client \<Longrightarrow> - (2 ^ 31) \<le> client_pid \<Longrightarrow> client_pid < 2 ^ 31 \<Longrightarrow>
    parse_remove_pid_client m t = Some (remove_type, client_pid)"
  by (auto simp: build_remove_pid_client_def parse_remove_pid_client_def add_defs literal_no_NUL
      split: if_splits)

subsection \<open>\<open>proto_terminate_server\<close>\<close>

definition build_terminate_server ::
  "local_info \<Rightarrow> data_section list option" where
  "build_terminate_server l =
     (if \<not> allow_create_builtin l (type_admin_client OR type_server_control) type_server then None
      else Some (add_empty []))"

definition parse_terminate_server :: "local_info \<Rightarrow> data_section list \<Rightarrow> unit option" where
  "parse_terminate_server l t =
     (if \<not> allow_parse_builtin l type_server type_any_client then None
      else Some ())"

lemma parse_build_terminate_server:
  "build_terminate_server l = Some t \<Longrightarrow>
    allow_parse_builtin m type_server type_any_client \<Longrightarrow>
    parse_terminate_server m t = Some ()"
  by (auto simp: build_terminate_server_def parse_terminate_server_def add_defs split: if_splits)

subsection \<open>\<open>proto_find_clients\<close>\<close>

definition build_find_clients ::
  "local_info \<Rightarrow> string \<Rightarrow> mask16 \<Rightarrow> mask16 \<Rightarrow> data_section list option" where
  "build_find_clients l name_expression required denied =
     (if \<not> allow_create_builtin l type_admin_client type_server then None
      else Some (add_convert16 [] (ucast denied)
          (add_convert16 [] (ucast required)
          (add_text [] name_expression
          []))))"

definition parse_find_clients :: "local_info \<Rightarrow> data_section list \<Rightarrow> (string \<times> mask16 \<times> mask16) option" where
  "parse_find_clients l t =
     (if \<not> allow_parse_builtin l type_admin_client type_none then None
      else parse_sections (\<lambda>i x (name_expression, required, denied).
          if i = 0 then Next (command_data x, required, denied)
          else if i = 1 then parse16 x (\<lambda>v. (name_expression, ucast v, denied))
          else if i = 2 then parse16 x (\<lambda>v. (name_expression, required, ucast v))
          else Break (name_expression, required, denied))
        0 t ([], 0, NOT 0))"

lemma parse_build_find_clients:
  "build_find_clients l name_expression required denied = Some t \<Longrightarrow>
    allow_parse_builtin m type_admin_client type_none \<Longrightarrow> no_NUL name_expression \<Longrightarrow>
    parse_find_clients m t = Some (name_expression, required, denied)"
  by (auto simp: build_find_clients_def parse_find_clients_def add_defs split: if_splits)

subsection \<open>\<open>proto_find_control_clients\<close>\<close>

definition build_find_control_clients ::
  "local_info \<Rightarrow> string \<Rightarrow> data_section list option" where
  "build_find_control_clients l name_expression =
     (if \<not> allow_create_builtin l type_control_client type_server then None
      else Some (add_text [] name_expression
          []))"

definition parse_find_control_clients :: "local_info \<Rightarrow> data_section list \<Rightarrow> string option" where
  "parse_find_control_clients l t =
     (if \<not> allow_parse_builtin l type_active_client type_none then None
      else parse_sections (\<lambda>i x name_expression.
          if i = 0 then Next (command_data x)
          else Break name_expression)
        0 t [])"

lemma parse_build_find_control_clients:
  "build_find_control_clients l name_expression = Some t \<Longrightarrow>
    allow_parse_builtin m type_active_client type_none \<Longrightarrow> no_NUL name_expression \<Longrightarrow>
    parse_find_control_clients m t = Some name_expression"
  by (auto simp: build_find_control_clients_def parse_find_control_clients_def add_defs split: if_splits)

subsection \<open>\<open>proto_set_monitor_types\<close>\<close>

definition build_set_monitor_types ::
  "local_info \<Rightarrow> u32 \<Rightarrow> data_section list option" where
  "build_set_monitor_types l monitor_types =
     (if \<not> allow_create_builtin l type_monitor_client type_server then None
      else Some (add_convert16 [] monitor_types
          []))"

definition parse_set_monitor_types :: "local_info \<Rightarrow> data_section list \<Rightarrow> u32 option" where
  "parse_set_monitor_types l t =
     (if \<not> allow_parse_builtin l type_server type_any_client then None
      else parse_sections (\<lambda>i x monitor_types.
          if i = 0 then parse16 x (\<lambda>v. v)
          else Break monitor_types)
        0 t monitor_none)"

lemma parse_build_set_monitor_types:
  "build_set_monitor_types l monitor_types = Some t \<Longrightarrow>
    allow_parse_builtin m type_server type_any_client \<Longrightarrow>
    parse_set_monitor_types m t = Some monitor_types"
  by (auto simp: build_set_monitor_types_def parse_set_monitor_types_def add_defs split: if_splits)

section \<open>The group as one type\<close>

datatype admin_body =
    Create_Client u8 bool u32 u32 u8 mask16 u8 "string list"
  | Detached_Client string u8 mask16 u8
  | Remove_Client u8 string
  | Remove_Find_Client u8 string
  | Remove_Pid_Client u8 int
  | Terminate_Server
  | Find_Clients string mask16 mask16
  | Find_Control_Clients string
  | Set_Monitor_Types u32

text \<open>\<open>RSERVR_BUILTIN_TAG\<close>: the label of a command.\<close>

fun admin_tag :: "admin_body \<Rightarrow> string" where
  "admin_tag (Create_Client _ _ _ _ _ _ _ _) = ''proto_create_client''"
| "admin_tag (Detached_Client _ _ _ _) = ''proto_detached_client''"
| "admin_tag (Remove_Client _ _) = ''proto_remove_client''"
| "admin_tag (Remove_Find_Client _ _) = ''proto_remove_find_client''"
| "admin_tag (Remove_Pid_Client _ _) = ''proto_remove_pid_client''"
| "admin_tag Terminate_Server = ''proto_terminate_server''"
| "admin_tag (Find_Clients _ _ _) = ''proto_find_clients''"
| "admin_tag (Find_Control_Clients _) = ''proto_find_control_clients''"
| "admin_tag (Set_Monitor_Types _) = ''proto_set_monitor_types''"

fun admin_build :: "local_info \<Rightarrow> admin_body \<Rightarrow> data_section list option" where
  "admin_build l (Create_Client a b c d e f g h) = build_create_client l a b c d e f g h"
| "admin_build l (Detached_Client a b c d) = build_detached_client l a b c d"
| "admin_build l (Remove_Client a b) = build_remove_client l a b"
| "admin_build l (Remove_Find_Client a b) = build_remove_find_client l a b"
| "admin_build l (Remove_Pid_Client a b) = build_remove_pid_client l a b"
| "admin_build l Terminate_Server = build_terminate_server l"
| "admin_build l (Find_Clients a b c) = build_find_clients l a b c"
| "admin_build l (Find_Control_Clients a) = build_find_control_clients l a"
| "admin_build l (Set_Monitor_Types a) = build_set_monitor_types l a"

text \<open>\<open>generate\<close> for the label, then \<open>compile_command\<close>.\<close>

definition admin_parse :: "local_info \<Rightarrow> string \<Rightarrow> data_section list \<Rightarrow> admin_body option" where
  "admin_parse l label t =
     (if label = ''proto_create_client'' then map_option (\<lambda>(a, b, c, d, e, f, g, h). Create_Client a b c d e f g h) (parse_create_client l t)
      else if label = ''proto_detached_client'' then map_option (\<lambda>(a, b, c, d). Detached_Client a b c d) (parse_detached_client l t)
      else if label = ''proto_remove_client'' then map_option (\<lambda>(a, b). Remove_Client a b) (parse_remove_client l t)
      else if label = ''proto_remove_find_client'' then map_option (\<lambda>(a, b). Remove_Find_Client a b) (parse_remove_find_client l t)
      else if label = ''proto_remove_pid_client'' then map_option (\<lambda>(a, b). Remove_Pid_Client a b) (parse_remove_pid_client l t)
      else if label = ''proto_terminate_server'' then map_option (\<lambda>_. Terminate_Server) (parse_terminate_server l t)
      else if label = ''proto_find_clients'' then map_option (\<lambda>(a, b, c). Find_Clients a b c) (parse_find_clients l t)
      else if label = ''proto_find_control_clients'' then map_option (\<lambda>a. Find_Control_Clients a) (parse_find_control_clients l t)
      else if label = ''proto_set_monitor_types'' then map_option (\<lambda>a. Set_Monitor_Types a) (parse_set_monitor_types l t)
      else None)"

fun admin_permissions :: "admin_body \<Rightarrow> mask16" where
  "admin_permissions (Create_Client _ _ _ _ _ _ _ _) = type_admin_client"
| "admin_permissions (Detached_Client _ _ _ _) = type_admin_client"
| "admin_permissions (Remove_Client _ _) = type_admin_client"
| "admin_permissions (Remove_Find_Client _ _) = type_admin_client"
| "admin_permissions (Remove_Pid_Client _ _) = type_admin_client"
| "admin_permissions Terminate_Server = type_admin_client"
| "admin_permissions (Find_Clients _ _ _) = type_admin_client"
| "admin_permissions (Find_Control_Clients _) = type_control_client"
| "admin_permissions (Set_Monitor_Types _) = type_monitor_client"

fun admin_override :: "admin_body \<Rightarrow> u8 \<Rightarrow> u8" where
  "admin_override (Create_Client _ _ _ _ _ _ _ _) p = p"
| "admin_override (Detached_Client _ _ _ _) p = p"
| "admin_override (Remove_Client _ _) p = priority_immediate"
| "admin_override (Remove_Find_Client _ _) p = priority_immediate"
| "admin_override (Remove_Pid_Client _ _) p = priority_immediate"
| "admin_override Terminate_Server p = priority_immediate"
| "admin_override (Find_Clients _ _ _) p = priority_immediate"
| "admin_override (Find_Control_Clients _) p = p"
| "admin_override (Set_Monitor_Types _) p = p"

fun admin_generator :: "admin_body \<Rightarrow> command_generator" where
  "admin_generator (Create_Client _ _ _ _ _ _ _ _) =
     generator type_admin_client type_server type_server type_any_client
       (command_server OR command_builtin OR command_no_remote)"
| "admin_generator (Detached_Client _ _ _ _) =
     generator (type_admin_client OR type_server_control) type_server type_server type_any_client
       (command_server OR command_builtin OR command_no_remote)"
| "admin_generator (Remove_Client _ _) =
     generator type_admin_client type_server type_server type_any_client
       (command_server OR command_builtin OR command_no_remote)"
| "admin_generator (Remove_Find_Client _ _) =
     generator type_admin_client type_server type_server type_any_client
       (command_server OR command_builtin OR command_no_remote)"
| "admin_generator (Remove_Pid_Client _ _) =
     generator type_admin_client type_server type_server type_any_client
       (command_server OR command_builtin OR command_no_remote)"
| "admin_generator Terminate_Server =
     generator (type_admin_client OR type_server_control) type_server type_server type_any_client
       (command_server OR command_builtin OR command_no_remote)"
| "admin_generator (Find_Clients _ _ _) =
     generator type_admin_client type_server type_admin_client type_none
       (command_server OR command_builtin)"
| "admin_generator (Find_Control_Clients _) =
     generator type_control_client type_server type_active_client type_none
       (command_server OR command_builtin)"
| "admin_generator (Set_Monitor_Types _) =
     generator type_monitor_client type_server type_server type_any_client
       (command_server OR command_builtin OR command_no_remote)"

text \<open>Texts without null characters, numbers in the range of their C type.\<close>

fun admin_ok :: "admin_body \<Rightarrow> bool" where
  "admin_ok (Create_Client _ _ _ _ _ _ _ h) \<longleftrightarrow> list_all no_NUL h"
| "admin_ok (Detached_Client a _ _ _) \<longleftrightarrow> no_NUL a"
| "admin_ok (Remove_Client _ b) \<longleftrightarrow> no_NUL b"
| "admin_ok (Remove_Find_Client _ b) \<longleftrightarrow> no_NUL b"
| "admin_ok (Remove_Pid_Client _ b) \<longleftrightarrow> - (2 ^ 31) \<le> b \<and> b < 2 ^ 31"
| "admin_ok Terminate_Server \<longleftrightarrow> True"
| "admin_ok (Find_Clients a _ _) \<longleftrightarrow> no_NUL a"
| "admin_ok (Find_Control_Clients a) \<longleftrightarrow> no_NUL a"
| "admin_ok (Set_Monitor_Types _) \<longleftrightarrow> True"

lemmas admin_parse_build =
  parse_build_create_client parse_build_detached_client parse_build_remove_client
  parse_build_remove_find_client parse_build_remove_pid_client parse_build_terminate_server
  parse_build_find_clients parse_build_find_control_clients parse_build_set_monitor_types

lemma admin_round_trip:
  assumes "admin_build l b = Some t"
    and "parse_permissions_gen m (admin_generator b)" and "admin_ok b"
  shows "admin_parse m (admin_tag b) t = Some b"
  using assms
  by (cases b) (auto simp: admin_parse_def parse_permissions_gen_def generator_not_plugin
      intro: admin_parse_build)

end
