(* ===== verification/Proto_Resource.thy ===== *)
theory Proto_Resource
  imports Sections
begin

text \<open>
  This theory holds the commands of resource clients: services, remote service actions, exit monitors (\<open>libs/proto/proto-resource/proto-resource-client.cpp\<close>):
  for each its fields, \<open>assemble_command\<close> (\<open>build_...\<close>), \<open>compile_command\<close>
  (\<open>parse_...\<close>), its generator, \<open>execute_permissions\<close> and \<open>override_priority\<close>. The lemmas
  \<open>parse_build_...\<close> are the round trips of the single commands, \<open>resource_round_trip\<close> the one of the
  group.
\<close>

section \<open>The commands\<close>

subsection \<open>\<open>proto_register_service\<close>\<close>

definition build_register_service ::
  "local_info \<Rightarrow> string \<Rightarrow> string \<Rightarrow> data_section list option" where
  "build_register_service l service_name service_type =
     (if \<not> allow_create_builtin l type_resource_client type_server then None
      else Some (add_text [] service_type
          (add_text [] service_name
          [])))"

definition parse_register_service :: "local_info \<Rightarrow> data_section list \<Rightarrow> (string \<times> string) option" where
  "parse_register_service l t =
     (if \<not> allow_parse_builtin l type_none type_admin_client then None
      else parse_sections (\<lambda>i x (service_name, service_type).
          if i = 0 then Next (command_data x, service_type)
          else if i = 1 then Next (service_name, command_data x)
          else Break (service_name, service_type))
        0 t ([], []))"

lemma parse_build_register_service:
  "build_register_service l service_name service_type = Some t \<Longrightarrow>
    allow_parse_builtin m type_none type_admin_client \<Longrightarrow> no_NUL service_name \<Longrightarrow> no_NUL service_type \<Longrightarrow>
    parse_register_service m t = Some (service_name, service_type)"
  by (auto simp: build_register_service_def parse_register_service_def add_defs split: if_splits)

subsection \<open>\<open>proto_deregister_own_service\<close>\<close>

definition build_deregister_own_service ::
  "local_info \<Rightarrow> string \<Rightarrow> data_section list option" where
  "build_deregister_own_service l service_name =
     (if \<not> allow_create_builtin l type_resource_client type_server then None
      else Some (add_text [] service_name
          []))"

definition parse_deregister_own_service :: "local_info \<Rightarrow> data_section list \<Rightarrow> string option" where
  "parse_deregister_own_service l t =
     (if \<not> allow_parse_builtin l type_none type_admin_client then None
      else parse_sections (\<lambda>i x service_name.
          if i = 0 then Next (command_data x)
          else Break service_name)
        0 t [])"

lemma parse_build_deregister_own_service:
  "build_deregister_own_service l service_name = Some t \<Longrightarrow>
    allow_parse_builtin m type_none type_admin_client \<Longrightarrow> no_NUL service_name \<Longrightarrow>
    parse_deregister_own_service m t = Some service_name"
  by (auto simp: build_deregister_own_service_def parse_deregister_own_service_def add_defs split: if_splits)

subsection \<open>\<open>proto_deregister_all_own_services\<close>\<close>

definition build_deregister_all_own_services ::
  "local_info \<Rightarrow> data_section list option" where
  "build_deregister_all_own_services l =
     (if \<not> allow_create_builtin l type_resource_client type_server then None
      else Some (add_empty []))"

definition parse_deregister_all_own_services :: "local_info \<Rightarrow> data_section list \<Rightarrow> unit option" where
  "parse_deregister_all_own_services l t =
     (if \<not> allow_parse_builtin l type_none type_admin_client then None
      else Some ())"

lemma parse_build_deregister_all_own_services:
  "build_deregister_all_own_services l = Some t \<Longrightarrow>
    allow_parse_builtin m type_none type_admin_client \<Longrightarrow>
    parse_deregister_all_own_services m t = Some ()"
  by (auto simp: build_deregister_all_own_services_def parse_deregister_all_own_services_def add_defs split: if_splits)

subsection \<open>\<open>proto_deregister_remote_services\<close>\<close>

definition build_deregister_remote_services ::
  "local_info \<Rightarrow> string \<Rightarrow> data_section list option" where
  "build_deregister_remote_services l service_location =
     (if \<not> allow_create_builtin l type_resource_client type_server then None
      else Some (add_text [] service_location
          []))"

definition parse_deregister_remote_services :: "local_info \<Rightarrow> data_section list \<Rightarrow> string option" where
  "parse_deregister_remote_services l t =
     (if \<not> allow_parse_builtin l type_none type_admin_client then None
      else parse_sections (\<lambda>i x service_location.
          if i = 0 then Next (command_data x)
          else Break service_location)
        0 t [])"

lemma parse_build_deregister_remote_services:
  "build_deregister_remote_services l service_location = Some t \<Longrightarrow>
    allow_parse_builtin m type_none type_admin_client \<Longrightarrow> no_NUL service_location \<Longrightarrow>
    parse_deregister_remote_services m t = Some service_location"
  by (auto simp: build_deregister_remote_services_def parse_deregister_remote_services_def add_defs split: if_splits)

subsection \<open>\<open>proto_find_resource_clients\<close>\<close>

definition build_find_resource_clients ::
  "local_info \<Rightarrow> string \<Rightarrow> data_section list option" where
  "build_find_resource_clients l name_expression =
     (if \<not> allow_create_builtin l type_resource_client type_server then None
      else Some (add_text [] name_expression
          []))"

definition parse_find_resource_clients :: "local_info \<Rightarrow> data_section list \<Rightarrow> string option" where
  "parse_find_resource_clients l t =
     (if \<not> allow_parse_builtin l type_active_client type_none then None
      else parse_sections (\<lambda>i x name_expression.
          if i = 0 then Next (command_data x)
          else Break name_expression)
        0 t [])"

lemma parse_build_find_resource_clients:
  "build_find_resource_clients l name_expression = Some t \<Longrightarrow>
    allow_parse_builtin m type_active_client type_none \<Longrightarrow> no_NUL name_expression \<Longrightarrow>
    parse_find_resource_clients m t = Some name_expression"
  by (auto simp: build_find_resource_clients_def parse_find_resource_clients_def add_defs split: if_splits)

text \<open>The fields \<open>action\<close> and \<open>direction\<close> are bit fields of two bits
  (\<open>proto-resource-client.hpp\<close>); the values are those of \<open>remote-service.h\<close>.\<close>

definition RSERVR_REMOTE_TOWARD_SERVER :: u2 where "RSERVR_REMOTE_TOWARD_SERVER = 0x01"
definition RSERVR_REMOTE_TOWARD_CLIENT :: u2 where "RSERVR_REMOTE_TOWARD_CLIENT = 0x02"
definition RSERVR_REMOTE_MONITOR :: u2 where "RSERVR_REMOTE_MONITOR = 0x01"
definition RSERVR_REMOTE_UNMONITOR :: u2 where "RSERVR_REMOTE_UNMONITOR = 0x02"

subsection \<open>\<open>proto_remote_service_action\<close>\<close>

definition build_remote_service_action ::
  "local_info \<Rightarrow> u2 \<Rightarrow> string \<Rightarrow> string \<Rightarrow> data_section list option" where
  "build_remote_service_action l action service_name complete_address =
     (if \<not> allow_create_builtin l type_server type_any_client then None
      else Some (add_text [] complete_address
          (add_text [] service_name
          (add_convert16 [] (ucast action)
          []))))"

definition parse_remote_service_action :: "local_info \<Rightarrow> data_section list \<Rightarrow> (u2 \<times> string \<times> string) option" where
  "parse_remote_service_action l t =
     (if \<not> allow_parse_builtin l type_none type_admin_client then None
      else parse_sections (\<lambda>i x (action, service_name, complete_address).
          if i = 0 then parse16 x (\<lambda>v. (ucast v, service_name, complete_address))
          else if i = 1 then Next (action, command_data x, complete_address)
          else if i = 2 then Next (action, service_name, command_data x)
          else Break (action, service_name, complete_address))
        0 t (0, [], []))"

lemma parse_build_remote_service_action:
  "build_remote_service_action l action service_name complete_address = Some t \<Longrightarrow>
    allow_parse_builtin m type_none type_admin_client \<Longrightarrow> no_NUL service_name \<Longrightarrow> no_NUL complete_address \<Longrightarrow>
    parse_remote_service_action m t = Some (action, service_name, complete_address)"
  by (auto simp: build_remote_service_action_def parse_remote_service_action_def add_defs split: if_splits)

subsection \<open>\<open>proto_remote_service_back_action\<close>\<close>

definition build_remote_service_back_action ::
  "local_info \<Rightarrow> u2 \<Rightarrow> u2 \<Rightarrow> string \<Rightarrow> string \<Rightarrow> string \<Rightarrow> data_section list option" where
  "build_remote_service_back_action l direction action service_name address_supplement complete_address =
     (if \<not> allow_create_builtin l type_resource_client type_server then None
      else Some (add_text [] complete_address
          (add_text [] address_supplement
          (add_text [] service_name
          (add_convert16 [] (ucast action)
          (add_convert16 [] (ucast direction)
          []))))))"

definition parse_remote_service_back_action :: "local_info \<Rightarrow> data_section list \<Rightarrow> (u2 \<times> u2 \<times> string \<times> string \<times> string) option" where
  "parse_remote_service_back_action l t =
     (if \<not> allow_parse_builtin l type_none type_admin_client then None
      else parse_sections (\<lambda>i x (direction, action, service_name, address_supplement, complete_address).
          if i = 0 then parse16 x (\<lambda>v. (ucast v, action, service_name, address_supplement, complete_address))
          else if i = 1 then parse16 x (\<lambda>v. (direction, ucast v, service_name, address_supplement, complete_address))
          else if i = 2 then Next (direction, action, command_data x, address_supplement, complete_address)
          else if i = 3 then Next (direction, action, service_name, command_data x, complete_address)
          else if i = 4 then Next (direction, action, service_name, address_supplement, command_data x)
          else Break (direction, action, service_name, address_supplement, complete_address))
        0 t (0, 0, [], [], []))"

lemma parse_build_remote_service_back_action:
  "build_remote_service_back_action l direction action service_name address_supplement complete_address = Some t \<Longrightarrow>
    allow_parse_builtin m type_none type_admin_client \<Longrightarrow> no_NUL service_name \<Longrightarrow> no_NUL address_supplement \<Longrightarrow> no_NUL complete_address \<Longrightarrow>
    parse_remote_service_back_action m t = Some (direction, action, service_name, address_supplement, complete_address)"
  by (auto simp: build_remote_service_back_action_def parse_remote_service_back_action_def add_defs split: if_splits)

subsection \<open>\<open>proto_remote_service_disconnect\<close>\<close>

definition build_remote_service_disconnect ::
  "local_info \<Rightarrow> u2 \<Rightarrow> string \<Rightarrow> string \<Rightarrow> data_section list option" where
  "build_remote_service_disconnect l direction service_name complete_address =
     (if \<not> allow_create_builtin l type_resource_client type_server then None
      else Some (add_text [] complete_address
          (add_text [] service_name
          (add_convert16 [] (ucast direction)
          []))))"

definition parse_remote_service_disconnect :: "local_info \<Rightarrow> data_section list \<Rightarrow> (u2 \<times> string \<times> string) option" where
  "parse_remote_service_disconnect l t =
     (if \<not> allow_parse_builtin l type_resource_client type_none then None
      else parse_sections (\<lambda>i x (direction, service_name, complete_address).
          if i = 0 then parse16 x (\<lambda>v. (ucast v, service_name, complete_address))
          else if i = 1 then Next (direction, command_data x, complete_address)
          else if i = 2 then Next (direction, service_name, command_data x)
          else Break (direction, service_name, complete_address))
        0 t (0, [], []))"

lemma parse_build_remote_service_disconnect:
  "build_remote_service_disconnect l direction service_name complete_address = Some t \<Longrightarrow>
    allow_parse_builtin m type_resource_client type_none \<Longrightarrow> no_NUL service_name \<Longrightarrow> no_NUL complete_address \<Longrightarrow>
    parse_remote_service_disconnect m t = Some (direction, service_name, complete_address)"
  by (auto simp: build_remote_service_disconnect_def parse_remote_service_disconnect_def add_defs split: if_splits)

subsection \<open>\<open>proto_monitor_resource_exit\<close>\<close>

definition build_monitor_resource_exit ::
  "local_info \<Rightarrow> string \<Rightarrow> data_section list option" where
  "build_monitor_resource_exit l resource_name =
     (if \<not> allow_create_builtin l type_resource_client type_server then None
      else Some (add_text [] resource_name
          []))"

definition parse_monitor_resource_exit :: "local_info \<Rightarrow> data_section list \<Rightarrow> string option" where
  "parse_monitor_resource_exit l t =
     (if \<not> allow_parse_builtin l type_resource_client type_none then None
      else parse_sections (\<lambda>i x resource_name.
          if i = 0 then Next (command_data x)
          else Break resource_name)
        0 t [])"

lemma parse_build_monitor_resource_exit:
  "build_monitor_resource_exit l resource_name = Some t \<Longrightarrow>
    allow_parse_builtin m type_resource_client type_none \<Longrightarrow> no_NUL resource_name \<Longrightarrow>
    parse_monitor_resource_exit m t = Some resource_name"
  by (auto simp: build_monitor_resource_exit_def parse_monitor_resource_exit_def add_defs split: if_splits)

subsection \<open>\<open>proto_unmonitor_resource_exit\<close>\<close>

definition build_unmonitor_resource_exit ::
  "local_info \<Rightarrow> string \<Rightarrow> data_section list option" where
  "build_unmonitor_resource_exit l resource_name =
     (if \<not> allow_create_builtin l type_resource_client type_server then None
      else Some (add_text [] resource_name
          []))"

definition parse_unmonitor_resource_exit :: "local_info \<Rightarrow> data_section list \<Rightarrow> string option" where
  "parse_unmonitor_resource_exit l t =
     (if \<not> allow_parse_builtin l type_resource_client type_none then None
      else parse_sections (\<lambda>i x resource_name.
          if i = 0 then Next (command_data x)
          else Break resource_name)
        0 t [])"

lemma parse_build_unmonitor_resource_exit:
  "build_unmonitor_resource_exit l resource_name = Some t \<Longrightarrow>
    allow_parse_builtin m type_resource_client type_none \<Longrightarrow> no_NUL resource_name \<Longrightarrow>
    parse_unmonitor_resource_exit m t = Some resource_name"
  by (auto simp: build_unmonitor_resource_exit_def parse_unmonitor_resource_exit_def add_defs split: if_splits)

subsection \<open>\<open>proto_resource_exit\<close>\<close>

definition build_resource_exit ::
  "local_info \<Rightarrow> string \<Rightarrow> data_section list option" where
  "build_resource_exit l resource_name =
     (if \<not> allow_create_builtin l type_server type_any_client then None
      else Some (add_text [] resource_name
          []))"

definition parse_resource_exit :: "local_info \<Rightarrow> data_section list \<Rightarrow> string option" where
  "parse_resource_exit l t =
     (if \<not> allow_parse_builtin l type_resource_client type_none then None
      else parse_sections (\<lambda>i x resource_name.
          if i = 0 then Next (command_data x)
          else Break resource_name)
        0 t [])"

lemma parse_build_resource_exit:
  "build_resource_exit l resource_name = Some t \<Longrightarrow>
    allow_parse_builtin m type_resource_client type_none \<Longrightarrow> no_NUL resource_name \<Longrightarrow>
    parse_resource_exit m t = Some resource_name"
  by (auto simp: build_resource_exit_def parse_resource_exit_def add_defs split: if_splits)

section \<open>The group as one type\<close>

datatype resource_body =
    Register_Service string string
  | Deregister_Own_Service string
  | Deregister_All_Own_Services
  | Deregister_Remote_Services string
  | Find_Resource_Clients string
  | Remote_Service_Action u2 string string
  | Remote_Service_Back_Action u2 u2 string string string
  | Remote_Service_Disconnect u2 string string
  | Monitor_Resource_Exit string
  | Unmonitor_Resource_Exit string
  | Resource_Exit string

text \<open>\<open>RSERVR_BUILTIN_TAG\<close>: the label of a command.\<close>

fun resource_tag :: "resource_body \<Rightarrow> string" where
  "resource_tag (Register_Service _ _) = ''proto_register_service''"
| "resource_tag (Deregister_Own_Service _) = ''proto_deregister_own_service''"
| "resource_tag Deregister_All_Own_Services = ''proto_deregister_all_own_services''"
| "resource_tag (Deregister_Remote_Services _) = ''proto_deregister_remote_services''"
| "resource_tag (Find_Resource_Clients _) = ''proto_find_resource_clients''"
| "resource_tag (Remote_Service_Action _ _ _) = ''proto_remote_service_action''"
| "resource_tag (Remote_Service_Back_Action _ _ _ _ _) = ''proto_remote_service_back_action''"
| "resource_tag (Remote_Service_Disconnect _ _ _) = ''proto_remote_service_disconnect''"
| "resource_tag (Monitor_Resource_Exit _) = ''proto_monitor_resource_exit''"
| "resource_tag (Unmonitor_Resource_Exit _) = ''proto_unmonitor_resource_exit''"
| "resource_tag (Resource_Exit _) = ''proto_resource_exit''"

fun resource_build :: "local_info \<Rightarrow> resource_body \<Rightarrow> data_section list option" where
  "resource_build l (Register_Service a b) = build_register_service l a b"
| "resource_build l (Deregister_Own_Service a) = build_deregister_own_service l a"
| "resource_build l Deregister_All_Own_Services = build_deregister_all_own_services l"
| "resource_build l (Deregister_Remote_Services a) = build_deregister_remote_services l a"
| "resource_build l (Find_Resource_Clients a) = build_find_resource_clients l a"
| "resource_build l (Remote_Service_Action a b c) = build_remote_service_action l a b c"
| "resource_build l (Remote_Service_Back_Action a b c d e) = build_remote_service_back_action l a b c d e"
| "resource_build l (Remote_Service_Disconnect a b c) = build_remote_service_disconnect l a b c"
| "resource_build l (Monitor_Resource_Exit a) = build_monitor_resource_exit l a"
| "resource_build l (Unmonitor_Resource_Exit a) = build_unmonitor_resource_exit l a"
| "resource_build l (Resource_Exit a) = build_resource_exit l a"

text \<open>\<open>generate\<close> for the label, then \<open>compile_command\<close>.\<close>

definition resource_parse :: "local_info \<Rightarrow> string \<Rightarrow> data_section list \<Rightarrow> resource_body option" where
  "resource_parse l label t =
     (if label = ''proto_register_service'' then map_option (\<lambda>(a, b). Register_Service a b) (parse_register_service l t)
      else if label = ''proto_deregister_own_service'' then map_option (\<lambda>a. Deregister_Own_Service a) (parse_deregister_own_service l t)
      else if label = ''proto_deregister_all_own_services'' then map_option (\<lambda>_. Deregister_All_Own_Services) (parse_deregister_all_own_services l t)
      else if label = ''proto_deregister_remote_services'' then map_option (\<lambda>a. Deregister_Remote_Services a) (parse_deregister_remote_services l t)
      else if label = ''proto_find_resource_clients'' then map_option (\<lambda>a. Find_Resource_Clients a) (parse_find_resource_clients l t)
      else if label = ''proto_remote_service_action'' then map_option (\<lambda>(a, b, c). Remote_Service_Action a b c) (parse_remote_service_action l t)
      else if label = ''proto_remote_service_back_action'' then map_option (\<lambda>(a, b, c, d, e). Remote_Service_Back_Action a b c d e) (parse_remote_service_back_action l t)
      else if label = ''proto_remote_service_disconnect'' then map_option (\<lambda>(a, b, c). Remote_Service_Disconnect a b c) (parse_remote_service_disconnect l t)
      else if label = ''proto_monitor_resource_exit'' then map_option (\<lambda>a. Monitor_Resource_Exit a) (parse_monitor_resource_exit l t)
      else if label = ''proto_unmonitor_resource_exit'' then map_option (\<lambda>a. Unmonitor_Resource_Exit a) (parse_unmonitor_resource_exit l t)
      else if label = ''proto_resource_exit'' then map_option (\<lambda>a. Resource_Exit a) (parse_resource_exit l t)
      else None)"

fun resource_permissions :: "resource_body \<Rightarrow> mask16" where
  "resource_permissions (Register_Service _ _) = type_resource_client"
| "resource_permissions (Deregister_Own_Service _) = type_resource_client"
| "resource_permissions Deregister_All_Own_Services = type_resource_client"
| "resource_permissions (Deregister_Remote_Services _) = type_resource_client"
| "resource_permissions (Find_Resource_Clients _) = type_resource_client"
| "resource_permissions (Remote_Service_Action _ _ _) = type_resource_client"
| "resource_permissions (Remote_Service_Back_Action _ _ _ _ _) = type_resource_client"
| "resource_permissions (Remote_Service_Disconnect _ _ _) = type_resource_client"
| "resource_permissions (Monitor_Resource_Exit _) = type_resource_client"
| "resource_permissions (Unmonitor_Resource_Exit _) = type_resource_client"
| "resource_permissions (Resource_Exit _) = type_resource_client"

fun resource_override :: "resource_body \<Rightarrow> u8 \<Rightarrow> u8" where
  "resource_override (Register_Service _ _) p = p"
| "resource_override (Deregister_Own_Service _) p = p"
| "resource_override Deregister_All_Own_Services p = p"
| "resource_override (Deregister_Remote_Services _) p = p"
| "resource_override (Find_Resource_Clients _) p = p"
| "resource_override (Remote_Service_Action _ _ _) p = p"
| "resource_override (Remote_Service_Back_Action _ _ _ _ _) p = p"
| "resource_override (Remote_Service_Disconnect _ _ _) p = p"
| "resource_override (Monitor_Resource_Exit _) p = p"
| "resource_override (Unmonitor_Resource_Exit _) p = p"
| "resource_override (Resource_Exit _) p = p"

fun resource_generator :: "resource_body \<Rightarrow> command_generator" where
  "resource_generator (Register_Service _ _) =
     generator type_resource_client type_server type_none type_admin_client
       (command_server OR command_builtin)"
| "resource_generator (Deregister_Own_Service _) =
     generator type_resource_client type_server type_none type_admin_client
       (command_server OR command_builtin)"
| "resource_generator Deregister_All_Own_Services =
     generator type_resource_client type_server type_none type_admin_client
       (command_server OR command_builtin)"
| "resource_generator (Deregister_Remote_Services _) =
     generator type_resource_client type_server type_none type_admin_client
       (command_server OR command_builtin)"
| "resource_generator (Find_Resource_Clients _) =
     generator type_resource_client type_server type_active_client type_none
       (command_server OR command_builtin)"
| "resource_generator (Remote_Service_Action _ _ _) =
     generator type_server type_any_client type_none type_admin_client
       (command_response OR command_builtin)"
| "resource_generator (Remote_Service_Back_Action _ _ _ _ _) =
     generator type_resource_client type_server type_none type_admin_client
       (command_response OR command_builtin)"
| "resource_generator (Remote_Service_Disconnect _ _ _) =
     generator type_resource_client type_server type_resource_client type_none
       (command_response OR command_builtin)"
| "resource_generator (Monitor_Resource_Exit _) =
     generator type_resource_client type_server type_resource_client type_none
       (command_server OR command_builtin OR command_no_remote)"
| "resource_generator (Unmonitor_Resource_Exit _) =
     generator type_resource_client type_server type_resource_client type_none
       (command_server OR command_builtin OR command_no_remote)"
| "resource_generator (Resource_Exit _) =
     generator type_server type_any_client type_resource_client type_none
       (command_request OR command_builtin OR command_no_remote)"

text \<open>Texts without null characters, numbers in the range of their C type.\<close>

fun resource_ok :: "resource_body \<Rightarrow> bool" where
  "resource_ok (Register_Service a b) \<longleftrightarrow> no_NUL a \<and> no_NUL b"
| "resource_ok (Deregister_Own_Service a) \<longleftrightarrow> no_NUL a"
| "resource_ok Deregister_All_Own_Services \<longleftrightarrow> True"
| "resource_ok (Deregister_Remote_Services a) \<longleftrightarrow> no_NUL a"
| "resource_ok (Find_Resource_Clients a) \<longleftrightarrow> no_NUL a"
| "resource_ok (Remote_Service_Action _ b c) \<longleftrightarrow> no_NUL b \<and> no_NUL c"
| "resource_ok (Remote_Service_Back_Action _ _ c d e) \<longleftrightarrow> no_NUL c \<and> no_NUL d \<and> no_NUL e"
| "resource_ok (Remote_Service_Disconnect _ b c) \<longleftrightarrow> no_NUL b \<and> no_NUL c"
| "resource_ok (Monitor_Resource_Exit a) \<longleftrightarrow> no_NUL a"
| "resource_ok (Unmonitor_Resource_Exit a) \<longleftrightarrow> no_NUL a"
| "resource_ok (Resource_Exit a) \<longleftrightarrow> no_NUL a"

lemmas resource_parse_build =
  parse_build_register_service parse_build_deregister_own_service
  parse_build_deregister_all_own_services parse_build_deregister_remote_services
  parse_build_find_resource_clients parse_build_remote_service_action
  parse_build_remote_service_back_action parse_build_remote_service_disconnect
  parse_build_monitor_resource_exit parse_build_unmonitor_resource_exit
  parse_build_resource_exit

lemma resource_round_trip:
  assumes "resource_build l b = Some t"
    and "parse_permissions_gen m (resource_generator b)" and "resource_ok b"
  shows "resource_parse m (resource_tag b) t = Some b"
  using assms
  by (cases b) (auto simp: resource_parse_def parse_permissions_gen_def generator_not_plugin
      intro: resource_parse_build)

end
