(* ===== verification/Proto_Service.thy ===== *)
theory Proto_Service
  imports Sections
begin

text \<open>
  This theory holds requests, responses and partial responses between service clients (\<open>libs/proto/proto-service/proto-service-client.cpp\<close>):
  for each its fields, \<open>assemble_command\<close> (\<open>build_...\<close>), \<open>compile_command\<close>
  (\<open>parse_...\<close>), its generator, \<open>execute_permissions\<close> and \<open>override_priority\<close>. The lemmas
  \<open>parse_build_...\<close> are the round trips of the single commands, \<open>service_round_trip\<close> the one of the
  group.
\<close>

section \<open>The commands\<close>

subsection \<open>\<open>proto_service_request\<close>\<close>

definition build_service_request :: "local_info \<Rightarrow> bool \<Rightarrow> string \<Rightarrow> string \<Rightarrow> data_section list option" where
  "build_service_request l binary event_origin request_message =
     (if \<not> allow_create_builtin l type_service_client type_server then None
      else Some ((if binary then add_binary [] request_message else add_text [] request_message)
          (add_text [] event_origin [])))"

definition parse_service_request ::
  "local_info \<Rightarrow> data_section list \<Rightarrow> (bool \<times> string \<times> string) option" where
  "parse_service_request l t =
     (if \<not> allow_parse_builtin l type_active_client type_admin_client then None
      else parse_sections (\<lambda>i x (binary, event_origin, request_message).
          if i = 0 then Next (binary, command_data x, request_message)
          else if i = 1 then Next (data_type x = 2, event_origin, command_data x)
          else Break (binary, event_origin, request_message))
        0 t (False, [], []))"

text \<open>The message comes back up to its first null character, and as binary unless it is empty.\<close>

lemma parse_build_service_request:
  "build_service_request l binary event_origin request_message = Some t \<Longrightarrow>
    allow_parse_builtin m type_active_client type_admin_client \<Longrightarrow> no_NUL event_origin \<Longrightarrow>
    parse_service_request m t = Some (binary \<and> request_message \<noteq> [], event_origin, c_str request_message)"
  by (auto simp: build_service_request_def parse_service_request_def add_defs split: if_splits)

lemma parse_build_service_request_text:
  assumes "build_service_request l binary event_origin request_message = Some t"
    and "allow_parse_builtin m type_active_client type_admin_client" and "no_NUL event_origin"
    and "no_NUL request_message" and "binary \<longrightarrow> request_message \<noteq> []"
  shows "parse_service_request m t = Some (binary, event_origin, request_message)"
  using parse_build_service_request [OF assms(1-3)] assms(4,5) by auto

subsection \<open>\<open>proto_service_request_list\<close>\<close>

definition build_service_request_list ::
  "local_info \<Rightarrow> string \<Rightarrow> string list \<Rightarrow> data_section list option" where
  "build_service_request_list l event_origin request_data =
     (if \<not> allow_create_builtin l type_resource_client type_server then None
      else Some (add_group [] (text_list request_data)
          (add_text [] event_origin
          [])))"

definition parse_service_request_list :: "local_info \<Rightarrow> data_section list \<Rightarrow> (string \<times> string list) option" where
  "parse_service_request_list l t =
     (if \<not> allow_parse_builtin l type_active_client type_admin_client then None
      else parse_sections (\<lambda>i x (event_origin, request_data).
          if i = 0 then Next (command_data x, request_data)
          else if i = 1 then parse_group x request_data (\<lambda>v. (event_origin, v))
          else Break (event_origin, request_data))
        0 t ([], []))"

lemma parse_build_service_request_list:
  "build_service_request_list l event_origin request_data = Some t \<Longrightarrow>
    allow_parse_builtin m type_active_client type_admin_client \<Longrightarrow> no_NUL event_origin \<Longrightarrow> list_all no_NUL request_data \<Longrightarrow>
    parse_service_request_list m t = Some (event_origin, request_data)"
  by (auto simp: build_service_request_list_def parse_service_request_list_def add_defs split: if_splits)

subsection \<open>\<open>proto_service_response\<close>\<close>

definition build_service_response :: "local_info \<Rightarrow> bool \<Rightarrow> string \<Rightarrow> string \<Rightarrow> data_section list option" where
  "build_service_response l binary event_origin response_message =
     (if \<not> allow_create_builtin l type_resource_client type_server then None
      else Some ((if binary then add_binary [] response_message else add_text [] response_message)
          (add_text [] event_origin [])))"

definition parse_service_response ::
  "local_info \<Rightarrow> data_section list \<Rightarrow> (bool \<times> string \<times> string) option" where
  "parse_service_response l t =
     (if \<not> allow_parse_builtin l type_active_client type_admin_client then None
      else parse_sections (\<lambda>i x (binary, event_origin, response_message).
          if i = 0 then Next (binary, command_data x, response_message)
          else if i = 1 then Next (data_type x = 2, event_origin, command_data x)
          else Break (binary, event_origin, response_message))
        0 t (False, [], []))"

text \<open>The message comes back up to its first null character, and as binary unless it is empty.\<close>

lemma parse_build_service_response:
  "build_service_response l binary event_origin response_message = Some t \<Longrightarrow>
    allow_parse_builtin m type_active_client type_admin_client \<Longrightarrow> no_NUL event_origin \<Longrightarrow>
    parse_service_response m t = Some (binary \<and> response_message \<noteq> [], event_origin, c_str response_message)"
  by (auto simp: build_service_response_def parse_service_response_def add_defs split: if_splits)

lemma parse_build_service_response_text:
  assumes "build_service_response l binary event_origin response_message = Some t"
    and "allow_parse_builtin m type_active_client type_admin_client" and "no_NUL event_origin"
    and "no_NUL response_message" and "binary \<longrightarrow> response_message \<noteq> []"
  shows "parse_service_response m t = Some (binary, event_origin, response_message)"
  using parse_build_service_response [OF assms(1-3)] assms(4,5) by auto

subsection \<open>\<open>proto_service_response_list\<close>\<close>

definition build_service_response_list ::
  "local_info \<Rightarrow> string \<Rightarrow> string list \<Rightarrow> data_section list option" where
  "build_service_response_list l event_origin response_data =
     (if \<not> allow_create_builtin l type_resource_client type_server then None
      else Some (add_group [] (text_list response_data)
          (add_text [] event_origin
          [])))"

definition parse_service_response_list :: "local_info \<Rightarrow> data_section list \<Rightarrow> (string \<times> string list) option" where
  "parse_service_response_list l t =
     (if \<not> allow_parse_builtin l type_active_client type_admin_client then None
      else parse_sections (\<lambda>i x (event_origin, response_data).
          if i = 0 then Next (command_data x, response_data)
          else if i = 1 then parse_group x response_data (\<lambda>v. (event_origin, v))
          else Break (event_origin, response_data))
        0 t ([], []))"

lemma parse_build_service_response_list:
  "build_service_response_list l event_origin response_data = Some t \<Longrightarrow>
    allow_parse_builtin m type_active_client type_admin_client \<Longrightarrow> no_NUL event_origin \<Longrightarrow> list_all no_NUL response_data \<Longrightarrow>
    parse_service_response_list m t = Some (event_origin, response_data)"
  by (auto simp: build_service_response_list_def parse_service_response_list_def add_defs split: if_splits)

subsection \<open>\<open>proto_partial_response\<close>\<close>

definition build_partial_response ::
  "local_info \<Rightarrow> string \<Rightarrow> mask16 \<Rightarrow> string \<Rightarrow> data_section list option" where
  "build_partial_response l event_origin event_type response_message =
     (if \<not> allow_create_builtin l type_resource_client type_server then None
      else Some (add_text [] response_message
          (add_convert16 [] (ucast event_type)
          (add_text [] event_origin
          []))))"

definition parse_partial_response :: "local_info \<Rightarrow> data_section list \<Rightarrow> (string \<times> mask16 \<times> string) option" where
  "parse_partial_response l t =
     (if \<not> allow_parse_builtin l type_active_client type_admin_client then None
      else parse_sections (\<lambda>i x (event_origin, event_type, response_message).
          if i = 0 then Next (command_data x, event_type, response_message)
          else if i = 1 then parse16 x (\<lambda>v. (event_origin, ucast v, response_message))
          else if i = 2 then Next (event_origin, event_type, command_data x)
          else Break (event_origin, event_type, response_message))
        0 t ([], response_ignore, []))"

lemma parse_build_partial_response:
  "build_partial_response l event_origin event_type response_message = Some t \<Longrightarrow>
    allow_parse_builtin m type_active_client type_admin_client \<Longrightarrow> no_NUL event_origin \<Longrightarrow> no_NUL response_message \<Longrightarrow>
    parse_partial_response m t = Some (event_origin, event_type, response_message)"
  by (auto simp: build_partial_response_def parse_partial_response_def add_defs split: if_splits)

subsection \<open>\<open>proto_partial_response_list\<close>\<close>

definition build_partial_response_list ::
  "local_info \<Rightarrow> string \<Rightarrow> mask16 \<Rightarrow> string list \<Rightarrow> data_section list option" where
  "build_partial_response_list l event_origin event_type response_data =
     (if \<not> allow_create_builtin l type_resource_client type_server then None
      else Some (add_group [] (text_list response_data)
          (add_convert16 [] (ucast event_type)
          (add_text [] event_origin
          []))))"

definition parse_partial_response_list :: "local_info \<Rightarrow> data_section list \<Rightarrow> (string \<times> mask16 \<times> string list) option" where
  "parse_partial_response_list l t =
     (if \<not> allow_parse_builtin l type_active_client type_admin_client then None
      else parse_sections (\<lambda>i x (event_origin, event_type, response_data).
          if i = 0 then Next (command_data x, event_type, response_data)
          else if i = 1 then parse16 x (\<lambda>v. (event_origin, ucast v, response_data))
          else if i = 2 then parse_group x response_data (\<lambda>v. (event_origin, event_type, v))
          else Break (event_origin, event_type, response_data))
        0 t ([], response_ignore, []))"

lemma parse_build_partial_response_list:
  "build_partial_response_list l event_origin event_type response_data = Some t \<Longrightarrow>
    allow_parse_builtin m type_active_client type_admin_client \<Longrightarrow> no_NUL event_origin \<Longrightarrow> list_all no_NUL response_data \<Longrightarrow>
    parse_partial_response_list m t = Some (event_origin, event_type, response_data)"
  by (auto simp: build_partial_response_list_def parse_partial_response_list_def add_defs split: if_splits)

subsection \<open>\<open>proto_find_services\<close>\<close>

definition build_find_services ::
  "local_info \<Rightarrow> string \<Rightarrow> string \<Rightarrow> data_section list option" where
  "build_find_services l name_expression type_expression =
     (if \<not> allow_create_builtin l type_service_client type_server then None
      else Some (add_text [] type_expression
          (add_text [] name_expression
          [])))"

definition parse_find_services :: "local_info \<Rightarrow> data_section list \<Rightarrow> (string \<times> string) option" where
  "parse_find_services l t =
     (if \<not> allow_parse_builtin l type_active_client type_none then None
      else parse_sections (\<lambda>i x (name_expression, type_expression).
          if i = 0 then Next (command_data x, type_expression)
          else if i = 1 then Next (name_expression, command_data x)
          else Break (name_expression, type_expression))
        0 t ([], []))"

lemma parse_build_find_services:
  "build_find_services l name_expression type_expression = Some t \<Longrightarrow>
    allow_parse_builtin m type_active_client type_none \<Longrightarrow> no_NUL name_expression \<Longrightarrow> no_NUL type_expression \<Longrightarrow>
    parse_find_services m t = Some (name_expression, type_expression)"
  by (auto simp: build_find_services_def parse_find_services_def add_defs split: if_splits)

section \<open>The group as one type\<close>

datatype service_body =
    Service_Request bool string string
  | Service_Request_List string "string list"
  | Service_Response bool string string
  | Service_Response_List string "string list"
  | Partial_Response string mask16 string
  | Partial_Response_List string mask16 "string list"
  | Find_Services string string

text \<open>\<open>RSERVR_BUILTIN_TAG\<close>: the label of a command.\<close>

fun service_tag :: "service_body \<Rightarrow> string" where
  "service_tag (Service_Request _ _ _) = ''proto_service_request''"
| "service_tag (Service_Request_List _ _) = ''proto_service_request_list''"
| "service_tag (Service_Response _ _ _) = ''proto_service_response''"
| "service_tag (Service_Response_List _ _) = ''proto_service_response_list''"
| "service_tag (Partial_Response _ _ _) = ''proto_partial_response''"
| "service_tag (Partial_Response_List _ _ _) = ''proto_partial_response_list''"
| "service_tag (Find_Services _ _) = ''proto_find_services''"

fun service_build :: "local_info \<Rightarrow> service_body \<Rightarrow> data_section list option" where
  "service_build l (Service_Request a b c) = build_service_request l a b c"
| "service_build l (Service_Request_List a b) = build_service_request_list l a b"
| "service_build l (Service_Response a b c) = build_service_response l a b c"
| "service_build l (Service_Response_List a b) = build_service_response_list l a b"
| "service_build l (Partial_Response a b c) = build_partial_response l a b c"
| "service_build l (Partial_Response_List a b c) = build_partial_response_list l a b c"
| "service_build l (Find_Services a b) = build_find_services l a b"

text \<open>\<open>generate\<close> for the label, then \<open>compile_command\<close>.\<close>

definition service_parse :: "local_info \<Rightarrow> string \<Rightarrow> data_section list \<Rightarrow> service_body option" where
  "service_parse l label t =
     (if label = ''proto_service_request'' then map_option (\<lambda>(a, b, c). Service_Request a b c) (parse_service_request l t)
      else if label = ''proto_service_request_list'' then map_option (\<lambda>(a, b). Service_Request_List a b) (parse_service_request_list l t)
      else if label = ''proto_service_response'' then map_option (\<lambda>(a, b, c). Service_Response a b c) (parse_service_response l t)
      else if label = ''proto_service_response_list'' then map_option (\<lambda>(a, b). Service_Response_List a b) (parse_service_response_list l t)
      else if label = ''proto_partial_response'' then map_option (\<lambda>(a, b, c). Partial_Response a b c) (parse_partial_response l t)
      else if label = ''proto_partial_response_list'' then map_option (\<lambda>(a, b, c). Partial_Response_List a b c) (parse_partial_response_list l t)
      else if label = ''proto_find_services'' then map_option (\<lambda>(a, b). Find_Services a b) (parse_find_services l t)
      else None)"

fun service_permissions :: "service_body \<Rightarrow> mask16" where
  "service_permissions (Service_Request _ _ _) = type_resource_client"
| "service_permissions (Service_Request_List _ _) = type_resource_client"
| "service_permissions (Service_Response _ _ _) = type_service_client"
| "service_permissions (Service_Response_List _ _) = type_service_client"
| "service_permissions (Partial_Response _ _ _) = type_service_client"
| "service_permissions (Partial_Response_List _ _ _) = type_service_client"
| "service_permissions (Find_Services _ _) = type_service_client"

fun service_override :: "service_body \<Rightarrow> u8 \<Rightarrow> u8" where
  "service_override (Service_Request _ _ _) p = p"
| "service_override (Service_Request_List _ _) p = p"
| "service_override (Service_Response _ _ _) p = p"
| "service_override (Service_Response_List _ _) p = p"
| "service_override (Partial_Response _ _ _) p = p"
| "service_override (Partial_Response_List _ _ _) p = p"
| "service_override (Find_Services _ _) p = p"

fun service_generator :: "service_body \<Rightarrow> command_generator" where
  "service_generator (Service_Request _ _ _) =
     generator type_service_client type_server type_active_client type_admin_client
       (command_request OR command_builtin)"
| "service_generator (Service_Request_List _ _) =
     generator type_service_client type_server type_active_client type_admin_client
       (command_request OR command_builtin)"
| "service_generator (Service_Response _ _ _) =
     generator type_resource_client type_server type_active_client type_admin_client
       (command_response OR command_builtin)"
| "service_generator (Service_Response_List _ _) =
     generator type_resource_client type_server type_active_client type_admin_client
       (command_response OR command_builtin)"
| "service_generator (Partial_Response _ _ _) =
     generator type_resource_client type_server type_active_client type_admin_client
       (command_response OR command_builtin)"
| "service_generator (Partial_Response_List _ _ _) =
     generator type_resource_client type_server type_active_client type_admin_client
       (command_response OR command_builtin)"
| "service_generator (Find_Services _ _) =
     generator type_service_client type_server type_active_client type_none
       (command_server OR command_builtin)"

text \<open>Texts without null characters, numbers in the range of their C type.\<close>

fun service_ok :: "service_body \<Rightarrow> bool" where
  "service_ok (Service_Request a b c) \<longleftrightarrow> no_NUL b \<and> no_NUL c \<and> (a \<longrightarrow> c \<noteq> [])"
| "service_ok (Service_Request_List a b) \<longleftrightarrow> no_NUL a \<and> list_all no_NUL b"
| "service_ok (Service_Response a b c) \<longleftrightarrow> no_NUL b \<and> no_NUL c \<and> (a \<longrightarrow> c \<noteq> [])"
| "service_ok (Service_Response_List a b) \<longleftrightarrow> no_NUL a \<and> list_all no_NUL b"
| "service_ok (Partial_Response a _ c) \<longleftrightarrow> no_NUL a \<and> no_NUL c"
| "service_ok (Partial_Response_List a _ c) \<longleftrightarrow> no_NUL a \<and> list_all no_NUL c"
| "service_ok (Find_Services a b) \<longleftrightarrow> no_NUL a \<and> no_NUL b"

lemmas service_parse_build =
  parse_build_service_request_text parse_build_service_request_list
  parse_build_service_response_text parse_build_service_response_list
  parse_build_partial_response parse_build_partial_response_list parse_build_find_services

lemma service_round_trip:
  assumes "service_build l b = Some t"
    and "parse_permissions_gen m (service_generator b)" and "service_ok b"
  shows "service_parse m (service_tag b) t = Some b"
  using assms
  by (cases b) (auto simp: service_parse_def parse_permissions_gen_def generator_not_plugin
      intro: service_parse_build)

end
