(* ===== verification/Proto_Bodies.thy ===== *)
theory Proto_Bodies
  imports Proto_Common Proto_Server Proto_Admin Proto_Resource Proto_Service
begin

text \<open>
  All command bodies as one type: the built-in commands of the five groups and the
  \<open>null_command\<close> that stands for a command the program does not execute itself
  (\<open>libs/protocol/ipc/api-external-command.cpp\<close>). The virtual functions of
  \<open>external_command\<close> dispatch on the constructor.
\<close>

section \<open>Bodies\<close>

datatype body =
    Null_Command string
  | Common_Command common_body
  | Server_Command server_body
  | Admin_Command admin_body
  | Resource_Command resource_body
  | Service_Command service_body

fun body_name :: "body \<Rightarrow> string" where
  "body_name (Null_Command n) = n"
| "body_name (Common_Command b) = common_tag b"
| "body_name (Server_Command b) = server_tag b"
| "body_name (Admin_Command b) = admin_tag b"
| "body_name (Resource_Command b) = resource_tag b"
| "body_name (Service_Command b) = service_tag b"

text \<open>A null command has no data of its own: \<open>assemble_command\<close> returns no tree.\<close>

fun body_assemble :: "local_info \<Rightarrow> body \<Rightarrow> data_section list option" where
  "body_assemble l (Null_Command n) = None"
| "body_assemble l (Common_Command b) = common_build l b"
| "body_assemble l (Server_Command b) = server_build l b"
| "body_assemble l (Admin_Command b) = admin_build l b"
| "body_assemble l (Resource_Command b) = resource_build l b"
| "body_assemble l (Service_Command b) = service_build l b"

fun body_permissions :: "body \<Rightarrow> mask16" where
  "body_permissions (Null_Command n) = type_active_client"
| "body_permissions (Common_Command b) = common_permissions b"
| "body_permissions (Server_Command b) = server_permissions b"
| "body_permissions (Admin_Command b) = admin_permissions b"
| "body_permissions (Resource_Command b) = resource_permissions b"
| "body_permissions (Service_Command b) = service_permissions b"

fun body_override :: "body \<Rightarrow> u8 \<Rightarrow> u8" where
  "body_override (Null_Command n) p = p"
| "body_override (Common_Command b) p = common_override b p"
| "body_override (Server_Command b) p = server_override b p"
| "body_override (Admin_Command b) p = admin_override b p"
| "body_override (Resource_Command b) p = resource_override b p"
| "body_override (Service_Command b) p = service_override b p"

text \<open>The generator registered under the label of a built-in command.\<close>

fun body_generator :: "body \<Rightarrow> command_generator option" where
  "body_generator (Null_Command n) = None"
| "body_generator (Common_Command b) = Some (common_generator b)"
| "body_generator (Server_Command b) = Some (server_generator b)"
| "body_generator (Admin_Command b) = Some (admin_generator b)"
| "body_generator (Resource_Command b) = Some (resource_generator b)"
| "body_generator (Service_Command b) = Some (service_generator b)"

text \<open>
  The body generated for a label and filled by \<open>compile_command\<close> from a tree. The groups
  are those \<open>load_server_commands\<close> and the client libraries load; a label belongs to at most
  one of them.
\<close>

definition body_parse :: "local_info \<Rightarrow> string \<Rightarrow> data_section list \<Rightarrow> body option" where
  "body_parse l label t =
     (case server_parse l label t of Some b \<Rightarrow> Some (Server_Command b) | None \<Rightarrow>
     (case common_parse l label t of Some b \<Rightarrow> Some (Common_Command b) | None \<Rightarrow>
     (case admin_parse l label t of Some b \<Rightarrow> Some (Admin_Command b) | None \<Rightarrow>
     (case service_parse l label t of Some b \<Rightarrow> Some (Service_Command b) | None \<Rightarrow>
      map_option Resource_Command (resource_parse l label t)))))"

fun body_ok :: "body \<Rightarrow> bool" where
  "body_ok (Null_Command n) = False"
| "body_ok (Common_Command b) = common_ok b"
| "body_ok (Server_Command b) = server_body_ok b"
| "body_ok (Admin_Command b) = admin_ok b"
| "body_ok (Resource_Command b) = resource_ok b"
| "body_ok (Service_Command b) = service_ok b"

text \<open>A program that is the server.\<close>

definition server_local :: "string \<Rightarrow> local_info" where
  "server_local n = \<lparr>is_server = True, local_type = type_server, entity_name = n\<rparr>"

text \<open>A freshly generated body has the values its default constructor gives, which are the
  ones the parse of an empty tree leaves.\<close>

definition generate :: "string \<Rightarrow> body option" where
  "generate label = body_parse (server_local []) label []"

section \<open>Labels of different groups differ\<close>

lemma server_label_other: "server_parse l (common_tag a) t = None" "server_parse l (admin_tag b) t = None"
  "server_parse l (service_tag c) t = None" "server_parse l (resource_tag d) t = None"
  by ((cases a; simp add: server_parse_def), (cases b; simp add: server_parse_def),
     (cases c; simp add: server_parse_def), (cases d; simp add: server_parse_def))

lemma common_label_other: "common_parse l (admin_tag b) t = None"
  "common_parse l (service_tag c) t = None" "common_parse l (resource_tag d) t = None"
  by ((cases b; simp add: common_parse_def), (cases c; simp add: common_parse_def),
     (cases d; simp add: common_parse_def))

lemma admin_label_other: "admin_parse l (service_tag c) t = None" "admin_parse l (resource_tag d) t = None"
  by ((cases c; simp add: admin_parse_def), (cases d; simp add: admin_parse_def))

lemma service_label_other: "service_parse l (resource_tag d) t = None"
  by (cases d; simp add: service_parse_def)

lemmas label_other = server_label_other common_label_other admin_label_other service_label_other

lemma body_parse_built:
  assumes "body_assemble l b = Some t" and "body_generator b = Some g"
    and "parse_permissions_gen m g" and "body_ok b"
  shows "body_parse m (body_name b) t = Some b"
  using assms
  by (cases b)
    (auto simp: body_parse_def label_other dest: server_round_trip common_round_trip
      admin_round_trip service_round_trip resource_round_trip)

text \<open>
  C16. Every built-in command survives its transmission: whatever tree a program builds for a
  command with texts free of null characters, a program allowed to parse that
  command reads back the same body, all fields included.
\<close>

theorem body_round_trip:
  assumes "body_assemble l b = Some t" and "body_generator b = Some g"
    and "parse_permissions_gen m g" and "body_ok b"
  shows "body_parse m (body_name b) t = Some b"
  using assms by (rule body_parse_built)

theorem body_round_trip_witness:
  "body_parse (server_local ''s'') ''proto_client_message''
      (the (body_assemble \<lparr>is_server = False, local_type = type_control_client_all,
         entity_name = ''c''\<rparr> (Common_Command (Client_Message ''hello''))))
    = Some (Common_Command (Client_Message ''hello''))"
  using body_round_trip [of "\<lparr>is_server = False, local_type = type_control_client_all,
         entity_name = ''c''\<rparr>" "Common_Command (Client_Message ''hello'')" _ _ "server_local ''s''"]
  by (simp add: build_client_message_def allow_create_builtin_def parse_permissions_gen_def
      allow_parse_builtin_def server_local_def no_NUL_def flag_defs check_all_def check_none_def
      generator_not_plugin)

section \<open>The generator's permissions and the check made when building\<close>

text \<open>
  A command is created when the generator's \<open>create\<close> masks allow it and then written by
  \<open>assemble_command\<close>, which checks masks of its own and knows a text only for some values of the fields.
\<close>

fun has_text :: "body \<Rightarrow> bool" where
  "has_text (Common_Command (Register_Client _ ty _)) \<longleftrightarrow>
     ty \<in> {type_admin_client_all, type_monitor_client_all, type_resource_client_all,
       type_control_client_all, type_none}"
| "has_text (Admin_Command (Create_Client ty _ _ _ _ _ _ _)) \<longleftrightarrow> ty \<in> {CREATE_SYSTEM, CREATE_EXEC}"
| "has_text (Admin_Command (Remove_Client ty _)) \<longleftrightarrow> ty \<in> {CLIENT_TERM, CLIENT_KILL}"
| "has_text (Admin_Command (Remove_Find_Client ty _)) \<longleftrightarrow> ty \<in> {CLIENT_TERM, CLIENT_KILL}"
| "has_text (Admin_Command (Remove_Pid_Client ty _)) \<longleftrightarrow> ty \<in> {CLIENT_TERM, CLIENT_KILL}"
| "has_text _ = True"

fun request_list :: "body \<Rightarrow> bool" where
  "request_list (Service_Command (Service_Request_List _ _)) = True"
| "request_list _ = False"

text \<open>What the program's type must have for the writing besides what is asked for when the command is created.\<close>

fun asked_late :: "body \<Rightarrow> mask16" where
  "asked_late (Admin_Command (Remove_Client ty _)) = (if ty = CLIENT_TERM then type_server_control else type_none)"
| "asked_late (Admin_Command (Remove_Find_Client ty _)) = (if ty = CLIENT_TERM then type_server_control else type_none)"
| "asked_late (Admin_Command (Remove_Pid_Client ty _)) = (if ty = CLIENT_TERM then type_server_control else type_none)"
| "asked_late _ = type_none"

lemmas common_build_defs = build_client_response_def build_client_response_list_def
  build_short_response_def build_register_client_def build_indicate_ready_def
  build_client_register_response_def build_client_message_def build_term_request_def
  build_term_return_def build_ping_client_def build_ping_server_def
lemmas server_build_defs = build_server_response_def build_server_response_list_def
  build_server_directive_def build_set_timing_def build_update_timing_def build_monitor_data_def
lemmas admin_build_defs = build_create_client_def build_detached_client_def build_remove_client_def
  build_remove_find_client_def build_remove_pid_client_def build_terminate_server_def
  build_find_clients_def build_find_control_clients_def build_set_monitor_types_def
  CREATE_SYSTEM_def CREATE_EXEC_def CLIENT_TERM_def CLIENT_KILL_def
lemmas resource_build_defs = build_register_service_def build_deregister_own_service_def
  build_deregister_all_own_services_def build_deregister_remote_services_def
  build_find_resource_clients_def build_remote_service_action_def
  build_remote_service_back_action_def build_remote_service_disconnect_def
  build_monitor_resource_exit_def build_unmonitor_resource_exit_def build_resource_exit_def
lemmas service_build_defs = build_service_request_def build_service_request_list_def
  build_service_response_def build_service_response_list_def build_partial_response_def
  build_partial_response_list_def build_find_services_def

lemma create_builtin: "create_permissions l (generator c1 c2 p1 p2 t) \<longleftrightarrow>
    (if check_all t command_plugin then allow_create_plugin l c1 else allow_create_builtin l c1 c2)"
  by (simp add: create_permissions_def generator_def)

lemma allow_create_none [simp]: "check_all t type_none"
  by (simp add: check_all_def flag_defs)

lemma allow_create_or: "allow_create_builtin l (m OR k) x \<longleftrightarrow> allow_create_builtin l m x \<and> check_all (local_type l) k"
  by (auto simp: allow_create_builtin_def check_all_or)

lemma common_build_iff:
  "common_build l b \<noteq> None \<longleftrightarrow> has_text (Common_Command b) \<and> create_permissions l (common_generator b)"
  by (cases b) (auto simp: common_build_defs create_permissions_def generator_not_plugin Let_def)

lemma server_build_iff: "server_build l b \<noteq> None \<longleftrightarrow> create_permissions l (server_generator b)"
  by (cases b) (auto simp: server_build_defs create_permissions_def generator_not_plugin)

lemma admin_build_iff:
  "admin_build l b \<noteq> None \<longleftrightarrow> has_text (Admin_Command b) \<and> create_permissions l (admin_generator b) \<and>
    check_all (local_type l) (asked_late (Admin_Command b))"
  by (cases b) (auto simp: admin_build_defs create_permissions_def generator_not_plugin allow_create_or
      split: option.splits)

lemma resource_build_iff: "resource_build l b \<noteq> None \<longleftrightarrow> create_permissions l (resource_generator b)"
  by (cases b) (auto simp: resource_build_defs create_permissions_def generator_not_plugin)

lemma service_build_iff:
  "service_build l b \<noteq> None \<longleftrightarrow>
    (if request_list (Service_Command b) then allow_create_builtin l type_resource_client type_server
     else create_permissions l (service_generator b))"
  by (cases b) (auto simp: service_build_defs create_permissions_def generator_not_plugin)

text \<open>
  C35. When a built-in command can be written, for every body and every program: exactly when its fields have a
  text, the program may create it, and its type has what the writing asks for in addition; a list of
  requests instead exactly when the program is a resource client. Both exceptions are deviations: the commands that
  remove clients ask for server control when they terminate them, and a list of requests may be created by
  service clients. Outside of them, what may not be created is never written and what may be created can be sent.
\<close>

theorem build_iff_create:
  assumes "body_generator b = Some g"
  shows "body_assemble l b \<noteq> None \<longleftrightarrow> has_text b \<and>
    (if request_list b then allow_create_builtin l type_resource_client type_server
     else create_permissions l g \<and> check_all (local_type l) (asked_late b))"
proof (cases b)
  case (Common_Command c)
  with assms show ?thesis using common_build_iff [of l c] by auto
next
  case (Server_Command c)
  with assms show ?thesis using server_build_iff [of l c] by auto
next
  case (Admin_Command c)
  with assms show ?thesis using admin_build_iff [of l c] by auto
next
  case (Resource_Command c)
  with assms show ?thesis using resource_build_iff [of l c] by auto
next
  case (Service_Command c)
  with assms show ?thesis using service_build_iff [of l c] by auto
qed (use assms in simp)

text \<open>An administrator without server control creates the command to terminate a client and cannot send it.\<close>

lemma termination_stuck:
  assumes "local_type l = type_admin_client OR type_any_client"
  shows "create_permissions l (admin_generator (Remove_Client CLIENT_TERM n))"
    and "body_assemble l (Admin_Command (Remove_Client CLIENT_TERM n)) = None"
    and "body_assemble l (Admin_Command (Remove_Client CLIENT_KILL n)) \<noteq> None"
  using assms
  by (simp_all add: create_permissions_def generator_not_plugin allow_create_builtin_def build_remove_client_def
      CLIENT_TERM_def CLIENT_KILL_def flag_defs check_all_def check_none_def)

theorem build_iff_create_witness:
  "body_assemble \<lparr>is_server = False, local_type = type_monitor_client_all, entity_name = []\<rparr>
      (Admin_Command Terminate_Server) = None"
  using build_iff_create [of "Admin_Command Terminate_Server"
      "admin_generator Terminate_Server"
      "\<lparr>is_server = False, local_type = type_monitor_client_all, entity_name = []\<rparr>"]
  by (simp add: create_permissions_def allow_create_builtin_def generator_not_plugin flag_defs
      check_all_def check_none_def)

text \<open>
  \<open>proto_service_request_list\<close> is the second exception: a control client may create it (its generator
  asks for a service client, as for \<open>proto_service_request\<close>), but \<open>assemble_command\<close> asks for
  a resource client, so a control client can send single requests and never a list of them.
\<close>

theorem service_request_list_stuck:
  assumes "local_type l = type_control_client_all"
  shows "create_permissions l (service_generator (Service_Request_List o' ds)) \<and>
    body_assemble l (Service_Command (Service_Request_List o' ds)) = None \<and>
    body_assemble l (Service_Command (Service_Request False o' m)) \<noteq> None"
  using assms
  by (simp add: create_permissions_def allow_create_builtin_def generator_not_plugin
      build_service_request_list_def build_service_request_def flag_defs check_all_def
      check_none_def)

theorem service_request_list_stuck_witness:
  "body_assemble \<lparr>is_server = False, local_type = type_control_client_all, entity_name = ''c''\<rparr>
     (Service_Command (Service_Request_List ''c'' [''on'', ''off''])) = None"
  using service_request_list_stuck [of "\<lparr>is_server = False, local_type = type_control_client_all,
      entity_name = ''c''\<rparr>" "''c''" "[''on'', ''off'']" "[]"] by simp

text \<open>
  C39. A binary request or response is written with its size, but read back as a C string: the
  receiver gets the bytes before the first null byte, still marked as binary (unless the
  message was empty). Data without null bytes is unharmed, any other loses its tail.
\<close>

theorem binary_message_truncated:
  assumes "body_assemble l (Service_Command (Service_Request True o' m)) = Some t"
    and "m \<noteq> []" and "no_NUL o'" and "is_server r"
  shows "body_parse r ''proto_service_request'' t
    = Some (Service_Command (Service_Request True o' (takeWhile (\<lambda>c. c \<noteq> CHR 0x00) m)))"
proof -
  have "parse_service_request r t = Some (True, o', c_str m)"
    using parse_build_service_request [of l True o' m t r] assms
    by (simp add: allow_parse_builtin_def)
  then show ?thesis
    by (simp add: body_parse_def server_parse_def common_parse_def admin_parse_def service_parse_def
        c_str_def)
qed

theorem binary_message_truncated_witness:
  "body_parse (server_local ''s'') ''proto_service_request''
      (the (body_assemble \<lparr>is_server = False, local_type = type_control_client_all,
         entity_name = ''c''\<rparr>
        (Service_Command (Service_Request True ''c'' [CHR ''a'', CHR 0x00, CHR ''b'']))))
    = Some (Service_Command (Service_Request True ''c'' ''a''))"
  using binary_message_truncated [of "\<lparr>is_server = False, local_type = type_control_client_all,
      entity_name = ''c''\<rparr>" "''c''" "[CHR ''a'', CHR 0x00, CHR ''b'']" _ "server_local ''s''"]
  by (simp add: build_service_request_def allow_create_builtin_def server_local_def no_NUL_def
      flag_defs check_all_def check_none_def)

end
