(* ===== verification/Heap_Queue.thy ===== *)
theory Heap_Queue
  imports Prelude
begin

text \<open>
  The array heap of \<open>libs/server/local-include/execute-queue.hpp\<close> and the list operations of
  \<open>clist__.hpp\<close> it is built on. The template parameter \<open>Order\<close> is \<open>d\<close>, the comparison
  functor is \<open>cmp\<close>; positions the C++ code reads are always below \<open>size()\<close>. The locale
  \<open>heap_order\<close> states what the code needs of the functor, \<open>command_queue\<close> what its callers may
  rely on.
\<close>

section \<open>List operations of the container\<close>

definition switch_elements :: "nat \<Rightarrow> nat \<Rightarrow> 'e list \<Rightarrow> 'e list" where
  "switch_elements i j xs = (if xs = [] then xs else xs[i := xs ! j, j := xs ! i])"

text \<open>\<open>p_heap_element_to\<close>: swap the first and the last element, then move the last one to the end
  of the other list.\<close>

definition p_heap_element_to :: "'e list \<Rightarrow> 'e list \<Rightarrow> 'e list \<times> 'e list" where
  "p_heap_element_to xs target =
     (let ys = switch_elements 0 (length xs - 1) xs in (butlast ys, target @ [last ys]))"

definition transfer_element :: "'e \<Rightarrow> 'e list \<Rightarrow> 'e list" where
  "transfer_element e xs = xs @ [e]"

lemma length_switch [simp]: "length (switch_elements i j xs) = length xs"
  by (simp add: switch_elements_def)

lemma nth_switch:
  "k < length xs \<Longrightarrow> i < length xs \<Longrightarrow> j < length xs \<Longrightarrow>
    switch_elements i j xs ! k = (if k = j then xs ! i else if k = i then xs ! j else xs ! k)"
  by (auto simp: switch_elements_def nth_list_update)

lemma mset_switch [simp]:
  "i < length xs \<Longrightarrow> j < length xs \<Longrightarrow> mset (switch_elements i j xs) = mset xs"
  by (simp add: switch_elements_def mset_swap)

section \<open>Sifting\<close>

text \<open>The children of a position that are in the list.\<close>

definition children :: "nat \<Rightarrow> 'e list \<Rightarrow> nat \<Rightarrow> nat list" where
  "children d xs current = [current * d + 1 ..< min (current * d + 1 + d) (length xs)]"

text \<open>The inner loop of \<open>sift_down\<close>: \<open>greatest\<close> and \<open>greater\<close> after the given children.\<close>

fun pick_child :: "('e \<Rightarrow> 'e \<Rightarrow> bool) \<Rightarrow> 'e list \<Rightarrow> nat \<Rightarrow> nat list \<Rightarrow> nat \<Rightarrow> bool \<Rightarrow> nat \<times> bool" where
  "pick_child cmp xs current [] greatest isg = (greatest, isg)"
| "pick_child cmp xs current (c # cs) greatest isg =
     (if \<not> isg then
        (if cmp (xs ! c) (xs ! current) then pick_child cmp xs current cs c True
         else pick_child cmp xs current cs greatest False)
      else if cmp (xs ! c) (xs ! greatest) then pick_child cmp xs current cs c True
      else pick_child cmp xs current cs greatest True)"

lemma pick_child_in:
  "pick_child cmp xs current cs g b = (g', True) \<Longrightarrow> g' \<in> set cs \<or> b \<and> g' = g"
  by (induction cs arbitrary: g b) (auto split: if_splits)

definition heap_parent :: "nat \<Rightarrow> nat \<Rightarrow> nat" where
  "heap_parent d current = (current - 1) div d"

lemma pick_child_bound:
  assumes "pick_child cmp xs current (children d xs current) g0 False = (g, True)"
  shows "current < g \<and> g < length xs"
proof -
  from pick_child_in [OF assms] have g: "current * d + 1 \<le> g" "g < length xs" "g < current * d + 1 + d"
    by (auto simp: children_def)
  then have "d \<ge> 1" by simp
  then have "current \<le> current * d" by simp
  with g show ?thesis by linarith
qed

lemma parent_less: "0 < i \<Longrightarrow> heap_parent d i < i"
  using div_le_dividend [of "i - 1" d] unfolding heap_parent_def by linarith

function sift_down :: "nat \<Rightarrow> ('e \<Rightarrow> 'e \<Rightarrow> bool) \<Rightarrow> 'e list \<Rightarrow> nat \<Rightarrow> 'e list" where
  "sift_down d cmp xs current =
     (if current + 1 < length xs then
        (case pick_child cmp xs current (children d xs current) (current * d + 1) False of
           (greatest, isg) \<Rightarrow>
             if isg then sift_down d cmp (switch_elements greatest current xs) greatest else xs)
      else xs)"
  by auto
termination
  by (relation "measure (\<lambda>(d, cmp, xs, current). length xs - current)")
    (auto dest!: sym [of "(_, True)"] pick_child_bound)

function sift_up :: "nat \<Rightarrow> ('e \<Rightarrow> 'e \<Rightarrow> bool) \<Rightarrow> 'e list \<Rightarrow> nat \<Rightarrow> 'e list" where
  "sift_up d cmp xs current =
     (if current > 0 then
        (let parent = heap_parent d current
         in if \<not> cmp (xs ! parent) (xs ! current)
            then sift_up d cmp (switch_elements current parent xs) parent else xs)
      else xs)"
  by auto
termination
  by (relation "measure (\<lambda>(d, cmp, xs, current). current)") (use parent_less in auto)

declare sift_down.simps [simp del] sift_up.simps [simp del]

section \<open>The queue operations\<close>

definition insert_command :: "nat \<Rightarrow> ('e \<Rightarrow> 'e \<Rightarrow> bool) \<Rightarrow> 'e \<Rightarrow> 'e list \<Rightarrow> 'e list" where
  "insert_command d cmp e xs =
     (let ys = transfer_element e xs in sift_up d cmp ys (length ys - 1))"

definition transfer_top_command ::
  "nat \<Rightarrow> ('e \<Rightarrow> 'e \<Rightarrow> bool) \<Rightarrow> 'e list \<Rightarrow> 'e list \<Rightarrow> bool \<times> 'e list \<times> 'e list" where
  "transfer_top_command d cmp xs tTransfer =
     (if length xs = 0 then (False, xs, tTransfer)
      else (case p_heap_element_to xs tTransfer of (ys, tTransfer') \<Rightarrow>
        (True, if length ys > 1 then sift_down d cmp ys 0 else ys, tTransfer')))"

definition remove_top_command :: "nat \<Rightarrow> ('e \<Rightarrow> 'e \<Rightarrow> bool) \<Rightarrow> 'e list \<Rightarrow> bool \<times> 'e list" where
  "remove_top_command d cmp xs =
     (if length xs = 0 then (False, xs)
      else (let ys = butlast (if length xs > 1 then switch_elements 0 (length xs - 1) xs else xs)
            in (True, if length ys > 1 then sift_down d cmp ys 0 else ys)))"

section \<open>Contents\<close>

lemma children_less: "c \<in> set (children d xs current) \<Longrightarrow> c < length xs"
  by (simp add: children_def)

lemma sift_down_mset [simp]: "mset (sift_down d cmp xs current) = mset xs"
proof (induction d cmp xs current rule: sift_down.induct)
  case (1 d cmp xs current)
  show ?case
  proof (cases "current + 1 < length xs")
    case True
    obtain g b where p: "pick_child cmp xs current (children d xs current) (current * d + 1) False = (g, b)"
      by (cases "pick_child cmp xs current (children d xs current) (current * d + 1) False")
    show ?thesis
    proof (cases b)
      case True
      with p have "g < length xs"
        using pick_child_in [of cmp xs current] children_less by (metis)
      with 1 True p \<open>current + 1 < length xs\<close> show ?thesis
        by (simp add: sift_down.simps [of d cmp xs current])
    next
      case False
      with p \<open>current + 1 < length xs\<close> show ?thesis
        by (simp add: sift_down.simps [of d cmp xs current])
    qed
  qed (simp add: sift_down.simps)
qed

lemma sift_up_mset [simp]: "current < length xs \<Longrightarrow> mset (sift_up d cmp xs current) = mset xs"
proof (induction d cmp xs current rule: sift_up.induct)
  case (1 d cmp xs current)
  show ?case
  proof (cases "current > 0")
    case True
    from parent_less [OF True, of d] have "heap_parent d current < length xs" using 1 by simp
    with 1 True show ?thesis
      by (simp add: sift_up.simps [of d cmp xs current] Let_def)
  qed (simp add: sift_up.simps)
qed

lemma length_sift_down [simp]: "length (sift_down d cmp xs i) = length xs"
  by (metis sift_down_mset size_mset)

lemma length_sift_up [simp]: "i < length xs \<Longrightarrow> length (sift_up d cmp xs i) = length xs"
  by (metis sift_up_mset size_mset)

lemma insert_command_mset: "mset (insert_command d cmp e xs) = add_mset e (mset xs)"
  by (simp add: insert_command_def transfer_element_def)

lemma last_switch: "xs \<noteq> [] \<Longrightarrow> last (switch_elements 0 (length xs - 1) xs) = hd xs"
proof -
  assume ne: "xs \<noteq> []"
  then have "switch_elements 0 (length xs - 1) xs \<noteq> []" by (simp add: switch_elements_def)
  with ne show ?thesis by (simp add: last_conv_nth hd_conv_nth nth_switch)
qed

lemma butlast_switch:
  "xs \<noteq> [] \<Longrightarrow> mset (butlast (switch_elements 0 (length xs - 1) xs)) + {#hd xs#} = mset xs"
  (is "_ \<Longrightarrow> mset (butlast ?ys) + _ = _")
proof -
  assume ne: "xs \<noteq> []"
  then have l: "length xs - 1 < length xs" "0 < length xs" by simp_all
  have "last ?ys = hd xs" using ne by (rule last_switch)
  moreover have "mset ?ys = mset (butlast ?ys) + {#last ?ys#}"
  proof -
    have "?ys \<noteq> []" using ne by (simp add: switch_elements_def)
    then have "?ys = butlast ?ys @ [last ?ys]" by simp
    then show ?thesis by (metis mset.simps(1) mset_append mset_single_iff_right)
  qed
  moreover have "mset ?ys = mset xs" using l by simp
  ultimately show ?thesis by simp
qed

lemma transfer_top_mset:
  assumes "xs \<noteq> []"
  shows "\<exists>ys. transfer_top_command d cmp xs t = (True, ys, t @ [hd xs]) \<and> mset ys + {#hd xs#} = mset xs"
  using butlast_switch [OF assms] last_switch [OF assms] assms
  by (simp add: transfer_top_command_def p_heap_element_to_def Let_def)

section \<open>Order\<close>

definition heap_ok :: "nat \<Rightarrow> ('e \<Rightarrow> 'e \<Rightarrow> bool) \<Rightarrow> 'e list \<Rightarrow> bool" where
  "heap_ok d cmp xs \<longleftrightarrow> (\<forall>i < length xs. 0 < i \<longrightarrow> cmp (xs ! (heap_parent d i)) (xs ! i))"

text \<open>What holds while an element moves up, or down, from a position.\<close>

definition up_ok :: "nat \<Rightarrow> ('e \<Rightarrow> 'e \<Rightarrow> bool) \<Rightarrow> nat \<Rightarrow> 'e list \<Rightarrow> bool" where
  "up_ok d cmp c xs \<longleftrightarrow>
     (\<forall>i < length xs. 0 < i \<longrightarrow> i \<noteq> c \<longrightarrow> cmp (xs ! (heap_parent d i)) (xs ! i)) \<and>
     (0 < c \<longrightarrow> (\<forall>i < length xs. 0 < i \<longrightarrow> heap_parent d i = c \<longrightarrow>
        cmp (xs ! (heap_parent d c)) (xs ! i)))"

definition down_ok :: "nat \<Rightarrow> ('e \<Rightarrow> 'e \<Rightarrow> bool) \<Rightarrow> nat \<Rightarrow> 'e list \<Rightarrow> bool" where
  "down_ok d cmp c xs \<longleftrightarrow>
     (\<forall>i < length xs. 0 < i \<longrightarrow> heap_parent d i \<noteq> c \<longrightarrow> cmp (xs ! (heap_parent d i)) (xs ! i)) \<and>
     (0 < c \<longrightarrow> (\<forall>i < length xs. 0 < i \<longrightarrow> heap_parent d i = c \<longrightarrow>
        cmp (xs ! (heap_parent d c)) (xs ! i)))"

lemma div_window: "0 < d \<Longrightarrow> n div d = c \<longleftrightarrow> c * d \<le> n \<and> n < c * d + d" for n d c :: nat
proof
  assume d: "0 < d" and c: "n div d = c"
  from div_mult_mod_eq [of n d] c have "c * d + n mod d = n" by simp
  with mod_less_divisor [OF d, of n] show "c * d \<le> n \<and> n < c * d + d" by linarith
next
  assume "c * d \<le> n \<and> n < c * d + d"
  then show "n div d = c" by (intro div_nat_eqI) (simp_all add: mult.commute)
qed

lemma set_children:
  "0 < d \<Longrightarrow> set (children d xs c) = {i. 0 < i \<and> i < length xs \<and> heap_parent d i = c}"
proof -
  assume d: "0 < d"
  have "i \<in> set (children d xs c) \<longleftrightarrow> 0 < i \<and> i < length xs \<and> heap_parent d i = c" for i
  proof -
    have "i \<in> set (children d xs c) \<longleftrightarrow> i < length xs \<and> c * d + 1 \<le> i \<and> i < c * d + 1 + d"
      by (auto simp: children_def)
    also have "\<dots> \<longleftrightarrow> 0 < i \<and> i < length xs \<and> c * d \<le> i - 1 \<and> i - 1 < c * d + d"
      by linarith
    also have "\<dots> \<longleftrightarrow> 0 < i \<and> i < length xs \<and> heap_parent d i = c"
      unfolding heap_parent_def div_window [OF d] by (rule refl)
    finally show ?thesis .
  qed
  then show ?thesis by blast
qed

text \<open>The heap only needs a total preorder and at least one child per node.\<close>

locale heap_order =
  fixes d :: nat and cmp :: "'e \<Rightarrow> 'e \<Rightarrow> bool"
  assumes d_pos: "0 < d"
    and cmp_total: "cmp x y \<or> cmp y x"
    and cmp_trans: "cmp x y \<Longrightarrow> cmp y z \<Longrightarrow> cmp x z"
begin

lemma cmp_refl: "cmp x x"
  using cmp_total by blast

lemma not_cmp: "\<not> cmp x y \<Longrightarrow> cmp y x"
  using cmp_total by blast

lemma heap_top: "heap_ok d cmp xs \<Longrightarrow> i < length xs \<Longrightarrow> cmp (xs ! 0) (xs ! i)"
proof (induction i rule: less_induct)
  case (less i)
  show ?case
  proof (cases "i = 0")
    case False
    then have p: "heap_parent d i < i" by (simp add: parent_less)
    with less have "cmp (xs ! 0) (xs ! (heap_parent d i))" by simp
    moreover have "cmp (xs ! (heap_parent d i)) (xs ! i)"
      using less.prems False by (simp add: heap_ok_def)
    ultimately show ?thesis by (rule cmp_trans)
  qed (simp add: cmp_refl)
qed

lemma up_step:
  assumes inv: "up_ok d cmp c xs" and c: "0 < c" "c < length xs"
    and lt: "\<not> cmp (xs ! (heap_parent d c)) (xs ! c)"
  shows "up_ok d cmp (heap_parent d c) (switch_elements c (heap_parent d c) xs)"
proof -
  let ?p = "heap_parent d c" and ?ys = "switch_elements c (heap_parent d c) xs"
  have p: "?p < c" "?p < length xs" using parent_less [OF c(1), of d] c by auto
  have cp: "cmp (xs ! c) (xs ! ?p)" using lt by (rule not_cmp)
  have one: "cmp (xs ! (heap_parent d i)) (xs ! i)" if "i < length xs" "0 < i" "i \<noteq> c" for i
    using inv that by (simp add: up_ok_def)
  have two: "cmp (xs ! ?p) (xs ! i)" if "i < length xs" "0 < i" "heap_parent d i = c" for i
    using inv that c by (simp add: up_ok_def)
  have nth: "?ys ! k = (if k = ?p then xs ! c else if k = c then xs ! ?p else xs ! k)"
    if "k < length xs" for k
    using that c p by (simp add: nth_switch)
  have par: "heap_parent d i < length xs" if "0 < i" "i < length xs" for i
    using that parent_less [of i d] by simp
  have A: "cmp (?ys ! (heap_parent d i)) (?ys ! i)" if i: "i < length xs" "0 < i" "i \<noteq> ?p" for i
  proof (cases "i = c")
    case True
    with cp p c show ?thesis by (simp add: nth)
  next
    case False
    note q = par [OF i(2,1)]
    have "heap_parent d i = ?p \<Longrightarrow> cmp (xs ! c) (xs ! i)"
      using one [OF i(1,2) False] cp cmp_trans by metis
    with False i q one [OF i(1,2) False] two [OF i(1,2)] p show ?thesis
      by (auto simp: nth)
  qed
  have B: "cmp (?ys ! (heap_parent d ?p)) (?ys ! i)"
    if i: "i < length xs" "0 < i" "heap_parent d i = ?p" "0 < ?p" for i
  proof -
    have r: "heap_parent d ?p < ?p" using parent_less [OF i(4), of d] .
    have rp: "cmp (xs ! (heap_parent d ?p)) (xs ! ?p)" using one [OF p(2) i(4)] p by simp
    show ?thesis
    proof (cases "i = c")
      case True
      with rp r p c show ?thesis by (simp add: nth)
    next
      case False
      have "i \<noteq> ?p" using parent_less [OF i(2), of d] i(3) by simp
      moreover have "cmp (xs ! (heap_parent d ?p)) (xs ! i)"
        using rp one [OF i(1,2) False] i(3) cmp_trans by metis
      ultimately show ?thesis using False r p i by (simp add: nth)
    qed
  qed
  from A B show ?thesis by (simp add: up_ok_def)
qed

lemma sift_up_heap: "up_ok d cmp c xs \<Longrightarrow> c < length xs \<Longrightarrow> heap_ok d cmp (sift_up d cmp xs c)"
proof (induction c arbitrary: xs rule: less_induct)
  case (less c)
  show ?case
  proof (cases "0 < c \<and> \<not> cmp (xs ! (heap_parent d c)) (xs ! c)")
    case True
    then have p: "heap_parent d c < c" by (simp add: parent_less)
    with True less up_step [OF less.prems(1) _ less.prems(2)] show ?thesis
      by (simp add: sift_up.simps [of d cmp xs c] Let_def)
  next
    case False
    then have "sift_up d cmp xs c = xs" by (auto simp: sift_up.simps [of d cmp xs c] Let_def)
    with False less.prems show ?thesis by (auto simp: heap_ok_def up_ok_def)
  qed
qed

lemma insert_heap: "heap_ok d cmp xs \<Longrightarrow> heap_ok d cmp (insert_command d cmp e xs)"
proof -
  assume h: "heap_ok d cmp xs"
  have "up_ok d cmp (length xs) (xs @ [e])"
    unfolding up_ok_def
  proof (intro conjI allI impI)
    fix i assume i: "i < length (xs @ [e])" "0 < i" "i \<noteq> length xs"
    then have "heap_parent d i < length xs" using parent_less [of i d] by simp
    with i h show "cmp ((xs @ [e]) ! (heap_parent d i)) ((xs @ [e]) ! i)"
      by (simp add: nth_append heap_ok_def)
  next
    fix i assume "i < length (xs @ [e])" "0 < i" "heap_parent d i = length xs"
    then show "cmp ((xs @ [e]) ! (heap_parent d (length xs))) ((xs @ [e]) ! i)"
      using parent_less [of i d] by simp
  qed
  then show ?thesis
    by (simp add: insert_command_def transfer_element_def sift_up_heap)
qed

lemma pick_child_least:
  assumes "pick_child cmp xs c cs g b = (g', b')"
    and "b \<Longrightarrow> cmp (xs ! g) (xs ! c)"
  shows "(b' \<longrightarrow> cmp (xs ! g') (xs ! c) \<and> (\<forall>k \<in> set cs. cmp (xs ! g') (xs ! k)) \<and>
      (b \<longrightarrow> cmp (xs ! g') (xs ! g))) \<and>
    (\<not> b' \<longrightarrow> \<not> b \<and> (\<forall>k \<in> set cs. \<not> cmp (xs ! k) (xs ! c)))"
  using assms
proof (induction cs arbitrary: g b)
  case Nil
  then show ?case by (auto intro: cmp_refl)
next
  case (Cons k cs)
  show ?case
  proof (cases b)
    case True
    show ?thesis
    proof (cases "cmp (xs ! k) (xs ! g)")
      case kg: True
      then have "cmp (xs ! k) (xs ! c)" using Cons.prems(2) True cmp_trans by blast
      with Cons.IH [of k True] Cons.prems True kg show ?thesis
        by (auto intro: cmp_trans)
    next
      case False
      with Cons.IH [of g True] Cons.prems True show ?thesis
        by (auto intro: cmp_trans dest: not_cmp)
    qed
  next
    case False
    show ?thesis
    proof (cases "cmp (xs ! k) (xs ! c)")
      case True
      with Cons.IH [of k True] Cons.prems False show ?thesis by (auto intro: cmp_trans)
    next
      case kc: False
      with Cons.IH [of g False] Cons.prems False show ?thesis
        by (auto intro: cmp_trans dest: not_cmp)
    qed
  qed
qed

lemma down_step:
  assumes inv: "down_ok d cmp c xs" and c: "c < length xs"
    and g: "0 < g" "g < length xs" "heap_parent d g = c" and gc: "cmp (xs ! g) (xs ! c)"
    and least: "\<And>i. i < length xs \<Longrightarrow> 0 < i \<Longrightarrow> heap_parent d i = c \<Longrightarrow> cmp (xs ! g) (xs ! i)"
  shows "down_ok d cmp g (switch_elements g c xs)"
proof -
  let ?ys = "switch_elements g c xs"
  have cg: "c < g" using parent_less [OF g(1), of d] g(3) by simp
  have one: "cmp (xs ! (heap_parent d i)) (xs ! i)" if "i < length xs" "0 < i" "heap_parent d i \<noteq> c" for i
    using inv that by (simp add: down_ok_def)
  have nth: "?ys ! k = (if k = c then xs ! g else if k = g then xs ! c else xs ! k)"
    if "k < length xs" for k
    using that c g by (simp add: nth_switch)
  have par: "heap_parent d i < i" if "0 < i" for i using that by (rule parent_less)
  have A: "cmp (?ys ! (heap_parent d i)) (?ys ! i)"
    if i: "i < length xs" "0 < i" "heap_parent d i \<noteq> g" for i
  proof -
    consider "i = g" | "i = c" | "i \<noteq> g" "i \<noteq> c" by blast
    then show ?thesis
    proof cases
      case 1
      with gc g c cg show ?thesis by (simp add: nth)
    next
      case 2
      then have "0 < c" using i by simp
      then have "cmp (xs ! (heap_parent d c)) (xs ! g)" using inv g by (simp add: down_ok_def)
      with 2 i par [OF \<open>0 < c\<close>] cg c show ?thesis by (simp add: nth)
    next
      case 3
      have "heap_parent d i < length xs" using par [OF i(2)] i by simp
      with 3 i one [OF i(1,2)] least [OF i(1,2)] show ?thesis by (auto simp: nth)
    qed
  qed
  have B: "cmp (?ys ! (heap_parent d g)) (?ys ! i)"
    if i: "i < length xs" "0 < i" "heap_parent d i = g" for i
  proof -
    have "g < i" using par [OF i(2)] i(3) by simp
    then have "cmp (xs ! g) (xs ! i)" using one [OF i(1,2)] i(3) cg by simp
    with \<open>g < i\<close> g cg c i show ?thesis by (simp add: nth)
  qed
  from A B show ?thesis by (simp add: down_ok_def)
qed

lemma down_done:
  assumes "down_ok d cmp c xs"
    and "\<And>i. i < length xs \<Longrightarrow> 0 < i \<Longrightarrow> heap_parent d i = c \<Longrightarrow> cmp (xs ! c) (xs ! i)"
  shows "heap_ok d cmp xs"
  unfolding heap_ok_def
proof (intro allI impI)
  fix i assume i: "i < length xs" "0 < i"
  show "cmp (xs ! heap_parent d i) (xs ! i)"
    by (cases "heap_parent d i = c") (use assms i in \<open>auto simp: down_ok_def\<close>)
qed

lemma sift_down_heap: "down_ok d cmp c xs \<Longrightarrow> heap_ok d cmp (sift_down d cmp xs c)"
proof (induction "length xs - c" arbitrary: xs c rule: less_induct)
  case less
  show ?case
  proof (cases "c + 1 < length xs")
    case False
    have "heap_ok d cmp xs"
    proof (rule down_done [OF less.prems])
      fix i assume "i < length xs" "0 < i" "heap_parent d i = c"
      with False parent_less [of i d] show "cmp (xs ! c) (xs ! i)" by linarith
    qed
    with False show ?thesis by (simp add: sift_down.simps [of d cmp xs c])
  next
    case True
    obtain g b where p: "pick_child cmp xs c (children d xs c) (c * d + 1) False = (g, b)"
      by (cases "pick_child cmp xs c (children d xs c) (c * d + 1) False")
    note least = pick_child_least [OF p]
    show ?thesis
    proof (cases b)
      case False
      have "heap_ok d cmp xs"
        using less.prems least False not_cmp set_children [OF d_pos, of xs c]
        by (intro down_done [of c]) auto
      with True False p show ?thesis by (simp add: sift_down.simps [of d cmp xs c])
    next
      case b: True
      have "g \<in> set (children d xs c)" using pick_child_in p b by fastforce
      then have g: "0 < g" "g < length xs" "heap_parent d g = c"
        using set_children [OF d_pos, of xs c] by auto
      have "down_ok d cmp g (switch_elements g c xs)"
        using least b True set_children [OF d_pos, of xs c]
        by (intro down_step [OF less.prems _ g]) auto
      moreover have "c < g" using pick_child_bound [of cmp xs c d "c * d + 1" g] p b by simp
      ultimately show ?thesis
        using less.hyps [of "switch_elements g c xs" g] g True p b
        by (simp add: sift_down.simps [of d cmp xs c])
    qed
  qed
qed

lemma take_top_heap:
  assumes "heap_ok d cmp xs" and "xs \<noteq> []"
  shows "heap_ok d cmp (let ys = butlast (switch_elements 0 (length xs - 1) xs)
    in if length ys > 1 then sift_down d cmp ys 0 else ys)"
proof -
  let ?ys = "butlast (switch_elements 0 (length xs - 1) xs)"
  have nth: "?ys ! i = xs ! i" if "0 < i" "i < length ?ys" for i
    using that assms(2) by (simp add: nth_butlast nth_switch)
  have "down_ok d cmp 0 ?ys"
    unfolding down_ok_def
  proof (intro conjI allI impI)
    fix i assume i: "i < length ?ys" "0 < i" "heap_parent d i \<noteq> 0"
    then have "heap_parent d i < length ?ys" using parent_less [of i d] by simp
    then have "?ys ! heap_parent d i = xs ! heap_parent d i" "?ys ! i = xs ! i"
      using i nth [of "heap_parent d i"] nth [of i] by auto
    moreover have "cmp (xs ! heap_parent d i) (xs ! i)"
      using assms(1) i by (simp add: heap_ok_def)
    ultimately show "cmp (?ys ! heap_parent d i) (?ys ! i)" by simp
  qed simp
  then have "heap_ok d cmp (sift_down d cmp ?ys 0)" by (rule sift_down_heap)
  moreover have "length ?ys \<le> 1 \<Longrightarrow> heap_ok d cmp ?ys" by (simp add: heap_ok_def)
  ultimately show ?thesis by (auto simp: Let_def)
qed

lemma transfer_top_heap:
  assumes "heap_ok d cmp xs" and "transfer_top_command d cmp xs t = (True, ys, t')"
  shows "heap_ok d cmp ys" and "t' = t @ [hd xs]" and "mset ys + {#hd xs#} = mset xs"
    and "\<forall>x \<in> set xs. cmp (hd xs) x"
proof -
  have ne: "xs \<noteq> []" using assms(2) by (auto simp: transfer_top_command_def)
  show "heap_ok d cmp ys"
    using take_top_heap [OF assms(1) ne] assms(2) ne
    by (auto simp: transfer_top_command_def p_heap_element_to_def Let_def split: if_splits)
  show "t' = t @ [hd xs]" "mset ys + {#hd xs#} = mset xs"
    using transfer_top_mset [OF ne, of d cmp t] assms(2) by auto
  show "\<forall>x \<in> set xs. cmp (hd xs) x"
    using heap_top [OF assms(1)] ne by (auto simp: in_set_conv_nth hd_conv_nth)
qed

end

section \<open>Taking several commands\<close>

text \<open>The loop of \<open>server_execute_next\<close>:
  \<open>while (cache_size-- && commands()->transfer_top_command(&check_priority, command_cache));\<close>\<close>

fun transfer_commands ::
  "nat \<Rightarrow> ('e \<Rightarrow> 'e \<Rightarrow> bool) \<Rightarrow> nat \<Rightarrow> 'e list \<Rightarrow> 'e list \<Rightarrow> 'e list \<times> 'e list" where
  "transfer_commands d cmp 0 xs cache = (xs, cache)"
| "transfer_commands d cmp (Suc n) xs cache =
     (case transfer_top_command d cmp xs cache of
        (True, ys, cache') \<Rightarrow> transfer_commands d cmp n ys cache'
      | (False, ys, cache') \<Rightarrow> (ys, cache'))"

text \<open>What the callers rely on: the queue is a bag of commands, and the command taken is a least one.\<close>

locale command_queue =
  fixes inv :: "'q \<Rightarrow> bool" and items :: "'q \<Rightarrow> 'e multiset"
    and insert :: "'e \<Rightarrow> 'q \<Rightarrow> 'q" and take_top :: "'q \<Rightarrow> ('e \<times> 'q) option"
    and le :: "'e \<Rightarrow> 'e \<Rightarrow> bool"
  assumes inv_insert: "inv q \<Longrightarrow> inv (insert e q)"
    and items_insert: "inv q \<Longrightarrow> items (insert e q) = add_mset e (items q)"
    and take_None: "inv q \<Longrightarrow> take_top q = None \<longleftrightarrow> items q = {#}"
    and take_Some: "inv q \<Longrightarrow> take_top q = Some (e, q') \<Longrightarrow>
      inv q' \<and> items q = add_mset e (items q') \<and> (\<forall>x \<in># items q'. le e x)"

fun drain :: "('q \<Rightarrow> ('e \<times> 'q) option) \<Rightarrow> nat \<Rightarrow> 'q \<Rightarrow> 'e list \<times> 'q" where
  "drain tk 0 q = ([], q)"
| "drain tk (Suc n) q =
     (case tk q of
        None \<Rightarrow> ([], q)
      | Some (e, q') \<Rightarrow> (case drain tk n q' of (es, r) \<Rightarrow> (e # es, r)))"

context command_queue
begin

lemma drain_inv_items:
  "inv q \<Longrightarrow> drain take_top n q = (es, r) \<Longrightarrow>
    inv r \<and> items q = mset es + items r \<and> length es = min n (size (items q))"
proof (induction n arbitrary: q es r)
  case (Suc n)
  show ?case
  proof (cases "take_top q")
    case None
    with Suc.prems take_None show ?thesis by simp
  next
    case (Some p)
    obtain e q' where p: "p = (e, q')" by (cases p)
    obtain fs where d: "drain take_top n q' = (fs, r)" and es: "es = e # fs"
      using Suc.prems(2) Some p by (auto split: prod.splits)
    from take_Some [OF Suc.prems(1)] Some p have q': "inv q'"
      and i: "items q = add_mset e (items q')" by auto
    from Suc.IH [OF q' d] have r: "inv r" and m: "items q' = mset fs + items r"
      and l: "length fs = min n (size (items q'))" by blast+
    have "items q = mset es + items r" unfolding i es m by simp
    moreover have "length es = min (Suc n) (size (items q))" unfolding i es by (simp add: l)
    ultimately show ?thesis using r by simp
  qed
qed simp

text \<open>Whatever was inserted, and in whatever order, comes out in order.\<close>

theorem drain_in_order:
  "inv q \<Longrightarrow> drain take_top n q = (es, r) \<Longrightarrow>
    sorted_wrt le es \<and> (\<forall>e \<in> set es. \<forall>x \<in># items r. le e x)"
proof (induction n arbitrary: q es r)
  case (Suc n)
  show ?case
  proof (cases "take_top q")
    case None
    with Suc.prems show ?thesis by simp
  next
    case (Some p)
    obtain e q' where p: "p = (e, q')" by (cases p)
    obtain fs where d: "drain take_top n q' = (fs, r)" and es: "es = e # fs"
      using Suc.prems(2) Some p by (auto split: prod.splits)
    from take_Some [OF Suc.prems(1)] Some p
    have q': "inv q'" and le: "\<forall>x \<in># items q'. le e x" by auto
    from drain_inv_items [OF q' d] have "items q' = mset fs + items r" by simp
    with le have "\<forall>x \<in> set fs. le e x" "\<forall>x \<in># items r. le e x" by auto
    with Suc.IH [OF q' d] es show ?thesis by simp
  qed
qed simp

end

text \<open>One removal of the array heap as the operation of the contract, and the loop as \<open>drain\<close>.\<close>

definition take_command :: "nat \<Rightarrow> ('e \<Rightarrow> 'e \<Rightarrow> bool) \<Rightarrow> 'e list \<Rightarrow> ('e \<times> 'e list) option" where
  "take_command d cmp xs =
     (case transfer_top_command d cmp xs [] of (ok, ys, t) \<Rightarrow> if ok then Some (last t, ys) else None)"

lemma transfer_top_cache:
  "transfer_top_command d cmp xs cache =
     (case take_command d cmp xs of
        None \<Rightarrow> (False, xs, cache) | Some (e, ys) \<Rightarrow> (True, ys, cache @ [e]))"
  by (simp add: take_command_def transfer_top_command_def p_heap_element_to_def Let_def)

lemma transfer_commands_drain:
  "transfer_commands d cmp n xs cache =
     (case drain (take_command d cmp) n xs of (es, ys) \<Rightarrow> (ys, cache @ es))"
  by (induction n arbitrary: xs cache)
    (auto simp: transfer_top_cache split: option.splits prod.splits)

sublocale heap_order \<subseteq> heap: command_queue "heap_ok d cmp" mset "insert_command d cmp"
  "take_command d cmp" cmp
proof
  fix q e
  assume h: "heap_ok d cmp q"
  show "heap_ok d cmp (insert_command d cmp e q)" using h by (rule insert_heap)
  show "mset (insert_command d cmp e q) = add_mset e (mset q)" by (rule insert_command_mset)
  show "take_command d cmp q = None \<longleftrightarrow> mset q = {#}"
    by (auto simp: take_command_def transfer_top_command_def p_heap_element_to_def Let_def)
  fix q'
  assume t: "take_command d cmp q = Some (e, q')"
  then have tr: "transfer_top_command d cmp q [] = (True, q', [e])"
    by (simp add: transfer_top_cache)
  from transfer_top_heap [OF h tr] have e: "e = hd q" and m: "mset q' + {#hd q#} = mset q"
    and ok: "heap_ok d cmp q'" and least: "\<forall>x \<in> set q. cmp (hd q) x" by simp_all
  have "mset q = add_mset e (mset q')" using m e by simp
  moreover from this have "set q' \<subseteq> set q" by (metis mset_subset_eq_add_right add_mset_add_single
    set_mset_mset set_mset_mono mset_subset_eq_add_left)
  ultimately show "heap_ok d cmp q' \<and> mset q = add_mset e (mset q') \<and> (\<forall>x \<in># mset q'. cmp e x)"
    using ok least e by auto
qed

end
