(* ===== verification/Transmit.thy ===== *)
theory Transmit
  imports Proto_Bodies Label_Check
begin

text \<open>
  \<open>command_transmit\<close> (\<open>libs/protocol/ipc/command-transmit.cpp\<close>): a command on its way, with its
  routing fields, its execution type, the client the response goes to, its body and its data
  tree; the server's command finder \<open>empty_server_command\<close>
  (\<open>libs/server/server-command.cpp\<close>); and the text a command is sent as.
\<close>

section \<open>The record\<close>

record command_transmit = command_info +
  wait_start :: u64
  execute_type :: mask16
  no_send :: u8
  send_to :: handle
  command :: "body option"
  tree :: "data_section list"
  command_label :: string

definition new_transmit :: "u32 \<Rightarrow> command_transmit" where
  "new_transmit pid = command_info.extend (clear_info pid)
     \<lparr>wait_start = 0, execute_type = 0, no_send = 0, send_to = 0, command = None, tree = [],
      command_label = []\<rparr>"

text \<open>\<open>property_equal\<close>: the fields of \<open>command_info\<close> and the listed ones; not \<open>wait_start\<close>, the
  tree or the body.\<close>

definition property_equal :: "command_transmit \<Rightarrow> command_transmit \<Rightarrow> command_transmit" where
  "property_equal this eEqual = command_info.extend (command_info.truncate eEqual)
     \<lparr>wait_start = wait_start this, execute_type = execute_type eEqual, no_send = no_send eEqual,
      send_to = send_to eEqual, command = command this, tree = tree this,
      command_label = command_label eEqual\<rparr>"

definition assign_transmit :: "command_transmit \<Rightarrow> command_transmit \<Rightarrow> command_transmit" where
  "assign_transmit this eEqual =
     (property_equal this eEqual)\<lparr>tree := tree eEqual, command := command eEqual\<rparr>"

text \<open>\<open>command_name\<close>: the body's label, else the label from the input.\<close>

definition command_name :: "command_transmit \<Rightarrow> string" where
  "command_name c = (case command c of Some b \<Rightarrow> body_name b | None \<Rightarrow> command_label c)"

definition command_ready :: "command_transmit \<Rightarrow> bool" where
  "command_ready c \<longleftrightarrow> command c \<noteq> None"

text \<open>\<open>compile_command\<close> of an existing body: all bodies but null ones reset their fields.\<close>

definition compile_body :: "local_info \<Rightarrow> body \<Rightarrow> data_section list \<Rightarrow> body option" where
  "compile_body l b t = (case b of Null_Command n \<Rightarrow> Some b | _ \<Rightarrow> body_parse l (body_name b) t)"

definition set_command ::
  "local_info \<Rightarrow> body option \<Rightarrow> command_transmit \<Rightarrow> bool \<times> command_transmit" where
  "set_command l cCommand c =
     (case cCommand of
        None \<Rightarrow> (True, c\<lparr>command := None\<rparr>)
      | Some b \<Rightarrow>
          if tree c \<noteq> [] then
            (case compile_body l b (tree c) of
               None \<Rightarrow> (False, c)
             | Some b' \<Rightarrow> (True, c\<lparr>command := Some b'\<rparr>))
          else (True, c\<lparr>command := Some b\<rparr>))"

definition assemble_command :: "local_info \<Rightarrow> command_transmit \<Rightarrow> bool \<times> command_transmit" where
  "assemble_command l c =
     (case command c of
        None \<Rightarrow> (False, c)
      | Some b \<Rightarrow> (case body_assemble l b of
          None \<Rightarrow> (False, c)
        | Some t \<Rightarrow> (True, c\<lparr>tree := t\<rparr>)))"

definition command_sendable :: "local_info \<Rightarrow> command_transmit \<Rightarrow> bool \<times> command_transmit" where
  "command_sendable l c = (if tree c \<noteq> [] then (True, c) else assemble_command l c)"

section \<open>Permissions and priority of the body\<close>

definition override_priority :: "command_transmit \<Rightarrow> u8 \<Rightarrow> u8" where
  "override_priority c pPriority =
     (let new_priority = (if pPriority < priority c then priority c else pPriority)
      in if \<not> allow_override_priority (execute_type c) then new_priority
         else (case command c of Some b \<Rightarrow> body_override b new_priority | None \<Rightarrow> new_priority))"

definition execute_permissions :: "command_transmit \<Rightarrow> mask16" where
  "execute_permissions c = (case command c of Some b \<Rightarrow> body_permissions b | None \<Rightarrow> type_none)"

section \<open>Properties read from the input\<close>

definition protocol_version :: string where "protocol_version = ''fb1''"

definition string_property ::
  "string option \<Rightarrow> string option \<Rightarrow> command_transmit \<Rightarrow> bool \<times> command_transmit" where
  "string_property lLabel vValue c =
     (case (lLabel, vValue) of
        (Some lab, Some v) \<Rightarrow>
          (if lab = ''_oe'' then (True, c\<lparr>orig_entity := v\<rparr>)
           else if lab = ''_oa'' then (True, c\<lparr>orig_address := v\<rparr>)
           else if lab = ''_te'' then (True, c\<lparr>target_entity := v\<rparr>)
           else if lab = ''_ta'' then (True, c\<lparr>target_address := v\<rparr>)
           else if lab = ''_v'' then (protocol_version = v, c)
           else (False, c))
      | _ \<Rightarrow> (False, c))"

definition uinteger_property ::
  "string option \<Rightarrow> u32 \<Rightarrow> command_transmit \<Rightarrow> bool \<times> command_transmit" where
  "uinteger_property lLabel v c =
     (case lLabel of
        None \<Rightarrow> (False, c)
      | Some lab \<Rightarrow>
          (if lab = ''_p'' then (True, c\<lparr>priority := ucast v\<rparr>)
           else if lab = ''_or'' then (True, c\<lparr>orig_reference := v\<rparr>)
           else if lab = ''_tr'' then (True, c\<lparr>target_reference := v\<rparr>)
           else if lab = ''_rr'' then (True, c\<lparr>remote_reference := v\<rparr>)
           else if lab = ''_cp'' then (True, c\<lparr>creator_pid := v\<rparr>)
           else if lab = ''_t'' then (True, c\<lparr>send_time := v\<rparr>)
           else if lab = ''_sr'' then (True, c\<lparr>silent_auto_response := (v \<noteq> 0)\<rparr>)
           else if lab = ''_st'' then (True, c\<lparr>sender_type := ucast v\<rparr>)
           else (False, c)))"

definition sinteger_property ::
  "string option \<Rightarrow> int \<Rightarrow> command_transmit \<Rightarrow> bool \<times> command_transmit" where
  "sinteger_property lLabel v c =
     (if v < 0 then (False, c) else uinteger_property lLabel (of_int v) c)"

section \<open>The server's command finder\<close>

text \<open>
  \<open>empty_server_command\<close>: an unknown label is a plug-in and becomes a null command; a command
  with a target address becomes a null command too, and a server command among those is
  treated as a request. The body and the type are installed only if the data compiles.
\<close>

definition server_command_type ::
  "local_info \<Rightarrow> command_transmit \<Rightarrow> string \<Rightarrow> (body \<times> mask16) option" where
  "server_command_type l base nName =
     (if nName = [] then Some (Null_Command nName, command_plugin)
      else (case generate nName of
        None \<Rightarrow> Some (Null_Command nName, command_plugin)
      | Some b \<Rightarrow> (case body_generator b of
          None \<Rightarrow> None
        | Some g \<Rightarrow>
            if \<not> parse_permissions_gen l g then None
            else if length (target_address base) \<noteq> 0 then
              (let t1 = execution_type g OR command_remote
               in Some (Null_Command nName,
                    if check_all t1 command_server
                    then (t1 AND NOT command_server) OR command_request else t1))
            else Some (b, execution_type g))))"

definition empty_server_command ::
  "local_info \<Rightarrow> command_transmit \<Rightarrow> string \<Rightarrow> bool \<times> command_transmit" where
  "empty_server_command l bBase nName =
     (let base = bBase\<lparr>execute_type := command_null\<rparr>
      in (case server_command_type l base nName of
            None \<Rightarrow> (False, base)
          | Some (b, ty) \<Rightarrow>
              (case set_command l (Some b) base of
                 (ok, base') \<Rightarrow> if \<not> ok then (False, base') else (True, base'\<lparr>execute_type := ty\<rparr>))))"

definition find_command :: "local_info \<Rightarrow> command_transmit \<Rightarrow> bool \<times> command_transmit" where
  "find_command l c =
     (case empty_server_command l c (command_label c) of
        (ok, c') \<Rightarrow>
          if \<not> ok \<or> (length (orig_address c') \<noteq> 0 \<and> check_all (execute_type c') command_no_remote)
          then (False, c') else (True, c'))"

lemma generate_generator: "generate n = Some b \<Longrightarrow> body_generator b \<noteq> None"
  by (auto simp: generate_def body_parse_def split: option.splits)

text \<open>With an address no command found by the server is a server command.\<close>

lemma not_server_type:
  "\<not> check_all (((t AND NOT command_server) OR command_request) :: mask16) command_server"
  by (simp add: flag_defs check_all_bits bit_simps exI [of _ 2])

lemma server_command_type_remote:
  assumes "server_command_type l base n = Some (b, ty)" and "target_address base \<noteq> []"
  shows "\<not> check_all ty command_server" and "\<exists>m. b = Null_Command m"
proof -
  have p: "\<not> check_all command_plugin command_server"
    by (simp add: flag_defs check_all_def)
  show "\<not> check_all ty command_server"
    using assms p not_server_type
    by (auto simp: server_command_type_def Let_def split: if_splits option.splits)
  show "\<exists>m. b = Null_Command m"
    using assms by (auto simp: server_command_type_def Let_def split: if_splits option.splits)
qed

section \<open>The text of a command\<close>

text \<open>\<open>snprintf\<close> into a buffer of \<open>n\<close> bytes keeps \<open>n - 1\<close> characters. \<open>%X\<close> prints upper-case
  hexadecimal digits. Data goes out one character at a time through a buffer read as a C string,
  so null characters are written as nothing.\<close>

definition snprintf_text :: "nat \<Rightarrow> string \<Rightarrow> string" where
  "snprintf_text n s = take (n - 1) s"

fun print_upper :: "nat \<Rightarrow> string" where
  "print_upper n = (if n < 16 then [upper_digits ! n] else print_upper (n div 16) @ [upper_digits ! (n mod 16)])"

declare print_upper.simps [simp del]

definition hex_line :: "string \<Rightarrow> nat \<Rightarrow> string" where
  "hex_line label v =
     snprintf_text 256 (''    '' @ label @ '' = !x'' @ print_upper v @ [CHR 0x0A])"

definition text_line :: "string \<Rightarrow> string \<Rightarrow> string" where
  "text_line label v = snprintf_text 256 (''    '' @ label @ '' = '' @ v @ [CHR 0x0A])"

fun export_section :: "string \<Rightarrow> data_section \<Rightarrow> string"
and export_tree :: "string \<Rightarrow> data_section list \<Rightarrow> string" where
  "export_section p (Empty_Section n) =
     (if n \<noteq> [] then snprintf_text 2048 (p @ n @ '' = '') else p)"
| "export_section p (Data_Section n b d) =
     (if n \<noteq> [] then snprintf_text 2048 (p @ n @ '' = '') else p) @
     snprintf_text 2048 ([CHR 0x5C, if b then CHR ''B'' else CHR ''T''] @ print_upper (length d)
       @ [CHR 0x5C]) @ filter (\<lambda>c. c \<noteq> CHR 0x00) d @ [CHR 0x0A]"
| "export_section p (Group_Section n cs) =
     (if n \<noteq> [] then snprintf_text 2048 (p @ n @ '' = '') else p) @ ''{'' @ [CHR 0x0A] @
     export_tree (p @ ''  '') cs @ snprintf_text 2048 (p @ ''}'' @ [CHR 0x0A])"
| "export_tree p [] = []"
| "export_tree p (x # xs) = export_section p x @ export_tree p xs"

definition route_text :: "u32 \<Rightarrow> command_transmit \<Rightarrow> string" where
  "route_text now c =
     ''  !route {'' @ [CHR 0x0A] @
     (if protocol_version \<noteq> [] then text_line ''_v'' protocol_version else []) @
     hex_line ''_p'' (unat (priority c)) @
     hex_line ''_or'' (unat (orig_reference c)) @
     hex_line ''_tr'' (unat (target_reference c)) @
     hex_line ''_rr'' (unat (remote_reference c)) @
     hex_line ''_cp'' (unat (creator_pid c)) @
     hex_line ''_t'' (unat (if send_time c \<noteq> 0 then send_time c else now)) @
     (if silent_auto_response c then snprintf_text 256 (''    '' @ ''_sr'' @ '' = !x1'' @ [CHR 0x0A]) else []) @
     (if orig_entity c \<noteq> [] then text_line ''_oe'' (orig_entity c) else []) @
     (if orig_address c \<noteq> [] then text_line ''_oa'' (orig_address c) else []) @
     (if target_entity c \<noteq> [] then text_line ''_te'' (target_entity c) else []) @
     (if target_address c \<noteq> [] then text_line ''_ta'' (target_address c) else []) @
     (if sender_type c \<noteq> type_none then hex_line ''_st'' (unat (sender_type c)) else []) @
     ''  }'' @ [CHR 0x0A]"

definition send_data :: "u32 \<Rightarrow> command_transmit \<Rightarrow> string option" where
  "send_data now c =
     (if command_name c = [] then None
      else Some (snprintf_text 256 (''!rservr['' @ command_name c @ ''] {'' @ [CHR 0x0A]) @
        route_text now c @ export_tree ''  '' (tree c) @ ''}'' @ [CHR 0x0A]))"

end
