(* ===== verification/Execute_Queue.thy ===== *)
theory Execute_Queue
  imports Complex_Main Heap_Queue Transmit
begin

text \<open>
  The command queue of the server: \<open>execute_queue\<close> is the heap of \<open>Heap_Queue\<close> with
  \<open>PARAM_EXECUTE_HEAP_ORDER\<close> children per node, its elements are pairs of the sender's handle
  and the command, and the comparison is \<open>priority_adjust\<close>
  (\<open>libs/server/local-include/priority-adjust.hpp\<close>) with \<open>priority_value\<close>
  (\<open>libs/server/api-server.cpp\<close>). The code computes the value in \<open>double\<close>; the model takes it
  exactly, as a rational.
\<close>

type_synonym queued = "handle \<times> command_transmit"

definition PARAM_EXECUTE_HEAP_ORDER :: nat where "PARAM_EXECUTE_HEAP_ORDER = 8"

section \<open>Priorities\<close>

definition priority_value :: "rat \<Rightarrow> command_transmit \<Rightarrow> u64 \<Rightarrow> rat" where
  "priority_value time_priority_factor cCommand cCounter =
     of_int (uint (priority cCommand) + uint (penalty cCommand)) -
     of_nat (unat (cCounter - wait_start cCommand)) * time_priority_factor"

definition priority_adjust :: "rat \<Rightarrow> u64 \<Rightarrow> queued \<Rightarrow> queued \<Rightarrow> bool" where
  "priority_adjust f counter lLeft rRight \<longleftrightarrow>
     priority_value f (snd lLeft) counter \<le> priority_value f (snd rRight) counter"

interpretation exec: heap_order PARAM_EXECUTE_HEAP_ORDER "priority_adjust f counter"
  for f counter
  by unfold_locales (auto simp: priority_adjust_def PARAM_EXECUTE_HEAP_ORDER_def)

section \<open>The queue\<close>

record execute_queue =
  queue_items :: "queued list"
  max_size :: u32

definition set_queue_limit :: "u32 \<Rightarrow> execute_queue \<Rightarrow> execute_queue" where
  "set_queue_limit sSize q = q\<lparr>max_size := sSize\<rparr>"

definition number_waiting :: "execute_queue \<Rightarrow> nat" where
  "number_waiting q = length (queue_items q)"

definition queue_full :: "execute_queue \<Rightarrow> bool" where
  "queue_full q \<longleftrightarrow> length (queue_items q) \<ge> unat (max_size q)"

definition queue_insert :: "rat \<Rightarrow> u64 \<Rightarrow> queued \<Rightarrow> execute_queue \<Rightarrow> execute_queue" where
  "queue_insert f counter e q =
     q\<lparr>queue_items := insert_command PARAM_EXECUTE_HEAP_ORDER (priority_adjust f counter) e (queue_items q)\<rparr>"

text \<open>\<open>remove_commands\<close>: a command of a client that is gone stays where it is, without its
  sender.\<close>

definition remove_commands :: "handle \<Rightarrow> queued list \<Rightarrow> queued list" where
  "remove_commands hHandle xs = map (\<lambda>(k, c). (if k = hHandle then 0 else k, c)) xs"

text \<open>\<open>top_command\<close> drops the commands without a sender on its way to the first other one.\<close>

function top_command :: "nat \<Rightarrow> (queued \<Rightarrow> queued \<Rightarrow> bool) \<Rightarrow> queued list \<Rightarrow> queued list \<times> queued option" where
  "top_command d cmp xs =
     (if xs \<noteq> [] \<and> fst (hd xs) = 0
      then top_command d cmp (snd (remove_top_command d cmp xs))
      else (xs, if xs \<noteq> [] then Some (hd xs) else None))"
  by auto
termination
proof (relation "measure (\<lambda>(d, cmp, xs). length xs)")
  fix d cmp and xs :: "queued list"
  assume "xs \<noteq> [] \<and> fst (hd xs) = 0"
  then have "length (snd (remove_top_command d cmp xs)) < length xs"
    by (auto simp: remove_top_command_def Let_def)
  then show "((d, cmp, snd (remove_top_command d cmp xs)), (d, cmp, xs)) \<in> measure (\<lambda>(d, cmp, xs). length xs)"
    by simp
qed simp

declare top_command.simps [simp del]

text \<open>\<open>server_execute_next\<close> moves as many commands as the load allows into the cache.\<close>

definition server_execute_next ::
  "rat \<Rightarrow> u64 \<Rightarrow> nat \<Rightarrow> execute_queue \<Rightarrow> queued list \<Rightarrow> bool \<times> execute_queue \<times> queued list" where
  "server_execute_next f counter cache_size q cache =
     (if number_waiting q = 0 then (False, q, cache)
      else (case transfer_commands PARAM_EXECUTE_HEAP_ORDER (priority_adjust f counter) cache_size
                   (queue_items q) cache of
        (xs, cache') \<Rightarrow> (cache' \<noteq> [], q\<lparr>queue_items := xs\<rparr>, cache')))"

definition queue_ok :: "rat \<Rightarrow> u64 \<Rightarrow> execute_queue \<Rightarrow> bool" where
  "queue_ok f counter q \<longleftrightarrow>
     heap_ok PARAM_EXECUTE_HEAP_ORDER (priority_adjust f counter) (queue_items q)"

section \<open>The order does not depend on when it is looked at\<close>

lemma sub_plus_one:
  fixes a b :: u64
  assumes "b \<le> a" and "a \<noteq> - 1"
  shows "unat (a + 1 - b) = Suc (unat (a - b))"
proof -
  have "unat (a - b) < unat (- 1 :: u64)"
  proof -
    have "a - b \<le> a" using assms(1) by (simp add: word_sub_le)
    moreover have "a < - 1" using assms(2) by (simp add: word_order.not_eq_extremum)
    ultimately have "a - b < - 1" by (rule le_less_trans)
    then show ?thesis by (simp add: word_less_nat_alt)
  qed
  then have "unat (a - b) + 1 < 2 ^ 64" by (simp add: unsigned_minus_1_eq_mask mask_eq_exp_minus_1)
  then have "unat (a - b + 1) = unat (a - b) + 1"
    by (simp add: unat_word_ariths)
  then show ?thesis by (simp add: algebra_simps)
qed

lemma priority_value_next:
  assumes "wait_start c \<le> counter" and "counter \<noteq> - 1"
  shows "priority_value f c (counter + 1) = priority_value f c counter - f"
  using sub_plus_one [OF assms] by (simp add: priority_value_def algebra_simps)

lemma priority_adjust_next:
  assumes "wait_start (snd l) \<le> counter" and "wait_start (snd r) \<le> counter" and "counter \<noteq> - 1"
  shows "priority_adjust f (counter + 1) l r = priority_adjust f counter l r"
  using assms by (simp add: priority_adjust_def priority_value_next)

lemma heap_ok_cong:
  assumes "\<And>x y. x \<in> set xs \<Longrightarrow> y \<in> set xs \<Longrightarrow> cmp x y = cmp' x y"
  shows "heap_ok d cmp xs = heap_ok d cmp' xs"
  unfolding heap_ok_def
  using assms parent_less [of _ d] by (meson less_trans nth_mem)

text \<open>
  C14. Advancing the command counter, which changes the value of every waiting command,
  leaves the heap of the execution queue in order: commands that were stamped with an
  earlier counter keep their relative order, so no re-heapify is needed.
\<close>

theorem queue_ok_next_counter:
  assumes "queue_ok f counter q" and "\<forall>e \<in> set (queue_items q). wait_start (snd e) \<le> counter"
    and "counter \<noteq> - 1"
  shows "queue_ok f (counter + 1) q"
  using assms heap_ok_cong [of "queue_items q" "priority_adjust f (counter + 1)" "priority_adjust f counter"]
  by (simp add: queue_ok_def priority_adjust_next)

theorem queue_ok_next_counter_witness:
  "queue_ok 1 6 \<lparr>queue_items = [(1, (new_transmit 1)\<lparr>wait_start := 2\<rparr>), (2, (new_transmit 1)\<lparr>wait_start := 5\<rparr>)],
     max_size = 10\<rparr>"
  using queue_ok_next_counter [of 1 5 "\<lparr>queue_items = [(1, (new_transmit 1)\<lparr>wait_start := 2\<rparr>),
     (2, (new_transmit 1)\<lparr>wait_start := 5\<rparr>)], max_size = 10\<rparr>"]
  by (simp add: queue_ok_def heap_ok_def less_Suc_eq heap_parent_def PARAM_EXECUTE_HEAP_ORDER_def
      priority_adjust_def priority_value_def new_transmit_def clear_info_def command_info.defs)

lemma queue_insert_ok: "queue_ok f counter q \<Longrightarrow> queue_ok f counter (queue_insert f counter e q)"
  by (simp add: queue_ok_def queue_insert_def exec.heap.inv_insert)

lemma remove_commands_heap:
  "queue_ok f counter q \<Longrightarrow> queue_ok f counter (q\<lparr>queue_items := remove_commands h (queue_items q)\<rparr>)"
proof -
  have nth: "snd (remove_commands h xs ! i) = snd (xs ! i)" if "i < length xs" for xs i
    using that by (simp add: remove_commands_def split_beta)
  have len: "length (remove_commands h xs) = length xs" for xs
    by (simp add: remove_commands_def)
  have par: "heap_parent PARAM_EXECUTE_HEAP_ORDER i < n" if "0 < i" "i < n" for i n
    using that parent_less [of i PARAM_EXECUTE_HEAP_ORDER] by simp
  assume "queue_ok f counter q"
  then show ?thesis
    by (simp add: queue_ok_def heap_ok_def priority_adjust_def nth len par)
qed

lemma execute_next_result:
  assumes "queue_ok f counter q"
    and "server_execute_next f counter n q cache = (ok, q', cache')"
  shows "\<exists>es. cache' = cache @ es \<and> mset es + mset (queue_items q') = mset (queue_items q) \<and>
    length es = min n (number_waiting q) \<and> sorted_wrt (priority_adjust f counter) es \<and>
    (\<forall>e \<in> set es. \<forall>x \<in> set (queue_items q'). priority_adjust f counter e x) \<and>
    queue_ok f counter q'"
proof (cases "number_waiting q = 0")
  case True
  with assms show ?thesis by (auto simp: server_execute_next_def number_waiting_def)
next
  case False
  let ?d = PARAM_EXECUTE_HEAP_ORDER and ?c = "priority_adjust f counter"
  obtain es xs where d: "drain (take_command ?d ?c) n (queue_items q) = (es, xs)"
    by (cases "drain (take_command ?d ?c) n (queue_items q)")
  have q': "q' = q\<lparr>queue_items := xs\<rparr>" "cache' = cache @ es"
    using assms(2) False d by (auto simp: server_execute_next_def transfer_commands_drain)
  have inv: "heap_ok ?d ?c (queue_items q)" using assms(1) by (simp add: queue_ok_def)
  show ?thesis
    using exec.heap.drain_inv_items [OF inv d] exec.heap.drain_in_order [OF inv d] q'
    by (auto simp: queue_ok_def number_waiting_def)
qed

text \<open>
  C13. The commands \<open>server_execute_next\<close> moves to the cache are, one after the other, the
  waiting commands of least priority value; none is lost or duplicated, and the queue is
  left in order.
\<close>

theorem execute_next_in_order:
  assumes "queue_ok f counter q"
    and "server_execute_next f counter n q cache = (ok, q', cache')"
  shows "\<exists>es. cache' = cache @ es \<and> mset es + mset (queue_items q') = mset (queue_items q) \<and>
    length es = min n (number_waiting q) \<and> sorted_wrt (priority_adjust f counter) es \<and>
    (\<forall>e \<in> set es. \<forall>x \<in> set (queue_items q'). priority_adjust f counter e x) \<and>
    queue_ok f counter q'"
  using assms by (rule execute_next_result)

theorem execute_next_in_order_witness:
  "\<exists>es. snd (snd (server_execute_next 1 3 1 \<lparr>queue_items = [(7, new_transmit 1)], max_size = 4\<rparr> [])) = [] @ es
     \<and> length es = 1"
proof -
  let ?q = "\<lparr>queue_items = [(7, new_transmit 1)], max_size = 4\<rparr>"
  obtain ok q' cache' where r: "server_execute_next 1 3 1 ?q [] = (ok, q', cache')"
    by (cases "server_execute_next 1 3 1 ?q []")
  have "queue_ok 1 3 ?q" by (simp add: queue_ok_def heap_ok_def)
  from execute_next_in_order [OF this r] show ?thesis
    unfolding r by (auto simp: number_waiting_def)
qed

end
