(* ===== verification/Server_State.thy ===== *)
theory Server_State
  imports Execute_Queue
begin

text \<open>
  The state of the server process and its outgoing messages. The static data of
  \<open>libs/server/api-server.cpp\<close>, \<open>server-command.cpp\<close>, \<open>execute-thread.cpp\<close> and
  \<open>monitors.cpp\<close> is one record \<open>server\<close>; a \<open>client_id\<close> (\<open>local-client.cpp\<close>) is a record
  with its address as a field. Every operation takes the system it runs on as an \<open>env\<close> and
  returns the changed state. What is written to clients is recorded in \<open>outbox\<close>, in order.
\<close>

section \<open>Clients and services\<close>

record client_id =
  client_address :: handle
  fresh_client :: bool
  max_command_logged :: bool
  critical :: bool
  attached_client :: bool
  ipc_closed :: bool
  response_thread :: bool
  input_pipe :: int
  output_pipe :: int
  detached_socket :: int
  client_name :: string
  primary_service :: string
  process_id :: int
  client_type :: mask16
  user_id :: nat
  group_id :: nat
  min_priority :: u8
  max_permissions :: mask16
  max_new_client :: mask16
  total_errors :: nat
  total_invalid :: nat
  total_waiting :: nat
  notify_reference :: u32
  notify_handle :: handle

definition new_client_id :: "handle \<Rightarrow> client_id" where
  "new_client_id a = \<lparr>client_address = a, fresh_client = True, max_command_logged = False,
     critical = False, attached_client = False, ipc_closed = False, response_thread = False, input_pipe = -1,
     output_pipe = -1, detached_socket = -1, client_name = [], primary_service = [],
     process_id = -1, client_type = 0, user_id = 0, group_id = 0, min_priority = 0,
     max_permissions = 0, max_new_client = 0, total_errors = 0, total_invalid = 0,
     total_waiting = 0, notify_reference = 0, notify_handle = 0\<rparr>"

definition logging_name :: "client_id \<Rightarrow> string" where
  "logging_name c = (if client_name c \<noteq> [] then client_name c else primary_service c)"

definition set_primary_service :: "string \<Rightarrow> client_id \<Rightarrow> client_id" where
  "set_primary_service nName c =
     (if nName = [] then c\<lparr>primary_service := []\<rparr>
      else if primary_service c = [] then c\<lparr>primary_service := ''('' @ nName @ '')''\<rparr>
      else c)"

record registered_service =
  service_name :: string
  service_type :: string
  service_location :: string

type_synonym service_list = "(handle \<times> registered_service) list"

record exit_monitor =
  exit_client :: handle
  exit_name :: string

record monitor_list =
  events :: "(handle \<times> u32) list"
  exits :: "(handle \<times> exit_monitor) list"

section \<open>Settings and terminal\<close>

record server_parameters =
  max_client_error :: u32
  max_client_invalid :: u32
  max_client_commands :: u32
  max_commands :: u32
  max_clients :: u32
  max_services :: u32
  time_priority_factor :: rat

record exposed_server =
  server_parameters :: server_parameters
  default_user :: nat
  initial_user :: nat
  default_group :: nat
  initial_group :: nat
  srv_max_permissions :: mask16
  srv_max_new_client :: mask16
  srv_min_priority :: u8
  new_niceness :: int

record terminal_control =
  terminal_pid :: int
  terminal_type :: mask16
  terminal_priority :: u8

definition PARAM_ALLOW_SERVER_REQUEUE :: u32 where "PARAM_ALLOW_SERVER_REQUEUE = 64"

definition initial_settings :: exposed_server where
  "initial_settings = \<lparr>
     server_parameters = \<lparr>max_client_error = 64, max_client_invalid = 32, max_client_commands = 512,
       max_commands = 8192 - PARAM_ALLOW_SERVER_REQUEUE, max_clients = 64, max_services = 256,
       time_priority_factor = 1\<rparr>,
     default_user = 0, initial_user = 0, default_group = 0, initial_group = 0,
     srv_max_permissions = type_default_allowed,
     srv_max_new_client = type_default_allowed AND security_mask_admin,
     srv_min_priority = priority_default, new_niceness = 0\<rparr>"

definition no_terminal :: terminal_control where
  "no_terminal = \<lparr>terminal_pid = -1, terminal_type = type_none, terminal_priority = - 1\<rparr>"

section \<open>The whole state\<close>

record server =
  server_name :: string
  clients :: "client_id list"
  services :: service_list
  monitors :: monitor_list
  pending_updates :: "(u32 \<times> string list) list"
  pending_exits :: "exit_monitor list"
  commands :: execute_queue
  command_cache :: "queued list"
  counter :: u64
  settings :: exposed_server
  terminal :: terminal_control
  client_timing :: "string list"
  exit_flag :: bool
  exit_status :: bool
  register_process :: int
  notify_status :: bool
  outbox :: "(handle \<times> command_transmit) list"
  attempts :: nat

text \<open>
  The system the server runs on. \<open>accepts n\<close> and \<open>closed n\<close> tell whether the \<open>n\<close>th write to
  a client succeeds and whether its pipe is closed at that time; \<open>new_address\<close> is the allocator
  and may hand out the address of a client that is gone; the password and group databases are
  given by their entries; \<open>processes\<close> and \<open>sockets\<close> answer \<open>execute_command\<close> and the socket
  calls; \<open>expression\<close> is the regular expression library; \<open>resume_command\<close> is the number
  \<open>calculate_execution\<close> allows.
\<close>

record env =
  accepts :: "nat \<Rightarrow> handle \<Rightarrow> command_transmit \<Rightarrow> bool"
  closed :: "nat \<Rightarrow> handle \<Rightarrow> bool"
  new_address :: "handle list \<Rightarrow> handle"
  expression :: "string \<Rightarrow> string \<Rightarrow> bool"
  server_pid :: int
  server_uid :: nat
  server_euid :: nat
  server_gid :: nat
  passwd :: "nat \<Rightarrow> (string \<times> nat) option"
  passwd_name :: "string \<Rightarrow> (nat \<times> nat) option"
  group_file :: "(nat \<times> string list) list"
  group_name :: "string \<Rightarrow> nat option"
  processes :: "nat \<Rightarrow> string list \<Rightarrow> nat \<Rightarrow> nat \<Rightarrow> (int \<times> int \<times> int) option"
  threads :: "handle \<Rightarrow> bool"
  socket_file :: "string \<Rightarrow> (nat \<times> nat \<times> nat) option"
  socket_connect :: "string \<Rightarrow> int"
  process_group :: "int \<Rightarrow> int"
  process_session :: "int \<Rightarrow> int"
  own_session :: "int"
  terminal_tty :: bool
  terminal_set :: "int \<Rightarrow> bool"
  terminal_attr :: bool
  effective_ids :: "nat \<Rightarrow> nat \<Rightarrow> bool"
  execute_program :: string

definition env_ok :: "env \<Rightarrow> bool" where
  "env_ok e \<longleftrightarrow> (\<forall>hs. new_address e hs \<notin> set hs \<and> new_address e hs \<noteq> 0)"

definition base_transmit :: "env \<Rightarrow> command_transmit" where
  "base_transmit e = new_transmit (of_int (server_pid e))"

definition parameters :: "server \<Rightarrow> server_parameters" where
  "parameters s = server_parameters (settings s)"

definition local_server :: "server \<Rightarrow> local_info" where
  "local_server s = server_local (server_name s)"

section \<open>Finding clients\<close>

definition find_by_handle :: "handle \<Rightarrow> client_id list \<Rightarrow> nat option" where
  "find_by_handle h cs = find_index (\<lambda>c. client_address c = h) cs"

definition get_client_id :: "handle \<Rightarrow> server \<Rightarrow> client_id option" where
  "get_client_id h s = map_option (\<lambda>i. clients s ! i) (find_by_handle h (clients s))"

definition get_client_id_name :: "string \<Rightarrow> server \<Rightarrow> client_id option" where
  "get_client_id_name n s =
     map_option (\<lambda>i. clients s ! i) (find_index (\<lambda>c. client_name c = n) (clients s))"

text \<open>A member assignment through a \<open>client_id\<close> pointer.\<close>

definition update_client :: "handle \<Rightarrow> (client_id \<Rightarrow> client_id) \<Rightarrow> server \<Rightarrow> server" where
  "update_client h f s =
     (case find_by_handle h (clients s) of
        None \<Rightarrow> s | Some i \<Rightarrow> s\<lparr>clients := update_at i f (clients s)\<rparr>)"

definition handles :: "server \<Rightarrow> handle list" where
  "handles s = map client_address (clients s)"

text \<open>No two clients share an address, and no client is at the null address.\<close>

definition clients_ok :: "client_id list \<Rightarrow> bool" where
  "clients_ok cs \<longleftrightarrow> distinct (map client_address cs) \<and> 0 \<notin> client_address ` set cs"

lemma map_find_SomeD:
  assumes "map_option (\<lambda>i. xs ! i) (find_index P xs) = Some x"
  shows "x \<in> set xs \<and> P x"
proof -
  from assms obtain i where "find_index P xs = Some i" and "x = xs ! i" by auto
  with find_index_SomeD [of P xs i] show ?thesis by simp
qed

lemma get_client_SomeD:
  "get_client_id h s = Some c \<Longrightarrow> c \<in> set (clients s) \<and> client_address c = h"
  unfolding get_client_id_def find_by_handle_def by (drule map_find_SomeD)

lemma get_client_name_SomeD:
  "get_client_id_name n s = Some c \<Longrightarrow> c \<in> set (clients s) \<and> client_name c = n"
  unfolding get_client_id_name_def by (drule map_find_SomeD)

lemma get_client_None: "get_client_id h s = None \<longleftrightarrow> h \<notin> set (handles s)"
  by (auto simp: get_client_id_def find_by_handle_def handles_def)

lemma get_client_unique:
  assumes "clients_ok (clients s)" and "c \<in> set (clients s)"
  shows "get_client_id (client_address c) s = Some c"
proof -
  from assms(2) obtain i where i: "i < length (clients s)" "clients s ! i = c"
    by (auto simp: in_set_conv_nth)
  with assms(1) find_index_key [of client_address "clients s" i] show ?thesis
    by (simp add: get_client_id_def find_by_handle_def clients_ok_def)
qed

lemma update_client_frame [frame_simps]:
  "services (update_client h f s) = services s" "monitors (update_client h f s) = monitors s"
  "settings (update_client h f s) = settings s" "commands (update_client h f s) = commands s"
  "outbox (update_client h f s) = outbox s" "server_name (update_client h f s) = server_name s"
  "command_cache (update_client h f s) = command_cache s" "counter (update_client h f s) = counter s"
  "terminal (update_client h f s) = terminal s" "attempts (update_client h f s) = attempts s"
  "pending_updates (update_client h f s) = pending_updates s"
  "pending_exits (update_client h f s) = pending_exits s"
  "exit_status (update_client h f s) = exit_status s" "exit_flag (update_client h f s) = exit_flag s"
  by (simp_all add: update_client_def split: option.splits)

lemma update_client_handles:
  "(\<And>c. client_address (f c) = client_address c) \<Longrightarrow> handles (update_client h f s) = handles s"
  by (auto simp: update_client_def handles_def map_update_at split: option.splits)

lemma update_client_clients:
  assumes "clients_ok (clients s)"
  shows "clients (update_client h f s) = map (\<lambda>c. if client_address c = h then f c else c) (clients s)"
proof (cases "find_by_handle h (clients s)")
  case None
  then have "\<forall>c \<in> set (clients s). client_address c \<noteq> h" by (simp add: find_by_handle_def)
  with None show ?thesis by (simp add: update_client_def map_idI)
next
  case (Some i)
  from find_index_Some [OF Some [unfolded find_by_handle_def]]
  have i: "i < length (clients s)" "client_address (clients s ! i) = h" by auto
  have d: "distinct (map client_address (clients s))" using assms by (simp add: clients_ok_def)
  have uniq: "j = i" if "j < length (clients s)" "client_address (clients s ! j) = h" for j
  proof -
    have "map client_address (clients s) ! j = map client_address (clients s) ! i"
      using i that by (simp only: nth_map)
    with d i(1) that(1) show ?thesis by (simp only: nth_eq_iff_index_eq length_map)
  qed
  have eq: "clients (update_client h f s) = update_at i f (clients s)"
    using Some by (simp add: update_client_def)
  show ?thesis
    unfolding eq
  proof (intro nth_equalityI)
    fix j assume "j < length (update_at i f (clients s))"
    then have j: "j < length (clients s)" by simp
    show "update_at i f (clients s) ! j = map (\<lambda>c. if client_address c = h then f c else c) (clients s) ! j"
    proof (cases "j = i")
      case True
      with i j show ?thesis by (simp add: nth_update_at)
    next
      case False
      with uniq [OF j] j show ?thesis by (auto simp: nth_update_at)
    qed
  qed simp
qed

section \<open>What the tables are about\<close>

text \<open>The part of a client the consistency of the tables depends on.\<close>

type_synonym client_core = "handle \<times> string \<times> mask16 \<times> mask16 \<times> mask16"

definition client_core :: "client_id \<Rightarrow> client_core" where
  "client_core c = (client_address c, client_name c, client_type c, max_permissions c, max_new_client c)"

definition cores :: "server \<Rightarrow> client_core list" where
  "cores s = map client_core (clients s)"

definition core_name :: "client_core \<Rightarrow> string" where
  "core_name k = fst (snd k)"

text \<open>Names in use; the empty name is nobody's.\<close>

definition taken :: "client_core list \<Rightarrow> service_list \<Rightarrow> string list" where
  "taken cs ts = filter (\<lambda>n. n \<noteq> []) (map core_name cs @ map (service_name \<circ> snd) ts)"

text \<open>
  The tables are consistent: clients have distinct, non-null addresses; no two clients or
  services share a name; a client's type lies within its permissions; every service belongs
  to a client of the table.
\<close>

definition tables_ok :: "client_core list \<Rightarrow> service_list \<Rightarrow> bool" where
  "tables_ok cs ts \<longleftrightarrow> distinct (map fst cs) \<and> 0 \<notin> fst ` set cs \<and> distinct (taken cs ts) \<and>
     (\<forall>(a, n, t, p, m) \<in> set cs. t AND NOT p = 0) \<and> fst ` set ts \<subseteq> fst ` set cs"

definition server_ok :: "server \<Rightarrow> bool" where
  "server_ok s \<longleftrightarrow> tables_ok (cores s) (services s)"

lemma handles_cores: "handles s = map fst (cores s)"
  by (simp add: handles_def cores_def client_core_def)

lemma length_cores: "length (clients s) = length (cores s)"
  by (simp add: cores_def)

lemma server_ok_clients: "server_ok s \<Longrightarrow> clients_ok (clients s)"
  by (force simp: server_ok_def tables_ok_def clients_ok_def cores_def client_core_def comp_def)

lemma update_client_cores [frame_simps]:
  "(\<And>c. client_core (f c) = client_core c) \<Longrightarrow> cores (update_client h f s) = cores s"
  by (simp add: update_client_def cores_def map_update_at split: option.split)

lemma server_ok_same: "cores s' = cores s \<Longrightarrow> services s' = services s \<Longrightarrow> server_ok s' = server_ok s"
  by (simp add: server_ok_def)

lemma distinct_submset:
  assumes "mset ys \<subseteq># mset xs" and "distinct xs"
  shows "distinct ys"
  unfolding distinct_count_atmost_1
proof
  fix a
  have "count (mset ys) a \<le> count (mset xs) a" using assms(1) by (rule mset_subset_eq_count)
  also have "\<dots> \<le> 1" using assms(2) by (simp add: distinct_count_atmost_1)
  finally have "count (mset ys) a \<le> 1" .
  moreover have "a \<in> set ys \<longleftrightarrow> 0 < count (mset ys) a" by simp
  ultimately have "a \<in> set ys \<Longrightarrow> count (mset ys) a = 1" "a \<notin> set ys \<Longrightarrow> count (mset ys) a = 0"
    by linarith+
  then show "count (mset ys) a = (if a \<in> set ys then 1 else 0)" by auto
qed

lemma taken_mono:
  assumes "mset cs' \<subseteq># mset cs" and "mset ts' \<subseteq># mset ts"
  shows "mset (taken cs' ts') \<subseteq># mset (taken cs ts)"
proof -
  have m: "mset (taken cs ts) = filter_mset (\<lambda>n. n \<noteq> [])
      (image_mset core_name (mset cs) + image_mset (service_name \<circ> snd) (mset ts))" for cs ts
    by (simp add: taken_def)
  show ?thesis
    unfolding m
    by (intro multiset_filter_mono subset_mset.add_mono image_mset_subseteq_mono assms)
qed

lemma tables_ok_filter: "tables_ok cs ts \<Longrightarrow> tables_ok cs (filter P ts)"
proof -
  assume ok: "tables_ok cs ts"
  have "mset (taken cs (filter P ts)) \<subseteq># mset (taken cs ts)"
    by (rule taken_mono) simp_all
  moreover have "distinct (taken cs ts)" using ok by (simp add: tables_ok_def)
  ultimately have "distinct (taken cs (filter P ts))" by (rule distinct_submset)
  with ok show ?thesis by (auto simp: tables_ok_def)
qed

lemma tables_ok_remove:
  assumes "tables_ok cs ts" and "i < length cs" and "\<forall>x \<in> set ts. fst x \<noteq> fst (cs ! i)"
  shows "tables_ok (remove_at i cs) ts"
proof -
  have d: "distinct (map fst cs)" using assms(1) by (simp add: tables_ok_def)
  have s: "set (remove_at i cs) = {x \<in> set cs. fst x \<noteq> fst (cs ! i)}"
    using set_remove_at_distinct [OF d assms(2)] .
  have "mset (taken (remove_at i cs) ts) \<subseteq># mset (taken cs ts)"
    by (rule taken_mono) (simp_all add: mset_remove_at [OF assms(2)])
  moreover have "distinct (taken cs ts)" using assms(1) by (simp add: tables_ok_def)
  ultimately have "distinct (taken (remove_at i cs) ts)" by (rule distinct_submset)
  moreover have "distinct (map fst (remove_at i cs))"
    using d by (simp add: map_remove_at distinct_remove_at)
  moreover have "fst ` set ts \<subseteq> fst ` set (remove_at i cs)"
  proof
    fix a assume "a \<in> fst ` set ts"
    then obtain y where y: "y \<in> set ts" "a = fst y" by blast
    have "fst ` set ts \<subseteq> fst ` set cs" using assms(1) by (simp add: tables_ok_def)
    with y obtain c where c: "c \<in> set cs" "a = fst c" by blast
    have "fst y \<noteq> fst (cs ! i)" using assms(3) y(1) by blast
    with y c have "c \<in> set (remove_at i cs)" by (simp add: s)
    with c(2) show "a \<in> fst ` set (remove_at i cs)" by blast
  qed
  ultimately show ?thesis
    using assms(1) by (auto simp: tables_ok_def s)
qed

lemma tables_ok_add_client:
  "tables_ok cs ts \<Longrightarrow> a \<notin> fst ` set cs \<Longrightarrow> a \<noteq> 0 \<Longrightarrow> tables_ok (cs @ [(a, [], 0, p, m)]) ts"
  by (auto simp: tables_ok_def taken_def core_name_def)

lemma tables_ok_add_service:
  "tables_ok cs ts \<Longrightarrow> h \<in> fst ` set cs \<Longrightarrow> service_name r \<notin> set (taken cs ts) \<Longrightarrow>
    tables_ok cs (ts @ [(h, r)])"
  by (auto simp: tables_ok_def taken_def)

lemma tables_ok_register:
  assumes "tables_ok cs ts" and "i < length cs" and "n \<notin> set (taken cs ts)"
    and "cs ! i = (a, n0, t0, p, m)" and "t AND NOT p = 0"
  shows "tables_ok (cs[i := (a, n, t, p, m)]) ts"
proof -
  have addr: "map fst (cs[i := (a, n, t, p, m)]) = map fst cs"
    using assms(2,4) by (intro nth_equalityI) (auto simp: nth_list_update)
  have addr_set: "fst ` set (cs[i := (a, n, t, p, m)]) = fst ` set cs"
    using arg_cong [OF addr, of set] by simp
  have split: "cs = take i cs @ cs ! i # drop (Suc i) cs" using assms(2) by (rule id_take_nth_drop)
  have upd: "cs[i := (a, n, t, p, m)] = take i cs @ (a, n, t, p, m) # drop (Suc i) cs"
    using assms(2) by (rule upd_conv_take_nth_drop)
  have d: "distinct (taken (take i cs @ cs ! i # drop (Suc i) cs) ts)"
    using assms(1) split by (simp add: tables_ok_def)
  have nn: "n \<notin> set (taken (take i cs @ cs ! i # drop (Suc i) cs) ts)" using assms(3) split by simp
  have "distinct (taken (cs[i := (a, n, t, p, m)]) ts)"
  proof -
    let ?l = "take i cs" and ?r = "drop (Suc i) cs" and ?x = "(a, n, t, p, m)"
    have tk: "taken (?l @ x # ?r) ts = taken ?l [] @ taken [x] [] @ taken ?r ts" for x
      by (simp add: taken_def)
    have "distinct (taken ?l [] @ taken ?r ts)" and "n \<notin> set (taken ?l [] @ taken ?r ts)"
      using d nn unfolding tk by auto
    moreover have "taken [?x] [] = [] \<or> taken [?x] [] = [n]" by (simp add: taken_def core_name_def)
    ultimately show ?thesis unfolding upd tk by auto
  qed
  moreover have "\<forall>(a, n, t, p, m) \<in> set (cs[i := (a, n, t, p, m)]). t AND NOT p = 0"
    using assms(1,5) set_update_subset_insert [of cs i "(a, n, t, p, m)"] by (auto simp: tables_ok_def)
  ultimately show ?thesis
    using assms(1) by (simp add: tables_ok_def addr addr_set)
qed

end
