(* ===== verification/Server_Messages.thy ===== *)
theory Server_Messages
  imports Server_State
begin

text \<open>
  The messages the server itself writes: \<open>send_protected_output\<close>
  (\<open>libs/protocol/ipc/common-output.cpp\<close>), the response macros of
  \<open>libs/include/proto/response-macro.hpp\<close> with \<open>send_server_response\<close>
  (\<open>libs/proto/proto-server/proto-server.cpp\<close>), and the directives, timing tables and
  registration notices of \<open>libs/server/api-server.cpp\<close>. All of them write to \<open>outbox\<close> only.
\<close>

section \<open>Writing to a client\<close>

text \<open>A handle of a client that is gone counts as one without output.\<close>

definition response_output :: "handle \<Rightarrow> server \<Rightarrow> bool" where
  "response_output h s = (case get_client_id h s of None \<Rightarrow> False | Some c \<Rightarrow> attached_client c)"

text \<open>After \<open>terminate_client\<close> the output is condemned and takes nothing.\<close>

definition open_output :: "handle \<Rightarrow> server \<Rightarrow> bool" where
  "open_output h s =
     (case get_client_id h s of None \<Rightarrow> False | Some c \<Rightarrow> attached_client c \<and> \<not> ipc_closed c)"

definition send_protected_output ::
  "env \<Rightarrow> handle \<Rightarrow> command_transmit \<Rightarrow> server \<Rightarrow> bool \<times> server" where
  "send_protected_output e h c s =
     (if \<not> open_output h s then (False, s)
      else if accepts e (attempts s) h c
           then (True, s\<lparr>outbox := outbox s @ [(h, c)], attempts := Suc (attempts s)\<rparr>)
           else (False, s\<lparr>attempts := Suc (attempts s)\<rparr>))"

definition check_output_terminated :: "env \<Rightarrow> handle \<Rightarrow> server \<Rightarrow> bool" where
  "check_output_terminated e h s \<longleftrightarrow>
     response_output h s \<and> (\<not> open_output h s \<or> closed e (attempts s) h)"

section \<open>Responses\<close>

definition copy_to_response ::
  "server \<Rightarrow> body \<Rightarrow> command_transmit \<Rightarrow> command_transmit \<Rightarrow> command_transmit option" where
  "copy_to_response s b left right =
     (case set_command (local_server s) (Some b) (left\<lparr>send_to := 0\<rparr>) of (ok, l) \<Rightarrow>
        if \<not> ok then None
        else if send_to right = 0 \<or> \<not> response_output (send_to right) s then None
        else Some (l\<lparr>orig_entity := server_name s, orig_address := [], orig_reference := 0,
          creator_pid := creator_pid right, target_entity := orig_entity right,
          target_address := orig_address right, target_reference := orig_reference right,
          remote_reference := (if remote_reference right \<noteq> 0 then remote_reference right
                               else orig_reference right)\<rparr>))"

definition auto_send_command ::
  "env \<Rightarrow> command_transmit \<Rightarrow> handle \<Rightarrow> server \<Rightarrow> bool \<times> server" where
  "auto_send_command e left h s =
     (case command_sendable (local_server s) left of (ok, l) \<Rightarrow>
        if \<not> ok then (False, s) else send_protected_output e h l s)"

definition send_server_response ::
  "env \<Rightarrow> command_transmit \<Rightarrow> u32 \<Rightarrow> server \<Rightarrow> bool \<times> server" where
  "send_server_response e cCommand rResult s =
     (if silent_auto_response cCommand then (False, s)
      else case copy_to_response s (Server_Command (Server_Response (server_name s) rResult []))
                  (base_transmit e) cCommand of
        None \<Rightarrow> (False, s)
      | Some r \<Rightarrow> auto_send_command e r (send_to cCommand) s)"

definition send_server_response_list ::
  "env \<Rightarrow> command_transmit \<Rightarrow> u32 \<Rightarrow> string list \<Rightarrow> server \<Rightarrow> bool \<times> server" where
  "send_server_response_list e cCommand eEvent dData s =
     (case copy_to_response s (Server_Command (Server_Response_List (server_name s) eEvent dData))
             (base_transmit e) cCommand of
        None \<Rightarrow> (False, s)
      | Some r \<Rightarrow> auto_send_command e (r\<lparr>silent_auto_response := True\<rparr>) (send_to cCommand) s)"

text \<open>The routines for the bodies, which start from a copy of the original's fields.\<close>

definition create_manual_response ::
  "env \<Rightarrow> command_transmit \<Rightarrow> body \<Rightarrow> server \<Rightarrow> bool \<times> server" where
  "create_manual_response e cCommand rResponse s =
     (let command_copy = property_equal (base_transmit e) cCommand
      in case copy_to_response s rResponse command_copy command_copy of
           None \<Rightarrow> (False, s)
         | Some r \<Rightarrow> auto_send_command e r (send_to command_copy) s)"

definition create_auto_response ::
  "env \<Rightarrow> command_transmit \<Rightarrow> u32 \<Rightarrow> string \<Rightarrow> server \<Rightarrow> bool \<times> server" where
  "create_auto_response e cCommand rResult mMessage s =
     (let command_copy = property_equal (base_transmit e) cCommand
      in case copy_to_response s (Server_Command (Server_Response (server_name s) rResult mMessage))
                command_copy command_copy of
           None \<Rightarrow> (False, s)
         | Some r \<Rightarrow> auto_send_command e (r\<lparr>silent_auto_response := True\<rparr>) (send_to command_copy) s)"

section \<open>Directives and notices\<close>

definition server_message :: "env \<Rightarrow> server \<Rightarrow> body \<Rightarrow> client_id \<Rightarrow> command_transmit" where
  "server_message e s b cClient =
     (base_transmit e)\<lparr>command := Some b, target_entity := client_name cClient,
       orig_entity := server_name s\<rparr>"

definition send_server_directive :: "env \<Rightarrow> client_id \<Rightarrow> u8 \<Rightarrow> server \<Rightarrow> bool \<times> server" where
  "send_server_directive e cClient dDirective s =
     auto_send_command e (server_message e s (Server_Command (Server_Directive dDirective)) cClient)
       (client_address cClient) s"

definition send_timing_table :: "env \<Rightarrow> client_id \<Rightarrow> server \<Rightarrow> bool \<times> server" where
  "send_timing_table e cClient s =
     auto_send_command e (server_message e s (Server_Command (Set_Timing (client_timing s))) cClient)
       (client_address cClient) s"

definition notify_register_attempt ::
  "env \<Rightarrow> client_id option \<Rightarrow> u32 \<Rightarrow> bool \<Rightarrow> server \<Rightarrow> bool \<times> server" where
  "notify_register_attempt e cClient rReference sSuccess s =
     (case cClient of
        None \<Rightarrow> (False, s)
      | Some c \<Rightarrow>
          if rReference = 0 then (False, s)
          else auto_send_command e
            ((server_message e s (Server_Command (Server_Response (server_name s)
                (if sSuccess then event_register else event_error) [])) c)
               \<lparr>target_reference := rReference, creator_pid := of_int (process_id c),
                silent_auto_response := True\<rparr>)
            (client_address c) s)"

section \<open>Only output changes\<close>

definition only_output :: "server \<Rightarrow> server \<Rightarrow> bool" where
  "only_output s s' \<longleftrightarrow> s' = s\<lparr>outbox := outbox s', attempts := attempts s'\<rparr> \<and>
     (\<exists>ms. outbox s' = outbox s @ ms)"

lemma only_output_refl [simp]: "only_output s s"
  by (simp add: only_output_def)

lemma only_output_trans: "only_output a b \<Longrightarrow> only_output b c \<Longrightarrow> only_output a c"
proof -
  assume ab: "only_output a b" and bc: "only_output b c"
  have eqb: "b = a\<lparr>outbox := outbox b, attempts := attempts b\<rparr>"
    and eqc: "c = b\<lparr>outbox := outbox c, attempts := attempts c\<rparr>"
    using ab bc by (simp_all add: only_output_def)
  have "c = a\<lparr>outbox := outbox c, attempts := attempts c\<rparr>"
    by (subst eqc, subst eqb) simp
  moreover have "\<exists>ms. outbox c = outbox a @ ms"
    using ab bc by (auto simp: only_output_def)
  ultimately show ?thesis by (simp add: only_output_def)
qed

text \<open>Everything but \<open>outbox\<close> and \<open>attempts\<close> is read off the state before.\<close>

lemma only_output_fields:
  assumes "only_output s s'"
  shows "clients s' = clients s" "services s' = services s" "monitors s' = monitors s"
    "pending_updates s' = pending_updates s" "pending_exits s' = pending_exits s"
    "commands s' = commands s" "command_cache s' = command_cache s" "counter s' = counter s"
    "settings s' = settings s" "terminal s' = terminal s" "server_name s' = server_name s"
    "exit_flag s' = exit_flag s" "exit_status s' = exit_status s"
    "register_process s' = register_process s" "notify_status s' = notify_status s"
    "client_timing s' = client_timing s"
proof -
  have "s' = s\<lparr>outbox := outbox s', attempts := attempts s'\<rparr>"
    using assms by (simp add: only_output_def)
  from arg_cong [OF this, of clients] arg_cong [OF this, of services]
    arg_cong [OF this, of monitors] arg_cong [OF this, of pending_updates]
    arg_cong [OF this, of pending_exits] arg_cong [OF this, of commands]
    arg_cong [OF this, of command_cache] arg_cong [OF this, of counter]
    arg_cong [OF this, of settings] arg_cong [OF this, of terminal]
    arg_cong [OF this, of server_name] arg_cong [OF this, of exit_flag]
    arg_cong [OF this, of exit_status] arg_cong [OF this, of register_process]
    arg_cong [OF this, of notify_status] arg_cong [OF this, of client_timing]
  show "clients s' = clients s" "services s' = services s" "monitors s' = monitors s"
    "pending_updates s' = pending_updates s" "pending_exits s' = pending_exits s"
    "commands s' = commands s" "command_cache s' = command_cache s" "counter s' = counter s"
    "settings s' = settings s" "terminal s' = terminal s" "server_name s' = server_name s"
    "exit_flag s' = exit_flag s" "exit_status s' = exit_status s"
    "register_process s' = register_process s" "notify_status s' = notify_status s"
    "client_timing s' = client_timing s"
    by simp_all
qed

lemma send_protected_only: "only_output s (snd (send_protected_output e h c s))"
  by (simp add: send_protected_output_def only_output_def)

lemma auto_send_only: "only_output s (snd (auto_send_command e l h s))"
  using send_protected_only by (simp add: auto_send_command_def split_beta)

lemma send_server_response_only: "only_output s (snd (send_server_response e c ev s))"
  by (simp add: send_server_response_def auto_send_only split: option.split)

lemma send_server_response_list_only: "only_output s (snd (send_server_response_list e c ev d s))"
  by (simp add: send_server_response_list_def auto_send_only split: option.split)

lemma create_manual_response_only: "only_output s (snd (create_manual_response e c b s))"
  by (simp add: create_manual_response_def auto_send_only Let_def split: option.split)

lemma create_auto_response_only: "only_output s (snd (create_auto_response e c ev m s))"
  by (simp add: create_auto_response_def auto_send_only Let_def split: option.split)

lemma send_server_directive_only: "only_output s (snd (send_server_directive e c d s))"
  by (simp add: send_server_directive_def auto_send_only)

lemma send_timing_table_only: "only_output s (snd (send_timing_table e c s))"
  by (simp add: send_timing_table_def auto_send_only)

lemma notify_register_attempt_only: "only_output s (snd (notify_register_attempt e c r b s))"
  by (simp add: notify_register_attempt_def auto_send_only split: option.split)

lemmas message_only = send_protected_only auto_send_only send_server_response_only
  send_server_response_list_only create_manual_response_only create_auto_response_only
  send_server_directive_only send_timing_table_only notify_register_attempt_only

lemmas message_fields [frame_simps] =
  send_server_response_only [THEN only_output_fields(1)]
  send_server_response_only [THEN only_output_fields(2)]
  notify_register_attempt_only [THEN only_output_fields(1)]
  notify_register_attempt_only [THEN only_output_fields(2)]
  notify_register_attempt_only [THEN only_output_fields(9)]
  send_timing_table_only [THEN only_output_fields(1)]
  send_timing_table_only [THEN only_output_fields(2)]
  send_timing_table_only [THEN only_output_fields(9)]

section \<open>Where a response goes\<close>

text \<open>The server may build all the commands of its own group.\<close>

lemma server_builds: "\<exists>t. body_assemble (server_local n) (Server_Command b) = Some t"
  by (cases b) (simp_all add: build_server_response_def build_server_response_list_def
    build_server_directive_def build_set_timing_def build_update_timing_def build_monitor_data_def
    allow_create_builtin_def server_local_def flag_defs check_all_def check_none_def)

lemma server_sendable:
  "\<exists>t. command_sendable (server_local n) (c\<lparr>command := Some (Server_Command b), tree := []\<rparr>) =
     (True, c\<lparr>command := Some (Server_Command b), tree := t\<rparr>)"
  using server_builds [of n b] by (auto simp: command_sendable_def assemble_command_def)

lemma auto_send_server:
  "command l = Some (Server_Command b) \<Longrightarrow> tree l = [] \<Longrightarrow>
    \<exists>t. auto_send_command e l h s = send_protected_output e h (l\<lparr>tree := t\<rparr>) s"
proof -
  assume l: "command l = Some (Server_Command b)" "tree l = []"
  then have eq: "l\<lparr>command := Some (Server_Command b), tree := []\<rparr> = l" by simp
  obtain t where "command_sendable (server_local (server_name s)) l
      = (True, l\<lparr>command := Some (Server_Command b), tree := t\<rparr>)"
    using server_sendable [of "server_name s" b l] unfolding eq by blast
  moreover have "l\<lparr>command := Some (Server_Command b), tree := t\<rparr> = l\<lparr>tree := t\<rparr>"
    using l by simp
  ultimately show ?thesis by (auto simp: auto_send_command_def local_server_def)
qed

lemma send_protected_sent:
  "send_protected_output e h c s = (ok, s') \<Longrightarrow>
    (ok \<longleftrightarrow> open_output h s \<and> accepts e (attempts s) h c) \<and>
    (ok \<longrightarrow> outbox s' = outbox s @ [(h, c)]) \<and> (\<not> ok \<longrightarrow> outbox s' = outbox s)"
  by (auto simp: send_protected_output_def split: if_splits)

lemma send_server_response_sent:
  assumes "send_server_response e c ev s = (ok, s')"
  shows "(ok \<longrightarrow> (\<exists>r. outbox s' = outbox s @ [(send_to c, r)] \<and> orig_entity r = server_name s \<and>
      target_entity r = orig_entity c \<and> target_address r = orig_address c \<and>
      target_reference r = orig_reference c \<and>
      command r = Some (Server_Command (Server_Response (server_name s) ev [])))) \<and>
    (\<not> ok \<longrightarrow> outbox s' = outbox s) \<and>
    (ok \<longrightarrow> \<not> silent_auto_response c \<and> send_to c \<noteq> 0 \<and> response_output (send_to c) s)"
proof (cases "silent_auto_response c \<or> send_to c = 0 \<or> \<not> response_output (send_to c) s")
  case True
  with assms show ?thesis
    by (auto simp: send_server_response_def copy_to_response_def set_command_def base_transmit_def
        new_transmit_def command_info.defs split: option.splits)
next
  case False
  let ?b = "Server_Response (server_name s) ev []"
  obtain l where l: "copy_to_response s (Server_Command ?b) (base_transmit e) c = Some l"
    and f: "command l = Some (Server_Command ?b)" "tree l = []" "orig_entity l = server_name s"
      "target_entity l = orig_entity c" "target_address l = orig_address c"
      "target_reference l = orig_reference c"
    using False by (simp add: copy_to_response_def set_command_def base_transmit_def
        new_transmit_def command_info.defs)
  obtain t where "auto_send_command e l (send_to c) s
      = send_protected_output e (send_to c) (l\<lparr>tree := t\<rparr>) s"
    using auto_send_server [OF f(1,2)] by blast
  with assms l False have "send_protected_output e (send_to c) (l\<lparr>tree := t\<rparr>) s = (ok, s')"
    by (simp add: send_server_response_def)
  from send_protected_sent [OF this] f False show ?thesis by auto
qed

text \<open>
  C33. A response of the server is written to the client the command came from, and to no
  other: it names the server as its origin and the command's originator, return address and
  reference as its target, and it carries the event. None is written for a command that asks
  for silence or whose sender has no output.
\<close>

theorem server_response_route:
  assumes "send_server_response e c ev s = (ok, s')"
  shows "(ok \<longrightarrow> (\<exists>r. outbox s' = outbox s @ [(send_to c, r)] \<and> orig_entity r = server_name s \<and>
      target_entity r = orig_entity c \<and> target_address r = orig_address c \<and>
      target_reference r = orig_reference c \<and>
      command r = Some (Server_Command (Server_Response (server_name s) ev [])))) \<and>
    (\<not> ok \<longrightarrow> outbox s' = outbox s) \<and>
    (ok \<longrightarrow> \<not> silent_auto_response c \<and> send_to c \<noteq> 0 \<and> response_output (send_to c) s)"
  using assms by (rule send_server_response_sent)

definition tiny_env :: env where
  "tiny_env = \<lparr>accepts = \<lambda>n h c. True, closed = \<lambda>n h. False,
     new_address = \<lambda>hs. Suc (fold max hs 0), expression = \<lambda>p t. p = t, server_pid = 100,
     server_uid = 1000, server_euid = 1000, server_gid = 1000, passwd = \<lambda>u. Some (''u'', 1000),
     passwd_name = \<lambda>n. None, group_file = [], group_name = \<lambda>n. None,
     processes = \<lambda>n a u g. Some (200 + int n, 5, 6), threads = \<lambda>h. True,
     socket_file = \<lambda>p. None, socket_connect = \<lambda>p. -1, process_group = \<lambda>p. p,
     process_session = \<lambda>p. 100, own_session = 100, terminal_tty = True, terminal_set = \<lambda>p. True,
     terminal_attr = True, effective_ids = \<lambda>u g. False,
     execute_program = ''safexec''\<rparr>"

lemma tiny_env_ok: "env_ok tiny_env"
proof -
  have "h \<le> fold max hs 0" if "h \<in> set hs" for hs :: "nat list" and h
    using Max_ge [of "set (0 # hs)" h] that unfolding Max.set_eq_fold by simp
  then show ?thesis by (auto simp: env_ok_def tiny_env_def dest: Suc_le_lessD)
qed

definition tiny_server :: "client_id list \<Rightarrow> server" where
  "tiny_server cs = \<lparr>server_name = ''srv'', clients = cs, services = [],
     monitors = \<lparr>events = [], exits = []\<rparr>, pending_updates = [], pending_exits = [],
     commands = \<lparr>queue_items = [], max_size = 8192\<rparr>, command_cache = [], counter = 1,
     settings = initial_settings, terminal = no_terminal, client_timing = [], exit_flag = False,
     exit_status = False, register_process = 0, notify_status = False, outbox = [], attempts = 0\<rparr>"

theorem server_response_route_witness:
  "\<exists>r. outbox (snd (send_server_response tiny_env ((new_transmit 1)\<lparr>send_to := 4, orig_entity := ''a''\<rparr>)
      event_complete (tiny_server [(new_client_id 4)\<lparr>attached_client := True\<rparr>]))) = [(4, r)] \<and>
    target_entity r = ''a''"
proof -
  let ?c = "(new_transmit 1)\<lparr>send_to := 4, orig_entity := ''a''\<rparr>"
  let ?s = "tiny_server [(new_client_id 4)\<lparr>attached_client := True\<rparr>]"
  obtain ok s' where r: "send_server_response tiny_env ?c event_complete ?s = (ok, s')"
    by (cases "send_server_response tiny_env ?c event_complete ?s")
  have ok: ok
    using r by (auto simp: send_server_response_def copy_to_response_def set_command_def
        base_transmit_def new_transmit_def clear_info_def command_info.defs tiny_env_def tiny_server_def
        response_output_def open_output_def get_client_id_def find_by_handle_def new_client_id_def
        auto_send_command_def local_server_def command_sendable_def assemble_command_def
        build_server_response_def allow_create_builtin_def server_local_def flag_defs
        check_all_def check_none_def send_protected_output_def)
  from server_response_route [OF r] ok show ?thesis
    unfolding r by (auto simp: new_transmit_def command_info.defs tiny_server_def)
qed


end
