(* ===== verification/Monitors.thy ===== *)
theory Monitors
  imports Server_Messages
begin

text \<open>
  Monitoring: the pending updates of \<open>libs/server/monitors.cpp\<close> and the subscriptions and their
  delivery in \<open>libs/server/monitor-list.cpp\<close>. The map of pending updates is a list sorted by
  event. The clients an update goes to are those subscribed to one of its bits that still
  exist; the list keeps the order of the subscriptions (the code's \<open>keep_only_duplicated\<close>
  sorts pointers, so the order in which different clients are served is not fixed by it).
\<close>

section \<open>Pending updates\<close>

definition standard_delimiter :: string where "standard_delimiter = ''*''"

fun append_update :: "u32 \<Rightarrow> string \<Rightarrow> (u32 \<times> string list) list \<Rightarrow> (u32 \<times> string list) list" where
  "append_update ev d [] = [(ev, [d])]"
| "append_update ev d ((k, ds) # us) =
     (if k = ev then (k, ds @ [d]) # us
      else if ev < k then (ev, [d]) # (k, ds) # us
      else (k, ds) # append_update ev d us)"

definition add_single_update :: "u32 \<Rightarrow> string \<Rightarrow> server \<Rightarrow> server" where
  "add_single_update eEvent dData s =
     s\<lparr>pending_updates := append_update eEvent dData (pending_updates s)\<rparr>"

definition format_message :: "string list \<Rightarrow> string" where
  "format_message parts = snprintf_text 256 (concat parts)"

definition monitor_client_exit :: "handle \<Rightarrow> string \<Rightarrow> server \<Rightarrow> server" where
  "monitor_client_exit cClient nName s =
     s\<lparr>pending_exits := pending_exits s @ [\<lparr>exit_client = cClient, exit_name = nName\<rparr>]\<rparr>"

definition monitor_client_attach :: "int \<Rightarrow> string \<Rightarrow> server \<Rightarrow> server" where
  "monitor_client_attach cClient cCommand =
     add_single_update (monitor_attached_clients OR monitor_add)
       (format_message [convert_integer10 cClient, standard_delimiter, cCommand])"

definition monitor_client_detach :: "int \<Rightarrow> server \<Rightarrow> server" where
  "monitor_client_detach cClient =
     add_single_update (monitor_attached_clients OR monitor_remove)
       (format_message [convert_integer10 cClient])"

definition monitor_client_register :: "int \<Rightarrow> string \<Rightarrow> server \<Rightarrow> server" where
  "monitor_client_register cClient nName =
     add_single_update (monitor_registered_clients OR monitor_add)
       (format_message [convert_integer10 cClient, standard_delimiter, nName])"

definition monitor_client_deregister :: "int \<Rightarrow> string \<Rightarrow> server \<Rightarrow> server" where
  "monitor_client_deregister cClient nName =
     add_single_update (monitor_registered_clients OR monitor_remove)
       (format_message [convert_integer10 cClient, standard_delimiter, nName])"

definition service_message :: "int \<Rightarrow> string \<Rightarrow> string \<Rightarrow> string \<Rightarrow> string" where
  "service_message cClient nName tType lLocation =
     format_message [convert_integer10 cClient, standard_delimiter, nName, standard_delimiter, tType,
       standard_delimiter, lLocation]"

definition monitor_service_register :: "int \<Rightarrow> string \<Rightarrow> string \<Rightarrow> string \<Rightarrow> server \<Rightarrow> server" where
  "monitor_service_register cClient nName tType lLocation =
     add_single_update (monitor_registered_services OR monitor_add)
       (service_message cClient nName tType lLocation)"

definition monitor_service_deregister :: "int \<Rightarrow> string \<Rightarrow> string \<Rightarrow> string \<Rightarrow> server \<Rightarrow> server" where
  "monitor_service_deregister cClient nName tType lLocation =
     add_single_update (monitor_registered_services OR monitor_remove)
       (service_message cClient nName tType lLocation)"

definition monitor_terminal_taken :: "int \<Rightarrow> server \<Rightarrow> server" where
  "monitor_terminal_taken cClient =
     add_single_update (monitor_terminal_status OR monitor_add) (format_message [convert_integer10 cClient])"

definition monitor_terminal_returned :: "int \<Rightarrow> server \<Rightarrow> server" where
  "monitor_terminal_returned cClient =
     add_single_update (monitor_terminal_status OR monitor_remove) (format_message [convert_integer10 cClient])"

definition monitor_terminal_rejected :: "int \<Rightarrow> server \<Rightarrow> server" where
  "monitor_terminal_rejected cClient =
     add_single_update (monitor_terminal_status OR monitor_rejection)
       (format_message [convert_integer10 cClient])"

definition monitor_terminal_revoked :: "int \<Rightarrow> int \<Rightarrow> server \<Rightarrow> server" where
  "monitor_terminal_revoked cClient1 cClient2 =
     add_single_update (monitor_terminal_status OR monitor_change)
       (format_message [convert_integer10 cClient1, standard_delimiter, convert_integer10 cClient2])"

definition monitor_server_limit :: "string \<Rightarrow> u32 \<Rightarrow> server \<Rightarrow> server" where
  "monitor_server_limit lLimit vValue =
     add_single_update (monitor_server OR monitor_limit)
       (format_message [lLimit, standard_delimiter, print_digits 10 (unat vValue)])"

definition monitor_client_limit :: "string \<Rightarrow> int \<Rightarrow> u32 \<Rightarrow> server \<Rightarrow> server" where
  "monitor_client_limit lLimit cClient vValue =
     add_single_update (monitor_clients OR monitor_limit)
       (format_message [convert_integer10 cClient, standard_delimiter, lLimit, standard_delimiter,
          print_digits 10 (unat vValue)])"

lemmas monitor_message_defs = monitor_client_attach_def monitor_client_detach_def
  monitor_client_register_def monitor_client_deregister_def monitor_service_register_def
  monitor_service_deregister_def monitor_terminal_taken_def monitor_terminal_returned_def
  monitor_terminal_rejected_def monitor_terminal_revoked_def monitor_server_limit_def
  monitor_client_limit_def

section \<open>Subscriptions\<close>

definition set_events :: "handle \<Rightarrow> u32 \<Rightarrow> (handle \<times> u32) list \<Rightarrow> (handle \<times> u32) list" where
  "set_events h ev es =
     (if ev = monitor_none then filter (\<lambda>(k, v). k \<noteq> h) es
      else (case find_index (\<lambda>(k, v). k = h) es of
              Some i \<Rightarrow> update_at i (\<lambda>(k, v). (k, ev)) es
            | None \<Rightarrow> es @ [(h, ev)]))"

text \<open>The removal of duplicate keys that follows keeps the first entry of a key.\<close>

fun drop_duplicate_keys :: "('k \<times> 'v) list \<Rightarrow> ('k \<times> 'v) list" where
  "drop_duplicate_keys [] = []"
| "drop_duplicate_keys ((k, v) # es) = (k, v) # drop_duplicate_keys (filter (\<lambda>(k', v'). k' \<noteq> k) es)"

definition update_monitors :: "(monitor_list \<Rightarrow> monitor_list) \<Rightarrow> server \<Rightarrow> server" where
  "update_monitors f s = s\<lparr>monitors := f (monitors s)\<rparr>"

definition set_client_monitoring :: "handle \<Rightarrow> u32 \<Rightarrow> server \<Rightarrow> bool \<times> server" where
  "set_client_monitoring hHandle eEvent s =
     (True, update_monitors (\<lambda>m. m\<lparr>events := drop_duplicate_keys (set_events hHandle eEvent (events m))\<rparr>) s)"

definition clear_client_monitoring :: "handle \<Rightarrow> server \<Rightarrow> bool \<times> server" where
  "clear_client_monitoring hHandle s =
     (True, update_monitors (\<lambda>m. m\<lparr>events := filter (\<lambda>(k, v). k \<noteq> hHandle) (events m),
        exits := filter (\<lambda>(k, v). k \<noteq> hHandle) (exits m)\<rparr>) s)"

definition add_exit_monitor :: "handle \<Rightarrow> handle \<Rightarrow> string \<Rightarrow> server \<Rightarrow> bool \<times> server" where
  "add_exit_monitor hHandle cClient nName s =
     (let find_temp = \<lparr>exit_client = cClient, exit_name = nName\<rparr>
      in if find_temp \<in> snd ` set (exits (monitors s)) then (False, s)
         else (True, update_monitors (\<lambda>m. m\<lparr>exits := exits m @ [(hHandle, find_temp)]\<rparr>) s))"

definition remove_exit_monitor :: "handle \<Rightarrow> handle \<Rightarrow> string \<Rightarrow> server \<Rightarrow> bool \<times> server" where
  "remove_exit_monitor hHandle cClient nName s =
     (let find_temp = \<lparr>exit_client = cClient, exit_name = nName\<rparr>
      in if find_temp \<notin> snd ` set (exits (monitors s)) then (False, s)
         else (True, update_monitors (\<lambda>m. m\<lparr>exits := filter (\<lambda>(k, v). v \<noteq> find_temp) (exits m)\<rparr>) s))"

section \<open>Delivery\<close>

definition get_event_current_clients :: "u32 \<Rightarrow> server \<Rightarrow> handle list" where
  "get_event_current_clients eEvents s =
     [k. (k, v) \<leftarrow> events (monitors s), check_any v eEvents, k \<in> set (handles s)]"

fun send_to_all :: "env \<Rightarrow> command_transmit \<Rightarrow> handle list \<Rightarrow> server \<Rightarrow> server" where
  "send_to_all e c [] s = s"
| "send_to_all e c (h # hs) s =
     (let c1 = c\<lparr>target_entity := (case get_client_id h s of Some k \<Rightarrow> client_name k | None \<Rightarrow> []),
              orig_entity := server_name s\<rparr>
      in case command_sendable (local_server s) c1 of (ok, c2) \<Rightarrow>
           send_to_all e c2 hs (if ok then snd (send_protected_output e h c2 s) else s))"

definition send_monitor_update :: "env \<Rightarrow> u32 \<Rightarrow> string list \<Rightarrow> server \<Rightarrow> bool \<times> server" where
  "send_monitor_update e eEvent dData s =
     (let sending_list = get_event_current_clients eEvent s
      in if sending_list = [] then (True, s)
         else (True, send_to_all e
           ((base_transmit e)\<lparr>command := Some (Server_Command (Monitor_Data eEvent dData))\<rparr>) sending_list s))"

definition exit_compare :: "handle \<Rightarrow> string \<Rightarrow> exit_monitor \<Rightarrow> bool" where
  "exit_compare cClient nName v \<longleftrightarrow>
     (exit_name v = nName \<or> nName = []) \<and> exit_client v = cClient"

definition get_exit_current_clients :: "handle \<Rightarrow> string \<Rightarrow> server \<Rightarrow> (handle \<times> string) list \<times> server" where
  "get_exit_current_clients cClient nName s =
     (if exits (monitors s) = [] \<or> clients s = [] then ([], s)
      else ([(k, exit_name v). (k, v) \<leftarrow> exits (monitors s), exit_compare cClient nName v,
               k \<in> set (handles s)],
            update_monitors (\<lambda>m. m\<lparr>exits := filter (\<lambda>(k, v). \<not> exit_compare cClient nName v) (exits m)\<rparr>) s))"

text \<open>One \<open>command_transmit\<close> is used for all the notices; only its body is replaced.\<close>

fun send_exits :: "env \<Rightarrow> command_transmit \<Rightarrow> (handle \<times> string) list \<Rightarrow> server \<Rightarrow> server" where
  "send_exits e c [] s = s"
| "send_exits e c ((h, n) # hs) s =
     (case set_command (local_server s) (Some (Resource_Command (Resource_Exit n))) c of (ok, c0) \<Rightarrow>
        if \<not> ok \<or> \<not> command_ready c0 then send_exits e c0 hs s
        else
          let c1 = c0\<lparr>target_entity := (case get_client_id h s of Some k \<Rightarrow> client_name k | None \<Rightarrow> []),
                orig_entity := server_name s\<rparr>
          in case command_sendable (local_server s) c1 of (ok1, c2) \<Rightarrow>
               send_exits e c2 hs (if ok1 then snd (send_protected_output e h c2 s) else s))"

definition send_exit_update :: "env \<Rightarrow> handle \<Rightarrow> string \<Rightarrow> server \<Rightarrow> bool \<times> server" where
  "send_exit_update e cClient nName s =
     (case get_exit_current_clients cClient nName s of (sending_list, s1) \<Rightarrow>
        (True, send_exits e (base_transmit e) sending_list s1))"

fun send_updates :: "env \<Rightarrow> (u32 \<times> string list) list \<Rightarrow> server \<Rightarrow> server" where
  "send_updates e [] s = s"
| "send_updates e ((ev, ds) # us) s = send_updates e us (snd (send_monitor_update e ev ds s))"

fun send_exit_updates :: "env \<Rightarrow> exit_monitor list \<Rightarrow> server \<Rightarrow> server" where
  "send_exit_updates e [] s = s"
| "send_exit_updates e (x # xs) s =
     send_exit_updates e xs (snd (send_exit_update e (exit_client x) (exit_name x) s))"

definition send_all_monitor_updates :: "env \<Rightarrow> server \<Rightarrow> server" where
  "send_all_monitor_updates e s =
     (let s1 = send_updates e (pending_updates s) (s\<lparr>pending_updates := []\<rparr>)
      in send_exit_updates e (pending_exits s1) (s1\<lparr>pending_exits := []\<rparr>))"

section \<open>The subscription table\<close>

text \<open>What a client of the table may assume: the last value set is the one in force, other
  clients' subscriptions stay, and a key has one entry.\<close>

locale subscription_table =
  fixes inv :: "'t \<Rightarrow> bool" and subscribed :: "'t \<Rightarrow> handle \<Rightarrow> u32"
    and subscribe :: "handle \<Rightarrow> u32 \<Rightarrow> 't \<Rightarrow> 't"
  assumes inv_subscribe: "inv t \<Longrightarrow> inv (subscribe h ev t)"
    and subscribed_subscribe:
      "inv t \<Longrightarrow> subscribed (subscribe h ev t) k = (if k = h then ev else subscribed t k)"
begin

lemma fold_inv: "inv t \<Longrightarrow> inv (fold (\<lambda>(h, ev). subscribe h ev) ops t)"
  by (induction ops arbitrary: t) (auto simp: inv_subscribe)

text \<open>After any sequence of requests a client has what it asked for last.\<close>

lemma last_request:
  "inv t \<Longrightarrow> subscribed (fold (\<lambda>(h, ev). subscribe h ev) ops t) k =
     (case filter (\<lambda>(h, ev). h = k) (rev ops) of [] \<Rightarrow> subscribed t k | (h, ev) # _ \<Rightarrow> ev)"
proof (induction ops rule: rev_induct)
  case (snoc op ops)
  obtain h ev where op: "op = (h, ev)" by (cases op)
  with snoc fold_inv [OF snoc.prems, of ops] show ?case
    by (simp add: subscribed_subscribe)
qed simp

end

definition event_keys_ok :: "(handle \<times> u32) list \<Rightarrow> bool" where
  "event_keys_ok es \<longleftrightarrow> distinct (map fst es)"

definition subscribed_events :: "(handle \<times> u32) list \<Rightarrow> handle \<Rightarrow> u32" where
  "subscribed_events es h = (case map_of es h of Some ev \<Rightarrow> ev | None \<Rightarrow> monitor_none)"

lemma map_of_filter_key:
  "map_of (filter (\<lambda>(k', v). k' \<noteq> h) es) k = (if k = h then None else map_of es k)"
  by (induction es) auto

lemma drop_duplicate_keys_map_of [simp]: "map_of (drop_duplicate_keys es) = map_of es"
  by (induction es rule: drop_duplicate_keys.induct) (auto simp: fun_eq_iff map_of_filter_key)

lemma drop_duplicate_keys_set: "set (drop_duplicate_keys es) \<subseteq> set es"
  by (induction es rule: drop_duplicate_keys.induct) auto

lemma drop_duplicate_keys_distinct: "distinct (map fst (drop_duplicate_keys es))"
proof (induction es rule: drop_duplicate_keys.induct)
  case (2 k v es)
  then show ?case using drop_duplicate_keys_set [of "filter (\<lambda>(k', v'). k' \<noteq> k) es"] by fastforce
qed simp

lemma drop_duplicate_keys_id: "distinct (map fst es) \<Longrightarrow> drop_duplicate_keys es = es"
proof (induction es rule: drop_duplicate_keys.induct)
  case (2 k v es)
  then have "filter (\<lambda>(k', v'). k' \<noteq> k) es = es" by (force intro: filter_True)
  with 2 show ?case by simp
qed simp

lemma map_of_update_key:
  "find_index (\<lambda>(k, v). k = h) es = Some i \<Longrightarrow>
    map_of (update_at i (\<lambda>(k, v). (k, ev)) es) k = (if k = h then Some ev else map_of es k)"
proof (induction es arbitrary: i)
  case (Cons x es)
  obtain a b where x: "x = (a, b)" by (cases x)
  show ?case
  proof (cases "a = h")
    case True
    with Cons.prems x have "i = 0" by simp
    with True x show ?thesis by (simp add: update_at_def)
  next
    case False
    with Cons.prems x obtain j where j: "find_index (\<lambda>(k, v). k = h) es = Some j" "i = Suc j" by auto
    have "update_at i (\<lambda>(k, v). (k, ev)) (x # es) = x # update_at j (\<lambda>(k, v). (k, ev)) es"
      using j by (simp add: update_at_def)
    with Cons.IH [OF j(1)] False x show ?thesis by (cases "k = a") simp_all
  qed
qed simp

lemma set_events_get:
  "subscribed_events (set_events h ev es) k = (if k = h then ev else subscribed_events es k)"
proof -
  have "find_index (\<lambda>(k, v). k = h) es = None \<Longrightarrow> map_of es h = None"
    by (auto simp: map_of_eq_None_iff)
  then show ?thesis
    by (auto simp: set_events_def subscribed_events_def map_of_filter_key map_of_update_key map_add_def
        split: option.splits)
qed

interpretation events: subscription_table event_keys_ok subscribed_events
  "\<lambda>h ev es. drop_duplicate_keys (set_events h ev es)"
proof
  fix t h ev
  show "event_keys_ok (drop_duplicate_keys (set_events h ev t))"
    by (simp add: event_keys_ok_def drop_duplicate_keys_distinct)
  fix k
  show "subscribed_events (drop_duplicate_keys (set_events h ev t)) k
      = (if k = h then ev else subscribed_events t k)"
    using set_events_get [of h ev t k] by (simp add: subscribed_events_def)
qed

section \<open>What the operations leave alone\<close>

lemma send_to_all_only: "only_output s (send_to_all e c hs s)"
proof (induction e c hs s rule: send_to_all.induct)
  case (2 e c h hs s)
  let ?c1 = "c\<lparr>target_entity := (case get_client_id h s of Some k \<Rightarrow> client_name k | None \<Rightarrow> []),
              orig_entity := server_name s\<rparr>"
  obtain ok c2 where p: "command_sendable (local_server s) ?c1 = (ok, c2)"
    by (cases "command_sendable (local_server s) ?c1")
  have "only_output s (if ok then snd (send_protected_output e h c2 s) else s)"
    by (simp add: send_protected_only)
  with "2" [OF refl p [symmetric]] p show ?case
    by (auto simp: Let_def intro: only_output_trans)
qed simp

lemma send_exits_only: "only_output s (send_exits e c xs s)"
proof (induction xs arbitrary: c s)
  case (Cons x xs)
  obtain h n where x: "x = (h, n)" by (cases x)
  show ?case
    unfolding x
    by (auto simp: Let_def split_beta Cons.IH intro: only_output_trans [OF send_protected_only Cons.IH])
qed simp

text \<open>Delivering updates touches the subscriptions to exits and nothing else.\<close>

lemma send_monitor_update_only: "only_output s (snd (send_monitor_update e ev ds s))"
  by (simp add: send_monitor_update_def Let_def send_to_all_only)

lemma send_updates_only: "only_output s (send_updates e us s)"
  by (induction e us s rule: send_updates.induct)
    (auto intro: only_output_trans [OF send_monitor_update_only])

definition only_monitoring :: "server \<Rightarrow> server \<Rightarrow> bool" where
  "only_monitoring s s' \<longleftrightarrow> clients s' = clients s \<and> services s' = services s \<and>
     commands s' = commands s \<and> command_cache s' = command_cache s \<and> counter s' = counter s \<and>
     settings s' = settings s \<and> terminal s' = terminal s \<and> server_name s' = server_name s \<and>
     exit_flag s' = exit_flag s \<and> exit_status s' = exit_status s \<and>
     register_process s' = register_process s \<and> notify_status s' = notify_status s \<and>
     client_timing s' = client_timing s"

lemma only_monitoring_refl [simp]: "only_monitoring s s"
  by (simp add: only_monitoring_def)

lemma only_monitoring_trans: "only_monitoring a b \<Longrightarrow> only_monitoring b c \<Longrightarrow> only_monitoring a c"
  by (simp add: only_monitoring_def)

lemma only_output_monitoring: "only_output s s' \<Longrightarrow> only_monitoring s s'"
  by (simp add: only_monitoring_def only_output_fields)

lemma add_single_update_monitoring [simp]: "only_monitoring s (add_single_update ev d s)"
  by (simp add: only_monitoring_def add_single_update_def)

lemma monitor_messages_monitoring [simp]:
  "only_monitoring s (monitor_client_exit h n s)" "only_monitoring s (monitor_client_attach p c s)"
  "only_monitoring s (monitor_client_detach p s)" "only_monitoring s (monitor_client_register p n s)"
  "only_monitoring s (monitor_client_deregister p n s)"
  "only_monitoring s (monitor_service_register p n t l s)"
  "only_monitoring s (monitor_service_deregister p n t l s)"
  "only_monitoring s (monitor_terminal_taken p s)" "only_monitoring s (monitor_terminal_returned p s)"
  "only_monitoring s (monitor_terminal_rejected p s)" "only_monitoring s (monitor_terminal_revoked p q s)"
  "only_monitoring s (monitor_server_limit n v s)" "only_monitoring s (monitor_client_limit n p v s)"
  by (simp_all add: monitor_message_defs) (simp add: only_monitoring_def monitor_client_exit_def)

lemma update_monitors_monitoring [simp]: "only_monitoring s (update_monitors f s)"
  by (simp add: only_monitoring_def update_monitors_def)

lemma set_client_monitoring_monitoring [simp]: "only_monitoring s (snd (set_client_monitoring h ev s))"
  by (simp add: set_client_monitoring_def)

lemma clear_client_monitoring_monitoring [simp]: "only_monitoring s (snd (clear_client_monitoring h s))"
  by (simp add: clear_client_monitoring_def)

lemma exit_monitor_monitoring [simp]: "only_monitoring s (snd (add_exit_monitor h c n s))"
  "only_monitoring s (snd (remove_exit_monitor h c n s))"
  by (simp_all add: add_exit_monitor_def remove_exit_monitor_def Let_def)

lemma send_exit_update_monitoring: "only_monitoring s (snd (send_exit_update e h n s))"
proof -
  obtain l s1 where g: "get_exit_current_clients h n s = (l, s1)"
    by (cases "get_exit_current_clients h n s")
  then have "only_monitoring s s1" by (auto simp: get_exit_current_clients_def split: if_splits)
  then show ?thesis
    by (simp add: send_exit_update_def g)
      (rule only_monitoring_trans, assumption, rule only_output_monitoring, rule send_exits_only)
qed

lemma send_exit_updates_monitoring: "only_monitoring s (send_exit_updates e xs s)"
  by (induction e xs s rule: send_exit_updates.induct)
    (auto intro: only_monitoring_trans [OF send_exit_update_monitoring])

lemma send_all_monitor_updates_monitoring: "only_monitoring s (send_all_monitor_updates e s)"
proof -
  let ?s1 = "send_updates e (pending_updates s) (s\<lparr>pending_updates := []\<rparr>)"
  have a: "only_monitoring s (s\<lparr>pending_updates := []\<rparr>)" by (simp add: only_monitoring_def)
  have b: "only_monitoring (s\<lparr>pending_updates := []\<rparr>) ?s1"
    by (rule only_output_monitoring [OF send_updates_only])
  have c: "only_monitoring ?s1 (?s1\<lparr>pending_exits := []\<rparr>)" by (simp add: only_monitoring_def)
  show ?thesis
    unfolding send_all_monitor_updates_def Let_def
    by (rule only_monitoring_trans [OF a only_monitoring_trans [OF b only_monitoring_trans
          [OF c send_exit_updates_monitoring]]])
qed

section \<open>Frames of the tables and of the queue\<close>

definition same_queue :: "server \<Rightarrow> server \<Rightarrow> bool" where
  "same_queue s s' \<longleftrightarrow> commands s' = commands s \<and> command_cache s' = command_cache s \<and>
     counter s' = counter s \<and> settings s' = settings s \<and> server_name s' = server_name s \<and>
     exit_status s' = exit_status s"

lemma same_queue_refl [simp]: "same_queue s s"
  by (simp add: same_queue_def)

lemma same_queue_trans: "same_queue a b \<Longrightarrow> same_queue b c \<Longrightarrow> same_queue a c"
  by (simp add: same_queue_def)

lemma update_client_queue [simp]: "same_queue s (update_client h f s)"
  by (simp add: same_queue_def update_client_def split: option.split)

lemma only_monitoring_tables:
  "only_monitoring s s' \<Longrightarrow> cores s' = cores s \<and> services s' = services s \<and> clients s' = clients s \<and>
    same_queue s s'"
  by (simp add: only_monitoring_def cores_def same_queue_def)

lemma only_output_tables:
  "only_output s s' \<Longrightarrow> cores s' = cores s \<and> services s' = services s \<and> clients s' = clients s \<and>
    same_queue s s'"
  by (rule only_monitoring_tables, rule only_output_monitoring)

lemmas message_tables [simp] =
  message_only [THEN only_output_tables, THEN conjunct1]
  message_only [THEN only_output_tables, THEN conjunct2, THEN conjunct1]
  message_only [THEN only_output_tables, THEN conjunct2, THEN conjunct2, THEN conjunct1]
  message_only [THEN only_output_tables, THEN conjunct2, THEN conjunct2, THEN conjunct2]

lemmas monitoring_only = monitor_messages_monitoring set_client_monitoring_monitoring
  clear_client_monitoring_monitoring exit_monitor_monitoring send_all_monitor_updates_monitoring

lemmas monitoring_tables [simp] =
  monitoring_only [THEN only_monitoring_tables, THEN conjunct1]
  monitoring_only [THEN only_monitoring_tables, THEN conjunct2, THEN conjunct1]
  monitoring_only [THEN only_monitoring_tables, THEN conjunct2, THEN conjunct2, THEN conjunct1]
  monitoring_only [THEN only_monitoring_tables, THEN conjunct2, THEN conjunct2, THEN conjunct2]

section \<open>Who is told what\<close>

text \<open>What is written while updates of one kind go out, when every pipe takes its data.\<close>

lemma sendable_server_command:
  assumes "command c = Some (Server_Command b)"
  shows "\<exists>c2. command_sendable (server_local n) c = (True, c2) \<and> command c2 = command c"
proof (cases "tree c")
  case Nil
  from server_builds [of n b] obtain t where "server_build (server_local n) b = Some t" by auto
  with Nil assms show ?thesis by (simp add: command_sendable_def assemble_command_def)
qed (simp add: command_sendable_def)

lemma send_to_all_recipients:
  assumes "\<forall>n h c. accepts e n h c" and "\<forall>h \<in> set hs. open_output h s"
    and "command c = Some (Server_Command b)"
  shows "map fst (outbox (send_to_all e c hs s)) = map fst (outbox s) @ hs"
  using assms(2,3)
proof (induction hs arbitrary: c s)
  case (Cons h hs)
  let ?c1 = "c\<lparr>target_entity := (case get_client_id h s of Some k \<Rightarrow> client_name k | None \<Rightarrow> []),
              orig_entity := server_name s\<rparr>"
  obtain c2 where c2: "command_sendable (local_server s) ?c1 = (True, c2)" "command c2 = command c"
    using sendable_server_command [of ?c1 b "server_name s"] Cons.prems(2)
    by (auto simp: local_server_def)
  let ?s1 = "snd (send_protected_output e h c2 s)"
  have o: "only_output s ?s1" by (rule send_protected_only)
  have f: "open_output k ?s1 = open_output k s" for k
    using only_output_fields(1) [OF o]
    by (simp add: open_output_def get_client_id_def)
  have "outbox ?s1 = outbox s @ [(h, c2)]"
    using Cons.prems(1) assms(1) by (simp add: send_protected_output_def)
  moreover have "map fst (outbox (send_to_all e c2 hs ?s1)) = map fst (outbox ?s1) @ hs"
    using Cons.IH [of ?s1 c2] Cons.prems f c2 by simp
  ultimately show ?case using c2(1) by (simp add: Let_def)
qed simp

text \<open>
  C32. An update for a kind of event reaches the clients that exist and have subscribed to
  one of its bits, each of them, and no one else; every one of them once when the
  subscriptions have distinct keys.
\<close>

theorem monitor_update_recipients:
  assumes "\<forall>n h c. accepts e n h c" and "\<forall>h \<in> set (handles s). open_output h s"
  shows "map fst (outbox (snd (send_monitor_update e ev ds s))) =
      map fst (outbox s) @ get_event_current_clients ev s \<and>
    set (get_event_current_clients ev s) =
      {h \<in> set (handles s). \<exists>v. (h, v) \<in> set (events (monitors s)) \<and> check_any v ev} \<and>
    (event_keys_ok (events (monitors s)) \<longrightarrow> distinct (get_event_current_clients ev s))"
proof -
  have s: "set (get_event_current_clients ev s) =
      {h \<in> set (handles s). \<exists>v. (h, v) \<in> set (events (monitors s)) \<and> check_any v ev}"
    by (auto simp: get_event_current_clients_def)
  have d: "distinct (map fst es) \<Longrightarrow> distinct [k. (k, v) \<leftarrow> es, check_any v ev, k \<in> H]"
    for es :: "(handle \<times> u32) list" and H
    by (induction es) (auto split: if_splits, force)
  have "map fst (outbox (snd (send_monitor_update e ev ds s))) =
      map fst (outbox s) @ get_event_current_clients ev s"
    using send_to_all_recipients [OF assms(1), of "get_event_current_clients ev s" s
        "(base_transmit e)\<lparr>command := Some (Server_Command (Monitor_Data ev ds))\<rparr>" "Monitor_Data ev ds"]
      assms(2) s by (auto simp: send_monitor_update_def Let_def)
  with s d show ?thesis by (simp add: get_event_current_clients_def event_keys_ok_def)
qed

theorem monitor_update_recipients_witness:
  "map fst (outbox (snd (send_monitor_update tiny_env (monitor_registered_clients OR monitor_add) [''5*a'']
     ((tiny_server [(new_client_id 4)\<lparr>attached_client := True\<rparr>, (new_client_id 5)\<lparr>attached_client := True\<rparr>])
       \<lparr>monitors := \<lparr>events = [(5, monitor_registered_clients)], exits = []\<rparr>\<rparr>)))) = [5]"
  using monitor_update_recipients [of tiny_env
     "(tiny_server [(new_client_id 4)\<lparr>attached_client := True\<rparr>, (new_client_id 5)\<lparr>attached_client := True\<rparr>])
       \<lparr>monitors := \<lparr>events = [(5, monitor_registered_clients)], exits = []\<rparr>\<rparr>"
     "monitor_registered_clients OR monitor_add" "[''5*a'']"]
  by (simp add: tiny_env_def tiny_server_def handles_def open_output_def get_client_id_def
      find_by_handle_def new_client_id_def get_event_current_clients_def flag_defs check_any_def)

lemma resource_exit_built:
  "body_assemble (server_local n) (Resource_Command (Resource_Exit a)) = Some [text_data_section [] a]"
  by (simp add: build_resource_exit_def allow_create_builtin_def server_local_def flag_defs
      check_all_def check_none_def add_defs)

lemma resource_exit_reparsed:
  "no_NUL a \<Longrightarrow> compile_body (server_local n) (Resource_Command (Resource_Exit b)) [text_data_section [] a] =
     Some (Resource_Command (Resource_Exit a))"
  using body_parse_built [OF resource_exit_built, of a "resource_generator (Resource_Exit a)" "server_local n"]
  by (simp add: compile_body_def parse_permissions_gen_def allow_parse_builtin_def server_local_def
      generator_not_plugin)

text \<open>
  C36. The notices of an exit share one \<open>command_transmit\<close>, whose data is written only for
  the first of them: when a client without a name disappears while two of its services are
  monitored, the second notice carries the name of the first service.
\<close>

theorem exit_update_repeats_name:
  assumes "\<forall>n h c. accepts e n h c" and "open_output h s" and "open_output k s"
    and "h \<in> set (handles s)" and "k \<in> set (handles s)" and "no_NUL a"
    and "exits (monitors s) = [(h, \<lparr>exit_client = x, exit_name = a\<rparr>), (k, \<lparr>exit_client = x, exit_name = b\<rparr>)]"
  shows "map (\<lambda>(r, c). (r, command c)) (outbox (snd (send_exit_update e x [] s))) =
    map (\<lambda>(r, c). (r, command c)) (outbox s) @
      [(h, Some (Resource_Command (Resource_Exit a))), (k, Some (Resource_Command (Resource_Exit a)))]"
proof -
  let ?n = "server_name s"
  let ?t = "[text_data_section [] a]"
  let ?s0 = "update_monitors (\<lambda>m. m\<lparr>exits := filter (\<lambda>(k, v). \<not> exit_compare x [] v) (exits m)\<rparr>) s"
  have g: "get_exit_current_clients x [] s = ([(h, a), (k, b)], ?s0)"
    using assms by (auto simp: get_exit_current_clients_def exit_compare_def handles_def)
  have out: "open_output j (s'\<lparr>outbox := ob, attempts := n\<rparr>) = open_output j s'" for j s' ob n
    by (simp add: open_output_def get_client_id_def)
  have out0: "open_output j ?s0 = open_output j s" for j
    by (simp add: open_output_def get_client_id_def update_monitors_def)
  note build = resource_exit_built [of ?n a] and parse = resource_exit_reparsed [OF assms(6), of ?n b]
  define c1 where "c1 = (base_transmit e)\<lparr>command := Some (Resource_Command (Resource_Exit a)),
    target_entity := (case get_client_id h s of Some j \<Rightarrow> client_name j | None \<Rightarrow> []),
    orig_entity := ?n, tree := ?t\<rparr>"
  have base: "tree (base_transmit e) = []" by (simp add: base_transmit_def new_transmit_def command_info.defs)
  have gid: "get_client_id j ?s0 = get_client_id j s" for j
    by (simp add: get_client_id_def update_monitors_def)
  have first: "send_exits e (base_transmit e) [(h, a), (k, b)] ?s0
      = send_exits e c1 [(k, b)] (snd (send_protected_output e h c1 ?s0))"
    using build base gid
    by (simp add: set_command_def command_ready_def command_sendable_def assemble_command_def
        local_server_def c1_def Let_def update_monitors_def)
  let ?s1 = "snd (send_protected_output e h c1 ?s0)"
  have o1: "outbox ?s1 = outbox s @ [(h, c1)]"
    using assms(1,2) out0 [of h] by (simp add: send_protected_output_def update_monitors_def)
  have r1: "open_output k ?s1" "server_name ?s1 = ?n"
    using assms(3) out0 only_output_fields(1,11) [OF send_protected_only [of ?s0 e h c1]]
    by (simp_all add: open_output_def get_client_id_def update_monitors_def)
  obtain c2 where c2: "send_exits e c1 [(k, b)] ?s1 = snd (send_protected_output e k c2 ?s1)"
    "command c2 = Some (Resource_Command (Resource_Exit a))"
    using parse r1(2)
    by (simp add: set_command_def command_ready_def command_sendable_def local_server_def c1_def Let_def)
  have "outbox (snd (send_protected_output e k c2 ?s1)) = outbox s @ [(h, c1), (k, c2)]"
    using assms(1) r1 o1 by (simp add: send_protected_output_def)
  with c2 first g show ?thesis
    by (simp add: send_exit_update_def c1_def)
qed

theorem exit_update_repeats_name_witness:
  "map (\<lambda>(r, c). (r, command c)) (outbox (snd (send_exit_update tiny_env 9 []
     ((tiny_server [(new_client_id 4)\<lparr>attached_client := True\<rparr>, (new_client_id 5)\<lparr>attached_client := True\<rparr>])
       \<lparr>monitors := \<lparr>events = [], exits = [(4, \<lparr>exit_client = 9, exit_name = ''first''\<rparr>),
          (5, \<lparr>exit_client = 9, exit_name = ''second''\<rparr>)]\<rparr>\<rparr>)))) =
     [(4, Some (Resource_Command (Resource_Exit ''first''))), (5, Some (Resource_Command (Resource_Exit ''first'')))]"
  using exit_update_repeats_name [of tiny_env 4
     "(tiny_server [(new_client_id 4)\<lparr>attached_client := True\<rparr>, (new_client_id 5)\<lparr>attached_client := True\<rparr>])
       \<lparr>monitors := \<lparr>events = [], exits = [(4, \<lparr>exit_client = 9, exit_name = ''first''\<rparr>),
          (5, \<lparr>exit_client = 9, exit_name = ''second''\<rparr>)]\<rparr>\<rparr>" 5 "''first''" 9 "''second''"]
  by (simp add: tiny_env_def tiny_server_def handles_def open_output_def get_client_id_def
      find_by_handle_def new_client_id_def no_NUL_def)

end
