(* ===== verification/Service_List.thy ===== *)
theory Service_List
  imports Monitors
begin

text \<open>
  The table of registered services (\<open>libs/server/service-list.cpp\<close>): pairs of the address of
  the client that provides a service and the service. \<open>check_names\<close>
  (\<open>libs/server/name-check.cpp\<close>) is the test for a free name over clients and services.
\<close>

section \<open>Operations\<close>

definition registered_service_of :: "string \<Rightarrow> string \<Rightarrow> string \<Rightarrow> registered_service" where
  "registered_service_of nName tType lLocation =
     \<lparr>service_name = nName, service_type = tType, service_location = lLocation\<rparr>"

definition client_pid :: "handle \<Rightarrow> server \<Rightarrow> int" where
  "client_pid h s = (case get_client_id h s of Some c \<Rightarrow> process_id c | None \<Rightarrow> -1)"

definition add_client_service ::
  "handle \<Rightarrow> string \<Rightarrow> string \<Rightarrow> string \<Rightarrow> server \<Rightarrow> bool \<times> server" where
  "add_client_service hHandle nName tType lLocation s =
     (let s1 = s\<lparr>services := services s @ [(hHandle, registered_service_of nName tType lLocation)]\<rparr>;
          s2 = monitor_service_register (client_pid hHandle s) nName tType lLocation s1
      in (True, update_client hHandle (set_primary_service nName) s2))"

text \<open>The log and monitor part of the three removal routines, for each service in turn.\<close>

fun announce_removed :: "handle \<Rightarrow> int \<Rightarrow> registered_service list \<Rightarrow> server \<Rightarrow> server" where
  "announce_removed h pid [] s = s"
| "announce_removed h pid (r # rs) s =
     announce_removed h pid rs
       (monitor_service_deregister pid (service_name r) (service_type r) (service_location r)
         (monitor_client_exit h (service_name r) s))"

definition remove_matching ::
  "handle \<Rightarrow> (handle \<times> registered_service \<Rightarrow> bool) \<Rightarrow> server \<Rightarrow> bool \<times> server" where
  "remove_matching hHandle P s =
     (let gone = map snd (filter P (services s));
          s1 = announce_removed hHandle (client_pid hHandle s) gone s
      in (gone \<noteq> [], s1\<lparr>services := filter (\<lambda>x. \<not> P x) (services s1)\<rparr>))"

definition remove_indiv_service :: "handle \<Rightarrow> string \<Rightarrow> server \<Rightarrow> bool \<times> server" where
  "remove_indiv_service hHandle nName s =
     (case remove_matching hHandle (\<lambda>(k, r). service_name r = nName \<and> k = hHandle) s of (ok, s1) \<Rightarrow>
        if \<not> ok then (False, s1)
        else
          let position = find_index (\<lambda>(k, r). service_location r = [] \<and> k = hHandle) (services s1)
          in (True, update_client hHandle (set_primary_service
                (case position of None \<Rightarrow> [] | Some i \<Rightarrow> service_name (snd (services s1 ! i)))) s1))"

definition remove_handle_services :: "handle \<Rightarrow> server \<Rightarrow> bool \<times> server" where
  "remove_handle_services hHandle s =
     (case remove_matching hHandle (\<lambda>(k, r). k = hHandle) s of (ok, s1) \<Rightarrow>
        (True, update_client hHandle (set_primary_service []) s1))"

definition find_by_location :: "string \<Rightarrow> registered_service \<Rightarrow> bool" where
  "find_by_location lLocation r \<longleftrightarrow>
     next_address_scope (snd (next_client_scope (service_location r))) = lLocation"

definition remove_remote_services :: "handle \<Rightarrow> string \<Rightarrow> server \<Rightarrow> bool \<times> server" where
  "remove_remote_services hHandle lLocation s =
     remove_matching hHandle (\<lambda>(k, r). find_by_location lLocation r \<and> k = hHandle) s"

definition find_service :: "string \<Rightarrow> service_list \<Rightarrow> (handle \<times> registered_service) option" where
  "find_service nName t = map_option (\<lambda>i. t ! i) (find_index (\<lambda>(k, r). service_name r = nName) t)"

definition get_service_client_handle :: "service_list \<Rightarrow> string \<Rightarrow> handle option" where
  "get_service_client_handle t nName = map_option fst (find_service nName t)"

definition get_service_address :: "service_list \<Rightarrow> string \<Rightarrow> string option" where
  "get_service_address t nName = map_option (service_location \<circ> snd) (find_service nName t)"

definition find_services :: "env \<Rightarrow> string \<Rightarrow> string \<Rightarrow> service_list \<Rightarrow> string list" where
  "find_services e nName tType t =
     [service_name r @ standard_delimiter @ service_type r @ standard_delimiter @ service_location r.
        (k, r) \<leftarrow> t, expression e nName (service_name r), expression e tType (service_type r)]"

definition check_names :: "server \<Rightarrow> string \<Rightarrow> bool" where
  "check_names s nName \<longleftrightarrow>
     (\<forall>c \<in> set (clients s). client_name c \<noteq> nName) \<and>
     (\<forall>x \<in> set (services s). service_name (snd x) \<noteq> nName)"

section \<open>The table under the operations\<close>

lemma set_primary_core [simp]: "client_core (set_primary_service n c) = client_core c"
  by (simp add: set_primary_service_def client_core_def)

lemma announce_removed_monitoring: "only_monitoring s (announce_removed h pid rs s)"
proof (induction h pid rs s rule: announce_removed.induct)
  case (2 h pid r rs s)
  show ?case
    unfolding announce_removed.simps
    by (rule only_monitoring_trans [OF monitor_messages_monitoring(1)
          only_monitoring_trans [OF monitor_messages_monitoring(7) "2.IH"]])
qed simp

lemmas announce_removed_tables [simp] =
  announce_removed_monitoring [THEN only_monitoring_tables, THEN conjunct1]
  announce_removed_monitoring [THEN only_monitoring_tables, THEN conjunct2, THEN conjunct1]
  announce_removed_monitoring [THEN only_monitoring_tables, THEN conjunct2, THEN conjunct2, THEN conjunct1]
  announce_removed_monitoring [THEN only_monitoring_tables, THEN conjunct2, THEN conjunct2, THEN conjunct2]

lemma cores_services_update [simp]: "cores (s\<lparr>services := t\<rparr>) = cores s"
  by (simp add: cores_def)

lemma same_queue_services [simp]: "same_queue s (s'\<lparr>services := t\<rparr>) = same_queue s s'"
  by (simp add: same_queue_def)

lemma remove_matching_tables [simp]:
  "services (snd (remove_matching h P s)) = filter (\<lambda>x. \<not> P x) (services s)"
  "cores (snd (remove_matching h P s)) = cores s"
  "clients (snd (remove_matching h P s)) = clients s"
  "same_queue s (snd (remove_matching h P s))"
  by (simp_all add: remove_matching_def Let_def)

lemma remove_indiv_tables [simp]:
  "services (snd (remove_indiv_service h n s)) =
     filter (\<lambda>(k, r). \<not> (service_name r = n \<and> k = h)) (services s)"
  "cores (snd (remove_indiv_service h n s)) = cores s"
  "same_queue s (snd (remove_indiv_service h n s))"
  using same_queue_trans [OF remove_matching_tables(4) update_client_queue]
  by (simp_all add: remove_indiv_service_def case_prod_unfold Let_def frame_simps)

lemma remove_handle_tables [simp]:
  "services (snd (remove_handle_services h s)) = filter (\<lambda>(k, r). k \<noteq> h) (services s)"
  "cores (snd (remove_handle_services h s)) = cores s"
  "same_queue s (snd (remove_handle_services h s))"
  using same_queue_trans [OF remove_matching_tables(4) update_client_queue]
  by (simp_all add: remove_handle_services_def case_prod_unfold frame_simps)

lemma remove_remote_tables [simp]:
  "services (snd (remove_remote_services h l s)) =
     filter (\<lambda>(k, r). \<not> (find_by_location l r \<and> k = h)) (services s)"
  "cores (snd (remove_remote_services h l s)) = cores s"
  "same_queue s (snd (remove_remote_services h l s))"
  by (simp_all add: remove_remote_services_def case_prod_unfold)

lemma add_client_service_tables [simp]:
  "services (snd (add_client_service h n t l s)) = services s @ [(h, registered_service_of n t l)]"
  "cores (snd (add_client_service h n t l s)) = cores s"
  "same_queue s (snd (add_client_service h n t l s))"
  by (simp_all add: add_client_service_def Let_def frame_simps monitor_service_register_def
      add_single_update_def same_queue_def) (simp_all add: cores_def)

section \<open>The contract of the table\<close>

text \<open>A directory of names: what was added is found until it is removed, and other names are
  not affected.\<close>

locale name_directory =
  fixes inv :: "'t \<Rightarrow> bool" and owner :: "'t \<Rightarrow> string \<Rightarrow> handle option"
    and add :: "handle \<Rightarrow> string \<Rightarrow> 't \<Rightarrow> 't" and drop_owner :: "handle \<Rightarrow> 't \<Rightarrow> 't"
  assumes inv_add: "inv t \<Longrightarrow> owner t n = None \<Longrightarrow> inv (add h n t)"
    and inv_drop: "inv t \<Longrightarrow> inv (drop_owner h t)"
    and owner_add: "inv t \<Longrightarrow> owner t n = None \<Longrightarrow>
      owner (add h n t) m = (if m = n then Some h else owner t m)"
    and owner_drop: "inv t \<Longrightarrow> owner (drop_owner h t) m = (if owner t m = Some h then None else owner t m)"
begin

text \<open>An owner that leaves takes all its names with it, in whatever order they were added.\<close>

lemma add_all_inv: "inv t \<Longrightarrow> distinct ns \<Longrightarrow> \<forall>n \<in> set ns. owner t n = None \<Longrightarrow>
    inv (fold (add h) ns t) \<and>
    (\<forall>m. owner (fold (add h) ns t) m = (if m \<in> set ns then Some h else owner t m))"
proof (induction ns arbitrary: t)
  case (Cons n ns)
  have "inv (add h n t)" using Cons.prems by (simp add: inv_add)
  moreover have "\<forall>m \<in> set ns. owner (add h n t) m = None" using Cons.prems by (auto simp: owner_add)
  ultimately show ?case using Cons.IH [of "add h n t"] Cons.prems by (auto simp: owner_add)
qed simp

lemma leave_forgets:
  assumes "inv t" and "distinct ns" and "\<forall>n \<in> set ns. owner t n = None"
    and "\<forall>m. owner t m \<noteq> Some h"
  shows "owner (drop_owner h (fold (add h) ns t)) m = owner t m"
  using add_all_inv [OF assms(1-3), of h] owner_drop [of "fold (add h) ns t" h m] assms(3,4) by auto

end

definition service_names_ok :: "service_list \<Rightarrow> bool" where
  "service_names_ok t \<longleftrightarrow> distinct (map (service_name \<circ> snd) t)"

lemma find_service_eq: "find_service n t = find (\<lambda>x. service_name (snd x) = n) t"
proof (induction t)
  case Nil
  then show ?case by (simp add: find_service_def)
next
  case (Cons x t)
  then show ?case
    by (cases "find_index (\<lambda>(k, r). service_name r = n) t") (auto simp: find_service_def split_beta)
qed

lemma get_service_handle_map_of:
  "get_service_client_handle t n = map_of (map (\<lambda>(k, r). (service_name r, k)) t) n"
  by (induction t) (auto simp: get_service_client_handle_def find_service_eq split_beta)

lemma service_names_filter: "service_names_ok t \<Longrightarrow> service_names_ok (filter P t)"
  by (simp add: service_names_ok_def distinct_map_filter)

lemma service_owner_drop:
  "service_names_ok t \<Longrightarrow>
    get_service_client_handle (filter (\<lambda>(k, r). k \<noteq> h) t) m =
      (if get_service_client_handle t m = Some h then None else get_service_client_handle t m)"
proof (induction t)
  case (Cons x t)
  obtain k r where x: "x = (k, r)" by (cases x)
  have t: "service_names_ok t" using Cons.prems by (simp add: service_names_ok_def)
  have n: "service_name r = m \<Longrightarrow> get_service_client_handle (filter P t) m = None" for P
  proof -
    assume m: "service_name r = m"
    have "service_name (snd y) \<noteq> m" if "y \<in> set t" for y
      using Cons.prems x m that by (force simp: service_names_ok_def)
    then show ?thesis by (fastforce simp: get_service_handle_map_of map_of_eq_None_iff)
  qed
  show ?case
    using Cons.IH [OF t] n [of "\<lambda>(k, r). k \<noteq> h"] x
    by (auto simp: get_service_handle_map_of)
qed (simp add: get_service_handle_map_of)

interpretation directory: name_directory service_names_ok get_service_client_handle
  "\<lambda>h n t. t @ [(h, registered_service_of n ty lo)]" "\<lambda>h t. filter (\<lambda>(k, r). k \<noteq> h) t"
  for ty lo
proof
  fix t n h m
  assume ok: "service_names_ok t"
  show "service_names_ok (filter (\<lambda>(k, r). k \<noteq> h) t)" using ok by (rule service_names_filter)
  show "get_service_client_handle (filter (\<lambda>(k, r). k \<noteq> h) t) m =
      (if get_service_client_handle t m = Some h then None else get_service_client_handle t m)"
    using ok by (rule service_owner_drop)
  assume free: "get_service_client_handle t n = None"
  then have notin: "n \<notin> (service_name \<circ> snd) ` set t"
    by (force simp: get_service_handle_map_of map_of_eq_None_iff)
  show "service_names_ok (t @ [(h, registered_service_of n ty lo)])"
    using ok notin by (simp add: service_names_ok_def registered_service_of_def)
  show "get_service_client_handle (t @ [(h, registered_service_of n ty lo)]) m =
      (if m = n then Some h else get_service_client_handle t m)"
    using free by (auto simp: get_service_handle_map_of registered_service_of_def map_add_def
        split: option.splits)
qed

text \<open>
  C31. A client that registers services under free names and then leaves restores the directory:
  while it is registered each of the names leads to it and to its address, and after
  \<open>remove_handle_services\<close> every name has the owner it had before.
\<close>

theorem services_of_client_leave:
  assumes "service_names_ok (services s)" and "distinct ns"
    and "\<forall>n \<in> set ns. get_service_client_handle (services s) n = None"
    and "\<forall>m. get_service_client_handle (services s) m \<noteq> Some h"
  shows "(\<forall>n \<in> set ns. get_service_client_handle
        (services (fold (\<lambda>n s. snd (add_client_service h n ty lo s)) ns s)) n = Some h) \<and>
    get_service_client_handle
      (services (snd (remove_handle_services h (fold (\<lambda>n s. snd (add_client_service h n ty lo s)) ns s)))) m
      = get_service_client_handle (services s) m"
proof -
  have f: "services (fold (\<lambda>n s. snd (add_client_service h n ty lo s)) ns s)
      = fold (\<lambda>n t. t @ [(h, registered_service_of n ty lo)]) ns (services s)" for ns s
    by (induction ns arbitrary: s) simp_all
  show ?thesis
    using directory.add_all_inv [OF assms(1-3), of h ty lo] directory.leave_forgets [OF assms]
    by (simp add: f)
qed

theorem services_of_client_leave_witness:
  "get_service_client_handle (services (snd (remove_handle_services 4
     (fold (\<lambda>n s. snd (add_client_service 4 n ''t'' [] s)) [''a'', ''b''] (tiny_server []))))) ''a'' = None"
  using services_of_client_leave [of "tiny_server []" "[''a'', ''b'']" 4 "''t''" "[]" "''a''"]
  by (simp add: tiny_server_def service_names_ok_def get_service_handle_map_of)

end
