(* ===== verification/Terminal_Control.thy ===== *)
theory Terminal_Control
  imports Monitors
begin

text \<open>
  Control of the server's terminal: \<open>take_terminal_control\<close>, \<open>return_terminal_control\<close> and
  \<open>restore_terminal\<close> of \<open>libs/server/server-command.cpp\<close>, over the three static variables
  \<open>terminal_pid\<close>, \<open>terminal_type\<close> and \<open>terminal_priority\<close>. The session and process-group
  calls are answered by the environment.
\<close>

section \<open>Operations\<close>

definition session_leader :: "env \<Rightarrow> bool" where
  "session_leader e \<longleftrightarrow> own_session e = server_pid e"

definition set_terminal :: "int \<Rightarrow> mask16 \<Rightarrow> u8 \<Rightarrow> server \<Rightarrow> server" where
  "set_terminal pPid tType pPriority s =
     s\<lparr>terminal := \<lparr>terminal_pid = pPid, terminal_type = tType, terminal_priority = pPriority\<rparr>\<rparr>"

definition take_terminal_control ::
  "env \<Rightarrow> int \<Rightarrow> int \<Rightarrow> mask16 \<Rightarrow> u8 \<Rightarrow> server \<Rightarrow> bool \<times> server" where
  "take_terminal_control e pPid pPidActual tType pPriority s =
     (if \<not> session_leader e then (False, s)
      else if pPid = terminal_pid (terminal s) then (True, s)
      else if pPid < 0 \<or> process_group e pPidActual \<noteq> pPid then (False, s)
      else if process_session e pPidActual \<noteq> server_pid e then (False, s)
      else if \<not> terminal_tty e then (False, s)
      else if \<not> terminal_set e pPid then (False, s)
      else
        let s1 = (if terminal_pid (terminal s) < 0 then monitor_terminal_taken pPid s
                  else monitor_terminal_revoked (terminal_pid (terminal s)) pPid s)
        in (True, set_terminal pPid tType pPriority s1))"

definition return_terminal_control :: "env \<Rightarrow> int \<Rightarrow> server \<Rightarrow> bool \<times> server" where
  "return_terminal_control e pPid s =
     (if \<not> session_leader e then (False, s)
      else if pPid \<noteq> terminal_pid (terminal s) \<or> terminal_pid (terminal s) < 0 then (False, s)
      else if \<not> terminal_tty e then (False, s)
      else
        let s1 = monitor_terminal_returned pPid (s\<lparr>terminal := no_terminal\<rparr>)
        in if \<not> terminal_set e (process_group e 0) then (False, s1)
           else if \<not> terminal_attr e then (False, s1) else (True, s1))"

definition restore_terminal :: "env \<Rightarrow> server \<Rightarrow> server" where
  "restore_terminal e s =
     (if \<not> session_leader e \<or> terminal_pid (terminal s) < 0 \<or> \<not> terminal_tty e then s
      else s\<lparr>terminal := no_terminal\<rparr>)"

section \<open>The contract of the arbitration\<close>

text \<open>A device with at most one holder: it is handed over only by taking it, and only the holder
  can give it back.\<close>

locale exclusive_device =
  fixes holder :: "'s \<Rightarrow> int option"
    and acquire :: "int \<Rightarrow> 's \<Rightarrow> bool \<times> 's" and release :: "int \<Rightarrow> 's \<Rightarrow> bool \<times> 's"
  assumes acquire_ok: "acquire p s = (True, s') \<Longrightarrow> 0 \<le> p \<Longrightarrow> holder s' = Some p"
    and acquire_fail: "acquire p s = (False, s') \<Longrightarrow> holder s' = holder s"
    and release_other: "holder s \<noteq> Some p \<Longrightarrow> holder (snd (release p s)) = holder s"
    and release_ok: "release p s = (True, s') \<Longrightarrow> holder s = Some p \<and> holder s' = None"
begin

text \<open>Whatever others try to release, a holder keeps the device.\<close>

lemma kept: "holder s = Some p \<Longrightarrow> p \<notin> set qs \<Longrightarrow>
    holder (fold (\<lambda>q s. snd (release q s)) qs s) = Some p"
  by (induction qs arbitrary: s) (auto simp: release_other)

lemma acquire_then_release:
  "acquire p s = (True, s1) \<Longrightarrow> 0 \<le> p \<Longrightarrow> release q s1 = (True, s2) \<Longrightarrow> q = p \<and> holder s2 = None"
  using acquire_ok release_ok by fastforce

end

definition terminal_holder :: "server \<Rightarrow> int option" where
  "terminal_holder s = (if terminal_pid (terminal s) < 0 then None else Some (terminal_pid (terminal s)))"

lemma monitor_terminal_terminal [simp]:
  "terminal (monitor_terminal_taken p s) = terminal s"
  "terminal (monitor_terminal_revoked p q s) = terminal s"
  "terminal (monitor_terminal_returned p s) = terminal s"
  by (simp_all add: monitor_message_defs add_single_update_def)

interpretation tty: exclusive_device terminal_holder
  "\<lambda>p s. take_terminal_control e p a ty pri s" "return_terminal_control e"
  for e a ty pri
proof
  fix p s s'
  show "take_terminal_control e p a ty pri s = (True, s') \<Longrightarrow> 0 \<le> p \<Longrightarrow> terminal_holder s' = Some p"
    by (auto simp: take_terminal_control_def terminal_holder_def set_terminal_def Let_def split: if_splits)
  show "take_terminal_control e p a ty pri s = (False, s') \<Longrightarrow> terminal_holder s' = terminal_holder s"
    by (auto simp: take_terminal_control_def Let_def split: if_splits)
  show "terminal_holder s \<noteq> Some p \<Longrightarrow>
      terminal_holder (snd (return_terminal_control e p s)) = terminal_holder s"
    by (auto simp: return_terminal_control_def terminal_holder_def Let_def split: if_splits)
  show "return_terminal_control e p s = (True, s') \<Longrightarrow>
      terminal_holder s = Some p \<and> terminal_holder s' = None"
    by (auto simp: return_terminal_control_def terminal_holder_def no_terminal_def Let_def split: if_splits)
qed

section \<open>Frames\<close>

definition only_terminal :: "server \<Rightarrow> server \<Rightarrow> bool" where
  "only_terminal s s' \<longleftrightarrow> clients s' = clients s \<and> services s' = services s \<and>
     commands s' = commands s \<and> command_cache s' = command_cache s \<and> counter s' = counter s \<and>
     settings s' = settings s \<and> server_name s' = server_name s \<and> exit_flag s' = exit_flag s \<and>
     exit_status s' = exit_status s \<and> outbox s' = outbox s \<and> monitors s' = monitors s"

lemma take_terminal_only: "only_terminal s (snd (take_terminal_control e p a ty pri s))"
  by (simp add: take_terminal_control_def only_terminal_def set_terminal_def monitor_message_defs
      add_single_update_def Let_def)

lemma return_terminal_only: "only_terminal s (snd (return_terminal_control e p s))"
  by (simp add: return_terminal_control_def only_terminal_def monitor_message_defs
      add_single_update_def Let_def)

lemmas return_terminal_fields [frame_simps] =
  return_terminal_only [unfolded only_terminal_def, THEN conjunct1]

text \<open>
  C30. Once a process holds the terminal, no series of attempts by other processes to give
  it back changes that, and only the holder's own return frees it: after it nobody holds
  the terminal and the recorded type and priority are those of nobody.
\<close>

theorem terminal_kept_until_returned:
  assumes "take_terminal_control e p a ty pri s = (True, s1)" and "0 \<le> p" and "p \<notin> set qs"
  shows "terminal_holder (fold (\<lambda>q t. snd (return_terminal_control e q t)) qs s1) = Some p \<and>
    (\<forall>q s2. return_terminal_control e q s1 = (True, s2) \<longrightarrow> q = p \<and> terminal s2 = no_terminal)"
proof
  show "terminal_holder (fold (\<lambda>q t. snd (return_terminal_control e q t)) qs s1) = Some p"
    using tty.kept [OF tty.acquire_ok [OF assms(1,2)] assms(3)] .
  show "\<forall>q s2. return_terminal_control e q s1 = (True, s2) \<longrightarrow> q = p \<and> terminal s2 = no_terminal"
    using tty.acquire_then_release [OF assms(1,2)]
    by (auto simp: return_terminal_control_def Let_def split: if_splits)
qed

theorem terminal_kept_until_returned_witness:
  "terminal_holder (fold (\<lambda>q t. snd (return_terminal_control tiny_env q t)) [7, 8]
     (snd (take_terminal_control tiny_env 5 5 type_control_client 3 (tiny_server [])))) = Some 5"
proof -
  have "take_terminal_control tiny_env 5 5 type_control_client 3 (tiny_server [])
    = (True, snd (take_terminal_control tiny_env 5 5 type_control_client 3 (tiny_server [])))"
    by (simp add: take_terminal_control_def session_leader_def tiny_env_def tiny_server_def
        no_terminal_def Let_def)
  from terminal_kept_until_returned [OF this, of "[7, 8]"] show ?thesis by simp
qed

end
