(* ===== verification/Queue_Access.thy ===== *)
theory Queue_Access
  imports Monitors
begin

text \<open>
  Access to the command queue: \<open>queue_new_execute\<close> and \<open>remove_handle_commands\<close>
  (\<open>libs/server/execute-module.cpp\<close>), \<open>queue_client_command\<close>, \<open>requeue_server_command\<close> and
  \<open>server_update_limits\<close> (\<open>libs/server/api-server.cpp\<close>).
\<close>

section \<open>Operations\<close>


definition update_commands :: "(execute_queue \<Rightarrow> execute_queue) \<Rightarrow> server \<Rightarrow> server" where
  "update_commands f s = s\<lparr>commands := f (commands s)\<rparr>"

text \<open>The element is inserted first; the acknowledgement is sent from the queued copy.\<close>

definition queue_new_execute :: "env \<Rightarrow> queued \<Rightarrow> server \<Rightarrow> server" where
  "queue_new_execute e eElement s =
     (let s1 = update_commands
            (queue_insert (time_priority_factor (parameters s)) (counter s) eElement) s
      in if \<not> check_all (execute_type (snd eElement)) command_response \<and>
            length (orig_address (snd eElement)) = 0
         then snd (send_server_response e (snd eElement) event_received_server s1) else s1)"

definition commands_waiting :: "server \<Rightarrow> nat" where
  "commands_waiting s = number_waiting (commands s)"

definition queue_client_command :: "env \<Rightarrow> queued \<Rightarrow> server \<Rightarrow> multi_result \<times> server" where
  "queue_client_command e eElement s =
     (if commands_waiting s \<ge> unat (max_commands (parameters s))
      then (result_fail, monitor_server_limit ''max_commands'' (max_commands (parameters s)) s)
      else
        let s1 = queue_new_execute e (fst eElement, (snd eElement)\<lparr>wait_start := counter s\<rparr>) s
        in (result_success, s1\<lparr>counter := counter s1 + 1\<rparr>))"

definition requeue_server_command :: "env \<Rightarrow> queued \<Rightarrow> server \<Rightarrow> bool \<times> server" where
  "requeue_server_command e eElement s = (True, queue_new_execute e eElement s)"

definition remove_handle_commands :: "handle \<Rightarrow> server \<Rightarrow> server" where
  "remove_handle_commands eEntity =
     update_commands (\<lambda>q. q\<lparr>queue_items := remove_commands eEntity (queue_items q)\<rparr>)"

definition server_update_limits :: "server \<Rightarrow> server" where
  "server_update_limits s =
     update_commands (set_queue_limit (max_commands (parameters s) + PARAM_ALLOW_SERVER_REQUEUE)) s"

section \<open>The queue as the clients of the server see it\<close>

definition server_queue_ok :: "server \<Rightarrow> bool" where
  "server_queue_ok s \<longleftrightarrow>
     queue_ok (time_priority_factor (parameters s)) (counter s) (commands s) \<and>
     (\<forall>x \<in> set (queue_items (commands s)). wait_start (snd x) \<le> counter s)"

lemma queue_insert_mset:
  "mset (queue_items (queue_insert f ctr x q)) = add_mset x (mset (queue_items q))"
  by (simp add: queue_insert_def insert_command_mset)

lemma queue_insert_set: "set (queue_items (queue_insert f ctr x q)) = insert x (set (queue_items q))"
  using arg_cong [OF queue_insert_mset [of f ctr x q], of set_mset] by simp

lemma queue_insert_number: "number_waiting (queue_insert f ctr x q) = Suc (number_waiting q)"
  using arg_cong [OF queue_insert_mset [of f ctr x q], of size] by (simp add: number_waiting_def)

lemma queue_new_execute_commands:
  "commands (queue_new_execute e x s) =
     queue_insert (time_priority_factor (parameters s)) (counter s) x (commands s)"
  "counter (queue_new_execute e x s) = counter s" "settings (queue_new_execute e x s) = settings s"
  "clients (queue_new_execute e x s) = clients s" "services (queue_new_execute e x s) = services s"
  "server_name (queue_new_execute e x s) = server_name s"
  using only_output_fields [OF send_server_response_only]
  by (simp_all add: queue_new_execute_def update_commands_def Let_def)

lemma queue_new_execute_ok:
  assumes "server_queue_ok s" and "wait_start (snd x) \<le> counter s"
  shows "server_queue_ok (queue_new_execute e x s)"
  using assms by (simp add: server_queue_ok_def parameters_def queue_new_execute_commands
      queue_insert_ok queue_insert_set)


lemma queue_ok_wait_start:
  "queue_ok f c q \<Longrightarrow> \<forall>e \<in> set (queue_items q). wait_start (snd e) \<le> c \<Longrightarrow> c \<noteq> - 1 \<Longrightarrow>
    queue_ok f (c + 1) q"
  using heap_ok_cong [of "queue_items q" "priority_adjust f (c + 1)" "priority_adjust f c"]
  by (simp add: queue_ok_def priority_adjust_next)

lemma queue_client_command_result:
  assumes "server_queue_ok s" and "counter s \<noteq> - 1" and "queue_client_command e x s = (r, s')"
  shows "server_queue_ok s' \<and>
    (r = result_success \<longleftrightarrow> commands_waiting s < unat (max_commands (parameters s))) \<and>
    (r = result_success \<longrightarrow> mset (queue_items (commands s')) =
       add_mset (fst x, (snd x)\<lparr>wait_start := counter s\<rparr>) (mset (queue_items (commands s)))) \<and>
    (r \<noteq> result_success \<longrightarrow> commands s' = commands s)"
proof (cases "commands_waiting s < unat (max_commands (parameters s))")
  case False
  then have "s' = monitor_server_limit ''max_commands'' (max_commands (parameters s)) s"
    and "r = result_fail"
    using assms(3) by (simp_all add: queue_client_command_def)
  moreover have "server_queue_ok (monitor_server_limit n v s)" for n v
    using assms(1) by (simp add: server_queue_ok_def monitor_server_limit_def add_single_update_def
        parameters_def)
  moreover have "commands (monitor_server_limit n v s) = commands s" for n v
    by (simp add: monitor_server_limit_def add_single_update_def)
  ultimately show ?thesis using False by simp
next
  case True
  let ?y = "(fst x, (snd x)\<lparr>wait_start := counter s\<rparr>)"
  let ?s1 = "queue_new_execute e ?y s"
  have s': "s' = ?s1\<lparr>counter := counter ?s1 + 1\<rparr>" and r: "r = result_success"
    using True assms(3) by (auto simp: queue_client_command_def Let_def)
  have ok: "server_queue_ok ?s1" using assms(1) by (rule queue_new_execute_ok) simp
  have le: "c \<le> counter s \<Longrightarrow> c \<le> counter s + 1" for c :: u64
  proof -
    assume c: "c \<le> counter s"
    have "counter s < - 1" using assms(2) by (simp add: word_order.not_eq_extremum)
    then have "counter s \<le> counter s + 1" by (simp add: word_le_nat_alt word_less_nat_alt
        unat_word_ariths unsigned_minus_1_eq_mask mask_eq_exp_minus_1)
    with c show "c \<le> counter s + 1" by (rule order_trans)
  qed
  have "queue_ok (time_priority_factor (parameters ?s1)) (counter ?s1 + 1) (commands ?s1)"
    using ok assms(2) by (intro queue_ok_wait_start)
      (simp_all add: server_queue_ok_def queue_new_execute_commands)
  then have final: "server_queue_ok s'"
  proof -
    assume q: "queue_ok (time_priority_factor (parameters ?s1)) (counter ?s1 + 1) (commands ?s1)"
    have "\<forall>y \<in> set (queue_items (commands ?s1)). wait_start (snd y) \<le> counter ?s1 + 1"
      using ok le unfolding server_queue_ok_def queue_new_execute_commands(2) by blast
    with q show ?thesis by (simp add: s' server_queue_ok_def parameters_def)
  qed
  with True r show ?thesis
    unfolding s' by (simp add: queue_new_execute_commands queue_insert_mset)
qed

text \<open>
  C15. Queueing a command of a client keeps the queue in order also for the advanced counter,
  stamps the command with the counter before it, adds exactly this command, and refuses
  it, leaving the queue as it is, exactly when the limit is reached.
\<close>

theorem queue_client_command_ok:
  assumes "server_queue_ok s" and "counter s \<noteq> - 1" and "queue_client_command e x s = (r, s')"
  shows "server_queue_ok s' \<and>
    (r = result_success \<longleftrightarrow> commands_waiting s < unat (max_commands (parameters s))) \<and>
    (r = result_success \<longrightarrow> mset (queue_items (commands s')) =
       add_mset (fst x, (snd x)\<lparr>wait_start := counter s\<rparr>) (mset (queue_items (commands s)))) \<and>
    (r \<noteq> result_success \<longrightarrow> commands s' = commands s)"
  using assms by (rule queue_client_command_result)

theorem queue_client_command_ok_witness:
  "mset (queue_items (commands (snd (queue_client_command tiny_env (4, new_transmit 1) (tiny_server [])))))
     = {#(4, (new_transmit 1)\<lparr>wait_start := 1\<rparr>)#}"
proof -
  obtain r s' where q: "queue_client_command tiny_env (4, new_transmit 1) (tiny_server []) = (r, s')"
    by (cases "queue_client_command tiny_env (4, new_transmit 1) (tiny_server [])")
  have ok: "server_queue_ok (tiny_server [])" "counter (tiny_server []) \<noteq> - 1"
    by (simp_all add: server_queue_ok_def tiny_server_def queue_ok_def heap_ok_def)
  have "commands_waiting (tiny_server []) < unat (max_commands (parameters (tiny_server [])))"
    by (simp add: commands_waiting_def number_waiting_def parameters_def tiny_server_def
        initial_settings_def PARAM_ALLOW_SERVER_REQUEUE_def)
  with queue_client_command_ok [OF ok q] show ?thesis
    unfolding q by (simp add: tiny_server_def)
qed

end
