(* ===== verification/Client_List.thy ===== *)
theory Client_List
  imports Service_List Terminal_Control Queue_Access
begin

text \<open>
  The table of clients (\<open>libs/server/client-list.cpp\<close>) with the destructor and \<open>kill_ipc\<close> of a
  \<open>client_id\<close> (\<open>libs/server/local-client.cpp\<close>): starting and attaching clients, registration,
  readiness, counters, removal and search. \<open>execute_command\<close>'s fork and pipes are the
  environment's \<open>processes\<close>; its checks against starting clients as the super-user are kept.
  Signals to processes are not modelled.
\<close>

section \<open>Leaving the server\<close>

definition exit_server :: "server \<Rightarrow> bool \<times> server" where
  "exit_server s = (if exit_status s then (False, s) else (True, s\<lparr>exit_flag := True\<rparr>))"

definition continue_register_notify :: "server \<Rightarrow> server" where
  "continue_register_notify s =
     (if register_process s \<noteq> 0 then s\<lparr>register_process := 0\<rparr> else s)"

definition has_fresh_client :: "server \<Rightarrow> bool" where
  "has_fresh_client s \<longleftrightarrow> (\<exists>c \<in> set (clients s). fresh_client c)"

definition notify_if_ready :: "server \<Rightarrow> server" where
  "notify_if_ready s =
     (if notify_status s \<and> \<not> has_fresh_client s then continue_register_notify s else s)"

section \<open>Destruction of a client\<close>

definition terminate_ipc :: "client_id \<Rightarrow> client_id" where
  "terminate_ipc c = c\<lparr>ipc_closed := True, input_pipe := -1, output_pipe := -1, detached_socket := -1\<rparr>"

definition kill_ipc :: "env \<Rightarrow> bool \<Rightarrow> handle \<Rightarrow> server \<Rightarrow> server" where
  "kill_ipc e tables h s =
     (let s1 = (if tables then snd (remove_handle_services h (snd (clear_client_monitoring h s))) else s)
      in update_client h (\<lambda>c. if attached_client c then terminate_ipc c else c) s1)"

text \<open>\<open>~client_id\<close>, run while the client is still in the table.\<close>

definition destroy_client :: "env \<Rightarrow> client_id \<Rightarrow> server \<Rightarrow> server" where
  "destroy_client e c s =
     (let s1 = (if \<not> fresh_client c then monitor_client_exit (client_address c) (client_name c) s else s);
          s2 = (if process_id c \<ge> 0 then
                  monitor_client_detach (process_id c)
                    (if client_type c \<noteq> type_none
                     then monitor_client_deregister (process_id c) (client_name c) s1 else s1)
                else s1);
          s3 = (if process_id c > 0 then snd (return_terminal_control e (process_id c) s2) else s2)
      in if response_thread c \<and> process_id c \<ge> 0
         then update_client (client_address c) (process_id_update (\<lambda>_. -1))
                (kill_ipc e False (client_address c)
                  (snd (send_server_directive e c directed_terminate s3)))
         else s3)"

definition remove_client_at :: "env \<Rightarrow> nat \<Rightarrow> server \<Rightarrow> server" where
  "remove_client_at e i s =
     (let s1 = destroy_client e (clients s ! i) s in s1\<lparr>clients := remove_at i (clients s1)\<rparr>)"

text \<open>\<open>p_last_element\<close> hands out a copy of the client, which is destroyed as well.\<close>

definition drop_last_client :: "env \<Rightarrow> server \<Rightarrow> server" where
  "drop_last_client e s =
     (let c = last (clients s)
      in monitor_client_detach (process_id c) (remove_client_at e (length (clients s) - 1) s))"

section \<open>New clients\<close>

definition execute_command ::
  "env \<Rightarrow> string list \<Rightarrow> nat \<Rightarrow> nat \<Rightarrow> server \<Rightarrow> (int \<times> int \<times> int) option" where
  "execute_command e cCommand uUid gGid s =
     (if server_uid e = 0 \<and> uUid = 0 then None
      else if server_gid e = 0 \<and> gGid = 0 then None
      else case processes e (attempts s) cCommand uUid gGid of
        None \<Rightarrow> None
      | Some (pid, ip, op) \<Rightarrow> if pid > 0 then Some (pid, ip, op) else None)"

fun group_search :: "(nat \<times> string list) list \<Rightarrow> nat \<Rightarrow> string \<Rightarrow> bool" where
  "group_search [] gGroup n = False"
| "group_search ((g, ms) # gs) gGroup n = (if g \<noteq> gGroup then group_search gs gGroup n else n \<in> set ms)"

definition verify_group_membership :: "env \<Rightarrow> nat \<Rightarrow> nat \<Rightarrow> bool" where
  "verify_group_membership e uUser gGroup =
     (case passwd e uUser of
        None \<Rightarrow> False
      | Some (n, g) \<Rightarrow> g = gGroup \<or> group_search (group_file e) gGroup n)"

definition double_group_verify :: "env \<Rightarrow> nat \<Rightarrow> nat \<Rightarrow> nat \<Rightarrow> nat \<Rightarrow> bool" where
  "double_group_verify e uUserLeft uUserRight gGroupLeft gGroupRight \<longleftrightarrow>
     server_uid e \<noteq> 0 \<or>
     (verify_group_membership e uUserRight gGroupLeft \<and> verify_group_membership e uUserRight gGroupRight)"

definition critical_exit :: "bool \<Rightarrow> server \<Rightarrow> server" where
  "critical_exit cCritical s = (if cCritical then snd (exit_server s) else s)"

definition start_new_client ::
  "env \<Rightarrow> string list \<Rightarrow> nat \<Rightarrow> nat \<Rightarrow> u8 \<Rightarrow> mask16 \<Rightarrow> mask16 \<Rightarrow> bool \<Rightarrow> u32 \<Rightarrow> client_id option
     \<Rightarrow> server \<Rightarrow> int \<times> server" where
  "start_new_client e cCommand uUid gGid pPri pPerm nNew cCritical rReference nNotify s =
     (if (case nNotify of Some n \<Rightarrow> \<not> double_group_verify e (user_id n) uUid (group_id n) gGid | None \<Rightarrow> False)
      then (-1, s)
      else case execute_command e cCommand uUid gGid s of
        None \<Rightarrow> (-1, critical_exit cCritical s)
      | Some (new_process, ip, op) \<Rightarrow>
          let a = new_address e (handles s);
              c = (new_client_id a)\<lparr>process_id := new_process,
                     user_id := (if uUid \<noteq> 0 then uUid else server_uid e),
                     group_id := (if gGid \<noteq> 0 then gGid else server_gid e),
                     min_priority := pPri,
                     max_permissions := pPerm AND NOT type_detached_client,
                     max_new_client := pPerm AND nNew AND security_mask_admin,
                     input_pipe := ip, output_pipe := op, detached_socket := -1,
                     critical := cCritical, notify_reference := rReference,
                     notify_handle := (case nNotify of Some n \<Rightarrow> client_address n | None \<Rightarrow> 0)\<rparr>;
              s1 = s\<lparr>clients := clients s @ [c]\<rparr>
          in if \<not> threads e a
             then (-1, critical_exit cCritical (drop_last_client e s1))
             else (new_process, update_client a (response_thread_update (\<lambda>_. True)) s1))"

definition add_client_partial ::
  "env \<Rightarrow> string list \<Rightarrow> nat \<Rightarrow> nat \<Rightarrow> u8 \<Rightarrow> mask16 \<Rightarrow> mask16 \<Rightarrow> bool \<Rightarrow> u32 \<Rightarrow> handle
     \<Rightarrow> server \<Rightarrow> int \<times> server" where
  "add_client_partial e cCommand uUid gGid pPri pPerm nNew cCritical rReference nNotify s =
     (if nNotify = 0
      then start_new_client e cCommand uUid gGid pPri pPerm nNew cCritical rReference None s
      else case get_client_id nNotify s of
        None \<Rightarrow> (-1, s)
      | Some requester \<Rightarrow>
          let allowed = max_permissions requester OR max_new_client requester
          in start_new_client e cCommand uUid gGid pPri (pPerm AND allowed) (nNew AND allowed)
               cCritical rReference (Some requester) s)"

text \<open>The two ways to give the command; the result of \<open>add_client_partial\<close> is passed on, the
  \<open>-1\<close> of a failure included.\<close>

definition add_system_client ::
  "env \<Rightarrow> string \<Rightarrow> nat \<Rightarrow> nat \<Rightarrow> u8 \<Rightarrow> mask16 \<Rightarrow> mask16 \<Rightarrow> int \<Rightarrow> u32 \<Rightarrow> handle \<Rightarrow> server
     \<Rightarrow> int \<times> server" where
  "add_system_client e cCommand uUid gGid pPri pPerm nNew cCritical rReference nNotify s =
     (case add_client_partial e [execute_program e, ''s'', cCommand] uUid gGid pPri pPerm nNew
             (cCritical \<ge> 0) rReference nNotify s of
        (new_process, s1) \<Rightarrow> if new_process \<noteq> 0 then (new_process, s1) else (-1, s1))"

definition add_exec_client ::
  "env \<Rightarrow> string list \<Rightarrow> nat \<Rightarrow> nat \<Rightarrow> u8 \<Rightarrow> mask16 \<Rightarrow> mask16 \<Rightarrow> int \<Rightarrow> u32 \<Rightarrow> handle \<Rightarrow> server
     \<Rightarrow> int \<times> server" where
  "add_exec_client e cCommand uUid gGid pPri pPerm nNew cCritical rReference nNotify s =
     (if cCommand = [] then (-1, s)
      else case add_client_partial e ([execute_program e, ''e''] @ cCommand) uUid gGid pPri pPerm nNew
             (cCritical \<ge> 0) rReference nNotify s of
        (new_process, s1) \<Rightarrow> if new_process \<noteq> 0 then (new_process, s1) else (-1, s1))"

definition PARAM_DETACHED_SOCKET_CHMOD :: nat where
  "PARAM_DETACHED_SOCKET_CHMOD = 256 + 128 + 2048"

definition connect_detached :: "env \<Rightarrow> string \<Rightarrow> client_id option \<Rightarrow> (int \<times> nat \<times> nat) option" where
  "connect_detached e sSocket rRequestor =
     (if length sSocket < 1 \<or> hd sSocket \<noteq> CHR ''/'' then None
      else case socket_file e sSocket of
        None \<Rightarrow> None
      | Some (uid, gid, mode) \<Rightarrow>
          if (case rRequestor of
                Some r \<Rightarrow> \<not> double_group_verify e (user_id r) uid (group_id r) gid | None \<Rightarrow> False)
          then None
          else if uid = 0 \<or> gid = 0 then None
          else if mode mod 4096 \<noteq> PARAM_DETACHED_SOCKET_CHMOD then None
          else if \<not> effective_ids e uid gid then None
          else if socket_connect e sSocket < 0 then None
          else Some (socket_connect e sSocket, uid, gid))"

definition add_detached_client ::
  "env \<Rightarrow> string \<Rightarrow> u8 \<Rightarrow> mask16 \<Rightarrow> u32 \<Rightarrow> handle \<Rightarrow> server \<Rightarrow> bool \<times> server" where
  "add_detached_client e sSocket pPri pPerm rReference nNotify s =
     (if nNotify \<noteq> 0 \<and> get_client_id nNotify s = None then (False, s)
      else
        let requester = (if nNotify \<noteq> 0 then get_client_id nNotify s else None);
            pPerm1 = (case requester of
                        Some r \<Rightarrow> pPerm AND (max_permissions r OR max_new_client r) | None \<Rightarrow> pPerm);
            pPri1 = (case requester of
                        Some r \<Rightarrow> if min_priority r > pPri then min_priority r else pPri | None \<Rightarrow> pPri)
        in case connect_detached e sSocket requester of
             None \<Rightarrow> (False, s)
           | Some (sock, uid, gid) \<Rightarrow>
               let a = new_address e (handles s);
                   c = (new_client_id a)\<lparr>process_id := 0, user_id := uid, group_id := gid,
                          min_priority := pPri1,
                          max_permissions := (pPerm1 AND security_mask_detached) OR type_detached_client,
                          max_new_client := type_none, detached_socket := sock,
                          notify_reference := rReference, notify_handle := nNotify\<rparr>;
                   s1 = s\<lparr>clients := clients s @ [c]\<rparr>
               in if \<not> threads e a then (False, drop_last_client e s1)
                  else (True, update_client a (response_thread_update (\<lambda>_. True)) s1))"

text \<open>The client's thread attaches the local client before it reads input.\<close>

definition set_local_client :: "handle \<Rightarrow> server \<Rightarrow> server" where
  "set_local_client h = update_client h (\<lambda>c. c\<lparr>attached_client := True, ipc_closed := False\<rparr>)"

section \<open>Registration\<close>

definition registration_notify :: "client_id \<Rightarrow> server \<Rightarrow> client_id option" where
  "registration_notify c s =
     (if notify_handle c \<noteq> 0 \<and> notify_reference c \<noteq> 0 then get_client_id (notify_handle c) s else None)"

definition clear_notify :: "client_id \<Rightarrow> client_id" where
  "clear_notify c = c\<lparr>notify_handle := 0, notify_reference := 0\<rparr>"

text \<open>The permission test; it may take the monitor flag off the requested type.\<close>

definition registration_type :: "client_id \<Rightarrow> mask16 \<Rightarrow> bool \<times> mask16" where
  "registration_type c tType =
     (if check_all (max_permissions c) type_any_client \<and>
         \<not> check_all (max_permissions c) type_monitor_client \<and>
         \<not> check_all type_monitor_client (tType AND type_all_clients)
      then (let t = tType AND NOT type_monitor_client
            in (check_all (max_permissions c) (t AND type_all_clients), t))
      else (check_all (max_permissions c) (tType AND type_all_clients), tType))"

text \<open>Why a registration is refused; the last reasons in the order of the tests.\<close>

datatype refusal = No_Permission | Name_Prohibited | Name_Required | Deregister_Name | Already_Registered

definition registration_refused :: "client_id \<Rightarrow> string \<Rightarrow> bool \<Rightarrow> mask16 \<Rightarrow> refusal option" where
  "registration_refused c nName permission_pass t =
     (if \<not> permission_pass then Some No_Permission
      else if t \<noteq> type_none \<and> nName \<noteq> [] \<and> t AND type_deny_name_mask = type_deny_name
        then Some Name_Prohibited
      else if t \<noteq> type_none \<and> nName = [] \<and> check_any t type_require_name then Some Name_Required
      else if t = type_none \<and> nName \<noteq> [] then Some Deregister_Name
      else if t \<noteq> type_none \<and> client_type c \<noteq> type_none then Some Already_Registered
      else None)"

definition final_type :: "client_id \<Rightarrow> mask16 \<Rightarrow> mask16" where
  "final_type c t =
     (let t1 = (if check_all t type_admin_client \<and> \<not> check_all (max_permissions c) type_server_control
                then t AND NOT type_server_control else t);
          t2 = (if detached_socket c \<ge> 0 \<and> t1 \<noteq> type_none then t1 OR type_detached_client else t1)
      in t2 AND max_permissions c)"

definition set_registered_client_type ::
  "env \<Rightarrow> handle \<Rightarrow> string \<Rightarrow> mask16 \<Rightarrow> bool \<Rightarrow> server \<Rightarrow> bool \<times> mask16 \<times> server" where
  "set_registered_client_type e hHandle nName tType dDisable s =
     (case get_client_id hHandle s of
        None \<Rightarrow> (False, tType, s)
      | Some current_client \<Rightarrow>
          let notify = registration_notify current_client s;
              reference = notify_reference current_client;
              s1 = update_client hHandle clear_notify s
          in case registration_type current_client tType of (pass, t) \<Rightarrow>
             case registration_refused current_client nName pass t of
               Some r \<Rightarrow>
                 (False, t, if r = Deregister_Name then s1
                            else snd (notify_register_attempt e notify reference False s1))
             | None \<Rightarrow>
                 let ty = final_type current_client t;
                     s2 = update_client hHandle (\<lambda>c. c\<lparr>client_type := ty, client_name := nName\<rparr>) s1;
                     s3 = (case get_client_id hHandle s2 of
                             Some c \<Rightarrow> if client_type c \<noteq> type_none then snd (send_timing_table e c s2) else s2
                           | None \<Rightarrow> s2);
                     s4 = (if ty \<noteq> type_none \<and> fresh_client current_client
                           then if dDisable
                                then update_client hHandle (\<lambda>c. c\<lparr>notify_handle :=
                                       (case notify of Some n \<Rightarrow> client_address n | None \<Rightarrow> 0),
                                       notify_reference := reference\<rparr>) s3
                                else snd (notify_register_attempt e notify reference True
                                       (notify_if_ready
                                         (update_client hHandle (fresh_client_update (\<lambda>_. False)) s3)))
                           else s3)
                 in (True, ty,
                     if ty \<noteq> type_none then monitor_client_register (process_id current_client) nName s4
                     else monitor_client_deregister (process_id current_client)
                       (client_name current_client) s4))"

definition manual_update_readiness :: "env \<Rightarrow> handle \<Rightarrow> server \<Rightarrow> bool \<times> server" where
  "manual_update_readiness e hHandle s =
     (case get_client_id hHandle s of
        None \<Rightarrow> (False, s)
      | Some c \<Rightarrow>
          let notify = registration_notify c s;
              s1 = update_client hHandle (\<lambda>c. (clear_notify c)\<lparr>fresh_client := False\<rparr>) s
          in (True, snd (notify_register_attempt e notify (notify_reference c) True (notify_if_ready s1))))"

definition decrement_client_waiting :: "handle \<Rightarrow> server \<Rightarrow> bool \<times> server" where
  "decrement_client_waiting hHandle s =
     (case get_client_id hHandle s of
        None \<Rightarrow> (False, s)
      | Some _ \<Rightarrow> (True, update_client hHandle (\<lambda>c. c\<lparr>total_waiting := total_waiting c - 1\<rparr>) s))"

definition clear_client_waiting :: "handle \<Rightarrow> server \<Rightarrow> bool \<times> server" where
  "clear_client_waiting hHandle s =
     (case get_client_id hHandle s of
        None \<Rightarrow> (False, s)
      | Some _ \<Rightarrow> (True, update_client hHandle (\<lambda>c. c\<lparr>total_waiting := 0\<rparr>) s))"

section \<open>The tables under destruction\<close>

lemma return_terminal_tables [simp]:
  "cores (snd (return_terminal_control e p s)) = cores s"
  "services (snd (return_terminal_control e p s)) = services s"
  "same_queue s (snd (return_terminal_control e p s))"
  using return_terminal_only [of s e p] by (simp_all add: only_terminal_def cores_def same_queue_def)

lemma terminate_core [simp]: "client_core (if b then terminate_ipc c else c) = client_core c"
  by (simp add: terminate_ipc_def client_core_def)

lemma kill_ipc_tables [simp]:
  "cores (kill_ipc e b h s) = cores s"
  "services (kill_ipc e b h s) = (if b then filter (\<lambda>(k, r). k \<noteq> h) (services s) else services s)"
  "same_queue s (kill_ipc e b h s)"
proof -
  show "cores (kill_ipc e b h s) = cores s"
    "services (kill_ipc e b h s) = (if b then filter (\<lambda>(k, r). k \<noteq> h) (services s) else services s)"
    by (simp_all add: kill_ipc_def Let_def frame_simps)
  have "same_queue s (snd (remove_handle_services h (snd (clear_client_monitoring h s))))"
    by (rule same_queue_trans [OF _ remove_handle_tables(3)]) simp
  then show "same_queue s (kill_ipc e b h s)"
    using same_queue_trans update_client_queue by (auto simp: kill_ipc_def Let_def)
qed

lemma same_queue_if: "same_queue s a \<Longrightarrow> same_queue s b \<Longrightarrow> same_queue s (if c then a else b)"
  by simp

lemma process_id_core [simp]: "client_core (c\<lparr>process_id := p\<rparr>) = client_core c"
  by (simp add: client_core_def)

lemma destroy_client_tables [simp]:
  "cores (destroy_client e c s) = cores s"
  "services (destroy_client e c s) = services s"
  "same_queue s (destroy_client e c s)"
proof -
  show "cores (destroy_client e c s) = cores s" "services (destroy_client e c s) = services s"
    by (simp_all add: destroy_client_def Let_def frame_simps)
  let ?s1 = "if \<not> fresh_client c then monitor_client_exit (client_address c) (client_name c) s else s"
  let ?s2 = "if process_id c \<ge> 0 then
                  monitor_client_detach (process_id c)
                    (if client_type c \<noteq> type_none
                     then monitor_client_deregister (process_id c) (client_name c) ?s1 else ?s1)
                else ?s1"
  let ?s3 = "if process_id c > 0 then snd (return_terminal_control e (process_id c) ?s2) else ?s2"
  have q1: "same_queue s ?s1" by simp
  have q2: "same_queue ?s1 ?s2"
  proof -
    have "same_queue ?s1 (if client_type c \<noteq> type_none
        then monitor_client_deregister (process_id c) (client_name c) ?s1 else ?s1)" by simp
    then show ?thesis by (simp add: same_queue_def monitor_message_defs add_single_update_def)
  qed
  have q3: "same_queue ?s2 ?s3" by simp
  have last: "same_queue ?s3 (update_client (client_address c) (process_id_update (\<lambda>_. -1))
                (kill_ipc e False (client_address c)
                  (snd (send_server_directive e c directed_terminate ?s3))))"
    by (rule same_queue_trans [OF _ update_client_queue], rule same_queue_trans [OF _ kill_ipc_tables(3)])
      simp
  note q123 = same_queue_trans [OF same_queue_trans [OF q1 q2] q3]
  show "same_queue s (destroy_client e c s)"
    unfolding destroy_client_def Let_def
    by (rule same_queue_if [OF same_queue_trans [OF q123 last] q123])
qed

lemma clients_update_tables [simp]:
  "services (s\<lparr>clients := cs\<rparr>) = services s" "cores (s\<lparr>clients := cs\<rparr>) = map client_core cs"
  "same_queue t (s\<lparr>clients := cs\<rparr>) = same_queue t s"
  by (simp_all add: cores_def same_queue_def)

lemma remove_client_at_tables [simp]:
  "cores (remove_client_at e i s) = remove_at i (cores s)"
  "services (remove_client_at e i s) = services s"
  "same_queue s (remove_client_at e i s)"
  by (simp_all add: remove_client_at_def Let_def map_remove_at flip: cores_def)

lemma exit_server_tables [simp]:
  "cores (snd (exit_server s)) = cores s" "services (snd (exit_server s)) = services s"
  "same_queue s (snd (exit_server s))" "clients (snd (exit_server s)) = clients s"
  by (simp_all add: exit_server_def cores_def same_queue_def)

lemma critical_exit_tables [simp]:
  "cores (critical_exit b s) = cores s" "services (critical_exit b s) = services s"
  "same_queue s (critical_exit b s)"
  by (simp_all add: critical_exit_def)

lemma clear_notify_core [simp]: "client_core (clear_notify c) = client_core c"
  by (simp add: clear_notify_def client_core_def)

section \<open>Removal\<close>

text \<open>\<open>mMode\<close> true cuts the client off; a critical client stops the server and stays.\<close>

definition remove_client_common ::
  "env \<Rightarrow> handle \<Rightarrow> u32 \<Rightarrow> nat \<Rightarrow> bool \<Rightarrow> server \<Rightarrow> bool \<times> server" where
  "remove_client_common e nNotify rReference pPosition mMode s =
     (let c = clients s ! pPosition;
          h = client_address c;
          notify = (if nNotify \<noteq> 0 \<and> rReference \<noteq> 0 then get_client_id nNotify s else None);
          s1 = s\<lparr>clients := update_at pPosition clear_notify (clients s)\<rparr>;
          s2 = snd (notify_register_attempt e notify rReference False s1);
          s3 = (if mMode then snd (return_terminal_control e (process_id c) (kill_ipc e True h s2))
                else snd (remove_handle_services h (snd (clear_client_monitoring h s2))))
      in if critical c then (False, snd (exit_server s3))
         else (True, remove_client_at e pPosition s3))"

lemma update_at_cores [simp]:
  "(\<And>c. client_core (f c) = client_core c) \<Longrightarrow> map client_core (update_at i f cs) = map client_core cs"
  by (rule map_update_at)

lemma remove_client_common_tables:
  assumes "remove_client_common e nn rr i mMode s = (ok, s')"
  shows "ok = (\<not> critical (clients s ! i))"
    and "cores s' = (if ok then remove_at i (cores s) else cores s)"
    and "services s' = filter (\<lambda>(k, r). k \<noteq> client_address (clients s ! i)) (services s)"
    and "same_queue s s'"
proof -
  let ?c = "clients s ! i"
  let ?h = "client_address ?c"
  let ?s1 = "s\<lparr>clients := update_at i clear_notify (clients s)\<rparr>"
  let ?n = "if nn \<noteq> 0 \<and> rr \<noteq> 0 then get_client_id nn s else None"
  let ?s2 = "snd (notify_register_attempt e ?n rr False ?s1)"
  let ?s3 = "if mMode then snd (return_terminal_control e (process_id ?c) (kill_ipc e True ?h ?s2))
             else snd (remove_handle_services ?h (snd (clear_client_monitoring ?h ?s2)))"
  have r: "(ok, s') = (if critical ?c then (False, snd (exit_server ?s3)) else (True, remove_client_at e i ?s3))"
    using assms unfolding remove_client_common_def Let_def by (rule sym)
  have "cores ?s1 = map client_core (clients s)" by simp
  then have "cores ?s1 = cores s" by (simp only: cores_def)
  then have c2: "cores ?s2 = cores s" "services ?s2 = services s"
    by (simp_all only: message_tables clients_update_tables(1))
  have c3: "cores ?s3 = cores s" "services ?s3 = filter (\<lambda>(k, r). k \<noteq> ?h) (services s)"
  proof -
    have "cores (if mMode then snd (return_terminal_control e p (kill_ipc e True h t))
        else snd (remove_handle_services h (snd (clear_client_monitoring h t)))) = cores t" for p h t
      by simp
    then show "cores ?s3 = cores s" unfolding c2(1) [symmetric] .
    have "services (if mMode then snd (return_terminal_control e p (kill_ipc e True h t))
        else snd (remove_handle_services h (snd (clear_client_monitoring h t))))
      = filter (\<lambda>(k, r). k \<noteq> h) (services t)" for p h t
      by simp
    then show "services ?s3 = filter (\<lambda>(k, r). k \<noteq> ?h) (services s)" unfolding c2(2) [symmetric] .
  qed
  have "same_queue ?s2 (snd (return_terminal_control e (process_id ?c) (kill_ipc e True ?h ?s2)))"
    by (rule same_queue_trans [OF kill_ipc_tables(3) return_terminal_tables(3)])
  moreover have "same_queue ?s2 (snd (remove_handle_services ?h (snd (clear_client_monitoring ?h ?s2))))"
    by (rule same_queue_trans [OF _ remove_handle_tables(3)]) simp
  ultimately have "same_queue ?s2 ?s3" by simp
  moreover have "same_queue s ?s2" by (rule same_queue_trans [of _ ?s1]) simp_all
  ultimately have q: "same_queue s ?s3" by (rule same_queue_trans [rotated])
  show "ok = (\<not> critical ?c)" using r by (simp split: if_splits)
  show "cores s' = (if ok then remove_at i (cores s) else cores s)"
    "services s' = filter (\<lambda>(k, r). k \<noteq> ?h) (services s)"
    using r c3 by (auto split: if_splits)
  show "same_queue s s'"
    using r same_queue_trans [OF q exit_server_tables(3)]
      same_queue_trans [OF q remove_client_at_tables(3)] by (auto split: if_splits)
qed

text \<open>The loop of the three removal routines: the clients that satisfy a predicate, one after the
  other, up to a critical one.\<close>

function remove_clients :: "env \<Rightarrow> (client_id \<Rightarrow> bool) \<Rightarrow> bool \<Rightarrow> server \<Rightarrow> server" where
  "remove_clients e P mMode s =
     (case find_index P (clients s) of
        None \<Rightarrow> s
      | Some position \<Rightarrow>
          (case remove_client_common e (notify_handle (clients s ! position))
                  (notify_reference (clients s ! position)) position mMode s of (ok, s1) \<Rightarrow>
             if \<not> ok then s1 else remove_clients e P mMode s1))"
  by auto

termination
proof (relation "measure (\<lambda>(e, P, mMode, s). length (clients s))")
  fix e P mMode s position ok s1
  assume f: "find_index P (clients s) = Some position"
    and r: "(ok, s1) = remove_client_common e (notify_handle (clients s ! position))
                  (notify_reference (clients s ! position)) position mMode s" and ok: "\<not> \<not> ok"
  have "cores s1 = remove_at position (cores s)"
    using remove_client_common_tables(2) [OF r [symmetric]] ok by simp
  moreover have "position < length (cores s)"
    using find_index_SomeD(1) [OF f] by (simp add: length_cores)
  ultimately have "length (clients s1) < length (clients s)"
    by (simp add: length_cores length_remove_at_less)
  then show "((e, P, mMode, s1), e, P, mMode, s) \<in> measure (\<lambda>(e, P, mMode, s). length (clients s))"
    by simp
qed simp

declare remove_clients.simps [simp del]

text \<open>What all three do afterwards.\<close>

definition after_removal :: "server \<Rightarrow> server" where
  "after_removal s =
     (let s1 = notify_if_ready s in if clients s1 = [] then snd (exit_server s1) else s1)"

definition terminate_running_client :: "env \<Rightarrow> handle \<Rightarrow> bool \<Rightarrow> server \<Rightarrow> bool \<times> server" where
  "terminate_running_client e cClient mMode s =
     (True, after_removal (remove_clients e (\<lambda>c. client_address c = cClient) mMode s))"

definition find_client_pid :: "int \<Rightarrow> client_id \<Rightarrow> bool" where
  "find_client_pid pPid c \<longleftrightarrow> pPid \<noteq> 0 \<and> process_id c = pPid"

definition remove_client_pid :: "env \<Rightarrow> int \<Rightarrow> bool \<Rightarrow> server \<Rightarrow> bool \<times> server" where
  "remove_client_pid e cClient mMode s =
     (if find_index (find_client_pid cClient) (clients s) = None then (False, s)
      else (True, after_removal (remove_clients e (find_client_pid cClient) mMode s)))"

definition client_finder :: "env \<Rightarrow> string \<Rightarrow> mask16 \<Rightarrow> mask16 \<Rightarrow> client_id \<Rightarrow> bool" where
  "client_finder e nName iInclude eExclude c \<longleftrightarrow>
     check_all (client_type c) iInclude \<and> check_none (client_type c) eExclude \<and>
     expression e nName (client_name c)"

definition remove_client_expression :: "env \<Rightarrow> int \<Rightarrow> string \<Rightarrow> bool \<Rightarrow> server \<Rightarrow> bool \<times> server" where
  "remove_client_expression e cClient nName mMode s =
     (if (case find_index (find_client_pid cClient) (clients s) of
            Some i \<Rightarrow> client_finder e nName 0 0 (clients s ! i) | None \<Rightarrow> False)
      then (False, s)
      else (True, after_removal (remove_clients e (client_finder e nName 0 0) mMode s)))"

definition find_clients :: "env \<Rightarrow> string \<Rightarrow> mask16 \<Rightarrow> mask16 \<Rightarrow> bool \<Rightarrow> bool \<Rightarrow> server \<Rightarrow> string list" where
  "find_clients e nName iInclude eExclude tTypes cControl s =
     map (\<lambda>c. if tTypes
              then (if cControl \<and> tTypes then logging_name c else client_name c) @ standard_delimiter @
                convert_integer16 (ucast (client_type c)) @ standard_delimiter @
                convert_integer10 (process_id c)
              else client_name c)
       (filter (client_finder e nName iInclude eExclude) (clients s))"

text \<open>The whole table at once, at the end of the server.\<close>

fun disconnect_each :: "env \<Rightarrow> handle list \<Rightarrow> server \<Rightarrow> server" where
  "disconnect_each e [] s = s"
| "disconnect_each e (h # hs) s =
     disconnect_each e hs
       (case get_client_id h s of
          None \<Rightarrow> s
        | Some c \<Rightarrow>
            if process_id c \<ge> 0
            then snd (return_terminal_control e (process_id c)
                   (kill_ipc e True h (snd (send_server_directive e c directed_disconnect s))))
            else s)"

fun reset_clients :: "env \<Rightarrow> nat \<Rightarrow> server \<Rightarrow> server" where
  "reset_clients e 0 s = s"
| "reset_clients e (Suc n) s = reset_clients e n (remove_client_at e n s)"

definition disconnect_all_clients :: "env \<Rightarrow> server \<Rightarrow> bool \<times> server" where
  "disconnect_all_clients e s =
     (let s1 = disconnect_each e (handles s) (continue_register_notify s);
          s2 = reset_clients e (length (clients s1)) s1
      in (True, s2\<lparr>exit_flag := True\<rparr>))"

definition abort_all_clients :: "env \<Rightarrow> server \<Rightarrow> bool \<times> server" where
  "abort_all_clients e s =
     (let s1 = continue_register_notify s;
          s2 = s1\<lparr>clients := map (\<lambda>c. if process_id c \<ge> 0 then c\<lparr>process_id := -1\<rparr> else c) (clients s1)\<rparr>
      in (True, reset_clients e (length (clients s2)) s2))"

end
