(* ===== verification/Client_Tables.thy ===== *)
theory Client_Tables
  imports Client_List
begin

text \<open>
  What the operations on the client table keep: the consistency of the tables
  (\<open>server_ok\<close>), and what a new client is allowed. The locale \<open>table_step\<close> is the contract the
  callers of these operations rely on.
\<close>

section \<open>New clients\<close>

lemma remove_at_snoc: "remove_at (length xs) (xs @ [x]) = xs"
  by (simp add: remove_at_def)

lemma response_thread_core [simp]: "client_core (c\<lparr>response_thread := b\<rparr>) = client_core c"
  by (simp add: client_core_def)

lemma monitor_client_detach_tables [simp]:
  "cores (monitor_client_detach p s) = cores s" "services (monitor_client_detach p s) = services s"
  "same_queue t (monitor_client_detach p s) = same_queue t s"
  by (simp_all add: monitor_message_defs add_single_update_def cores_def same_queue_def)

lemma drop_last_tables:
  "clients s = cs @ [c] \<Longrightarrow> cores (drop_last_client e s) = map client_core cs"
  "services (drop_last_client e s) = services s"
  "same_queue s (drop_last_client e s)"
proof -
  assume cs: "clients s = cs @ [c]"
  then have "cores s = map client_core cs @ [client_core c]" by (simp add: cores_def)
  with cs remove_at_snoc [of "map client_core cs" "client_core c"]
  show "cores (drop_last_client e s) = map client_core cs"
    by (simp add: drop_last_client_def Let_def)
qed (simp_all add: drop_last_client_def Let_def)

definition new_core :: "handle \<Rightarrow> mask16 \<Rightarrow> mask16 \<Rightarrow> client_core" where
  "new_core a p m = (a, [], 0, p, m)"

lemma start_new_client_tables:
  assumes "start_new_client e cmd u g pri p n crit ref nt s = (pid, s')"
  shows "services s' = services s" and "same_queue s s'"
    and "pid = -1 \<and> cores s' = cores s \<or>
      0 < pid \<and> cores s' = cores s @ [new_core (new_address e (handles s))
         (p AND NOT type_detached_client) (p AND n AND security_mask_admin)]"
proof -
  let ?bad = "case nt of Some n \<Rightarrow> \<not> double_group_verify e (user_id n) u (group_id n) g | None \<Rightarrow> False"
  have "services s' = services s \<and> same_queue s s' \<and> (pid = -1 \<and> cores s' = cores s \<or>
      0 < pid \<and> cores s' = cores s @ [new_core (new_address e (handles s))
         (p AND NOT type_detached_client) (p AND n AND security_mask_admin)])"
  proof (cases "?bad \<or> execute_command e cmd u g s = None")
    case True
    with assms show ?thesis by (auto simp: start_new_client_def split: if_splits)
  next
    case False
    then obtain np ip op where x: "execute_command e cmd u g s = Some (np, ip, op)" by auto
    then have np: "0 < np" by (auto simp: execute_command_def split: if_splits option.splits prod.splits)
    let ?a = "new_address e (handles s)"
    let ?c = "(new_client_id ?a)\<lparr>process_id := np,
                     user_id := (if u \<noteq> 0 then u else server_uid e),
                     group_id := (if g \<noteq> 0 then g else server_gid e), min_priority := pri,
                     max_permissions := p AND NOT type_detached_client,
                     max_new_client := p AND n AND security_mask_admin,
                     input_pipe := ip, output_pipe := op, detached_socket := -1,
                     critical := crit, notify_reference := ref,
                     notify_handle := (case nt of Some n \<Rightarrow> client_address n | None \<Rightarrow> 0)\<rparr>"
    let ?s1 = "s\<lparr>clients := clients s @ [?c]\<rparr>"
    have core: "client_core ?c = new_core ?a (p AND NOT type_detached_client) (p AND n AND security_mask_admin)"
      by (simp add: client_core_def new_core_def new_client_id_def)
    have s1: "cores ?s1 = cores s @ [client_core ?c]" "services ?s1 = services s" "same_queue s ?s1"
      by (simp_all add: cores_def same_queue_def)
    have d: "cores (drop_last_client e ?s1) = cores s" "same_queue s (drop_last_client e ?s1)"
      using drop_last_tables(1) [of ?s1 "clients s" ?c e]
        same_queue_trans [OF s1(3) drop_last_tables(3)] by (simp_all add: cores_def)
    have r: "(pid, s') = (if \<not> threads e ?a then (-1, critical_exit crit (drop_last_client e ?s1))
        else (np, update_client ?a (response_thread_update (\<lambda>_. True)) ?s1))"
      using assms x False unfolding start_new_client_def Let_def by (simp split: if_splits)
    show ?thesis
    proof (cases "threads e ?a")
      case True
      with r np core s1 same_queue_trans [OF s1(3) update_client_queue] show ?thesis
        by (simp add: frame_simps del: clients_update_tables)
    next
      case False
      with r d same_queue_trans [OF d(2) critical_exit_tables(3)] show ?thesis
        by (simp add: drop_last_tables(2))
    qed
  qed
  then show "services s' = services s" and "same_queue s s'"
    and "pid = -1 \<and> cores s' = cores s \<or>
      0 < pid \<and> cores s' = cores s @ [new_core (new_address e (handles s))
         (p AND NOT type_detached_client) (p AND n AND security_mask_admin)]"
    by blast+
qed

text \<open>How the tables may change when a client is asked for: not at all, or by one new client
  with given upper bounds of its permissions.\<close>

definition grows :: "env \<Rightarrow> mask16 \<Rightarrow> mask16 \<Rightarrow> server \<Rightarrow> server \<Rightarrow> bool" where
  "grows e p m s s' \<longleftrightarrow> services s' = services s \<and> same_queue s s' \<and>
     (cores s' = cores s \<or> (\<exists>p' m'. cores s' = cores s @ [new_core (new_address e (handles s)) p' m'] \<and>
        p' AND NOT p = 0 \<and> m' AND NOT m = 0 \<and> m' AND NOT p = 0))"

lemma mask_sub: "(a AND b) AND NOT a = (0::'a::len word)" "(b AND a) AND NOT a = (0::'a::len word)"
  by (simp_all add: bit_eq_iff bit_simps)

lemma mask_sub3: "(a AND b AND c) AND NOT b = (0::'a::len word)" "(a AND b AND c) AND NOT a = (0::'a::len word)"
  by (simp_all add: bit_eq_iff bit_simps)

lemma mask_sub_trans: "a AND NOT b = (0::'a::len word) \<Longrightarrow> b AND NOT c = 0 \<Longrightarrow> a AND NOT c = 0"
  by (auto simp: bit_eq_iff bit_simps)

lemma start_new_client_grows:
  "start_new_client e cmd u g pri p n crit ref nt s = (pid, s') \<Longrightarrow> grows e p n s s'"
  using start_new_client_tables [of e cmd u g pri p n crit ref nt s pid s']
  unfolding grows_def using mask_sub(1) [of p "NOT type_detached_client"]
    mask_sub3 [of p n security_mask_admin] by metis

lemma grows_mono:
  "grows e p m s s' \<Longrightarrow> p AND NOT q = 0 \<Longrightarrow> m AND NOT r = 0 \<Longrightarrow> grows e q r s s'"
  unfolding grows_def by (meson mask_sub_trans)

lemma grows_same: "services s' = services s \<Longrightarrow> same_queue s s' \<Longrightarrow> cores s' = cores s \<Longrightarrow> grows e p m s s'"
  by (simp add: grows_def)

lemma add_client_partial_grows:
  assumes "add_client_partial e cmd u g pri p n crit ref h s = (pid, s')"
  shows "grows e p n s s'"
proof (cases "h = 0")
  case True
  with assms show ?thesis
    by (simp add: add_client_partial_def start_new_client_grows)
next
  case False
  show ?thesis
  proof (cases "get_client_id h s")
    case None
    with False assms show ?thesis by (simp add: add_client_partial_def grows_same)
  next
    case (Some r)
    let ?a = "max_permissions r OR max_new_client r"
    have "start_new_client e cmd u g pri (p AND ?a) (n AND ?a) crit ref (Some r) s = (pid, s')"
      using assms False Some by (simp add: add_client_partial_def Let_def)
    from grows_mono [OF start_new_client_grows [OF this]] show ?thesis by (simp add: mask_sub)
  qed
qed

lemma add_system_client_grows:
  "add_system_client e c u g pri p n crit ref h s = (pid, s') \<Longrightarrow> grows e p n s s'"
  using add_client_partial_grows
  by (fastforce simp: add_system_client_def split: prod.splits if_splits)

lemma add_exec_client_grows:
  "add_exec_client e c u g pri p n crit ref h s = (pid, s') \<Longrightarrow> grows e p n s s'"
  using add_client_partial_grows
  by (fastforce simp: add_exec_client_def grows_same split: prod.splits if_splits)

lemma grows_ok:
  assumes "env_ok e" and "server_ok s" and "grows e p m s s'"
  shows "server_ok s'"
proof -
  have "new_address e (handles s) \<notin> set (handles s)" "new_address e (handles s) \<noteq> 0"
    using assms(1) unfolding env_ok_def by blast+
  moreover have "set (handles s) = fst ` set (cores s)" by (simp add: handles_cores)
  ultimately have "new_address e (handles s) \<notin> fst ` set (cores s)" "new_address e (handles s) \<noteq> 0"
    by simp_all
  with assms tables_ok_add_client show ?thesis
    by (auto simp: grows_def server_ok_def new_core_def)
qed

section \<open>Registration\<close>

lemma find_by_handle_cores: "find_by_handle h (clients s) = find_index (\<lambda>k. fst k = h) (cores s)"
proof -
  have "find_index (\<lambda>k. fst k = h) (map client_core cs) = find_by_handle h cs" for cs
    by (induction cs) (simp_all add: find_by_handle_def client_core_def)
  then show ?thesis by (simp add: cores_def)
qed

lemma get_client_index:
  assumes "get_client_id h s = Some c"
  obtains i where "find_by_handle h (clients s) = Some i" and "i < length (clients s)"
    and "clients s ! i = c" and "client_address c = h"
proof -
  from assms obtain i where i: "find_by_handle h (clients s) = Some i" "clients s ! i = c"
    by (auto simp: get_client_id_def)
  from find_index_SomeD(1) [OF i(1) [unfolded find_by_handle_def]] have "i < length (clients s)" .
  with i get_client_SomeD [OF assms] that show ?thesis by blast
qed

lemma update_client_set:
  "find_by_handle h (clients s) = Some i \<Longrightarrow>
    cores (update_client h f s) = (cores s)[i := client_core (f (clients s ! i))]"
proof -
  assume a: "find_by_handle h (clients s) = Some i"
  then have i: "i < length (clients s)"
    using find_index_SomeD(1) [of _ "clients s" i] by (simp add: find_by_handle_def)
  have "map g (update_at i f xs) = (map g xs)[i := g (f (xs ! i))]" if "i < length xs" for g :: "client_id \<Rightarrow> client_core" and xs
    using that by (simp add: update_at_def map_update)
  with a i show ?thesis by (simp add: update_client_def cores_def)
qed

lemma notify_if_ready_tables [simp]:
  "cores (notify_if_ready s) = cores s" "services (notify_if_ready s) = services s"
  "same_queue s (notify_if_ready s)" "clients (notify_if_ready s) = clients s"
  by (simp_all add: notify_if_ready_def continue_register_notify_def cores_def same_queue_def)

lemma fresh_core [simp]: "client_core (c\<lparr>fresh_client := b\<rparr>) = client_core c"
  "client_core (c\<lparr>notify_handle := h, notify_reference := r\<rparr>) = client_core c"
  by (simp_all add: client_core_def)

lemma final_type_within: "final_type c t AND NOT (max_permissions c) = 0"
  by (simp add: final_type_def Let_def mask_sub)

text \<open>The tables after a registration: nothing but the client's type and name changes.\<close>

lemma set_registered_tables:
  assumes "set_registered_client_type e h n t d s = (ok, ty, s')"
  shows "services s' = services s" and "same_queue s s'" and "\<not> ok \<Longrightarrow> cores s' = cores s"
    and "ok \<Longrightarrow> \<exists>i c. find_by_handle h (clients s) = Some i \<and> i < length (clients s) \<and>
      get_client_id h s = Some c \<and> clients s ! i = c \<and> client_address c = h \<and>
      cores s' = (cores s)[i := (h, n, ty, max_permissions c, max_new_client c)] \<and>
      ty AND NOT (max_permissions c) = 0"
proof -
  have "services s' = services s \<and> same_queue s s' \<and> (\<not> ok \<longrightarrow> cores s' = cores s) \<and>
    (ok \<longrightarrow> (\<exists>i c. find_by_handle h (clients s) = Some i \<and> i < length (clients s) \<and>
      get_client_id h s = Some c \<and> clients s ! i = c \<and> client_address c = h \<and>
      cores s' = (cores s)[i := (h, n, ty, max_permissions c, max_new_client c)] \<and>
      ty AND NOT (max_permissions c) = 0))"
  proof (cases "get_client_id h s")
    case None
    with assms show ?thesis by (simp add: set_registered_client_type_def)
  next
    case (Some c)
    obtain i where i: "find_by_handle h (clients s) = Some i" "i < length (clients s)"
      "clients s ! i = c" "client_address c = h"
      using get_client_index [OF Some] .
    obtain pass t1 where p: "registration_type c t = (pass, t1)" by (cases "registration_type c t")
    let ?s1 = "update_client h clear_notify s"
    have s1: "cores ?s1 = cores s" "services ?s1 = services s" "same_queue s ?s1"
      by (simp_all add: frame_simps)
    show ?thesis
    proof (cases "registration_refused c n pass t1")
      case (Some r)
      let ?x = "snd (notify_register_attempt e (registration_notify c s) (notify_reference c) False ?s1)"
      have "s' = (if r = Deregister_Name then ?s1 else ?x)" "\<not> ok"
        using assms \<open>get_client_id h s = Some c\<close> p Some
        by (simp_all add: set_registered_client_type_def Let_def)
      moreover have "same_queue s ?x" by (rule same_queue_trans [OF s1(3)]) simp
      ultimately show ?thesis using s1 by simp
    next
      case None
      let ?ty = "final_type c t1"
      let ?f = "\<lambda>c. c\<lparr>client_type := ?ty, client_name := n\<rparr>"
      let ?s2 = "update_client h ?f ?s1"
      let ?s3 = "case get_client_id h ?s2 of
                   Some c \<Rightarrow> if client_type c \<noteq> type_none then snd (send_timing_table e c ?s2) else ?s2
                 | None \<Rightarrow> ?s2"
      let ?r = "update_client h (fresh_client_update (\<lambda>_. False)) ?s3"
      let ?s4 = "if ?ty \<noteq> type_none \<and> fresh_client c
                 then if d
                      then update_client h (\<lambda>x. x\<lparr>notify_handle :=
                             (case registration_notify c s of Some n \<Rightarrow> client_address n | None \<Rightarrow> 0),
                             notify_reference := notify_reference c\<rparr>) ?s3
                      else snd (notify_register_attempt e (registration_notify c s) (notify_reference c)
                             True (notify_if_ready ?r))
                 else ?s3"
      have "(ok, ty, s') = (True, ?ty, if ?ty \<noteq> type_none then monitor_client_register (process_id c) n ?s4
          else monitor_client_deregister (process_id c) (client_name c) ?s4)"
        using assms unfolding set_registered_client_type_def Let_def
        by (simp only: \<open>get_client_id h s = Some c\<close> option.case p prod.case None)
      then have res: "ok" "ty = ?ty" "s' = (if ?ty \<noteq> type_none then monitor_client_register (process_id c) n ?s4
          else monitor_client_deregister (process_id c) (client_name c) ?s4)"
        by (simp_all only: prod.inject)
      have i1: "find_by_handle h (clients ?s1) = Some i"
        using i(1) by (simp add: find_by_handle_cores s1)
      have "clients ?s1 ! i = clear_notify c"
        using i by (simp add: update_client_def nth_update_at)
      then have c2: "cores ?s2 = (cores s)[i := (h, n, ?ty, max_permissions c, max_new_client c)]"
        using i(4) by (simp add: update_client_set [OF i1] s1 client_core_def clear_notify_def)
      have v2: "services ?s2 = services s" "same_queue s ?s2"
        using same_queue_trans [OF s1(3) update_client_queue] by (simp_all add: frame_simps)
      have t3: "cores ?s3 = cores ?s2 \<and> services ?s3 = services ?s2 \<and> same_queue ?s2 ?s3"
        by (simp split: option.split)
      have q4: "cores ?s4 = cores ?s3 \<and> services ?s4 = services ?s3"
        by (simp add: frame_simps)
      have "same_queue ?s3 (snd (notify_register_attempt e (registration_notify c s) (notify_reference c)
              True (notify_if_ready ?r)))"
        by (rule same_queue_trans [of _ ?r], simp, rule same_queue_trans [of _ "notify_if_ready ?r"])
          simp_all
      then have "same_queue ?s3 ?s4" by simp
      then have "same_queue s ?s4" using same_queue_trans [OF v2(2)] t3 same_queue_trans by blast
      moreover have "same_queue ?s4 s'" using res(3) by simp
      ultimately have "same_queue s s'" by (rule same_queue_trans)
      moreover have "cores s' = cores ?s4" "services s' = services ?s4" using res(3) by simp_all
      ultimately show ?thesis
        using i \<open>get_client_id h s = Some c\<close> c2 v2 t3 q4 res(1,2) final_type_within by auto
    qed
  qed
  then show "services s' = services s" and "same_queue s s'" and "\<not> ok \<Longrightarrow> cores s' = cores s"
    and "ok \<Longrightarrow> \<exists>i c. find_by_handle h (clients s) = Some i \<and> i < length (clients s) \<and>
      get_client_id h s = Some c \<and> clients s ! i = c \<and> client_address c = h \<and>
      cores s' = (cores s)[i := (h, n, ty, max_permissions c, max_new_client c)] \<and>
      ty AND NOT (max_permissions c) = 0"
    by blast+
qed

section \<open>Counters and readiness\<close>

lemma counters_core [simp]:
  "client_core (c\<lparr>total_waiting := v\<rparr>) = client_core c"
  "client_core (c\<lparr>total_errors := v\<rparr>) = client_core c"
  "client_core (c\<lparr>total_invalid := v\<rparr>) = client_core c"
  "client_core (c\<lparr>max_command_logged := b\<rparr>) = client_core c"
  "client_core (c\<lparr>attached_client := b, ipc_closed := b'\<rparr>) = client_core c"
  by (simp_all add: client_core_def)

lemma decrement_waiting_tables [simp]:
  "cores (snd (decrement_client_waiting h s)) = cores s"
  "services (snd (decrement_client_waiting h s)) = services s"
  "same_queue s (snd (decrement_client_waiting h s))"
  by (simp_all add: decrement_client_waiting_def frame_simps split: option.split)

lemma manual_readiness_tables [simp]:
  "cores (snd (manual_update_readiness e h s)) = cores s"
  "services (snd (manual_update_readiness e h s)) = services s"
  "same_queue s (snd (manual_update_readiness e h s))"
proof -
  have c: "client_core ((clear_notify c)\<lparr>fresh_client := False\<rparr>) = client_core c" for c by simp
  show "cores (snd (manual_update_readiness e h s)) = cores s"
    "services (snd (manual_update_readiness e h s)) = services s"
    using c by (simp_all add: manual_update_readiness_def Let_def frame_simps split: option.split)
  have "same_queue s (snd (notify_register_attempt e nt r b (notify_if_ready (update_client h f s))))"
    for nt r b f
  proof -
    let ?r = "notify_if_ready (update_client h f s)"
    have "same_queue s ?r" by (rule same_queue_trans [OF update_client_queue notify_if_ready_tables(3)])
    then show ?thesis by (rule same_queue_trans) simp
  qed
  then show "same_queue s (snd (manual_update_readiness e h s))"
    by (simp add: manual_update_readiness_def Let_def split: option.split)
qed

section \<open>Removal\<close>

lemma remove_common_ok:
  assumes "server_ok s" and "i < length (clients s)"
    and "remove_client_common e nn rr i m s = (ok, s')"
  shows "server_ok s'"
proof -
  note t = remove_client_common_tables [OF assms(3)]
  have a: "fst (cores s ! i) = client_address (clients s ! i)"
    using assms(2) by (simp add: cores_def client_core_def)
  have ok1: "tables_ok (cores s) (services s')"
    using assms(1) tables_ok_filter by (simp add: server_ok_def t(3))
  have "\<forall>x \<in> set (services s'). fst x \<noteq> fst (cores s ! i)" by (auto simp: t(3) a)
  with ok1 assms(2) have "tables_ok (remove_at i (cores s)) (services s')"
    by (intro tables_ok_remove) (simp_all add: length_cores)
  with ok1 t(2) show ?thesis by (simp add: server_ok_def)
qed

lemma remove_clients_step:
  "find_index P (clients s) = None \<Longrightarrow> remove_clients e P m s = s"
  "find_index P (clients s) = Some i \<Longrightarrow>
    remove_client_common e (notify_handle (clients s ! i)) (notify_reference (clients s ! i)) i m s = (ok, s1) \<Longrightarrow>
    remove_clients e P m s = (if ok then remove_clients e P m s1 else s1)"
  by (subst remove_clients.simps, simp only: option.case prod.case)
    (subst remove_clients.simps, simp only: option.case prod.case if_not_P, simp)

lemma remove_clients_ok:
  "server_ok s \<Longrightarrow> server_ok (remove_clients e P m s) \<and> same_queue s (remove_clients e P m s)"
proof (induction e P m s rule: remove_clients.induct)
  case (1 e P m s)
  show ?case
  proof (cases "find_index P (clients s)")
    case None
    from remove_clients_step(1) [OF None] 1 show ?thesis by simp
  next
    case (Some i)
    obtain ok s1 where r: "remove_client_common e (notify_handle (clients s ! i))
        (notify_reference (clients s ! i)) i m s = (ok, s1)"
      by (cases "remove_client_common e (notify_handle (clients s ! i))
        (notify_reference (clients s ! i)) i m s")
    have i: "i < length (clients s)" using find_index_SomeD(1) [OF Some] .
    have ok1: "server_ok s1" using remove_common_ok [OF 1(2) i r] .
    have q1: "same_queue s s1" using remove_client_common_tables(4) [OF r] .
    show ?thesis
    proof (cases ok)
      case False
      with ok1 q1 remove_clients_step(2) [OF Some r] show ?thesis by simp
    next
      case True
      have "server_ok (remove_clients e P m s1) \<and> same_queue s1 (remove_clients e P m s1)"
        using 1(1) [OF Some r [symmetric]] True ok1 by simp
      with True q1 remove_clients_step(2) [OF Some r] same_queue_trans [OF q1] show ?thesis by simp
    qed
  qed
qed

lemma after_removal_tables [simp]:
  "cores (after_removal s) = cores s" "services (after_removal s) = services s"
  "same_queue s (after_removal s)"
  using same_queue_trans [OF notify_if_ready_tables(3) exit_server_tables(3)]
  by (simp_all add: after_removal_def Let_def)

lemma after_removal_ok: "server_ok s \<Longrightarrow> server_ok (after_removal s) \<and> same_queue s (after_removal s)"
  by (simp add: server_ok_def)

lemma removal_ok:
  assumes "server_ok s"
  shows "server_ok (after_removal (remove_clients e P m s)) \<and>
    same_queue s (after_removal (remove_clients e P m s))"
proof -
  have r: "server_ok (remove_clients e P m s)" "same_queue s (remove_clients e P m s)"
    using remove_clients_ok [OF assms] by blast+
  from after_removal_ok [OF r(1)] same_queue_trans [OF r(2)] show ?thesis by blast
qed

lemma remove_common_critical:
  assumes "remove_client_common e nn rr i m s = (False, s')" and "\<not> exit_status s"
  shows "exit_flag s'"
proof -
  obtain t where t: "s' = snd (exit_server t)"
    using assms(1) by (auto simp: remove_client_common_def Let_def split: if_splits)
  have "same_queue s s'" using remove_client_common_tables(4) [OF assms(1)] .
  then have "exit_status s' = exit_status s" by (simp add: same_queue_def)
  moreover have "exit_status s' = exit_status t" by (simp add: t exit_server_def)
  ultimately show ?thesis using assms(2) by (simp add: t exit_server_def)
qed

lemma remove_clients_done:
  "\<not> exit_status s \<Longrightarrow> exit_flag (remove_clients e P m s) \<or>
    (\<forall>c \<in> set (clients (remove_clients e P m s)). \<not> P c)"
proof (induction e P m s rule: remove_clients.induct)
  case (1 e P m s)
  show ?case
  proof (cases "find_index P (clients s)")
    case None
    from remove_clients_step(1) [OF None] None show ?thesis by simp
  next
    case (Some i)
    obtain ok s1 where r: "remove_client_common e (notify_handle (clients s ! i))
        (notify_reference (clients s ! i)) i m s = (ok, s1)"
      by (cases "remove_client_common e (notify_handle (clients s ! i))
        (notify_reference (clients s ! i)) i m s")
    have "exit_status s1 = exit_status s"
      using remove_client_common_tables(4) [OF r] by (simp add: same_queue_def)
    with 1 Some r remove_common_critical [of e _ _ i m s s1] remove_clients_step(2) [OF Some r]
    show ?thesis by (cases ok) auto
  qed
qed

lemma terminate_ok:
  "server_ok s \<Longrightarrow> server_ok (snd (terminate_running_client e h m s)) \<and>
    same_queue s (snd (terminate_running_client e h m s))"
  unfolding terminate_running_client_def snd_conv by (rule removal_ok)

lemma remove_pid_ok:
  "server_ok s \<Longrightarrow> server_ok (snd (remove_client_pid e p m s)) \<and>
    same_queue s (snd (remove_client_pid e p m s))"
  using removal_ok [of s e "find_client_pid p" m] by (simp add: remove_client_pid_def)

lemma remove_expression_ok:
  "server_ok s \<Longrightarrow> server_ok (snd (remove_client_expression e p n m s)) \<and>
    same_queue s (snd (remove_client_expression e p n m s))"
  using removal_ok [of s e "client_finder e n 0 0" m]
  by (simp only: remove_client_expression_def if_split snd_conv) simp

text \<open>
  C11. Removing the clients that match an expression keeps the tables consistent, never
  removes anything when the requester itself matches, and otherwise leaves no matching
  client, unless a critical client was among them, in which case the server is told to exit.
\<close>

theorem remove_expression_complete:
  assumes "server_ok s" and "\<not> exit_status s"
    and "remove_client_expression e p n m s = (ok, s')"
  shows "server_ok s' \<and> (\<not> ok \<longrightarrow> s' = s) \<and>
    (ok \<longrightarrow> exit_flag s' \<or> (\<forall>c \<in> set (clients s'). \<not> client_finder e n 0 0 c))"
proof -
  let ?r = "remove_clients e (client_finder e n 0 0) m s"
  have "clients (after_removal t) = clients t" "exit_flag t \<Longrightarrow> exit_flag (after_removal t)" for t
    by (auto simp: after_removal_def Let_def exit_server_def notify_if_ready_def
        continue_register_notify_def)
  with remove_clients_done [OF assms(2), of e "client_finder e n 0 0" m]
  have "exit_flag (after_removal ?r) \<or>
      (\<forall>c \<in> set (clients (after_removal ?r)). \<not> client_finder e n 0 0 c)" by auto
  moreover have "server_ok s'" using remove_expression_ok [OF assms(1), of e p n m] assms(3) by simp
  moreover have "(ok, s') = (False, s) \<or> (ok, s') = (True, after_removal ?r)"
    using assms(3) by (simp only: remove_client_expression_def) (simp split: if_splits)
  ultimately show ?thesis by auto
qed

theorem remove_expression_complete_witness:
  "server_ok (snd (remove_client_expression tiny_env 1 ''a'' True
     (tiny_server [(new_client_id 4)\<lparr>client_name := ''a'', process_id := 7\<rparr>])))"
proof -
  let ?s = "tiny_server [(new_client_id 4)\<lparr>client_name := ''a'', process_id := 7\<rparr>]"
  have "server_ok ?s" "\<not> exit_status ?s"
    by (simp_all add: server_ok_def tables_ok_def tiny_server_def cores_def client_core_def
        new_client_id_def taken_def core_name_def)
  from remove_expression_complete [OF this, of tiny_env 1 "''a''" True] show ?thesis
    by (cases "remove_client_expression tiny_env 1 ''a'' True ?s") simp
qed

end
