(* ===== verification/Server_Params.thy ===== *)
theory Server_Params
  imports Client_Tables
begin

text \<open>
  The parameters of the server (\<open>libs/server/api-server.cpp\<close>): the limits, the users and groups
  new clients run under, their permissions, priority and niceness, and the clients the server
  starts for itself. Text arguments that may be null are options; the environment variables set
  along with a parameter are not modelled.
\<close>

section \<open>Limits\<close>

definition change_parameters :: "(server_parameters \<Rightarrow> server_parameters) \<Rightarrow> server \<Rightarrow> server" where
  "change_parameters f s = s\<lparr>settings := (settings s)\<lparr>server_parameters := f (parameters s)\<rparr>\<rparr>"

definition set_limit :: "string \<Rightarrow> int \<Rightarrow> server \<Rightarrow> bool \<times> server" where
  "set_limit nName lLimit s =
     (if nName = [] then (False, s)
      else if lLimit < 0 then (False, s)
      else if nName = ''max_error''
        then (True, change_parameters (\<lambda>p. p\<lparr>max_client_error := of_int lLimit\<rparr>) s)
      else if nName = ''max_invalid''
        then (True, change_parameters (\<lambda>p. p\<lparr>max_client_invalid := of_int lLimit\<rparr>) s)
      else if nName = ''max_commands''
        then (True, change_parameters (\<lambda>p. p\<lparr>max_client_commands := of_int lLimit\<rparr>) s)
      else if nName = ''max_queued''
        then (let l = (if lLimit < uint PARAM_ALLOW_SERVER_REQUEUE then uint PARAM_ALLOW_SERVER_REQUEUE
                       else lLimit)
              in (True, change_parameters (\<lambda>p. p\<lparr>max_commands := of_int l - PARAM_ALLOW_SERVER_REQUEUE\<rparr>) s))
      else if nName = ''max_clients''
        then (True, change_parameters (\<lambda>p. p\<lparr>max_clients := of_int lLimit\<rparr>) s)
      else if nName = ''max_services''
        then (True, change_parameters (\<lambda>p. p\<lparr>max_services := of_int lLimit\<rparr>) s)
      else (False, s))"

text \<open>The value is returned as a signed number.\<close>

definition get_limit :: "string \<Rightarrow> server \<Rightarrow> int" where
  "get_limit nName s =
     (if nName = [] then -1
      else if nName = ''max_error'' then sint (max_client_error (parameters s))
      else if nName = ''max_invalid'' then sint (max_client_invalid (parameters s))
      else if nName = ''max_commands'' then sint (max_client_commands (parameters s))
      else if nName = ''max_queued'' then sint (max_commands (parameters s))
      else if nName = ''max_clients'' then sint (max_clients (parameters s))
      else if nName = ''max_services'' then sint (max_services (parameters s))
      else -1)"

definition limit_names :: "string list" where
  "limit_names = [''max_error'', ''max_invalid'', ''max_commands'', ''max_queued'', ''max_clients'', ''max_services'']"

lemma sint_limit: "0 \<le> l \<Longrightarrow> l < 2 ^ 31 \<Longrightarrow> sint (word_of_int l :: u32) = l"
  using signed_take_bit_int_eq_self [of 31 l] by (simp add: sint_sbintrunc')

lemma set_limit_reads:
  assumes "0 \<le> l" and "l < 2 ^ 31" and "n \<in> set limit_names" and "m \<in> set limit_names"
  shows "fst (set_limit n l s) \<and>
    get_limit m (snd (set_limit n l s)) = (if m \<noteq> n then get_limit m s else if n = ''max_queued'' then max 0 (l - 64) else l)"
proof -
  have q: "sint (word_of_int l' - PARAM_ALLOW_SERVER_REQUEUE) = l' - 64" if "64 \<le> l'" "l' < 2 ^ 31" for l'
  proof -
    have "word_of_int l' - PARAM_ALLOW_SERVER_REQUEUE = (word_of_int (l' - 64) :: u32)"
      by (simp add: PARAM_ALLOW_SERVER_REQUEUE_def)
    then show ?thesis using that sint_limit [of "l' - 64"] by simp
  qed
  have r: "uint PARAM_ALLOW_SERVER_REQUEUE = 64" by (simp add: PARAM_ALLOW_SERVER_REQUEUE_def)
  from assms show ?thesis
    by (auto simp: limit_names_def set_limit_def get_limit_def change_parameters_def
        parameters_def sint_limit q r)
qed

section \<open>Users and groups\<close>

definition set_ids_common :: "env \<Rightarrow> string option \<Rightarrow> string option \<Rightarrow> server \<Rightarrow> bool \<times> server" where
  "set_ids_common e uUser gGroup s =
     (if server_uid e \<noteq> 0 then (False, s)
      else
        let user_specs = (case uUser of Some u \<Rightarrow> passwd_name e u | None \<Rightarrow> None);
            group_specs = (case gGroup of Some g \<Rightarrow> group_name e g | None \<Rightarrow> None);
            set_user = (\<lambda>u s. s\<lparr>settings := (settings s)\<lparr>default_user := u\<rparr>\<rparr>);
            set_group = (\<lambda>g s. s\<lparr>settings := (settings s)\<lparr>default_group := g\<rparr>\<rparr>);
            outcome = \<not> ((uUser \<noteq> None) \<noteq> (user_specs \<noteq> None) \<or> (gGroup \<noteq> None) \<noteq> (group_specs \<noteq> None)) \<or>
              uUser \<noteq> None \<and> gGroup \<noteq> None \<and> user_specs \<noteq> None
        in case user_specs of
             Some (uid, gid) \<Rightarrow>
               if uid = 0 then (False, s)
               else let s1 = set_user uid s in
                 (case group_specs of
                    Some g \<Rightarrow> if g = 0 then (False, s1) else (outcome, set_group g s1)
                  | None \<Rightarrow> if gGroup = None then (outcome, s1)
                      else if gid = 0 then (False, s1) else (outcome, set_group gid s1))
           | None \<Rightarrow>
               (case group_specs of
                  Some g \<Rightarrow> if g = 0 then (False, s) else (outcome, set_group g s)
                | None \<Rightarrow> (outcome, s)))"

definition set_initial_id :: "env \<Rightarrow> string \<Rightarrow> string \<Rightarrow> server \<Rightarrow> server" where
  "set_initial_id e default_uname default_gname s =
     (let s1 = snd (set_ids_common e (Some default_uname) (Some default_gname) s)
      in s1\<lparr>settings := (settings s1)\<lparr>initial_user := default_user (settings s1),
               initial_group := default_group (settings s1)\<rparr>\<rparr>)"

definition set_default_uid :: "env \<Rightarrow> nat \<Rightarrow> server \<Rightarrow> bool \<times> server" where
  "set_default_uid e iId s =
     (if iId \<noteq> 0 \<and> server_uid e \<noteq> 0 then (False, s)
      else
        let restore = \<not> ((iId \<noteq> 0) \<noteq> (server_uid e \<noteq> 0))
        in if restore \<and> initial_user (settings s) = 0 then (False, s)
           else
             let s1 = (if restore then s\<lparr>settings := (settings s)\<lparr>default_user := initial_user (settings s)\<rparr>\<rparr>
                       else s)
             in if passwd e iId = None then (False, s1)
                else (True, s1\<lparr>settings := (settings s1)\<lparr>default_user := iId\<rparr>\<rparr>))"

definition set_default_user :: "env \<Rightarrow> string option \<Rightarrow> server \<Rightarrow> bool \<times> server" where
  "set_default_user e uUser s = (if uUser = None then (False, s) else set_ids_common e uUser None s)"

definition set_default_gid :: "env \<Rightarrow> nat \<Rightarrow> server \<Rightarrow> bool \<times> server" where
  "set_default_gid e iId s =
     (if iId \<noteq> 0 \<and> server_uid e \<noteq> 0 then (False, s)
      else
        let restore = \<not> ((iId \<noteq> 0) \<noteq> (server_uid e \<noteq> 0))
        in if restore \<and> initial_group (settings s) = 0 then (False, s)
           else
             let s1 = (if restore then s\<lparr>settings := (settings s)\<lparr>default_group := initial_group (settings s)\<rparr>\<rparr>
                       else s)
             in if iId \<notin> fst ` set (group_file e) then (False, s1)
                else (True, s1\<lparr>settings := (settings s1)\<lparr>default_group := iId\<rparr>\<rparr>))"

definition set_default_group :: "env \<Rightarrow> string option \<Rightarrow> server \<Rightarrow> bool \<times> server" where
  "set_default_group e gGroup s = (if gGroup = None then (False, s) else set_ids_common e None gGroup s)"

section \<open>Permissions of new clients\<close>

definition set_max_permissions :: "mask16 \<Rightarrow> server \<Rightarrow> bool \<times> server" where
  "set_max_permissions pPerms s = (True, s\<lparr>settings := (settings s)\<lparr>srv_max_permissions := pPerms\<rparr>\<rparr>)"

definition set_max_new_client :: "mask16 \<Rightarrow> server \<Rightarrow> bool \<times> server" where
  "set_max_new_client pPerms s =
     (True, s\<lparr>settings := (settings s)\<lparr>srv_max_new_client := pPerms AND security_mask_admin\<rparr>\<rparr>)"

definition lock_permissions :: "server \<Rightarrow> server" where
  "lock_permissions s =
     s\<lparr>settings := (settings s)\<lparr>srv_max_permissions := srv_max_permissions (settings s) AND security_1,
        srv_max_new_client := srv_max_new_client (settings s) AND security_2\<rparr>\<rparr>"

definition set_min_priority :: "u8 \<Rightarrow> server \<Rightarrow> bool \<times> server" where
  "set_min_priority pPri s = (True, s\<lparr>settings := (settings s)\<lparr>srv_min_priority := pPri\<rparr>\<rparr>)"

definition set_new_client_niceness :: "env \<Rightarrow> int \<Rightarrow> server \<Rightarrow> bool \<times> server" where
  "set_new_client_niceness e nNice s =
     (if nNice < 0 \<and> server_euid e \<noteq> 0 then (False, s)
      else if nNice > 39 \<or> nNice < -39 then (False, s)
      else (True, s\<lparr>settings := (settings s)\<lparr>new_niceness := nNice\<rparr>\<rparr>))"

section \<open>Clients of the server itself\<close>

definition create_system_client :: "env \<Rightarrow> string option \<Rightarrow> int \<Rightarrow> server \<Rightarrow> int \<times> server" where
  "create_system_client e cCommand cCritical s =
     (case cCommand of
        None \<Rightarrow> (0, s)
      | Some c \<Rightarrow> add_system_client e c (default_user (settings s)) (default_group (settings s))
          (srv_min_priority (settings s)) (srv_max_permissions (settings s))
          (srv_max_permissions (settings s) AND srv_max_new_client (settings s)) cCritical 0 0 s)"

definition create_exec_client :: "env \<Rightarrow> string list option \<Rightarrow> int \<Rightarrow> server \<Rightarrow> int \<times> server" where
  "create_exec_client e cCommand cCritical s =
     (case cCommand of
        None \<Rightarrow> (0, s)
      | Some c \<Rightarrow> if c = [] then (0, s)
          else add_exec_client e c (default_user (settings s)) (default_group (settings s))
            (srv_min_priority (settings s)) (srv_max_permissions (settings s))
            (srv_max_permissions (settings s) AND srv_max_new_client (settings s)) cCritical 0 0 s)"

lemma create_clients_grow:
  "create_system_client e c k s = (pid, s') \<Longrightarrow>
    grows e (srv_max_permissions (settings s)) (srv_max_new_client (settings s)) s s'"
  "create_exec_client e cs k s = (pid, s') \<Longrightarrow>
    grows e (srv_max_permissions (settings s)) (srv_max_new_client (settings s)) s s'"
  by (auto simp: create_system_client_def create_exec_client_def grows_same mask_sub
      intro: grows_mono [OF add_system_client_grows] grows_mono [OF add_exec_client_grows]
      split: option.splits if_splits)

text \<open>
  A limit that is set leaves the others as they were and is read back, except that of queued commands: 64 are kept
  for the server, and what is read back is what is left.
\<close>

theorem limits_read_back:
  assumes "0 \<le> l" and "l < 2 ^ 31" and "n \<in> set limit_names" and "m \<in> set limit_names"
  shows "fst (set_limit n l s) \<and>
    get_limit m (snd (set_limit n l s)) = (if m \<noteq> n then get_limit m s else if n = ''max_queued'' then max 0 (l - 64) else l)"
  using assms by (rule set_limit_reads)

theorem limits_read_back_witness:
  "get_limit ''max_queued'' (snd (set_limit ''max_queued'' 100 (tiny_server []))) = 36 \<and>
   get_limit ''max_clients'' (snd (set_limit ''max_queued'' 100 (tiny_server []))) =
     get_limit ''max_clients'' (tiny_server [])"
  using limits_read_back [of 100 "''max_queued''" "''max_queued''" "tiny_server []"]
    limits_read_back [of 100 "''max_queued''" "''max_clients''" "tiny_server []"]
  by (simp add: limit_names_def)

text \<open>
  A server run by the super-user that is asked to restore the default user (user number 0)
  does not keep the initial user: after the assignment of the initial user the requested number 0
  is assigned as well, and every later client without a user of its own is refused as one of the
  super-user.
\<close>

theorem default_uid_reset_lost:
  assumes "server_uid e = 0" and "initial_user (settings s) \<noteq> 0" and "passwd e 0 \<noteq> None"
  shows "fst (set_default_uid e 0 s) \<and> default_user (settings (snd (set_default_uid e 0 s))) = 0 \<and>
    execute_command e cmd (default_user (settings (snd (set_default_uid e 0 s)))) g t = None"
  using assms by (simp add: set_default_uid_def Let_def execute_command_def)

theorem default_uid_reset_lost_witness:
  "default_user (settings (snd (set_default_uid
     (tiny_env\<lparr>server_uid := 0, passwd := (\<lambda>u. Some (''root'', 0))\<rparr>) 0
     ((tiny_server [])\<lparr>settings := initial_settings\<lparr>initial_user := 5\<rparr>\<rparr>)))) = 0"
  using default_uid_reset_lost [of "tiny_env\<lparr>server_uid := 0, passwd := (\<lambda>u. Some (''root'', 0))\<rparr>"
      "(tiny_server [])\<lparr>settings := initial_settings\<lparr>initial_user := 5\<rparr>\<rparr>" "[]" 1 "tiny_server []"]
  by simp

end
