(* ===== verification/Server_Interface.thy ===== *)
theory Server_Interface
  imports Server_Params Label_Check
begin

text \<open>
  What a client may ask of the server: the \<open>interface_*\<close> functions of
  \<open>libs/server/api-server.cpp\<close> and the guards of \<open>external_server_interface\<close>
  (\<open>libs/server/execute-thread.cpp\<close>), one definition \<open>server_*\<close> for each of its members. The
  member \<open>client_handle\<close> is the client's handle; a handle without a client is the null pointer.
\<close>

section \<open>Registration and services\<close>

definition interface_deregister_all_own_services :: "handle \<Rightarrow> client_id \<Rightarrow> server \<Rightarrow> bool \<times> server" where
  "interface_deregister_all_own_services h c s =
     (if \<not> check_all (client_type c) type_resource_client then (False, s)
      else remove_handle_services h s)"

definition interface_register_client ::
  "env \<Rightarrow> handle \<Rightarrow> client_id \<Rightarrow> string \<Rightarrow> mask16 \<Rightarrow> bool \<Rightarrow> server \<Rightarrow> bool \<times> mask16 \<times> server" where
  "interface_register_client e h c nName tType dDisable s =
     (if \<not> check_entity_label (Some nName) then (False, tType, s)
      else if nName \<noteq> [] \<and> \<not> check_names s nName then (False, tType, s)
      else
        let s1 = snd (clear_client_monitoring h s);
            s2 = snd (interface_deregister_all_own_services h c s1)
        in set_registered_client_type e h nName tType dDisable s2)"

definition interface_register_service ::
  "handle \<Rightarrow> string \<Rightarrow> string \<Rightarrow> string \<Rightarrow> server \<Rightarrow> bool \<times> server" where
  "interface_register_service h nName tType lLocation s =
     (if \<not> check_entity_label (Some nName) \<or> \<not> check_address_label (Some lLocation) then (False, s)
      else if length (services s) \<ge> unat (max_services (parameters s))
        then (False, monitor_server_limit ''max_services'' (max_services (parameters s)) s)
      else if \<not> check_names s nName then (False, s)
      else add_client_service h nName tType lLocation s)"

definition interface_deregister_own_service ::
  "handle \<Rightarrow> client_id \<Rightarrow> string \<Rightarrow> server \<Rightarrow> bool \<times> server" where
  "interface_deregister_own_service h c nName s =
     (if \<not> check_all (client_type c) type_resource_client then (False, s)
      else remove_indiv_service h nName s)"

definition interface_deregister_remote_services ::
  "handle \<Rightarrow> client_id \<Rightarrow> string \<Rightarrow> server \<Rightarrow> bool \<times> server" where
  "interface_deregister_remote_services h c nName s =
     (if \<not> check_all (client_type c) type_resource_client then (False, s)
      else remove_remote_services h nName s)"

section \<open>New clients\<close>

definition raise_priority :: "server \<Rightarrow> u8 \<Rightarrow> u8" where
  "raise_priority s pPriority =
     (if pPriority < srv_min_priority (settings s) then srv_min_priority (settings s) else pPriority)"

definition foreign_ids :: "env \<Rightarrow> nat \<Rightarrow> nat \<Rightarrow> bool" where
  "foreign_ids e uUid gGid \<longleftrightarrow>
     (uUid \<noteq> 0 \<and> uUid \<noteq> server_uid e \<or> gGid \<noteq> 0 \<and> gGid \<noteq> server_gid e) \<and> server_uid e \<noteq> 0"

definition interface_create_system_client ::
  "env \<Rightarrow> string \<Rightarrow> nat \<Rightarrow> nat \<Rightarrow> u8 \<Rightarrow> mask16 \<Rightarrow> u32 \<Rightarrow> handle \<Rightarrow> server \<Rightarrow> int \<times> server" where
  "interface_create_system_client e cCommand uUid gGid pPriority pPerm rReference nNotify s =
     (if length (clients s) \<ge> unat (max_clients (parameters s))
        then (-1, monitor_server_limit ''max_clients'' (max_clients (parameters s)) s)
      else if foreign_ids e uUid gGid then (-1, s)
      else add_system_client e cCommand (if uUid \<noteq> 0 then uUid else default_user (settings s))
             (if gGid \<noteq> 0 then gGid else default_group (settings s)) (raise_priority s pPriority)
             (pPerm AND srv_max_permissions (settings s))
             (pPerm AND srv_max_permissions (settings s) AND srv_max_new_client (settings s))
             (-1) rReference nNotify s)"

definition interface_create_exec_client ::
  "env \<Rightarrow> string list \<Rightarrow> nat \<Rightarrow> nat \<Rightarrow> u8 \<Rightarrow> mask16 \<Rightarrow> u32 \<Rightarrow> handle \<Rightarrow> server \<Rightarrow> int \<times> server" where
  "interface_create_exec_client e cCommand uUid gGid pPriority pPerm rReference nNotify s =
     (if length (clients s) \<ge> unat (max_clients (parameters s))
        then (-1, monitor_server_limit ''max_clients'' (max_clients (parameters s)) s)
      else if foreign_ids e uUid gGid then (-1, s)
      else if cCommand = [] then (-1, s)
      else add_exec_client e cCommand (if uUid \<noteq> 0 then uUid else default_user (settings s))
             (if gGid \<noteq> 0 then gGid else default_group (settings s)) (raise_priority s pPriority)
             (pPerm AND srv_max_permissions (settings s))
             (pPerm AND srv_max_permissions (settings s) AND srv_max_new_client (settings s))
             (-1) rReference nNotify s)"

definition interface_connect_detached_client ::
  "env \<Rightarrow> string \<Rightarrow> u8 \<Rightarrow> mask16 \<Rightarrow> u32 \<Rightarrow> handle \<Rightarrow> server \<Rightarrow> bool \<times> server" where
  "interface_connect_detached_client e sSocket pPriority pPerm rReference nNotify s =
     (if length (clients s) \<ge> unat (max_clients (parameters s))
        then (False, monitor_server_limit ''max_clients'' (max_clients (parameters s)) s)
      else if sSocket = [] then (False, s)
      else if \<not> check_all (srv_max_permissions (settings s)) type_detached_client then (False, s)
      else add_detached_client e sSocket (raise_priority s pPriority)
             (pPerm AND srv_max_permissions (settings s) AND security_mask_detached)
             rReference nNotify s)"

section \<open>Ending clients\<close>

text \<open>The client a name stands for: its own name or, for a requester with server control, the
  name of one of its services.\<close>

definition named_target :: "client_id \<Rightarrow> string \<Rightarrow> server \<Rightarrow> client_id option" where
  "named_target c nName s =
     (case get_client_id_name nName s of
        Some t \<Rightarrow> Some t
      | None \<Rightarrow>
          if check_all (client_type c) type_server_control
          then (case get_service_client_handle (services s) nName of
                  None \<Rightarrow> None | Some h \<Rightarrow> get_client_id h s)
          else None)"

definition interface_terminate_client ::
  "env \<Rightarrow> client_id \<Rightarrow> string \<Rightarrow> server \<Rightarrow> bool \<times> server" where
  "interface_terminate_client e c nName s =
     (case named_target c nName s of
        None \<Rightarrow> (False, s)
      | Some t \<Rightarrow> if process_id t = process_id c then (False, s)
          else terminate_running_client e (client_address t) False s)"

definition interface_kill_client ::
  "env \<Rightarrow> client_id \<Rightarrow> string \<Rightarrow> server \<Rightarrow> bool \<times> server" where
  "interface_kill_client e c nName s =
     (case named_target c nName s of
        None \<Rightarrow> (False, s)
      | Some t \<Rightarrow> if process_id t = process_id c then (False, s)
          else terminate_running_client e (client_address t) True s)"

definition interface_terminate_find_client ::
  "env \<Rightarrow> client_id \<Rightarrow> string \<Rightarrow> server \<Rightarrow> bool \<times> server" where
  "interface_terminate_find_client e c nName s = remove_client_expression e (process_id c) nName False s"

definition interface_kill_find_client ::
  "env \<Rightarrow> client_id \<Rightarrow> string \<Rightarrow> server \<Rightarrow> bool \<times> server" where
  "interface_kill_find_client e c nName s = remove_client_expression e (process_id c) nName True s"

definition interface_terminate_pid_client ::
  "env \<Rightarrow> client_id \<Rightarrow> int \<Rightarrow> server \<Rightarrow> bool \<times> server" where
  "interface_terminate_pid_client e c pPid s =
     (if pPid = process_id c then (False, s) else remove_client_pid e pPid False s)"

text \<open>The last argument is \<open>false\<close> in the code as well.\<close>

definition interface_kill_pid_client ::
  "env \<Rightarrow> client_id \<Rightarrow> int \<Rightarrow> server \<Rightarrow> bool \<times> server" where
  "interface_kill_pid_client e c pPid s =
     (if pPid = process_id c then (False, s) else remove_client_pid e pPid False s)"

section \<open>Terminal and monitors\<close>

definition interface_request_terminal ::
  "env \<Rightarrow> int \<Rightarrow> int \<Rightarrow> mask16 \<Rightarrow> u8 \<Rightarrow> server \<Rightarrow> u32 \<times> server" where
  "interface_request_terminal e pPid pPidActual tType pPriority s =
     (case take_terminal_control e pPid pPidActual tType pPriority s of (ok, s1) \<Rightarrow>
        (if \<not> ok then event_rejected else event_complete, s1))"

definition exit_target :: "string \<Rightarrow> server \<Rightarrow> client_id option" where
  "exit_target nName s =
     (case get_client_id_name nName s of
        Some t \<Rightarrow> Some t
      | None \<Rightarrow> (case get_service_client_handle (services s) nName of
                  None \<Rightarrow> None | Some h \<Rightarrow> get_client_id h s))"

definition interface_monitor_disconnect ::
  "handle \<Rightarrow> client_id \<Rightarrow> string \<Rightarrow> server \<Rightarrow> bool \<times> server" where
  "interface_monitor_disconnect h c nName s =
     (if nName = [] \<or> client_name c = nName then (False, s)
      else case exit_target nName s of
        None \<Rightarrow> (False, s)
      | Some t \<Rightarrow> if \<not> check_all (client_type t) type_resource_client then (False, s)
          else add_exit_monitor h (client_address t) nName s)"

definition interface_unmonitor_disconnect :: "handle \<Rightarrow> string \<Rightarrow> server \<Rightarrow> bool \<times> server" where
  "interface_unmonitor_disconnect h nName s =
     (if nName = [] then (False, s)
      else case exit_target nName s of
        None \<Rightarrow> (False, s)
      | Some t \<Rightarrow> remove_exit_monitor h (client_address t) nName s)"

section \<open>The guards of the interface object\<close>

definition on_client :: "handle \<Rightarrow> 'a \<Rightarrow> (client_id \<Rightarrow> 'a) \<Rightarrow> server \<Rightarrow> 'a" where
  "on_client h d f s = (case get_client_id h s of None \<Rightarrow> d | Some c \<Rightarrow> f c)"

definition guarded ::
  "mask16 \<Rightarrow> handle \<Rightarrow> (client_id \<Rightarrow> server \<Rightarrow> bool \<times> server) \<Rightarrow> server \<Rightarrow> bool \<times> server" where
  "guarded required h f s =
     on_client h (False, s) (\<lambda>c. if \<not> check_all (client_type c) required then (False, s) else f c s) s"

definition server_register_client ::
  "env \<Rightarrow> handle \<Rightarrow> string \<Rightarrow> mask16 \<Rightarrow> bool \<Rightarrow> server \<Rightarrow> bool \<times> mask16 \<times> server" where
  "server_register_client e h nName tType dDisable s =
     on_client h (False, tType, s) (\<lambda>c. interface_register_client e h c nName tType dDisable s) s"

definition server_indicate_ready :: "env \<Rightarrow> handle \<Rightarrow> server \<Rightarrow> bool \<times> server" where
  "server_indicate_ready e h s = on_client h (False, s) (\<lambda>c. manual_update_readiness e h s) s"

definition server_register_service ::
  "handle \<Rightarrow> string \<Rightarrow> string \<Rightarrow> string \<Rightarrow> server \<Rightarrow> bool \<times> server" where
  "server_register_service h nName tType lLocation =
     guarded type_resource_client h (\<lambda>c. interface_register_service h nName tType lLocation)"

definition server_deregister_own_service :: "handle \<Rightarrow> string \<Rightarrow> server \<Rightarrow> bool \<times> server" where
  "server_deregister_own_service h nName =
     guarded type_resource_client h (\<lambda>c. interface_deregister_own_service h c nName)"

definition server_deregister_all_own_services :: "handle \<Rightarrow> server \<Rightarrow> bool \<times> server" where
  "server_deregister_all_own_services h =
     guarded type_resource_client h (interface_deregister_all_own_services h)"

definition server_deregister_remote_services :: "handle \<Rightarrow> string \<Rightarrow> server \<Rightarrow> bool \<times> server" where
  "server_deregister_remote_services h nName =
     guarded type_resource_client h (\<lambda>c. interface_deregister_remote_services h c nName)"

definition server_find_registered_services ::
  "env \<Rightarrow> handle \<Rightarrow> command_transmit \<Rightarrow> string \<Rightarrow> string \<Rightarrow> server \<Rightarrow> bool \<times> server" where
  "server_find_registered_services e h actual_command nName tType =
     guarded type_service_client h (\<lambda>c s.
       send_server_response_list e actual_command event_complete (find_services e nName tType (services s)) s)"

definition server_create_system_client ::
  "env \<Rightarrow> handle \<Rightarrow> command_transmit \<Rightarrow> string \<Rightarrow> nat \<Rightarrow> nat \<Rightarrow> u8 \<Rightarrow> mask16 \<Rightarrow> server \<Rightarrow> int \<times> server" where
  "server_create_system_client e h actual_command cCommand uUid gGid pPriority pPerm s =
     on_client h (-1, s) (\<lambda>c. if \<not> check_all (client_type c) type_admin_client then (-1, s)
       else interface_create_system_client e cCommand uUid gGid pPriority (pPerm AND max_new_client c)
              (orig_reference actual_command) h s) s"

definition server_create_exec_client ::
  "env \<Rightarrow> handle \<Rightarrow> command_transmit \<Rightarrow> string list \<Rightarrow> nat \<Rightarrow> nat \<Rightarrow> u8 \<Rightarrow> mask16 \<Rightarrow> server \<Rightarrow> int \<times> server" where
  "server_create_exec_client e h actual_command cCommand uUid gGid pPriority pPerm s =
     on_client h (-1, s) (\<lambda>c. if \<not> check_all (client_type c) type_admin_client then (-1, s)
       else interface_create_exec_client e cCommand uUid gGid pPriority (pPerm AND max_new_client c)
              (orig_reference actual_command) h s) s"

definition server_connect_detached_client ::
  "env \<Rightarrow> handle \<Rightarrow> command_transmit \<Rightarrow> string \<Rightarrow> u8 \<Rightarrow> mask16 \<Rightarrow> server \<Rightarrow> bool \<times> server" where
  "server_connect_detached_client e h actual_command sSocket pPriority pPerm =
     guarded (type_admin_client OR type_server_control) h (\<lambda>c s.
       if \<not> check_all (max_new_client c) type_detached_client then (False, s)
       else interface_connect_detached_client e sSocket pPriority (pPerm AND max_new_client c)
              (orig_reference actual_command) h s)"

definition server_find_registered_clients ::
  "env \<Rightarrow> handle \<Rightarrow> command_transmit \<Rightarrow> string \<Rightarrow> mask16 \<Rightarrow> mask16 \<Rightarrow> server \<Rightarrow> bool \<times> server" where
  "server_find_registered_clients e h actual_command nName iInclude eExclude =
     guarded type_admin_client h (\<lambda>c s.
       send_server_response_list e actual_command event_complete
         (find_clients e nName iInclude eExclude True (check_all (client_type c) type_server_control) s) s)"

definition server_find_typed_clients ::
  "env \<Rightarrow> handle \<Rightarrow> command_transmit \<Rightarrow> string \<Rightarrow> mask16 \<Rightarrow> server \<Rightarrow> bool \<times> server" where
  "server_find_typed_clients e h actual_command nName iInclude s =
     on_client h (False, s) (\<lambda>c.
       if \<not> check_all (client_type c) iInclude \<and> \<not> check_all (client_type c) type_admin_client then (False, s)
       else send_server_response_list e actual_command event_complete
              (find_clients e nName iInclude type_none False False s) s) s"

definition server_terminate_client :: "env \<Rightarrow> handle \<Rightarrow> string \<Rightarrow> server \<Rightarrow> bool \<times> server" where
  "server_terminate_client e h nName =
     guarded type_admin_client h (\<lambda>c. interface_terminate_client e c nName)"

definition server_kill_client :: "env \<Rightarrow> handle \<Rightarrow> string \<Rightarrow> server \<Rightarrow> bool \<times> server" where
  "server_kill_client e h nName =
     guarded (type_admin_client OR type_server_control) h (\<lambda>c. interface_kill_client e c nName)"

definition server_terminate_find_client :: "env \<Rightarrow> handle \<Rightarrow> string \<Rightarrow> server \<Rightarrow> bool \<times> server" where
  "server_terminate_find_client e h nName =
     guarded type_admin_client h (\<lambda>c. interface_terminate_find_client e c nName)"

definition server_kill_find_client :: "env \<Rightarrow> handle \<Rightarrow> string \<Rightarrow> server \<Rightarrow> bool \<times> server" where
  "server_kill_find_client e h nName =
     guarded (type_admin_client OR type_server_control) h (\<lambda>c. interface_kill_find_client e c nName)"

definition server_terminate_pid_client :: "env \<Rightarrow> handle \<Rightarrow> int \<Rightarrow> server \<Rightarrow> bool \<times> server" where
  "server_terminate_pid_client e h pPid =
     guarded type_admin_client h (\<lambda>c. interface_terminate_pid_client e c pPid)"

definition server_kill_pid_client :: "env \<Rightarrow> handle \<Rightarrow> int \<Rightarrow> server \<Rightarrow> bool \<times> server" where
  "server_kill_pid_client e h pPid =
     guarded (type_admin_client OR type_server_control) h (\<lambda>c. interface_kill_pid_client e c pPid)"

definition server_terminate_server :: "handle \<Rightarrow> server \<Rightarrow> bool \<times> server" where
  "server_terminate_server h = guarded (type_admin_client OR type_server_control) h (\<lambda>c. exit_server)"

text \<open>Who may take the terminal; the second result tells whether somebody has it.\<close>

definition terminal_allowed :: "client_id \<Rightarrow> u8 \<Rightarrow> terminal_control \<Rightarrow> bool \<times> bool" where
  "terminal_allowed c command_priority t =
     (let ct = client_type c; tt = terminal_type t;
          allowed2 = (terminal_pid t \<ge> 0 \<and> tt \<noteq> type_none);
          allowed = (\<not> allowed2 \<or> check_all ct type_server_control \<or>
            ct AND type_all_clients = tt AND type_all_clients \<and> command_priority < terminal_priority t \<or>
            check_all ct type_admin_client \<and> \<not> check_all tt type_server_control \<or>
            check_all ct type_control_client \<and> \<not> check_all tt type_admin_client \<and>
              \<not> check_all tt type_server_control \<or>
            check_all ct type_resource_client \<and> \<not> check_all tt type_control_client \<and>
              \<not> check_all tt type_admin_client \<and> \<not> check_all tt type_server_control)
      in (if allowed2 then allowed \<and> type_terminal_equal AND ct \<noteq> type_terminal_equal AND tt else allowed,
          allowed2))"

definition server_request_terminal ::
  "env \<Rightarrow> handle \<Rightarrow> command_transmit \<Rightarrow> server \<Rightarrow> u32 \<times> server" where
  "server_request_terminal e h actual_command s =
     on_client h (event_rejected, s) (\<lambda>c.
       if \<not> check_all (client_type c) type_active_client then (event_rejected, s)
       else if check_all (client_type c) type_detached_client then (event_rejected, s)
       else case terminal_allowed c (priority actual_command) (terminal s) of (allowed, allowed2) \<Rightarrow>
         if \<not> allowed then
           (if \<not> allowed2 then (event_rejected, s)
            else (event_wait, monitor_terminal_rejected (process_id c) s))
         else case interface_request_terminal e (process_id c) (sint (creator_pid actual_command))
                     (client_type c) (min_priority c) s of (ev, s1) \<Rightarrow>
           (if ev \<noteq> 0 then event_complete else event_rejected, s1)) s"

definition server_return_terminal :: "env \<Rightarrow> handle \<Rightarrow> server \<Rightarrow> bool \<times> server" where
  "server_return_terminal e h =
     guarded type_active_client h (\<lambda>c s.
       if check_all (client_type c) type_detached_client then (False, s)
       else return_terminal_control e (process_id c) s)"

definition server_set_monitor_types :: "handle \<Rightarrow> u32 \<Rightarrow> server \<Rightarrow> bool \<times> server" where
  "server_set_monitor_types h eEvent =
     guarded type_monitor_client h (\<lambda>c. set_client_monitoring h eEvent)"

definition server_deregister_monitor :: "handle \<Rightarrow> server \<Rightarrow> bool \<times> server" where
  "server_deregister_monitor h = guarded type_monitor_client h (\<lambda>c. clear_client_monitoring h)"

definition server_monitor_disconnect :: "handle \<Rightarrow> string \<Rightarrow> server \<Rightarrow> bool \<times> server" where
  "server_monitor_disconnect h nName =
     guarded type_resource_client h (\<lambda>c. interface_monitor_disconnect h c nName)"

definition server_unmonitor_disconnect :: "handle \<Rightarrow> string \<Rightarrow> server \<Rightarrow> bool \<times> server" where
  "server_unmonitor_disconnect h nName =
     guarded type_resource_client h (\<lambda>c. interface_unmonitor_disconnect h nName)"

end
