(* ===== verification/Router.thy ===== *)
theory Router
  imports Client_Tables
begin

text \<open>
  The router: \<open>send_client_command\<close> of \<open>libs/server/client-list.cpp\<close>, which forwards a command
  of one client to another. Its tests come in three stages, each a definition with the tests
  in the order of the code: \<open>route_sender\<close> (is the originator the sender's), \<open>route_receiver\<close>
  (who is the target, is it reached as a service, must the command be parsed again for the
  server), \<open>route_permissions\<close> (the rules on client types). A refusal names the counter of the
  sender it raises and the event of the response.
\<close>

section \<open>Stages\<close>

datatype error_count = No_Count | Count_Error | Count_Invalid

type_synonym refused = "error_count \<times> u32"

definition count_error :: "error_count \<Rightarrow> client_id \<Rightarrow> client_id" where
  "count_error k c =
     (case k of No_Count \<Rightarrow> c
      | Count_Error \<Rightarrow> c\<lparr>total_errors := total_errors c + 1\<rparr>
      | Count_Invalid \<Rightarrow> c\<lparr>total_invalid := total_invalid c + 1\<rparr>)"

definition refuse :: "env \<Rightarrow> handle \<Rightarrow> command_transmit \<Rightarrow> refused \<Rightarrow> server \<Rightarrow> bool \<times> server" where
  "refuse e hHandle cCommand r s =
     (False, snd (send_server_response e cCommand (snd r) (update_client hHandle (count_error (fst r)) s)))"

definition route_sender :: "server \<Rightarrow> client_id \<Rightarrow> command_transmit \<Rightarrow> refused option" where
  "route_sender s sender cCommand =
     (if orig_entity cCommand \<noteq> [] \<and> client_name sender \<noteq> orig_entity cCommand then
        (if get_service_client_handle (services s) (orig_entity cCommand) \<noteq> Some (client_address sender)
         then Some (Count_Error, event_rejected) else None)
      else if orig_entity cCommand = [] \<and> target_entity cCommand \<noteq> []
        then Some (Count_Error, event_rejected)
      else None)"

datatype receiver =
    No_Receiver refused
  | Server_Itself command_transmit
  | Receiver client_id bool command_transmit

definition route_receiver :: "server \<Rightarrow> command_transmit \<Rightarrow> receiver" where
  "route_receiver s cCommand =
     (case get_client_id_name (target_entity cCommand) s of
        Some r \<Rightarrow> Receiver r False cCommand
      | None \<Rightarrow>
        (case find_service (target_entity cCommand) (services s) of
           None \<Rightarrow> No_Receiver (Count_Error, event_bad_target)
         | Some (actual_handle, svc) \<Rightarrow>
           (case get_client_id actual_handle s of
              None \<Rightarrow> No_Receiver (Count_Error, event_bad_target)
            | Some r \<Rightarrow>
              if target_address cCommand = [client_scope_char] then
                (case set_to_server_scope (target_entity cCommand, service_location svc) of (te, ta) \<Rightarrow>
                   let c1 = cCommand\<lparr>target_entity := te, target_address := ta\<rparr>
                   in if ta = [] then Server_Itself c1 else Receiver r True c1)
              else Receiver r True (cCommand\<lparr>target_address :=
                     prepend_existing_scope (target_address cCommand) (service_location svc)\<rparr>))))"

text \<open>The rules for built-in requests and responses between clients of different classes.\<close>

definition same_class :: "mask16 \<Rightarrow> mask16 \<Rightarrow> bool" where
  "same_class sender rcv \<longleftrightarrow> sender AND type_allow_message = rcv AND type_allow_message"

definition count_unless_admin :: "mask16 \<Rightarrow> error_count" where
  "count_unless_admin sender = (if check_all sender type_admin_client then No_Count else Count_Invalid)"

definition route_request :: "mask16 \<Rightarrow> mask16 \<Rightarrow> bool \<Rightarrow> refused option" where
  "route_request sender rcv service =
     (if \<not> same_class sender rcv \<and>
         (\<not> (service \<and> check_all sender type_control_client) \<or> check_all rcv type_admin_client)
      then Some (count_unless_admin sender, event_bad_permissions) else None)"

definition route_response :: "mask16 \<Rightarrow> mask16 \<Rightarrow> mask16 \<Rightarrow> refused option" where
  "route_response sender rcv ty =
     (if \<not> same_class sender rcv \<and>
         (\<not> check_all rcv type_control_client \<or> check_all sender type_admin_client)
      then Some (Count_Invalid, event_bad_permissions)
      else if check_none sender type_only_builtin_response then
        (if \<not> check_any sender type_allow_response
         then Some (Count_Invalid, event_bad_permissions) else None)
      else if \<not> check_all ty command_builtin then Some (Count_Invalid, event_bad_permissions)
      else None)"

definition route_permissions :: "mask16 \<Rightarrow> mask16 \<Rightarrow> bool \<Rightarrow> command_transmit \<Rightarrow> refused option" where
  "route_permissions sender rcv service cCommand =
     (let ty = execute_type cCommand
      in if \<not> check_all rcv (execute_permissions cCommand)
         then Some (count_unless_admin sender, event_bad_permissions)
         else if check_all ty command_bypass then
           (if \<not> check_any sender type_active_client \<or> \<not> check_any rcv type_active_client
            then Some (Count_Invalid, event_bad_permissions) else None)
         else if service \<and> \<not> (check_all sender type_service_client \<or> check_all sender type_server_control)
           then Some (Count_Invalid, event_bad_permissions)
         else if \<not> check_all ty command_plugin then
           (if check_all ty command_null \<or> check_all ty command_request
            then route_request sender rcv service
            else if check_all ty command_response then route_response sender rcv ty
            else Some (No_Count, event_rejected))
         else if \<not> check_all sender type_active_client \<or> \<not> check_all rcv type_active_client
           then Some (Count_Invalid, event_bad_permissions)
         else None)"

section \<open>Delivery\<close>

definition PARAM_REQUEUE_PENALTY :: "16 word" where "PARAM_REQUEUE_PENALTY = 32"
definition PARAM_PENALTY_MAX :: int where "PARAM_PENALTY_MAX = 256"

text \<open>Back into the queue under the sender's handle, with one more command waiting.\<close>

definition requeue :: "env \<Rightarrow> handle \<Rightarrow> command_transmit \<Rightarrow> server \<Rightarrow> bool \<times> server" where
  "requeue e hHandle copied_command s =
     (case requeue_server_command e (hHandle, copied_command) s of (ok, s1) \<Rightarrow>
        if \<not> ok then (False, snd (send_server_response e copied_command event_discarded s1))
        else (True, update_client hHandle (\<lambda>c. c\<lparr>total_waiting := total_waiting c + 1\<rparr>) s1))"

definition reparse_for_server ::
  "env \<Rightarrow> handle \<Rightarrow> command_transmit \<Rightarrow> server \<Rightarrow> bool \<times> server" where
  "reparse_for_server e hHandle cCommand s =
     (case find_command (local_server s) cCommand of (ok, copied_command) \<Rightarrow>
        if \<not> ok \<or> \<not> check_all (execute_type copied_command) command_server \<or>
           check_all (execute_type copied_command) command_remote
        then (False, snd (send_server_response e cCommand event_error s))
        else requeue e hHandle copied_command s)"

definition deliver ::
  "env \<Rightarrow> handle \<Rightarrow> handle \<Rightarrow> command_transmit \<Rightarrow> server \<Rightarrow> bool \<times> server" where
  "deliver e hHandle rHandle cCommand s =
     (case command_sendable (local_server s) cCommand of (ok, c1) \<Rightarrow>
      case (if ok then send_protected_output e rHandle c1 s else (False, s)) of (sent, s1) \<Rightarrow>
        if \<not> ok \<or> \<not> sent then
          (if check_output_terminated e rHandle s1
           then (False, snd (send_server_response e c1 event_error s1))
           else if uint (penalty c1) + uint PARAM_REQUEUE_PENALTY > PARAM_PENALTY_MAX
             then (False, snd (send_server_response e c1 event_discarded s1))
           else requeue e hHandle (c1\<lparr>penalty := penalty c1 + PARAM_REQUEUE_PENALTY\<rparr>) s1)
        else (True, update_client hHandle (\<lambda>c. c\<lparr>total_errors := total_errors c - 1\<rparr>) s1))"

definition send_client_command ::
  "env \<Rightarrow> handle \<Rightarrow> command_transmit \<Rightarrow> server \<Rightarrow> bool \<times> server" where
  "send_client_command e hHandle cCommand s =
     (if hHandle = 0 then (False, s)
      else case get_client_id hHandle s of
        None \<Rightarrow> (False, s)
      | Some sender \<Rightarrow>
        (case route_sender s sender cCommand of
           Some r \<Rightarrow> refuse e hHandle cCommand r s
         | None \<Rightarrow>
           (case route_receiver s cCommand of
              No_Receiver r \<Rightarrow> refuse e hHandle cCommand r s
            | Server_Itself c1 \<Rightarrow> reparse_for_server e hHandle c1 s
            | Receiver rcv service c1 \<Rightarrow>
              (case route_permissions (client_type sender) (client_type rcv) service c1 of
                 Some r \<Rightarrow> refuse e hHandle c1 r s
               | None \<Rightarrow> deliver e hHandle (client_address rcv) c1 s))))"

section \<open>What one call may do\<close>

definition new_output :: "server \<Rightarrow> server \<Rightarrow> (handle \<times> command_transmit) list" where
  "new_output s s' = drop (length (outbox s)) (outbox s')"

definition server_response_to :: "server \<Rightarrow> handle \<Rightarrow> handle \<times> command_transmit \<Rightarrow> bool" where
  "server_response_to s h m \<longleftrightarrow> fst m = h \<and>
     (\<exists>ev. command (snd m) = Some (Server_Command (Server_Response (server_name s) ev [])))"

lemma response_output_new:
  assumes "outbox s1 = outbox s @ ms" and "server_name s1 = server_name s"
    and "\<forall>m \<in> set ms. Q m" and "\<And>m. server_response_to s (send_to c) m \<Longrightarrow> Q m"
  shows "\<exists>ms'. outbox (snd (send_server_response e c ev s1)) = outbox s @ ms' \<and> (\<forall>m \<in> set ms'. Q m)"
proof -
  obtain ok s2 where r: "send_server_response e c ev s1 = (ok, s2)"
    by (cases "send_server_response e c ev s1")
  from send_server_response_sent [OF r]
  have "outbox s2 = outbox s1 \<or> (\<exists>r. outbox s2 = outbox s1 @ [(send_to c, r)] \<and>
      command r = Some (Server_Command (Server_Response (server_name s1) ev [])))" by blast
  then show ?thesis
  proof
    assume "outbox s2 = outbox s1"
    with assms(1,3) r show ?thesis by auto
  next
    assume "\<exists>r. outbox s2 = outbox s1 @ [(send_to c, r)] \<and>
      command r = Some (Server_Command (Server_Response (server_name s1) ev []))"
    then obtain x where x: "outbox s2 = outbox s1 @ [(send_to c, x)]"
      "command x = Some (Server_Command (Server_Response (server_name s1) ev []))" by blast
    have "Q (send_to c, x)" using x(2) assms(2,4) by (simp add: server_response_to_def)
    with assms(1,3) x(1) r show ?thesis by (intro exI [of _ "ms @ [(send_to c, x)]"]) auto
  qed
qed

lemma requeue_output_new:
  assumes "outbox s1 = outbox s @ ms" and "server_name s1 = server_name s"
    and "\<forall>m \<in> set ms. Q m" and "\<And>m. server_response_to s (send_to c) m \<Longrightarrow> Q m"
  shows "\<exists>ms'. outbox (snd (requeue e h c s1)) = outbox s @ ms' \<and> (\<forall>m \<in> set ms'. Q m)"
proof -
  let ?s2 = "update_commands
            (queue_insert (time_priority_factor (parameters s1)) (counter s1) (h, c)) s1"
  have o: "outbox ?s2 = outbox s @ ms" "server_name ?s2 = server_name s"
    using assms(1,2) by (simp_all add: update_commands_def)
  have "outbox (snd (requeue e h c s1)) = outbox (queue_new_execute e (h, c) s1)"
    by (simp add: requeue_def requeue_server_command_def frame_simps)
  also have "\<dots> = outbox (snd (send_server_response e c event_received_server ?s2)) \<or> \<dots> = outbox ?s2"
    by (simp add: queue_new_execute_def Let_def)
  finally have "outbox (snd (requeue e h c s1)) = outbox (snd (send_server_response e c event_received_server ?s2))
      \<or> outbox (snd (requeue e h c s1)) = outbox ?s2"
    by (simp add: requeue_def requeue_server_command_def frame_simps queue_new_execute_def Let_def)
  then show ?thesis
    using response_output_new [OF o assms(3,4), of c e event_received_server] o assms(3) by auto
qed

lemma command_sendable_fields:
  assumes "command_sendable l c = (ok, c')"
  shows "send_to c' = send_to c" "orig_entity c' = orig_entity c" "execute_type c' = execute_type c"
    "command c' = command c" "penalty c' = penalty c" "target_entity c' = target_entity c"
    "target_address c' = target_address c"
  using assms
  by (auto simp: command_sendable_def assemble_command_def split: if_splits option.splits)

lemma find_command_fields:
  assumes "find_command l c = (ok, c')"
  shows "send_to c' = send_to c" "orig_entity c' = orig_entity c" "target_entity c' = target_entity c"
    "target_address c' = target_address c"
  using assms
  by (auto simp: find_command_def empty_server_command_def set_command_def Let_def
      split: if_splits option.splits prod.splits)

text \<open>The originator a command names is the sender: by its name or by one of its services.\<close>

definition authentic :: "server \<Rightarrow> client_id \<Rightarrow> command_transmit \<Rightarrow> bool" where
  "authentic s sender c \<longleftrightarrow>
     (orig_entity c = [] \<and> target_entity c = []) \<or>
     (orig_entity c \<noteq> [] \<and> (client_name sender = orig_entity c \<or>
      get_service_client_handle (services s) (orig_entity c) = Some (client_address sender)))"

lemma route_sender_authentic: "route_sender s sender c = None \<longleftrightarrow> authentic s sender c"
  by (auto simp: route_sender_def authentic_def split: if_splits)

lemma route_receiver_fields:
  assumes "route_receiver s c = Receiver r service c1"
  shows "send_to c1 = send_to c" "orig_entity c1 = orig_entity c" "execute_type c1 = execute_type c"
    "command c1 = command c" "penalty c1 = penalty c" "get_client_id (client_address r) s = Some r \<or> \<not> service"
    "\<not> service \<longrightarrow> client_name r = target_entity c"
    "service \<longrightarrow> get_service_client_handle (services s) (target_entity c) = Some (client_address r)"
    "r \<in> set (clients s)"
  using assms
  by (auto simp: route_receiver_def get_service_client_handle_def Let_def
      dest: get_client_name_SomeD get_client_SomeD split: if_splits option.splits prod.splits)

lemma route_receiver_server:
  assumes "route_receiver s c = Server_Itself c1"
  shows "send_to c1 = send_to c" "target_address c1 = []"
  using assms
  by (auto simp: route_receiver_def set_to_server_scope_def Let_def split: if_splits option.splits prod.splits)

text \<open>What the command is written as: its data is assembled from its body if it has none yet, and as a command
  to a service it is given the location of the service.\<close>

definition carried :: "local_info \<Rightarrow> command_transmit \<Rightarrow> data_section list \<Rightarrow> bool" where
  "carried l c t \<longleftrightarrow>
     (if tree c \<noteq> [] then t = tree c
      else \<exists>b. command c = Some b \<and> body_assemble l b = Some t)"

definition rerouted :: "registered_service \<Rightarrow> command_transmit \<Rightarrow> string \<times> string" where
  "rerouted svc c =
     (if target_address c = [client_scope_char] then set_to_server_scope (target_entity c, service_location svc)
      else (target_entity c, prepend_existing_scope (target_address c) (service_location svc)))"

definition forwarded :: "server \<Rightarrow> handle \<Rightarrow> command_transmit \<Rightarrow> handle \<times> command_transmit \<Rightarrow> bool" where
  "forwarded s h cmd m \<longleftrightarrow>
     (\<exists>sender rcv service te ta t. get_client_id h s = Some sender \<and> authentic s sender cmd \<and>
        rcv \<in> set (clients s) \<and> client_address rcv = fst m \<and>
        snd m = cmd\<lparr>target_entity := te, target_address := ta, tree := t\<rparr> \<and> carried (local_server s) cmd t \<and>
        (if service
         then \<exists>svc. find_service (target_entity cmd) (services s) = Some (fst m, svc) \<and> (te, ta) = rerouted svc cmd
         else client_name rcv = target_entity cmd \<and> te = target_entity cmd \<and> ta = target_address cmd) \<and>
        route_permissions (client_type sender) (client_type rcv) service cmd = None)"

lemma route_permissions_cong: "execute_type c = execute_type c' \<Longrightarrow> command c = command c' \<Longrightarrow>
    route_permissions t r v c = route_permissions t r v c'"
  by (simp add: route_permissions_def execute_permissions_def)

lemma command_sendable_carried:
  "command_sendable l c = (True, c') \<Longrightarrow> \<exists>t. c' = c\<lparr>tree := t\<rparr> \<and> carried l c t"
  by (cases c) (auto simp: command_sendable_def assemble_command_def carried_def split: if_splits option.splits)

lemma route_receiver_routed:
  assumes "route_receiver s c = Receiver r service c1"
  shows "\<exists>te ta. c1 = c\<lparr>target_entity := te, target_address := ta\<rparr> \<and>
    (if service
     then \<exists>svc. find_service (target_entity c) (services s) = Some (client_address r, svc) \<and> (te, ta) = rerouted svc c
     else client_name r = target_entity c \<and> te = target_entity c \<and> ta = target_address c)"
proof (cases "get_client_id_name (target_entity c) s")
  case (Some k)
  with assms have r: "r = k" "\<not> service" "c1 = c" by (simp_all add: route_receiver_def)
  with Some show ?thesis
    by (intro exI [of _ "target_entity c"] exI [of _ "target_address c"]) (auto dest: get_client_name_SomeD)
next
  case None
  with assms obtain a svc k where f: "find_service (target_entity c) (services s) = Some (a, svc)"
    "get_client_id a s = Some k"
    by (auto simp: route_receiver_def split: option.splits)
  from get_client_SomeD [OF f(2)] have a: "client_address k = a" by simp
  obtain te ta where t: "rerouted svc c = (te, ta)" by (cases "rerouted svc c")
  have "r = k \<and> service \<and> c1 = c\<lparr>target_entity := te, target_address := ta\<rparr>"
  proof (cases "target_address c = [client_scope_char]")
    case True
    with assms None f t show ?thesis by (auto simp: route_receiver_def rerouted_def Let_def split: if_splits)
  next
    case False
    with assms None f t show ?thesis by (cases c) (auto simp: route_receiver_def rerouted_def)
  qed
  with f(1) a t show ?thesis by auto
qed

lemma deliver_output:
  assumes "\<And>c'. command_sendable (local_server s) c = (True, c') \<Longrightarrow> Q (r, c')"
    and "\<And>m. server_response_to s (send_to c) m \<Longrightarrow> Q m"
  shows "\<exists>ms. outbox (snd (deliver e h r c s)) = outbox s @ ms \<and> (\<forall>m \<in> set ms. Q m)"
proof -
  obtain ok c1 where cs: "command_sendable (local_server s) c = (ok, c1)"
    by (cases "command_sendable (local_server s) c")
  note f = command_sendable_fields [OF cs]
  obtain sent s1 where ss: "(if ok then send_protected_output e r c1 s else (False, s)) = (sent, s1)"
    by (cases "if ok then send_protected_output e r c1 s else (False, s)")
  have o1: "outbox s1 = (if sent then outbox s @ [(r, c1)] else outbox s)"
    using ss send_protected_sent [of e r c1 s sent s1] by (auto split: if_splits)
  have n1: "server_name s1 = server_name s"
    using ss only_output_fields(11) [OF send_protected_only [of s e r c1]] by (auto split: if_splits)
  show ?thesis
  proof (cases "ok \<and> sent")
    case True
    with cs ss have "outbox (snd (deliver e h r c s)) = outbox s1"
      by (simp add: deliver_def frame_simps)
    with True o1 assms(1) cs show ?thesis by (intro exI [of _ "[(r, c1)]"]) simp
  next
    case False
    then have "\<not> sent" using ss by (auto split: if_splits)
    then have o: "outbox s1 = outbox s @ []" using o1 by simp
    have q: "server_response_to s (send_to x) m \<Longrightarrow> Q m" if "send_to x = send_to c" for x m
      using assms(2) that by simp
    have R: "\<exists>ms. outbox (snd (send_server_response e c1 ev s1)) = outbox s @ ms \<and> (\<forall>m \<in> set ms. Q m)" for ev
      by (rule response_output_new [OF o n1]) (use q f in auto)
    have P: "\<exists>ms. outbox (snd (requeue e h (c1\<lparr>penalty := p\<rparr>) s1)) = outbox s @ ms \<and> (\<forall>m \<in> set ms. Q m)" for p
      by (rule requeue_output_new [OF o n1]) (use q f in auto)
    from False cs ss R P show ?thesis by (simp add: deliver_def)
  qed
qed

lemma server_itself_output:
  assumes "route_receiver s cmd = Server_Itself c1"
  shows "\<exists>ms. outbox (snd (reparse_for_server e h c1 s)) = outbox s @ ms \<and>
    (\<forall>m \<in> set ms. server_response_to s (send_to cmd) m \<or> Q m)"
proof -
  note f = route_receiver_server [OF assms]
  obtain fk c2 where fc: "find_command (local_server s) c1 = (fk, c2)"
    by (cases "find_command (local_server s) c1")
  have to: "send_to c2 = send_to cmd" "send_to c1 = send_to cmd"
    using find_command_fields(1) [OF fc] f(1) by simp_all
  have R: "\<exists>ms. outbox (snd (send_server_response e c1 ev s)) = outbox s @ ms \<and>
      (\<forall>m \<in> set ms. server_response_to s (send_to cmd) m \<or> Q m)" for ev
    by (rule response_output_new [of _ _ "[]"]) (use to in simp_all)
  have P: "\<exists>ms. outbox (snd (requeue e h c2 s)) = outbox s @ ms \<and>
      (\<forall>m \<in> set ms. server_response_to s (send_to cmd) m \<or> Q m)"
    by (rule requeue_output_new [of _ _ "[]"]) (use to in simp_all)
  from R P fc show ?thesis by (simp add: reparse_for_server_def)
qed

lemma deliver_forwards:
  assumes "get_client_id h s = Some sender" and "authentic s sender cmd"
    and "route_receiver s cmd = Receiver r service c1"
    and "route_permissions (client_type sender) (client_type r) service c1 = None"
  shows "\<exists>ms. outbox (snd (deliver e h (client_address r) c1 s)) = outbox s @ ms \<and>
    (\<forall>m \<in> set ms. server_response_to s (send_to cmd) m \<or> forwarded s h cmd m)"
proof (rule deliver_output)
  note f = route_receiver_fields [OF assms(3)]
  show "server_response_to s (send_to cmd) m \<or> forwarded s h cmd m" if "server_response_to s (send_to c1) m" for m
    using that f(1) by simp
  fix c'
  assume "command_sendable (local_server s) c1 = (True, c')"
  from command_sendable_carried [OF this] obtain t where t: "c' = c1\<lparr>tree := t\<rparr>" "carried (local_server s) c1 t"
    by blast
  from route_receiver_routed [OF assms(3)] obtain te ta where
    c1: "c1 = cmd\<lparr>target_entity := te, target_address := ta\<rparr>" and
    x: "if service then \<exists>svc. find_service (target_entity cmd) (services s) = Some (client_address r, svc) \<and>
        (te, ta) = rerouted svc cmd
      else client_name r = target_entity cmd \<and> te = target_entity cmd \<and> ta = target_address cmd"
    by blast
  have "carried (local_server s) cmd t" using t(2) by (auto simp: c1 carried_def split: if_splits)
  moreover have "route_permissions (client_type sender) (client_type r) service cmd = None"
    using assms(4) route_permissions_cong [of cmd c1] by (simp add: c1)
  ultimately have "forwarded s h cmd (client_address r, c')"
    unfolding forwarded_def using assms(1,2) f(9) x t(1) c1
    by (intro exI [of _ sender] exI [of _ r] exI [of _ service] exI [of _ te] exI [of _ ta] exI [of _ t]) simp
  then show "server_response_to s (send_to cmd) (client_address r, c') \<or> forwarded s h cmd (client_address r, c')" ..
qed

text \<open>
  C5. Whatever \<open>send_client_command\<close> writes is either the server's response to the sender of the command or the
  command itself: the same in every field but the target, which for a service is completed by the service's
  location, and the data, which is that of the command or, if it has none, the text of its body. It goes only to
  the client its target names, directly or as the provider of a service, only if its originator is the sender, and
  only if the tests on the two types pass.
\<close>

theorem forwarded_or_response:
  assumes "send_client_command e h cmd s = (ok, s')"
  shows "\<exists>ms. outbox s' = outbox s @ ms \<and>
    (\<forall>m \<in> set ms. server_response_to s (send_to cmd) m \<or> forwarded s h cmd m)"
proof (cases "h = 0 \<or> get_client_id h s = None")
  case True
  with assms have "outbox s' = outbox s" by (auto simp: send_client_command_def split: if_splits)
  then show ?thesis by simp
next
  case False
  then obtain sender where sd: "get_client_id h s = Some sender" by auto
  have refuse: "\<exists>ms. outbox (snd (refuse e h c r s)) = outbox s @ ms \<and>
      (\<forall>m \<in> set ms. server_response_to s (send_to cmd) m \<or> forwarded s h cmd m)"
    if "send_to c = send_to cmd" for c r
    unfolding refuse_def snd_conv
    by (rule response_output_new [of _ _ "[]"]) (use that in \<open>simp_all add: frame_simps\<close>)
  note step = assms False sd
  show ?thesis
  proof (cases "route_sender s sender cmd")
    case (Some r)
    with step refuse [of cmd r] show ?thesis by (simp add: send_client_command_def)
  next
    case None
    then have au: "authentic s sender cmd" by (simp add: route_sender_authentic)
    show ?thesis
    proof (cases "route_receiver s cmd")
      case (No_Receiver r)
      with step None refuse [of cmd r] show ?thesis by (simp add: send_client_command_def)
    next
      case (Server_Itself c1)
      with step None server_itself_output [OF this, of e h "forwarded s h cmd"] show ?thesis by (simp add: send_client_command_def)
    next
      case (Receiver r service c1)
      note f = route_receiver_fields(1) [OF this]
      show ?thesis
      proof (cases "route_permissions (client_type sender) (client_type r) service c1")
        case (Some x)
        with step None Receiver refuse [of c1 x] f show ?thesis by (simp add: send_client_command_def)
      next
        case np: None
        with step None Receiver deliver_forwards [OF sd au Receiver np, of e] show ?thesis
          by (simp add: send_client_command_def)
      qed
    qed
  qed
qed

definition pair_server :: server where
  "pair_server = tiny_server
     [(new_client_id 4)\<lparr>client_name := ''a'', client_type := type_control_client_all,
        max_permissions := type_control_client_all, attached_client := True\<rparr>,
      (new_client_id 5)\<lparr>client_name := ''b'', client_type := type_control_client_all,
        max_permissions := type_control_client_all, attached_client := True\<rparr>]"

definition pair_command :: command_transmit where
  "pair_command = (new_transmit 1)\<lparr>orig_entity := ''a'', target_entity := ''b'', send_to := 4,
     execute_type := command_request OR command_builtin, tree := [Data_Section [] False ''hi''],
     command := Some (Null_Command ''proto_client_message'')\<rparr>"

theorem forwarded_or_response_witness:
  "map fst (outbox (snd (send_client_command tiny_env 4 pair_command pair_server))) = [5] \<and>
   (\<exists>m. outbox (snd (send_client_command tiny_env 4 pair_command pair_server)) = [m] \<and>
      (server_response_to pair_server 4 m \<or> forwarded pair_server 4 pair_command m))"
proof -
  obtain ok s' where r: "send_client_command tiny_env 4 pair_command pair_server = (ok, s')"
    by (cases "send_client_command tiny_env 4 pair_command pair_server")
  have one: "map fst (outbox s') = [5]"
    using r
    by (auto simp: send_client_command_def pair_command_def pair_server_def tiny_server_def
        get_client_id_def find_by_handle_def new_client_id_def route_sender_def route_receiver_def
        get_client_id_name_def route_permissions_def new_transmit_def clear_info_def command_info.defs
        execute_permissions_def flag_defs check_all_def deliver_def command_sendable_def
        send_protected_output_def open_output_def tiny_env_def update_client_def route_request_def
        same_class_def)
  have z: "outbox pair_server = []" "send_to pair_command = 4"
    by (simp_all add: pair_server_def pair_command_def tiny_server_def)
  from forwarded_or_response [OF r] z obtain ms where "outbox s' = ms"
    "\<forall>m \<in> set ms. server_response_to pair_server 4 m \<or> forwarded pair_server 4 pair_command m" by auto
  with one r show ?thesis by (auto simp: map_eq_Cons_conv)
qed

section \<open>Requeueing ends\<close>

lemma requeue_commands:
  "commands (snd (requeue e h c s)) =
     queue_insert (time_priority_factor (parameters s)) (counter s) (h, c) (commands s)"
  "fst (requeue e h c s)"
  by (simp_all add: requeue_def requeue_server_command_def frame_simps queue_new_execute_commands)

lemma penalty_add:
  "uint p + 32 \<le> 256 \<Longrightarrow> uint (p + 32 :: 16 word) = uint p + 32"
  by (simp add: uint_word_ariths)

lemma deliver_commands:
  "commands (snd (deliver e h r c s)) = commands s \<or>
   (\<exists>c'. mset (queue_items (commands (snd (deliver e h r c s)))) =
        add_mset (h, c') (mset (queue_items (commands s))) \<and>
      uint (penalty c') = uint (penalty c) + 32 \<and> uint (penalty c') \<le> 256)"
proof -
  obtain ok c1 where cs: "command_sendable (local_server s) c = (ok, c1)"
    by (cases "command_sendable (local_server s) c")
  have pen: "penalty c1 = penalty c" using command_sendable_fields(5) [OF cs] .
  obtain sent s1 where ss: "(if ok then send_protected_output e r c1 s else (False, s)) = (sent, s1)"
    by (cases "if ok then send_protected_output e r c1 s else (False, s)")
  have c1: "commands s1 = commands s"
    using ss only_output_fields(6) [OF send_protected_only [of s e r c1]] by (auto split: if_splits)
  have resp: "commands (snd (send_server_response e c1 ev s1)) = commands s" for ev
    using only_output_fields(6) [OF send_server_response_only [of s1 e c1 ev]] c1 by simp
  show ?thesis
  proof (cases "ok \<and> sent")
    case True
    with cs ss c1 show ?thesis by (simp add: deliver_def frame_simps)
  next
    case False
    show ?thesis
    proof (cases "check_output_terminated e r s1 \<or> uint (penalty c1) + 32 > 256")
      case True
      with False cs ss resp show ?thesis
        by (auto simp: deliver_def PARAM_REQUEUE_PENALTY_def PARAM_PENALTY_MAX_def)
    next
      case ok: False
      let ?c' = "c1\<lparr>penalty := penalty c1 + 32\<rparr>"
      have "snd (deliver e h r c s) = snd (requeue e h ?c' s1)"
        using False ok cs ss by (simp add: deliver_def PARAM_REQUEUE_PENALTY_def PARAM_PENALTY_MAX_def)
      then have "mset (queue_items (commands (snd (deliver e h r c s)))) =
          add_mset (h, ?c') (mset (queue_items (commands s)))"
        by (simp add: requeue_commands queue_insert_mset c1)
      moreover have "uint (penalty ?c') = uint (penalty c) + 32 \<and> uint (penalty ?c') \<le> 256"
        using ok penalty_add [of "penalty c1"] by (simp add: pen)
      ultimately show ?thesis by blast
    qed
  qed
qed

lemma response_commands [simp]: "commands (snd (send_server_response e c ev s)) = commands s"
  using only_output_fields(6) [OF send_server_response_only [of s e c ev]] by simp

lemma refuse_commands [simp]: "commands (snd (refuse e h c r s)) = commands s"
  by (simp add: refuse_def frame_simps)

text \<open>What a call of \<open>send_client_command\<close> puts back for the router has the next penalty; what is not for the
  router is a command parsed again for the server.\<close>

lemma find_command_penalty: "penalty (snd (find_command l c)) = penalty c"
  by (auto simp: find_command_def empty_server_command_def set_command_def Let_def
      split: if_splits option.splits prod.splits)

definition for_router :: "command_transmit \<Rightarrow> bool" where
  "for_router c \<longleftrightarrow>
     \<not> check_all (execute_type c) command_server \<or> check_all (execute_type c) command_remote"

lemma send_client_commands:
  assumes "mset (queue_items (commands (snd (send_client_command e h c s)))) =
      add_mset (h, c') (mset (queue_items (commands s)))" and "for_router c'"
  shows "uint (penalty c') = uint (penalty c) + 32 \<and> uint (penalty c') \<le> 256"
proof -
  have n: "commands (snd (send_client_command e h c s)) \<noteq> commands s" using assms(1) by auto
  then obtain sender where h: "h \<noteq> 0" "get_client_id h s = Some sender" "route_sender s sender c = None"
    by (auto simp: send_client_command_def split: if_splits option.splits)
  show ?thesis
  proof (cases "route_receiver s c")
    case (No_Receiver r)
    with h n show ?thesis by (simp add: send_client_command_def)
  next
    case (Server_Itself c1)
    obtain ok c2 where f: "find_command (local_server s) c1 = (ok, c2)"
      by (cases "find_command (local_server s) c1")
    have r: "snd (send_client_command e h c s) = snd (reparse_for_server e h c1 s)"
      using h Server_Itself by (simp add: send_client_command_def)
    with n f have g: "\<not> for_router c2" and q: "snd (reparse_for_server e h c1 s) = snd (requeue e h c2 s)"
      by (auto simp: reparse_for_server_def for_router_def split: if_splits)
    from assms(1) have "add_mset (h, c2) (mset (queue_items (commands s))) =
        add_mset (h, c') (mset (queue_items (commands s)))"
      by (simp add: r q requeue_commands queue_insert_mset)
    with g assms(2) show ?thesis by simp
  next
    case (Receiver rcv service c1)
    show ?thesis
    proof (cases "route_permissions (client_type sender) (client_type rcv) service c1")
      case (Some r)
      with h Receiver n show ?thesis by (simp add: send_client_command_def)
    next
      case None
      then have d: "snd (send_client_command e h c s) = snd (deliver e h (client_address rcv) c1 s)"
        using h Receiver by (simp add: send_client_command_def)
      have p: "penalty c1 = penalty c" by (rule route_receiver_fields(5) [OF Receiver])
      from deliver_commands [of e h "client_address rcv" c1 s] n assms(1) d p show ?thesis by auto
    qed
  qed
qed

text \<open>\<open>retried c c'\<close>: a delivery of the first command that fails, or a whole call of the router for it, puts the
  second one back.\<close>

inductive retried :: "command_transmit \<Rightarrow> command_transmit \<Rightarrow> bool" where
  delivery: "mset (queue_items (commands (snd (deliver e h r c s)))) =
     add_mset (h, c') (mset (queue_items (commands s))) \<Longrightarrow> retried c c'"
| routing: "mset (queue_items (commands (snd (send_client_command e h c s)))) =
     add_mset (h, c') (mset (queue_items (commands s))) \<Longrightarrow> for_router c' \<Longrightarrow> retried c c'"

inductive_cases retriedE: "retried c c'"

lemma retried_penalty:
  assumes "retried c c'"
  shows "uint (penalty c') = uint (penalty c) + 32 \<and> uint (penalty c') \<le> 256"
  using assms
proof (rule retriedE)
  fix e h r s
  assume m: "mset (queue_items (commands (snd (deliver e h r c s)))) =
     add_mset (h, c') (mset (queue_items (commands s)))"
  then have "commands (snd (deliver e h r c s)) \<noteq> commands s" by auto
  with deliver_commands [of e h r c s] m show ?thesis by auto
next
  fix e h s
  assume "mset (queue_items (commands (snd (send_client_command e h c s)))) =
     add_mset (h, c') (mset (queue_items (commands s)))" and "for_router c'"
  then show ?thesis by (rule send_client_commands)
qed

text \<open>A retried command has kept the address it was given: on its way to a service elsewhere it is given the
  location of the service again with every retry.\<close>

lemma retry_prepends_again:
  assumes "route_receiver s c = Receiver r True c1" and "target_address c \<noteq> [client_scope_char]"
    and "target_address c1 \<noteq> [client_scope_char]"
  shows "\<exists>svc c2. find_service (target_entity c) (services s) = Some (client_address r, svc) \<and>
    route_receiver s (c1\<lparr>penalty := p\<rparr>) = Receiver r True c2 \<and>
    target_address c1 = prepend_existing_scope (target_address c) (service_location svc) \<and>
    target_address c2 = prepend_existing_scope (target_address c1) (service_location svc)"
  using assms
  by (auto simp: route_receiver_def Let_def dest: get_client_SomeD split: option.splits prod.splits if_splits)

text \<open>
  C12. A command whose receiver does not take it is put back a bounded number of times: in any chain of \<open>n\<close>
  failed deliveries or whole calls of the router that put the command back for the router, whatever happens to
  the server between them, each one adds 32 to the penalty, so there are at most eight.
\<close>

theorem retries_bounded:
  assumes "\<forall>i < n. retried (f i) (f (Suc i))"
  shows "uint (penalty (f n)) = uint (penalty (f 0)) + 32 * int n \<and> n \<le> 8"
proof -
  have p: "uint (penalty (f k)) = uint (penalty (f 0)) + 32 * int k" if "k \<le> n" for k
    using that
  proof (induction k)
    case (Suc k)
    then have "retried (f k) (f (Suc k))" using assms by simp
    then have "uint (penalty (f (Suc k))) = uint (penalty (f k)) + 32"
      using retried_penalty by blast
    moreover have "uint (penalty (f k)) = uint (penalty (f 0)) + 32 * int k"
      using Suc by simp
    ultimately show ?case by (simp add: algebra_simps)
  qed simp
  have "n \<le> 8"
  proof (cases n)
    case (Suc k)
    with assms have "retried (f k) (f n)" by simp
    from retried_penalty [OF this] have "uint (penalty (f n)) \<le> 256" by simp
    moreover have "0 \<le> uint (penalty (f 0))" by simp
    ultimately show ?thesis using p [of n] by linarith
  qed simp
  moreover have "uint (penalty (f n)) = uint (penalty (f 0)) + 32 * int n" by (rule p) (rule order_refl)
  ultimately show ?thesis by blast
qed

theorem retries_bounded_witness:
  "retried pair_command (pair_command\<lparr>penalty := 32\<rparr>) \<and> (1::nat) \<le> 8"
proof
  let ?s = "tiny_server []" and ?c' = "pair_command\<lparr>penalty := 32\<rparr>"
  have "mset (queue_items (commands (snd (deliver tiny_env 4 5 pair_command ?s)))) =
     add_mset (4, ?c') (mset (queue_items (commands ?s)))"
    by (simp add: deliver_def command_sendable_def pair_command_def send_protected_output_def
        open_output_def get_client_id_def find_by_handle_def tiny_server_def check_output_terminated_def
        response_output_def new_transmit_def clear_info_def command_info.defs PARAM_REQUEUE_PENALTY_def
        PARAM_PENALTY_MAX_def requeue_commands queue_insert_mset)
  then show one: "retried pair_command ?c'" by (rule delivery)
  show "(1::nat) \<le> 8"
    using retries_bounded [of 1 "\<lambda>i. if i = 0 then pair_command else ?c'"] one by simp
qed

end
