(* ===== verification/Server_Exec.thy ===== *)
theory Server_Exec
  imports Server_Interface Router
begin

text \<open>
  The execution of commands in the server: \<open>evaluate_server\<close> of every built-in body
  (\<open>libs/proto/*\<close>) and of \<open>command_transmit\<close> (\<open>libs/protocol/ipc/command-transmit.cpp\<close>),
  \<open>validate_and_execute\<close> (\<open>libs/server/api-server.cpp\<close>) and the execution thread's
  \<open>execute_single\<close> and \<open>internal_execute\<close> (\<open>libs/server/execute-thread.cpp\<close>). \<open>h\<close> is the
  client the interface acts for, \<open>iInfo\<close> the command under execution.
\<close>

section \<open>Evaluation of the bodies\<close>

definition eval_result :: "bool \<times> server \<Rightarrow> u32 \<times> server" where
  "eval_result r = (if fst r then event_complete else event_rejected, snd r)"

definition eval_quiet :: "bool \<times> server \<Rightarrow> u32 \<times> server" where
  "eval_quiet r = (if fst r then event_none else event_rejected, snd r)"

definition evaluate_register_client ::
  "env \<Rightarrow> handle \<Rightarrow> command_transmit \<Rightarrow> string \<Rightarrow> mask16 \<Rightarrow> bool \<Rightarrow> server \<Rightarrow> u32 \<times> server" where
  "evaluate_register_client e h iInfo nName register_type disable s =
     (case server_register_client e h nName register_type disable s of (ok, new_type, s1) \<Rightarrow>
        if \<not> ok then (event_rejected, s1)
        else eval_quiet (create_manual_response e iInfo
               (Common_Command (Client_Register_Response new_type)) s1))"

fun evaluate_common :: "env \<Rightarrow> handle \<Rightarrow> command_transmit \<Rightarrow> common_body \<Rightarrow> server \<Rightarrow> u32 \<times> server" where
  "evaluate_common e h iInfo (Client_Response _ _ _) s = (event_none, s)"
| "evaluate_common e h iInfo (Client_Response_List _ _ _) s = (event_none, s)"
| "evaluate_common e h iInfo (Short_Response _) s = (event_none, s)"
| "evaluate_common e h iInfo (Register_Client n t d) s = evaluate_register_client e h iInfo n t d s"
| "evaluate_common e h iInfo Indicate_Ready s = eval_result (server_indicate_ready e h s)"
| "evaluate_common e h iInfo (Client_Register_Response _) s = (event_rejected, s)"
| "evaluate_common e h iInfo (Client_Message _) s = (event_rejected, s)"
| "evaluate_common e h iInfo Term_Request s = server_request_terminal e h iInfo s"
| "evaluate_common e h iInfo Term_Return s = eval_result (server_return_terminal e h s)"
| "evaluate_common e h iInfo Ping_Client s = (event_rejected, s)"
| "evaluate_common e h iInfo Ping_Server s = (event_complete, s)"

fun evaluate_server_body :: "server_body \<Rightarrow> server \<Rightarrow> u32 \<times> server" where
  "evaluate_server_body (Server_Response_List _ _ _) s = (event_none, s)"
| "evaluate_server_body (Monitor_Data _ _) s = (event_none, s)"
| "evaluate_server_body _ s = (event_rejected, s)"

definition evaluate_create_client ::
  "env \<Rightarrow> handle \<Rightarrow> command_transmit \<Rightarrow> u8 \<Rightarrow> bool \<Rightarrow> u32 \<Rightarrow> u32 \<Rightarrow> u8 \<Rightarrow> mask16 \<Rightarrow> string list
     \<Rightarrow> server \<Rightarrow> u32 \<times> server" where
  "evaluate_create_client e h iInfo create_type return_pid uUid gGid pPriority pPerm
     command_text s =
     (case (if create_type = CREATE_SYSTEM then
              (if length command_text \<noteq> 1 then None
               else Some (server_create_system_client e h iInfo (hd command_text) (unat uUid) (unat gGid)
                      pPriority pPerm s))
            else if create_type = CREATE_EXEC then
              (if length command_text < 1 then None
               else Some (server_create_exec_client e h iInfo command_text (unat uUid) (unat gGid)
                      pPriority pPerm s))
            else None) of
        None \<Rightarrow> (event_rejected, s)
      | Some (process, s1) \<Rightarrow>
          if process < 0 then (event_rejected, s1)
          else if \<not> return_pid then (event_complete, s1)
          else eval_quiet (create_auto_response e iInfo event_complete (convert_integer10 process) s1))"

definition term_or_kill ::
  "u8 \<Rightarrow> (server \<Rightarrow> bool \<times> server) \<Rightarrow> (server \<Rightarrow> bool \<times> server) \<Rightarrow> server \<Rightarrow> u32 \<times> server" where
  "term_or_kill remove_type term kill s =
     (if remove_type = CLIENT_TERM then eval_result (term s)
      else if remove_type = CLIENT_KILL then eval_result (kill s)
      else (event_rejected, s))"

fun evaluate_admin :: "env \<Rightarrow> handle \<Rightarrow> command_transmit \<Rightarrow> admin_body \<Rightarrow> server \<Rightarrow> u32 \<times> server" where
  "evaluate_admin e h iInfo (Create_Client ty pid u g pri perm opt cmd) s =
     evaluate_create_client e h iInfo ty pid u g pri perm cmd s"
| "evaluate_admin e h iInfo (Detached_Client sock pri perm opt) s =
     eval_result (server_connect_detached_client e h iInfo sock pri perm s)"
| "evaluate_admin e h iInfo (Remove_Client ty n) s =
     term_or_kill ty (server_terminate_client e h n) (server_kill_client e h n) s"
| "evaluate_admin e h iInfo (Remove_Find_Client ty n) s =
     term_or_kill ty (server_terminate_find_client e h n) (server_kill_find_client e h n) s"
| "evaluate_admin e h iInfo (Remove_Pid_Client ty p) s =
     term_or_kill ty (server_terminate_pid_client e h p) (server_kill_pid_client e h p) s"
| "evaluate_admin e h iInfo Terminate_Server s = eval_result (server_terminate_server h s)"
| "evaluate_admin e h iInfo (Find_Clients n i x) s =
     eval_quiet (server_find_registered_clients e h iInfo n i x s)"
| "evaluate_admin e h iInfo (Find_Control_Clients n) s =
     eval_quiet (server_find_typed_clients e h iInfo n type_control_client s)"
| "evaluate_admin e h iInfo (Set_Monitor_Types ev) s = eval_result (server_set_monitor_types h ev s)"


text \<open>The answer to a registration is a command of its own; whether it was sent is not looked at.\<close>

definition service_answer ::
  "env \<Rightarrow> command_transmit \<Rightarrow> u2 \<Rightarrow> string \<Rightarrow> bool \<times> server \<Rightarrow> u32 \<times> server" where
  "service_answer e iInfo action n r =
     (if \<not> fst r then (event_rejected, snd r)
      else (event_none, snd (create_manual_response e iInfo
              (Resource_Command (Remote_Service_Action action n (orig_address iInfo))) (snd r))))"

fun evaluate_resource :: "env \<Rightarrow> handle \<Rightarrow> command_transmit \<Rightarrow> resource_body \<Rightarrow> server \<Rightarrow> u32 \<times> server" where
  "evaluate_resource e h iInfo (Register_Service n t) s =
     service_answer e iInfo RSERVR_REMOTE_MONITOR n (server_register_service h n t (orig_address iInfo) s)"
| "evaluate_resource e h iInfo (Deregister_Own_Service n) s =
     service_answer e iInfo RSERVR_REMOTE_UNMONITOR n (server_deregister_own_service h n s)"
| "evaluate_resource e h iInfo Deregister_All_Own_Services s =
     eval_result (server_deregister_all_own_services h s)"
| "evaluate_resource e h iInfo (Deregister_Remote_Services l) s =
     eval_result (server_deregister_remote_services h l s)"
| "evaluate_resource e h iInfo (Find_Resource_Clients n) s =
     eval_quiet (server_find_typed_clients e h iInfo n type_resource_client s)"
| "evaluate_resource e h iInfo (Remote_Service_Action _ _ _) s = (event_none, s)"
| "evaluate_resource e h iInfo (Remote_Service_Back_Action _ _ _ _ _) s = (event_none, s)"
| "evaluate_resource e h iInfo (Remote_Service_Disconnect _ _ _) s = (event_rejected, s)"
| "evaluate_resource e h iInfo (Monitor_Resource_Exit n) s = (event_none, snd (server_monitor_disconnect h n s))"
| "evaluate_resource e h iInfo (Unmonitor_Resource_Exit n) s = (event_none, snd (server_unmonitor_disconnect h n s))"
| "evaluate_resource e h iInfo (Resource_Exit _) s = (event_rejected, s)"

fun evaluate_service :: "env \<Rightarrow> handle \<Rightarrow> command_transmit \<Rightarrow> service_body \<Rightarrow> server \<Rightarrow> u32 \<times> server" where
  "evaluate_service e h iInfo (Find_Services n t) s =
     eval_quiet (server_find_registered_services e h iInfo n t s)"
| "evaluate_service e h iInfo (Service_Response_List _ _) s = (event_none, s)"
| "evaluate_service e h iInfo (Partial_Response_List _ _ _) s = (event_none, s)"
| "evaluate_service e h iInfo _ s = (event_rejected, s)"

fun evaluate_body :: "env \<Rightarrow> handle \<Rightarrow> command_transmit \<Rightarrow> body \<Rightarrow> server \<Rightarrow> u32 \<times> server" where
  "evaluate_body e h iInfo (Null_Command _) s = (event_none, s)"
| "evaluate_body e h iInfo (Common_Command b) s = evaluate_common e h iInfo b s"
| "evaluate_body e h iInfo (Server_Command b) s = evaluate_server_body b s"
| "evaluate_body e h iInfo (Admin_Command b) s = evaluate_admin e h iInfo b s"
| "evaluate_body e h iInfo (Resource_Command b) s = evaluate_resource e h iInfo b s"
| "evaluate_body e h iInfo (Service_Command b) s = evaluate_service e h iInfo b s"

section \<open>Evaluation of a command\<close>

definition evaluate_server :: "env \<Rightarrow> handle \<Rightarrow> command_transmit \<Rightarrow> server \<Rightarrow> bool \<times> server" where
  "evaluate_server e h c s =
     (if command_name c = [] then (False, s)
      else if orig_address c \<noteq> [] \<and> check_all (execute_type c) command_no_remote then (False, s)
      else if \<not> allow_execute_server True (execute_type c) then
        (if silent_auto_response c then (False, s) else send_server_response e c event_rejected s)
      else case command c of
        None \<Rightarrow> (True, s)
      | Some b \<Rightarrow>
          (case evaluate_body e h c b s of (current_event, s1) \<Rightarrow>
             if current_event \<noteq> event_none \<and> \<not> silent_auto_response c
             then send_server_response e c current_event s1 else (True, s1)))"

text \<open>\<open>(client_type == type_none) ^ orig_entity.size()\<close> is an exclusive or of numbers, not of
  truth values.\<close>

definition origin_unchecked :: "client_id \<Rightarrow> command_transmit \<Rightarrow> bool" where
  "origin_unchecked c cCommand \<longleftrightarrow>
     of_bool (client_type c = type_none) XOR int (length (orig_entity cCommand)) \<noteq> 0"

datatype execution = Invalid_Origin | Not_Executable | Executable

definition validate :: "client_id \<Rightarrow> command_transmit \<Rightarrow> server \<Rightarrow> execution" where
  "validate c cCommand s =
     (if \<not> origin_unchecked c cCommand \<and> client_name c \<noteq> orig_entity cCommand \<and>
         get_service_client_handle (services s) (orig_entity cCommand) \<noteq> Some (client_address c)
      then Invalid_Origin
      else if \<not> check_all (execute_type cCommand) command_server then Not_Executable
      else if target_address cCommand \<noteq> [] then Not_Executable
      else if target_entity cCommand \<noteq> [] then Not_Executable
      else Executable)"

definition validate_and_execute :: "env \<Rightarrow> handle \<Rightarrow> command_transmit \<Rightarrow> server \<Rightarrow> bool \<times> server" where
  "validate_and_execute e hHandle cCommand s =
     (case get_client_id hHandle s of
        None \<Rightarrow> (False, s)
      | Some c \<Rightarrow>
          (case validate c cCommand s of
             Invalid_Origin \<Rightarrow> (False, update_client hHandle (\<lambda>c. c\<lparr>total_invalid := total_invalid c + 1\<rparr>) s)
           | Not_Executable \<Rightarrow> (False, update_client hHandle (\<lambda>c. c\<lparr>total_errors := total_errors c + 1\<rparr>) s)
           | Executable \<Rightarrow>
               (True, snd (evaluate_server e hHandle cCommand
                  (update_client hHandle (\<lambda>c. c\<lparr>total_errors := total_errors c - 1\<rparr>) s)))))"

section \<open>The execution thread\<close>

text \<open>\<open>set_effective_handle\<close>: the interface acts for the client if its type has all that the
  command needs.\<close>

definition set_effective_handle :: "handle \<Rightarrow> command_transmit \<Rightarrow> server \<Rightarrow> bool" where
  "set_effective_handle h c s =
     (case get_client_id h s of None \<Rightarrow> False
      | Some k \<Rightarrow> check_all (client_type k) (execute_permissions c))"

definition set_cache :: "queued list \<Rightarrow> server \<Rightarrow> server" where
  "set_cache q s = s\<lparr>command_cache := q\<rparr>"

text \<open>The first command of the cache. \<open>f_remove_pattern\<close> removes all commands under its key.\<close>

definition execute_single :: "env \<Rightarrow> server \<Rightarrow> bool \<times> server" where
  "execute_single e s =
     (case command_cache s of
        [] \<Rightarrow> (False, s)
      | (h, c) # rest \<Rightarrow>
          (case decrement_client_waiting h s of (known, s1) \<Rightarrow>
             if \<not> known then (False, set_cache (filter (\<lambda>x. fst x \<noteq> h) (command_cache s)) s1)
             else if \<not> check_all (execute_type c) command_server then
               (case send_client_command e h c s1 of (outcome, s2) \<Rightarrow> (outcome, set_cache rest s2))
             else if \<not> set_effective_handle h c s1 then (False, set_cache rest s1)
             else
               let s2 = snd (validate_and_execute e h c s1)
               in (True, send_all_monitor_updates e (set_cache rest s2))))"

text \<open>One turn of the loop of \<open>internal_execute\<close>: after a failure, or when the cache has kept its
  size, one more command is removed.\<close>

definition internal_execute_step :: "env \<Rightarrow> server \<Rightarrow> server" where
  "internal_execute_step e s =
     (case execute_single e s of (ok, s1) \<Rightarrow>
        if \<not> ok \<or> length (command_cache s1) = length (command_cache s)
        then set_cache (tl (command_cache s1)) s1 else s1)"

definition server_busy :: "server \<Rightarrow> bool" where
  "server_busy s \<longleftrightarrow> \<not> exit_flag s \<and> \<not> exit_status s \<and> command_cache s \<noteq> []"

end
