(* ===== verification/Interface_Tables.thy ===== *)
theory Interface_Tables
  imports Server_Interface
begin

text \<open>
  What every call of the server interface keeps: the consistency of the tables, the queue, the
  settings, and the bounds of all clients' permissions. A client that is started or attached for
  another one is within what the requester may hand on and within the server's maximum.
\<close>

section \<open>Detached clients\<close>

lemma mask_or_sub: "(a AND NOT c = 0) \<Longrightarrow> (b AND NOT c = 0) \<Longrightarrow> (a OR b) AND NOT c = (0::'a::len word)"
  by (auto simp: bit_eq_iff bit_simps)

lemma mask_or_mono: "a AND NOT b = (0::'a::len word) \<Longrightarrow> (a OR t) AND NOT (b OR t) = 0"
  by (auto simp: bit_eq_iff bit_simps)

lemma grows_new:
  "cores s' = cores s @ [new_core (new_address e (handles s)) p' 0] \<Longrightarrow> services s' = services s \<Longrightarrow>
    same_queue s s' \<Longrightarrow> p' AND NOT p = 0 \<Longrightarrow> grows e p 0 s s'"
  unfolding grows_def by (intro conjI disjI2 exI) (assumption | simp)+

lemma detached_core [simp]:
  "client_core (c\<lparr>process_id := i, user_id := u, group_id := g, min_priority := pri, max_permissions := p,
     max_new_client := m, detached_socket := sk, notify_reference := r, notify_handle := n\<rparr>) =
   (client_address c, client_name c, client_type c, p, m)"
  by (simp add: client_core_def)

lemma add_detached_grows:
  assumes "add_detached_client e sock pri perm r h s = (ok, s')"
  shows "grows e (perm OR type_detached_client) 0 s s'"
proof (cases "h \<noteq> 0 \<and> get_client_id h s = None")
  case True
  with assms show ?thesis by (simp add: add_detached_client_def grows_same)
next
  case False
  let ?rq = "if h \<noteq> 0 then get_client_id h s else None"
  let ?p1 = "case ?rq of Some r \<Rightarrow> perm AND (max_permissions r OR max_new_client r) | None \<Rightarrow> perm"
  let ?pri1 = "case ?rq of Some r \<Rightarrow> if min_priority r > pri then min_priority r else pri | None \<Rightarrow> pri"
  show ?thesis
  proof (cases "connect_detached e sock ?rq")
    case None
    with False assms show ?thesis by (auto simp: add_detached_client_def Let_def grows_same)
  next
    case (Some x)
    obtain sk uid gid where x: "x = (sk, uid, gid)" by (cases x)
    let ?a = "new_address e (handles s)"
    let ?p = "(?p1 AND security_mask_detached) OR type_detached_client"
    let ?c = "(new_client_id ?a)\<lparr>process_id := 0, user_id := uid, group_id := gid, min_priority := ?pri1,
        max_permissions := ?p, max_new_client := type_none, detached_socket := sk,
        notify_reference := r, notify_handle := h\<rparr>"
    let ?s1 = "s\<lparr>clients := clients s @ [?c]\<rparr>"
    have core: "client_core ?c = new_core ?a ?p 0"
      by (simp only: detached_core) (simp add: new_core_def new_client_id_def flag_defs)
    have s1: "cores ?s1 = cores s @ [new_core ?a ?p 0]" "services ?s1 = services s" "same_queue s ?s1"
      using core by (simp_all add: cores_def same_queue_def)
    have d: "cores (drop_last_client e ?s1) = cores s" "same_queue s (drop_last_client e ?s1)"
      using drop_last_tables(1) [of ?s1 "clients s" ?c e]
        same_queue_trans [OF s1(3) drop_last_tables(3)] by (simp_all add: cores_def)
    have r: "s' = (if \<not> threads e ?a then drop_last_client e ?s1
        else update_client ?a (response_thread_update (\<lambda>_. True)) ?s1)"
      using assms Some x False unfolding add_detached_client_def Let_def by (simp split: if_splits)
    have "?p1 AND NOT perm = 0" by (simp add: mask_sub split: option.split)
    then have "(?p1 AND security_mask_detached) AND NOT perm = 0"
      by (rule mask_sub_trans [OF mask_sub(1)])
    then have within: "?p AND NOT (perm OR type_detached_client) = 0" by (rule mask_or_mono)
    show ?thesis
    proof (cases "threads e ?a")
      case True
      let ?u = "update_client ?a (response_thread_update (\<lambda>_. True)) ?s1"
      have "cores ?u = cores ?s1" "services ?u = services ?s1"
        by (simp_all add: frame_simps del: clients_update_tables)
      then have "cores ?u = cores s @ [new_core ?a ?p 0]" "services ?u = services s"
        unfolding s1(1,2) .
      then have "grows e (perm OR type_detached_client) 0 s ?u"
        using same_queue_trans [OF s1(3) update_client_queue] within by (rule grows_new)
      with r True show ?thesis by simp
    next
      case False
      with r d show ?thesis by (simp add: grows_same drop_last_tables(2))
    qed
  qed
qed

section \<open>What is kept\<close>

text \<open>The permissions of every client, and what it may hand on, are within the server's maximum.\<close>

definition core_bounded :: "exposed_server \<Rightarrow> client_core \<Rightarrow> bool" where
  "core_bounded x k \<longleftrightarrow>
     (case k of (a, n, t, p, m) \<Rightarrow> p AND NOT (srv_max_permissions x) = 0 \<and>
        m AND NOT (srv_max_permissions x) = 0 \<and> m AND NOT (srv_max_new_client x) = 0)"

definition bounded :: "server \<Rightarrow> bool" where
  "bounded s \<longleftrightarrow> (\<forall>k \<in> set (cores s). core_bounded (settings s) k)"

definition keeps :: "server \<Rightarrow> server \<Rightarrow> bool" where
  "keeps s s' \<longleftrightarrow> same_queue s s' \<and> (server_ok s \<longrightarrow> server_ok s') \<and> (bounded s \<longrightarrow> bounded s')"

lemma keeps_refl [simp]: "keeps s s"
  by (simp add: keeps_def)

lemma keeps_trans: "keeps a b \<Longrightarrow> keeps b c \<Longrightarrow> keeps a c"
  unfolding keeps_def using same_queue_trans by blast

lemma keeps_if: "keeps s a \<Longrightarrow> keeps s b \<Longrightarrow> keeps s (if c then a else b)"
  by simp

lemma bounded_subset:
  "set (cores s') \<subseteq> set (cores s) \<Longrightarrow> same_queue s s' \<Longrightarrow> bounded s \<Longrightarrow> bounded s'"
  by (auto simp: bounded_def same_queue_def)

lemma keeps_filter:
  "cores s' = cores s \<Longrightarrow> services s' = filter P (services s) \<Longrightarrow> same_queue s s' \<Longrightarrow> keeps s s'"
  unfolding keeps_def using bounded_subset [of s' s] by (simp add: server_ok_def tables_ok_filter)

lemma keeps_same:
  "cores s' = cores s \<Longrightarrow> services s' = services s \<Longrightarrow> same_queue s s' \<Longrightarrow> keeps s s'"
  using keeps_filter [of s' s "\<lambda>_. True"] by simp

lemma keeps_monitoring: "only_monitoring s s' \<Longrightarrow> keeps s s'"
  using only_monitoring_tables [of s s'] keeps_same [of s' s] by blast

lemma keeps_output: "only_output s s' \<Longrightarrow> keeps s s'"
  by (rule keeps_monitoring) (rule only_output_monitoring)

lemma keeps_terminal: "only_terminal s s' \<Longrightarrow> keeps s s'"
  using keeps_same [of s' s] by (simp add: only_terminal_def cores_def same_queue_def)

lemma keeps_grows:
  assumes "env_ok e" and "grows e p m s s'" and "p AND NOT (srv_max_permissions (settings s)) = 0"
    and "m AND NOT (srv_max_new_client (settings s)) = 0"
  shows "keeps s s'"
proof -
  from assms(2) have q: "same_queue s s'" by (simp add: grows_def)
  have "server_ok s \<Longrightarrow> server_ok s'" using grows_ok [OF assms(1) _ assms(2)] .
  moreover have "bounded s \<Longrightarrow> bounded s'"
  proof (cases "cores s' = cores s")
    case True
    with q show "bounded s \<Longrightarrow> bounded s'" using bounded_subset [of s' s] by simp
  next
    case False
    with assms(2) obtain p' m' where n: "cores s' = cores s @ [new_core (new_address e (handles s)) p' m']"
      "p' AND NOT p = 0" "m' AND NOT m = 0" "m' AND NOT p = 0"
      by (auto simp: grows_def)
    have "core_bounded (settings s) (new_core (new_address e (handles s)) p' m')"
      using mask_sub_trans [OF n(2) assms(3)] mask_sub_trans [OF n(4) assms(3)]
        mask_sub_trans [OF n(3) assms(4)] by (simp add: core_bounded_def new_core_def)
    with n(1) q show "bounded s \<Longrightarrow> bounded s'" by (simp add: bounded_def same_queue_def)
  qed
  ultimately show ?thesis using q by (simp add: keeps_def)
qed

section \<open>Removal\<close>

lemma remove_clients_cores: "set (cores (remove_clients e P m s)) \<subseteq> set (cores s)"
proof (induction e P m s rule: remove_clients.induct)
  case (1 e P m s)
  show ?case
  proof (cases "find_index P (clients s)")
    case None
    from remove_clients_step(1) [OF None] show ?thesis by simp
  next
    case (Some i)
    obtain ok s1 where r: "remove_client_common e (notify_handle (clients s ! i))
        (notify_reference (clients s ! i)) i m s = (ok, s1)"
      by (cases "remove_client_common e (notify_handle (clients s ! i))
        (notify_reference (clients s ! i)) i m s")
    have c1: "set (cores s1) \<subseteq> set (cores s)"
      using remove_client_common_tables(2) [OF r] set_remove_at_subset [of i "cores s"] by simp
    show ?thesis
    proof (cases ok)
      case False
      with c1 remove_clients_step(2) [OF Some r] show ?thesis by simp
    next
      case True
      have "set (cores (remove_clients e P m s1)) \<subseteq> set (cores s1)"
        using 1 [OF Some r [symmetric]] True by simp
      with c1 True remove_clients_step(2) [OF Some r] show ?thesis by simp
    qed
  qed
qed

lemma remove_clients_queue: "same_queue s (remove_clients e P m s)"
proof (induction e P m s rule: remove_clients.induct)
  case (1 e P m s)
  show ?case
  proof (cases "find_index P (clients s)")
    case None
    from remove_clients_step(1) [OF None] show ?thesis by simp
  next
    case (Some i)
    obtain ok s1 where r: "remove_client_common e (notify_handle (clients s ! i))
        (notify_reference (clients s ! i)) i m s = (ok, s1)"
      by (cases "remove_client_common e (notify_handle (clients s ! i))
        (notify_reference (clients s ! i)) i m s")
    note q1 = remove_client_common_tables(4) [OF r]
    show ?thesis
      using q1 remove_clients_step(2) [OF Some r] 1 [OF Some r [symmetric]] same_queue_trans [OF q1]
      by (cases ok) simp_all
  qed
qed

lemma keeps_removal: "keeps s (after_removal (remove_clients e P m s))"
proof -
  have q: "same_queue s (after_removal (remove_clients e P m s))"
    by (rule same_queue_trans [OF remove_clients_queue after_removal_tables(3)])
  have "bounded s \<Longrightarrow> bounded (after_removal (remove_clients e P m s))"
    using bounded_subset [OF _ q] remove_clients_cores [of e P m s] by simp
  with q removal_ok show ?thesis unfolding keeps_def by blast
qed

section \<open>Registration\<close>

lemma check_names_taken:
  assumes "n = [] \<or> check_names s n" and "cores s' = cores s" and "set (services s') \<subseteq> set (services s)"
  shows "n \<notin> set (taken (cores s') (services s'))"
proof (cases "n = []")
  case True
  then show ?thesis by (simp add: taken_def)
next
  case False
  with assms(1) have n: "check_names s n" by simp
  have "core_name (client_core c) = client_name c" for c
    by (simp add: core_name_def client_core_def)
  then have "n \<notin> core_name ` set (cores s)" using n by (auto simp: check_names_def cores_def)
  moreover have "n \<notin> (service_name \<circ> snd) ` set (services s')"
    using n assms(3) by (auto simp: check_names_def)
  ultimately show ?thesis by (simp add: taken_def assms(2))
qed

lemma set_registered_keeps:
  assumes "set_registered_client_type e h n t d s = (ok, ty, s')"
    and "n \<notin> set (taken (cores s) (services s))"
  shows "keeps s s'"
proof (cases ok)
  case False
  with set_registered_tables(1-3) [OF assms(1)] show ?thesis by (intro keeps_same) simp_all
next
  case True
  note t = set_registered_tables [OF assms(1)]
  from t(4) [OF True] obtain i c where i: "i < length (clients s)" "clients s ! i = c" "client_address c = h"
    and cs: "cores s' = (cores s)[i := (h, n, ty, max_permissions c, max_new_client c)]"
    and ty: "ty AND NOT (max_permissions c) = 0" by blast
  have k: "cores s ! i = (h, client_name c, client_type c, max_permissions c, max_new_client c)"
    using i by (simp add: cores_def client_core_def)
  have il: "i < length (cores s)" using i(1) by (simp add: length_cores)
  have "server_ok s \<Longrightarrow> server_ok s'"
    using tables_ok_register [OF _ il assms(2) k ty] by (simp add: server_ok_def cs t(1))
  moreover have "bounded s \<Longrightarrow> bounded s'"
  proof -
    assume b: "bounded s"
    then have "core_bounded (settings s) (cores s ! i)" using il by (simp add: bounded_def)
    then have new: "core_bounded (settings s) (h, n, ty, max_permissions c, max_new_client c)"
      by (simp add: k core_bounded_def)
    have "set (cores s') \<subseteq> insert (h, n, ty, max_permissions c, max_new_client c) (set (cores s))"
      unfolding cs by (rule set_update_subset_insert)
    with b new t(2) show "bounded s'" by (auto simp: bounded_def same_queue_def)
  qed
  ultimately show ?thesis using t(2) by (simp add: keeps_def)
qed

lemma register_client_keeps:
  assumes "interface_register_client e h c n t d s = (ok, ty, s')"
  shows "keeps s s'"
proof (cases "check_entity_label (Some n) \<and> (n = [] \<or> check_names s n)")
  case False
  with assms show ?thesis by (auto simp: interface_register_client_def split: if_splits)
next
  case True
  let ?s1 = "snd (clear_client_monitoring h s)"
  let ?s2 = "snd (interface_deregister_all_own_services h c ?s1)"
  have s1: "keeps s ?s1" by (rule keeps_monitoring) (rule monitoring_only)
  have s2: "cores ?s2 = cores s" "set (services ?s2) \<subseteq> set (services s)" "keeps ?s1 ?s2"
    by (auto simp: interface_deregister_all_own_services_def intro: keeps_filter)
  have r: "set_registered_client_type e h n t d ?s2 = (ok, ty, s')"
    using assms True by (auto simp: interface_register_client_def Let_def)
  have "n \<notin> set (taken (cores ?s2) (services ?s2))"
    by (rule check_names_taken [OF _ s2(1,2)]) (use True in blast)
  from set_registered_keeps [OF r this] show ?thesis
    using keeps_trans [OF s1 keeps_trans [OF s2(3)]] by blast
qed

section \<open>The calls of the interface\<close>

named_theorems keeps_rules

lemma get_client_cores: "get_client_id h s = Some c \<Longrightarrow> h \<in> fst ` set (cores s)"
proof -
  assume g: "get_client_id h s = Some c"
  obtain i where i: "i < length (clients s)" "clients s ! i = c" "client_address c = h"
    using get_client_index [OF g] by metis
  then have "c \<in> set (clients s)" by auto
  then have "client_core c \<in> set (cores s)" by (simp add: cores_def)
  moreover have "fst (client_core c) = h" by (simp add: client_core_def i(3))
  ultimately show ?thesis by (metis imageI)
qed

lemma guarded_keeps:
  "(\<And>c. get_client_id h s = Some c \<Longrightarrow> keeps s (snd (f c s))) \<Longrightarrow> keeps s (snd (guarded r h f s))"
  by (simp add: guarded_def on_client_def split: option.split)

lemma register_service_keeps:
  assumes "get_client_id h s = Some c"
  shows "keeps s (snd (interface_register_service h n t l s))"
proof (cases "check_names s n \<and> check_entity_label (Some n) \<and> check_address_label (Some l) \<and>
    length (services s) < unat (max_services (parameters s))")
  case False
  then show ?thesis
    by (auto simp: interface_register_service_def intro: keeps_monitoring monitoring_only)
next
  case True
  let ?r = "registered_service_of n t l"
  have "service_name ?r \<notin> set (taken (cores s) (services s))"
    using check_names_taken [of n s s] True by (simp add: registered_service_of_def)
  then have "server_ok s \<Longrightarrow> tables_ok (cores s) (services s @ [(h, ?r)])"
    using tables_ok_add_service get_client_cores [OF assms] by (simp add: server_ok_def)
  then have "keeps s (snd (add_client_service h n t l s))"
    using bounded_subset [of "snd (add_client_service h n t l s)" s]
    unfolding keeps_def by (simp add: server_ok_def)
  then show ?thesis using True by (simp add: interface_register_service_def)
qed

lemma service_calls_keep [keeps_rules]:
  "keeps s (snd (server_register_service h n t l s))"
  "keeps s (snd (server_deregister_own_service h n s))"
  "keeps s (snd (server_deregister_all_own_services h s))"
  "keeps s (snd (server_deregister_remote_services h n s))"
  unfolding server_register_service_def server_deregister_own_service_def
    server_deregister_all_own_services_def server_deregister_remote_services_def
  by (rule guarded_keeps, erule register_service_keeps,
    rule guarded_keeps, simp add: interface_deregister_own_service_def keeps_filter,
    rule guarded_keeps, simp add: interface_deregister_all_own_services_def keeps_filter,
    rule guarded_keeps, simp add: interface_deregister_remote_services_def keeps_filter)

lemma find_calls_keep [keeps_rules]:
  "keeps s (snd (server_find_registered_services e h a n t s))"
  "keeps s (snd (server_find_registered_clients e h a n i x s))"
  "keeps s (snd (server_find_typed_clients e h a n i s))"
  unfolding server_find_registered_services_def server_find_registered_clients_def
    server_find_typed_clients_def on_client_def
  by (rule guarded_keeps, rule keeps_output, rule message_only,
    rule guarded_keeps, rule keeps_output, rule message_only)
    (simp add: keeps_output [OF send_server_response_list_only] split: option.split)

lemma create_keeps:
  assumes "env_ok e"
  shows "keeps s (snd (interface_create_system_client e cmd u g pri q r h s))"
    and "keeps s (snd (interface_create_exec_client e args u g pri q r h s))"
proof -
  have m: "keeps s (monitor_server_limit t v s)" for t v
    by (rule keeps_monitoring) (rule monitoring_only)
  have sub: "(q AND x) AND NOT x = 0" "(q AND x AND y) AND NOT y = 0" for x y
    by (simp_all add: bit_eq_iff bit_simps)
  let ?x = "srv_max_permissions (settings s)" and ?y = "srv_max_new_client (settings s)"
  have "keeps s (snd (add_system_client e cmd u' g' pri' (q AND ?x) (q AND ?x AND ?y) k r h s))" for u' g' pri' k
    by (rule keeps_grows [OF assms add_system_client_grows [OF prod.collapse [symmetric]] sub])
  with m show "keeps s (snd (interface_create_system_client e cmd u g pri q r h s))"
    by (simp add: interface_create_system_client_def)
  have "keeps s (snd (add_exec_client e args u' g' pri' (q AND ?x) (q AND ?x AND ?y) k r h s))" for u' g' pri' k
    by (rule keeps_grows [OF assms add_exec_client_grows [OF prod.collapse [symmetric]] sub])
  with m show "keeps s (snd (interface_create_exec_client e args u g pri q r h s))"
    by (simp add: interface_create_exec_client_def)
qed

lemma check_all_sub: "check_all x m \<longleftrightarrow> m AND NOT x = (0::mask16)"
  by (auto simp: check_all_bits bit_eq_iff bit_simps)

lemma attach_keeps:
  assumes "env_ok e"
  shows "keeps s (snd (interface_connect_detached_client e sock pri p r h s))"
proof (cases "check_all (srv_max_permissions (settings s)) type_detached_client")
  case False
  then show ?thesis
    by (auto simp: interface_connect_detached_client_def intro: keeps_monitoring monitoring_only)
next
  case True
  let ?x = "srv_max_permissions (settings s)" and ?m = "security_mask_detached"
  have "(p AND ?x AND ?m) AND NOT ?x = 0" by (simp add: bit_eq_iff bit_simps)
  moreover have "type_detached_client AND NOT ?x = 0" using True by (simp add: check_all_sub)
  ultimately have w: "((p AND ?x AND ?m) OR type_detached_client) AND NOT ?x = 0" by (rule mask_or_sub)
  have "keeps s (snd (add_detached_client e sock pri' (p AND ?x AND ?m) r h s))" for pri'
    by (rule keeps_grows [OF assms add_detached_grows [OF prod.collapse [symmetric]] w]) simp
  moreover have "keeps s (monitor_server_limit t v s)" for t v
    by (rule keeps_monitoring) (rule monitoring_only)
  ultimately show ?thesis by (simp add: interface_connect_detached_client_def)
qed

lemma creation_calls_keep [keeps_rules]:
  assumes "env_ok e"
  shows "keeps s (snd (server_create_system_client e h a cmd u g pri p s))"
    "keeps s (snd (server_create_exec_client e h a args u g pri p s))"
    "keeps s (snd (server_connect_detached_client e h a sock pri p s))"
proof -
  show "keeps s (snd (server_create_system_client e h a cmd u g pri p s))"
    "keeps s (snd (server_create_exec_client e h a args u g pri p s))"
    using create_keeps [OF assms]
    by (simp_all add: server_create_system_client_def server_create_exec_client_def on_client_def
        split: option.split)
  show "keeps s (snd (server_connect_detached_client e h a sock pri p s))"
    unfolding server_connect_detached_client_def
    by (rule guarded_keeps) (simp add: attach_keeps [OF assms])
qed

lemma running_keeps:
  "keeps s (snd (terminate_running_client e h m s))" "keeps s (snd (remove_client_pid e p m s))"
  "keeps s (snd (remove_client_expression e p n m s))"
proof -
  show "keeps s (snd (terminate_running_client e h m s))"
    unfolding terminate_running_client_def snd_conv by (rule keeps_removal)
  show "keeps s (snd (remove_client_pid e p m s))"
    unfolding remove_client_pid_def if_distrib [of snd] snd_conv
    by (rule keeps_if [OF keeps_refl keeps_removal])
  show "keeps s (snd (remove_client_expression e p n m s))"
    unfolding remove_client_expression_def if_distrib [of snd] snd_conv
    by (rule keeps_if [OF keeps_refl keeps_removal])
qed

lemma removal_calls_keep [keeps_rules]:
  "keeps s (snd (server_terminate_client e h n s))" "keeps s (snd (server_kill_client e h n s))"
  "keeps s (snd (server_terminate_find_client e h n s))" "keeps s (snd (server_kill_find_client e h n s))"
  "keeps s (snd (server_terminate_pid_client e h p s))" "keeps s (snd (server_kill_pid_client e h p s))"
  unfolding server_terminate_client_def server_kill_client_def server_terminate_find_client_def
    server_kill_find_client_def server_terminate_pid_client_def server_kill_pid_client_def
    interface_terminate_client_def interface_kill_client_def interface_terminate_find_client_def
    interface_kill_find_client_def interface_terminate_pid_client_def interface_kill_pid_client_def
  by (rule guarded_keeps, simp add: running_keeps split: option.split)+

lemma exit_server_keeps: "keeps s (snd (exit_server s))"
  by (rule keeps_same) simp_all

lemma other_calls_keep [keeps_rules]:
  "keeps s (snd (server_indicate_ready e h s))" "keeps s (snd (server_terminate_server h s))"
  "keeps s (snd (server_return_terminal e h s))" "keeps s (snd (server_set_monitor_types h ev s))"
  "keeps s (snd (server_deregister_monitor h s))"
  unfolding server_indicate_ready_def on_client_def server_terminate_server_def
    server_return_terminal_def server_set_monitor_types_def server_deregister_monitor_def
  by (simp add: keeps_same split: option.split,
    rule guarded_keeps, rule exit_server_keeps,
    rule guarded_keeps, simp add: keeps_terminal [OF return_terminal_only],
    rule guarded_keeps, rule keeps_monitoring, rule monitoring_only,
    rule guarded_keeps, rule keeps_monitoring, rule monitoring_only)

lemma exit_monitor_calls_keep [keeps_rules]:
  "keeps s (snd (server_monitor_disconnect h n s))" "keeps s (snd (server_unmonitor_disconnect h n s))"
proof -
  have m: "keeps s (snd (add_exit_monitor h a n s))" "keeps s (snd (remove_exit_monitor h a n s))" for a
    by (rule keeps_monitoring, rule monitoring_only)+
  show "keeps s (snd (server_monitor_disconnect h n s))" "keeps s (snd (server_unmonitor_disconnect h n s))"
    unfolding server_monitor_disconnect_def server_unmonitor_disconnect_def
      interface_monitor_disconnect_def interface_unmonitor_disconnect_def
    by (rule guarded_keeps, simp add: m split: option.split)+
qed

lemma request_terminal_keeps [keeps_rules]: "keeps s (snd (server_request_terminal e h a s))"
proof -
  have r: "keeps s (snd (interface_request_terminal e p q t pri s))" for p q t pri
    using keeps_terminal [OF take_terminal_only] by (simp add: interface_request_terminal_def split_beta)
  have m: "keeps s (monitor_terminal_rejected p s)" for p
    by (rule keeps_monitoring) (rule monitoring_only)
  show ?thesis
    using r m by (simp add: server_request_terminal_def on_client_def split_beta split: option.split)
qed

lemma register_call_keeps [keeps_rules]:
  "server_register_client e h n t d s = (ok, ty, s') \<Longrightarrow> keeps s s'"
  by (auto simp: server_register_client_def on_client_def dest: register_client_keeps split: option.splits)

end
