(* ===== verification/Exec_Tables.thy ===== *)
theory Exec_Tables
  imports Server_Exec Interface_Tables
begin

text \<open>
  What the execution thread keeps. Evaluating a command keeps what its calls of the interface
  keep; routing a command may put it back into the queue, which stays in order; the cache only
  gets shorter, so \<open>internal_execute\<close> ends.
\<close>

section \<open>Evaluation\<close>

lemma eval_result_snd [simp]: "snd (eval_result r) = snd r" "snd (eval_quiet r) = snd r"
  by (simp_all add: eval_result_def eval_quiet_def)

lemma response_keeps [keeps_rules]:
  "keeps s (snd (send_server_response e c ev s))" "keeps s (snd (create_manual_response e c b s))"
  "keeps s (snd (create_auto_response e c ev m s))"
  by (rule keeps_output, rule message_only)+

lemma evaluate_register_keeps [keeps_rules]:
  "keeps s (snd (evaluate_register_client e h c n t d s))"
  by (auto simp: evaluate_register_client_def response_keeps split: prod.split
      intro: keeps_trans [OF register_call_keeps] register_call_keeps)

lemma evaluate_create_keeps [keeps_rules]:
  assumes "env_ok e"
  shows "keeps s (snd (evaluate_create_client e h c ty pid u g pri p cmd s))"
proof -
  note k = creation_calls_keep [OF assms]
  show ?thesis
    unfolding evaluate_create_client_def
    using k(1,2) keeps_trans [OF k(1) response_keeps(3)] keeps_trans [OF k(2) response_keeps(3)]
    by (simp add: split_beta)
qed

lemma term_or_kill_keeps:
  "keeps s (snd (t s)) \<Longrightarrow> keeps s (snd (k s)) \<Longrightarrow> keeps s (snd (term_or_kill ty t k s))"
  by (simp add: term_or_kill_def)

lemma service_answer_keeps:
  "keeps s (snd r) \<Longrightarrow> keeps s (snd (service_answer e c a n r))"
  by (simp add: service_answer_def keeps_trans [OF _ response_keeps(2)])

lemma evaluate_body_keeps [keeps_rules]:
  assumes "env_ok e"
  shows "keeps s (snd (evaluate_body e h c b s))"
proof (cases b)
  case (Common_Command x)
  then show ?thesis by (cases x) (simp_all add: keeps_rules)
next
  case (Server_Command x)
  then show ?thesis by (cases x) simp_all
next
  case (Admin_Command x)
  then show ?thesis
    by (cases x) (simp_all add: keeps_rules creation_calls_keep [OF assms] evaluate_create_keeps [OF assms]
        term_or_kill_keeps)
next
  case (Resource_Command x)
  then show ?thesis by (cases x) (simp_all add: keeps_rules service_answer_keeps)
next
  case (Service_Command x)
  then show ?thesis by (cases x) (simp_all add: keeps_rules)
qed simp

lemma evaluate_server_keeps [keeps_rules]:
  assumes "env_ok e"
  shows "keeps s (snd (evaluate_server e h c s))"
proof -
  have "keeps s (snd (if ev \<noteq> event_none \<and> \<not> silent_auto_response c
      then send_server_response e c ev s1 else (True, s1)))" if "keeps s s1" for ev s1
    using that keeps_trans [OF that response_keeps(1)] by simp
  with evaluate_body_keeps [OF assms] show ?thesis
    by (simp add: evaluate_server_def response_keeps split_beta split: option.split)
qed

lemma update_client_keeps:
  "(\<And>c. client_core (f c) = client_core c) \<Longrightarrow> keeps s (update_client h f s)"
  by (rule keeps_same) (simp_all add: frame_simps)

lemma validate_and_execute_keeps [keeps_rules]:
  assumes "env_ok e"
  shows "keeps s (snd (validate_and_execute e h c s))"
proof -
  have u: "keeps s (update_client h (\<lambda>c. c\<lparr>total_invalid := f c\<rparr>) s)"
    "keeps s (update_client h (\<lambda>c. c\<lparr>total_errors := f c\<rparr>) s)" for f
    by (simp_all add: update_client_keeps)
  from u keeps_trans [OF u(2) evaluate_server_keeps [OF assms]] show ?thesis
    by (simp add: validate_and_execute_def split: option.split execution.split)
qed

section \<open>Routing\<close>

text \<open>What routing a command may change: counters of clients, the outbox, and the queue, which
  stays in order.\<close>

definition routes :: "command_transmit \<Rightarrow> server \<Rightarrow> server \<Rightarrow> bool" where
  "routes c s s' \<longleftrightarrow> cores s' = cores s \<and> services s' = services s \<and> settings s' = settings s \<and>
     counter s' = counter s \<and> command_cache s' = command_cache s \<and> server_name s' = server_name s \<and>
     exit_status s' = exit_status s \<and>
     (server_queue_ok s \<and> wait_start c \<le> counter s \<longrightarrow> server_queue_ok s')"

lemma routes_trans: "routes c a b \<Longrightarrow> routes c b d \<Longrightarrow> routes c a d"
  by (simp add: routes_def)

lemma routes_keeps:
  "cores s' = cores s \<Longrightarrow> services s' = services s \<Longrightarrow> same_queue s s' \<Longrightarrow> routes c s s'"
  by (simp add: routes_def same_queue_def server_queue_ok_def parameters_def)

lemma routes_output: "only_output s s' \<Longrightarrow> routes c s s'"
  by (rule routes_keeps) (simp_all add: only_output_tables)

lemma routes_update: "(\<And>c. client_core (f c) = client_core c) \<Longrightarrow> routes k s (update_client h f s)"
  by (rule routes_keeps) (simp_all add: frame_simps)

lemma routes_response: "routes c s (snd (send_server_response e k ev s))"
  by (rule routes_output) (rule message_only)

lemma routes_refuse: "routes c s (snd (refuse e h k r s))"
proof -
  have "client_core (count_error x k) = client_core k" for x k
    by (cases x) (simp_all add: count_error_def)
  then have "routes c s (update_client h (count_error (fst r)) s)" by (rule routes_update)
  from routes_trans [OF this routes_response] show ?thesis by (simp add: refuse_def)
qed

lemma queue_new_execute_cache:
  "command_cache (queue_new_execute e x s) = command_cache s"
  "exit_status (queue_new_execute e x s) = exit_status s"
  using only_output_fields(7,13) [OF send_server_response_only]
  by (simp_all add: queue_new_execute_def update_commands_def Let_def)

lemma routes_requeue:
  assumes "wait_start k = wait_start c"
  shows "routes c s (snd (requeue e h k s))"
proof -
  let ?s1 = "queue_new_execute e (h, k) s"
  have "routes c s ?s1"
    unfolding routes_def using assms queue_new_execute_ok [of s "(h, k)" e]
    by (simp add: queue_new_execute_commands queue_new_execute_cache cores_def)
  from routes_trans [OF this routes_update] show ?thesis
    by (simp add: requeue_def requeue_server_command_def)
qed

lemma command_sendable_wait: "wait_start (snd (command_sendable l c)) = wait_start c"
  by (simp add: command_sendable_def assemble_command_def split: option.split)

lemma routes_deliver:
  assumes "wait_start k = wait_start c"
  shows "routes c s (snd (deliver e h r k s))"
proof -
  obtain ok k1 where k: "command_sendable (local_server s) k = (ok, k1)"
    by (cases "command_sendable (local_server s) k")
  have w: "wait_start k1 = wait_start c" using command_sendable_wait [of "local_server s" k] k assms by simp
  obtain sent s1 where s1: "(if ok then send_protected_output e r k1 s else (False, s)) = (sent, s1)"
    by (cases "if ok then send_protected_output e r k1 s else (False, s)")
  have "routes c s (snd (if ok then send_protected_output e r k1 s else (False, s)))"
    using routes_output [OF send_protected_only] routes_keeps [of s s c] by simp
  then have q: "routes c s s1" unfolding s1 by simp
  have w2: "wait_start (k1\<lparr>penalty := p\<rparr>) = wait_start c" for p using w by simp
  show ?thesis
    using routes_trans [OF q routes_response] routes_trans [OF q routes_requeue [OF w2]]
      routes_trans [OF q routes_update]
    by (simp add: deliver_def k s1)
qed

lemma find_command_wait: "wait_start (snd (find_command l c)) = wait_start c"
  by (auto simp: find_command_def empty_server_command_def set_command_def Let_def
      split: prod.splits option.splits if_splits)

lemma route_receiver_wait:
  "route_receiver s c = Receiver r v k \<Longrightarrow> wait_start k = wait_start c"
  "route_receiver s c = Server_Itself k \<Longrightarrow> wait_start k = wait_start c"
  by (auto simp: route_receiver_def Let_def split: option.splits prod.splits if_splits)

lemma routes_reparse:
  assumes "wait_start k = wait_start c"
  shows "routes c s (snd (reparse_for_server e h k s))"
  using routes_response [of c s e k event_error] routes_requeue [of "snd (find_command (local_server s) k)" c s e h]
    find_command_wait [of "local_server s" k] assms
  by (simp add: reparse_for_server_def split_beta)

lemma routes_command: "routes c s (snd (send_client_command e h c s))"
proof (cases "h = 0 \<or> get_client_id h s = None")
  case True
  then show ?thesis by (auto simp: send_client_command_def routes_keeps)
next
  case False
  then obtain k where k: "get_client_id h s = Some k" "h \<noteq> 0" by auto
  show ?thesis
  proof (cases "route_sender s k c")
    case (Some r)
    with k show ?thesis by (simp add: send_client_command_def routes_refuse)
  next
    case None
    with k show ?thesis
      by (auto simp: send_client_command_def routes_refuse routes_reparse routes_deliver
          dest: route_receiver_wait split: receiver.split option.split)
  qed
qed

end
