(* ===== verification/Execution.thy ===== *)
theory Execution
  imports Exec_Tables
begin

text \<open>
  The execution thread as a whole: \<open>internal_execute\<close> with its termination, the invariant of the
  tables, the queue and the cache, and what the thread guarantees about new clients. Two
  deviations of the code from its comments are stated as theorems: the origin of a server command
  is hardly ever checked, and a command that fails takes the next one with it.
\<close>

section \<open>The invariant\<close>

definition cache_ok :: "server \<Rightarrow> bool" where
  "cache_ok s \<longleftrightarrow> (\<forall>x \<in> set (command_cache s). wait_start (snd x) \<le> counter s)"

definition run_ok :: "server \<Rightarrow> bool" where
  "run_ok s \<longleftrightarrow> server_ok s \<and> bounded s \<and> server_queue_ok s \<and> cache_ok s"

lemma keeps_run_ok: "keeps s s' \<Longrightarrow> run_ok s \<Longrightarrow> run_ok s'"
  by (simp add: run_ok_def keeps_def cache_ok_def server_queue_ok_def same_queue_def parameters_def)

lemma routes_run_ok: "routes c s s' \<Longrightarrow> wait_start c \<le> counter s \<Longrightarrow> run_ok s \<Longrightarrow> run_ok s'"
  by (simp add: run_ok_def routes_def cache_ok_def server_ok_def bounded_def)

lemma set_cache_run_ok: "set q \<subseteq> set (command_cache s) \<Longrightarrow> run_ok s \<Longrightarrow> run_ok (set_cache q s)"
  by (auto simp: run_ok_def set_cache_def cache_ok_def server_queue_ok_def parameters_def
      server_ok_def bounded_def cores_def)

lemma set_cache_cache [simp]: "command_cache (set_cache q s) = q"
  by (simp add: set_cache_def)

lemma keeps_cache: "keeps s s' \<Longrightarrow> command_cache s' = command_cache s"
  by (simp add: keeps_def same_queue_def)

lemma decrement_keeps: "keeps s (snd (decrement_client_waiting h s))"
  by (rule keeps_same) simp_all

section \<open>One command\<close>

lemma execute_single_cache:
  assumes "command_cache s = (h, c) # rest" and "execute_single e s = (ok, s')"
  shows "command_cache s' = rest \<or>
    \<not> ok \<and> get_client_id h s = None \<and> command_cache s' = filter (\<lambda>x. fst x \<noteq> h) rest"
proof -
  obtain known s1 where d: "decrement_client_waiting h s = (known, s1)"
    by (cases "decrement_client_waiting h s")
  have known: "known = (get_client_id h s \<noteq> None)"
    using d by (auto simp: decrement_client_waiting_def split: option.splits)
  have all: "command_cache (send_all_monitor_updates e (set_cache rest s2)) = rest" for s2
    using only_monitoring_tables [OF send_all_monitor_updates_monitoring]
    by (simp add: same_queue_def)
  show ?thesis
    using assms d known all by (auto simp: execute_single_def split: if_splits prod.splits)
qed

lemma updates_keep: "keeps s (send_all_monitor_updates e s)"
  by (rule keeps_monitoring) (rule send_all_monitor_updates_monitoring)

lemma execute_single_ok:
  assumes "env_ok e" and "run_ok s"
  shows "run_ok (snd (execute_single e s))"
proof (cases "command_cache s")
  case Nil
  with assms show ?thesis by (simp add: execute_single_def)
next
  case (Cons x rest)
  obtain h c where x: "x = (h, c)" by (cases x)
  obtain known s1 where d: "decrement_client_waiting h s = (known, s1)"
    by (cases "decrement_client_waiting h s")
  have k1: "keeps s s1" using decrement_keeps [of s h] d by simp
  have r1: "run_ok s1" "counter s1 = counter s" "command_cache s1 = (h, c) # rest"
    using k1 keeps_run_ok [OF k1 assms(2)] Cons x by (simp_all add: keeps_def same_queue_def)
  have w: "wait_start c \<le> counter s1"
    using assms(2) Cons x r1(2) by (simp add: run_ok_def cache_ok_def)
  have sub: "set q \<subseteq> set (command_cache t) \<Longrightarrow> run_ok t \<Longrightarrow> run_ok (set_cache q t)" for q t
    by (rule set_cache_run_ok)
  have routed: "run_ok (set_cache rest (snd (send_client_command e h c s1)))"
    by (rule sub [OF _ routes_run_ok [OF routes_command w r1(1)]])
      (use routes_command [of c s1 e h] r1(3) in \<open>auto simp: routes_def\<close>)
  have v: "keeps s1 (snd (validate_and_execute e h c s1))"
    by (rule validate_and_execute_keeps [OF assms(1)])
  have executed: "run_ok (send_all_monitor_updates e (set_cache rest (snd (validate_and_execute e h c s1))))"
    by (rule keeps_run_ok [OF updates_keep sub [OF _ keeps_run_ok [OF v r1(1)]]])
      (use keeps_cache [OF v] r1(3) in auto)
  have gone: "run_ok (set_cache (filter (\<lambda>x. fst x \<noteq> h) (command_cache s)) s1)" "run_ok (set_cache rest s1)"
    by (rule sub [OF _ r1(1)]; use r1(3) Cons x in auto)+
  show ?thesis
    using routed executed gone by (simp add: execute_single_def Cons x d split_beta)
qed

lemma set_tl_subset: "set (tl xs) \<subseteq> set xs"
  by (cases xs) auto

lemma step_ok:
  assumes "env_ok e" and "run_ok s"
  shows "run_ok (internal_execute_step e s)"
proof -
  obtain ok s1 where r: "execute_single e s = (ok, s1)" by (cases "execute_single e s")
  have "run_ok s1" using execute_single_ok [OF assms] r by simp
  with set_cache_run_ok [OF set_tl_subset] show ?thesis by (simp add: internal_execute_step_def r)
qed

lemma step_shorter:
  assumes "command_cache s \<noteq> []"
  shows "length (command_cache (internal_execute_step e s)) < length (command_cache s)"
proof -
  obtain h c rest where cs: "command_cache s = (h, c) # rest" using assms by (cases "command_cache s") auto
  obtain ok s1 where r: "execute_single e s = (ok, s1)" by (cases "execute_single e s")
  have "length (command_cache s1) \<le> length rest"
    using execute_single_cache [OF cs r] length_filter_le [of "\<lambda>x. fst x \<noteq> h" rest] by auto
  then have "length (command_cache s1) < Suc (length rest)" "length (command_cache s1) - 1 < Suc (length rest)"
    by linarith+
  then show ?thesis using cs by (simp add: internal_execute_step_def r)
qed

section \<open>The loop\<close>

function internal_execute :: "env \<Rightarrow> server \<Rightarrow> server" where
  "internal_execute e s = (if server_busy s then internal_execute e (internal_execute_step e s) else s)"
  by auto
termination
  by (relation "measure (\<lambda>(e, s). length (command_cache s))") (simp_all add: server_busy_def step_shorter)

declare internal_execute.simps [simp del]

lemma internal_execute_invariant:
  "env_ok e \<Longrightarrow> run_ok s \<Longrightarrow> run_ok (internal_execute e s) \<and> \<not> server_busy (internal_execute e s)"
proof (induction e s rule: internal_execute.induct)
  case (1 e s)
  then show ?case
    using step_ok [of e s] by (subst (1 2) internal_execute.simps) (cases "server_busy s", simp_all)
qed

text \<open>
  C2. The execution thread works off its cache: \<open>internal_execute\<close> ends with an empty cache or with
  the server told to leave, and whatever commands it executed, the tables are consistent, the
  queue is in order, and no client's permissions exceed what the server allows.
\<close>

theorem internal_execute_drains:
  assumes "env_ok e" and "run_ok s"
  shows "(command_cache (internal_execute e s) = [] \<or> exit_flag (internal_execute e s) \<or>
      exit_status (internal_execute e s)) \<and>
    server_ok (internal_execute e s) \<and> server_queue_ok (internal_execute e s) \<and>
    bounded (internal_execute e s)"
  using internal_execute_invariant [OF assms] by (auto simp: run_ok_def server_busy_def)

theorem internal_execute_drains_witness:
  "command_cache (internal_execute tiny_env ((tiny_server [])\<lparr>command_cache := [(4, new_transmit 1)],
     exit_status := False\<rparr>)) = [] \<or>
   exit_flag (internal_execute tiny_env ((tiny_server [])\<lparr>command_cache := [(4, new_transmit 1)],
     exit_status := False\<rparr>)) \<or>
   exit_status (internal_execute tiny_env ((tiny_server [])\<lparr>command_cache := [(4, new_transmit 1)],
     exit_status := False\<rparr>))"
proof -
  let ?s = "(tiny_server [])\<lparr>command_cache := [(4, new_transmit 1)], exit_status := False\<rparr>"
  note tiny_env_ok
  moreover have "run_ok ?s"
    by (simp add: run_ok_def server_ok_def tables_ok_def bounded_def cores_def tiny_server_def
        server_queue_ok_def queue_ok_def heap_ok_def cache_ok_def new_transmit_def taken_def
        clear_info_def command_info.defs)
  ultimately show ?thesis using internal_execute_drains by blast
qed

section \<open>Permissions of new clients\<close>

lemma create_grows:
  assumes "interface_create_system_client e cmd u g pri p r h s = (pid, s') \<or>
    interface_create_exec_client e args u g pri p r h s = (pid, s')"
  shows "grows e (p AND srv_max_permissions (settings s)) (p AND srv_max_new_client (settings s)) s s' \<and>
    (cores s' \<noteq> cores s \<longrightarrow> length (clients s) < unat (max_clients (parameters s)))"
proof -
  let ?x = "srv_max_permissions (settings s)" and ?y = "srv_max_new_client (settings s)"
  have sub: "(p AND ?x) AND NOT (p AND ?x) = 0" "(p AND ?x AND ?y) AND NOT (p AND ?y) = 0"
    by (simp_all add: bit_eq_iff bit_simps)
  have m: "grows e a b s (monitor_server_limit n v s)" for a b n v
    by (simp add: grows_same)
  have sys: "add_system_client e cmd u' g' pri' (p AND ?x) (p AND ?x AND ?y) k r h s = (pid, s') \<Longrightarrow>
      grows e (p AND ?x) (p AND ?y) s s'" for u' g' pri' k
    by (rule grows_mono [OF add_system_client_grows sub])
  have exec: "add_exec_client e args u' g' pri' (p AND ?x) (p AND ?x AND ?y) k r h s = (pid, s') \<Longrightarrow>
      grows e (p AND ?x) (p AND ?y) s s'" for u' g' pri' k
    by (rule grows_mono [OF add_exec_client_grows sub])
  show ?thesis
  proof (cases "length (clients s) < unat (max_clients (parameters s))")
    case False
    with assms have "s' = monitor_server_limit ''max_clients'' (max_clients (parameters s)) s"
      by (auto simp: interface_create_system_client_def interface_create_exec_client_def)
    with m show ?thesis by simp
  next
    case True
    have "grows e (p AND ?x) (p AND ?y) s s'" if "interface_create_system_client e cmd u g pri p r h s = (pid, s')"
      using that True
      by (auto simp: interface_create_system_client_def grows_same split: if_splits elim: sys)
    moreover have "grows e (p AND ?x) (p AND ?y) s s'" if "interface_create_exec_client e args u g pri p r h s = (pid, s')"
      using that True
      by (auto simp: interface_create_exec_client_def grows_same split: if_splits elim: exec)
    ultimately show ?thesis using assms True by blast
  qed
qed

lemma response_grows:
  "grows e p m s s1 \<Longrightarrow> only_output s1 s2 \<Longrightarrow> grows e p m s s2"
  using only_output_tables [of s1 s2] same_queue_trans [of s s1 s2] by (simp add: grows_def)

lemma evaluate_create_calls:
  assumes "evaluate_create_client e h c ty pid u g pri p args s = (ev, s')"
  shows "s' = s \<or> (\<exists>x s1. (server_create_system_client e h c (hd args) (unat u) (unat g) pri p s = (x, s1) \<or>
    server_create_exec_client e h c args (unat u) (unat g) pri p s = (x, s1)) \<and> only_output s1 s')"
proof -
  let ?sys = "server_create_system_client e h c (hd args) (unat u) (unat g) pri p s"
  let ?exec = "server_create_exec_client e h c args (unat u) (unat g) pri p s"
  let ?r = "if ty = CREATE_SYSTEM then (if length args \<noteq> 1 then None else Some ?sys)
    else if ty = CREATE_EXEC then (if length args < 1 then None else Some ?exec) else None"
  show ?thesis
  proof (cases ?r)
    case None
    with assms show ?thesis unfolding evaluate_create_client_def by simp
  next
    case (Some y)
    obtain x s1 where y: "y = (x, s1)" by (cases y)
    have "?sys = (x, s1) \<or> ?exec = (x, s1)" using Some y by (auto split: if_splits)
    moreover have "(ev, s') = (if x < 0 then (event_rejected, s1) else if \<not> pid then (event_complete, s1)
        else eval_quiet (create_auto_response e c event_complete (convert_integer10 x) s1))"
      using assms unfolding evaluate_create_client_def Some y by simp
    then have "s' = s1 \<or> s' = snd (create_auto_response e c event_complete (convert_integer10 x) s1)"
      by (simp add: eval_quiet_def split: if_splits)
    then have "only_output s1 s'" using create_auto_response_only by auto
    ultimately show ?thesis by blast
  qed
qed

lemma server_create_within:
  assumes "server_create_system_client e h cmd a u g pri perm s = (x, s') \<or>
    server_create_exec_client e h cmd args u g pri perm s = (x, s')"
    and "cores s' \<noteq> cores s"
  shows "\<exists>c. get_client_id h s = Some c \<and> check_all (client_type c) type_admin_client \<and>
    length (clients s) < unat (max_clients (parameters s)) \<and>
    grows e (perm AND max_new_client c AND srv_max_permissions (settings s))
      (perm AND max_new_client c AND srv_max_new_client (settings s)) s s'"
proof -
  obtain c where c: "get_client_id h s = Some c" "check_all (client_type c) type_admin_client"
    using assms by (auto simp: server_create_system_client_def server_create_exec_client_def on_client_def
        split: option.splits if_splits)
  then have "interface_create_system_client e a u g pri (perm AND max_new_client c) (orig_reference cmd) h s = (x, s') \<or>
      interface_create_exec_client e args u g pri (perm AND max_new_client c) (orig_reference cmd) h s = (x, s')"
    using assms(1) by (auto simp: server_create_system_client_def server_create_exec_client_def on_client_def)
  from create_grows [OF this] assms(2) c show ?thesis by (auto simp: and.assoc)
qed

text \<open>
  C4. No privilege is gained by starting clients: evaluating a request for a new client adds at most
  one client, only for an administrator and below the limit of clients, and what the new client may
  register as, and what it may hand on in turn, lies within what its creator may hand on and within
  the server's own maximum.
\<close>

theorem created_within_creator:
  assumes "evaluate_admin e h cmd (Create_Client ty pid u g pri perm opt args) s = (ev, s')"
    and "cores s' \<noteq> cores s"
  shows "\<exists>c k. get_client_id h s = Some c \<and> check_all (client_type c) type_admin_client \<and>
    length (clients s) < unat (max_clients (parameters s)) \<and> cores s' = cores s @ [k] \<and>
    (case k of (a, n, t, p, m) \<Rightarrow> t = type_none \<and>
       p AND NOT (perm AND max_new_client c AND srv_max_permissions (settings s)) = 0 \<and>
       m AND NOT (perm AND max_new_client c AND srv_max_new_client (settings s)) = 0)"
proof -
  have "evaluate_create_client e h cmd ty pid u g pri perm args s = (ev, s')" using assms(1) by simp
  from evaluate_create_calls [OF this] assms(2)
  obtain x s1 where call: "server_create_system_client e h cmd (hd args) (unat u) (unat g) pri perm s = (x, s1) \<or>
      server_create_exec_client e h cmd args (unat u) (unat g) pri perm s = (x, s1)"
    and out: "only_output s1 s'" by blast
  have "cores s' = cores s1" using out by (simp add: only_output_tables)
  with server_create_within [OF call] assms(2) out obtain c where c: "get_client_id h s = Some c"
    "check_all (client_type c) type_admin_client" "length (clients s) < unat (max_clients (parameters s))"
    and g: "grows e (perm AND max_new_client c AND srv_max_permissions (settings s))
      (perm AND max_new_client c AND srv_max_new_client (settings s)) s s'"
    using response_grows by auto
  from g assms(2) obtain p' m' where "cores s' = cores s @ [new_core (new_address e (handles s)) p' m']"
    "p' AND NOT (perm AND max_new_client c AND srv_max_permissions (settings s)) = 0"
    "m' AND NOT (perm AND max_new_client c AND srv_max_new_client (settings s)) = 0"
    by (auto simp: grows_def)
  with c show ?thesis
    by (intro exI [of _ c] exI [of _ "new_core (new_address e (handles s)) p' m'"])
      (simp add: new_core_def flag_defs)
qed

definition admin_client :: client_id where
  "admin_client = (new_client_id 4)\<lparr>client_name := ''adm'', process_id := 7, attached_client := True,
     client_type := type_admin_client OR type_any_client OR type_active_client,
     max_permissions := type_default_allowed, max_new_client := type_resource_client OR type_any_client\<rparr>"

theorem created_within_creator_witness:
  "\<exists>k. cores (snd (evaluate_admin tiny_env 4 (new_transmit 1)
      (Create_Client CREATE_SYSTEM False 0 0 0 (type_resource_client OR type_admin_client) 0 [''cmd''])
      (tiny_server [admin_client]))) = cores (tiny_server [admin_client]) @ [k]"
proof -
  let ?b = "Create_Client CREATE_SYSTEM False 0 0 0 (type_resource_client OR type_admin_client) 0 [''cmd'']"
  let ?s = "tiny_server [admin_client]"
  obtain ev s' where r: "evaluate_admin tiny_env 4 (new_transmit 1) ?b ?s = (ev, s')"
    by (cases "evaluate_admin tiny_env 4 (new_transmit 1) ?b ?s")
  have "length (clients (snd (evaluate_admin tiny_env 4 (new_transmit 1) ?b ?s))) = 2"
    by code_simp
  then have "cores s' \<noteq> cores ?s" using r by (auto simp: tiny_server_def cores_def dest: arg_cong [of _ _ length])
  from created_within_creator [OF r this] show ?thesis unfolding r by auto
qed

section \<open>Two deviations\<close>

text \<open>
  The origin of a command is not tested as the comment in \<open>validate_and_execute\<close> says: for a
  registered client any non-empty origin passes, whether or not it is the client's name or a service
  of it, because the truth value \<open>client_type == type_none\<close> is combined with the length of the
  name. The response then goes to the client under the name it gave.
\<close>

theorem foreign_origin_accepted:
  assumes "client_type c \<noteq> type_none" and "orig_entity cmd \<noteq> []"
    and "check_all (execute_type cmd) command_server" and "target_address cmd = []" and "target_entity cmd = []"
  shows "validate c cmd s = Executable"
  using assms by (simp add: validate_def origin_unchecked_def)

theorem foreign_origin_accepted_witness:
  "validate admin_client ((new_transmit 1)\<lparr>orig_entity := ''someone'', execute_type := command_server\<rparr>)
     (tiny_server [admin_client]) = Executable \<and> client_name admin_client \<noteq> ''someone''"
  using foreign_origin_accepted [of admin_client
      "(new_transmit 1)\<lparr>orig_entity := ''someone'', execute_type := command_server\<rparr>" "tiny_server [admin_client]"]
  by (simp add: admin_client_def flag_defs check_all_def new_transmit_def clear_info_def command_info.defs)

text \<open>
  A command the router does not forward takes the command behind it with it: \<open>execute_single\<close> has
  already removed the first command when it reports the failure, and \<open>internal_execute\<close> removes one
  more, which is neither executed nor answered nor taken off its sender's count of waiting commands.
\<close>

theorem refused_command_takes_next:
  assumes "command_cache s = (h, c) # next_command # rest" and "decrement_client_waiting h s = (True, s1)"
    and "\<not> check_all (execute_type c) command_server" and "send_client_command e h c s1 = (False, s2)"
  shows "internal_execute_step e s = set_cache rest s2"
  using assms by (simp add: internal_execute_step_def execute_single_def set_cache_def)

theorem refused_command_takes_next_witness:
  "command_cache (internal_execute_step tiny_env ((tiny_server [admin_client])\<lparr>command_cache :=
     [(4, (new_transmit 1)\<lparr>target_entity := ''x'', orig_entity := ''adm''\<rparr>), (4, new_transmit 1), (4, new_transmit 2)]\<rparr>))
   = [(4, new_transmit 2)]"
proof -
  let ?c = "(new_transmit 1)\<lparr>target_entity := ''x'', orig_entity := ''adm''\<rparr>"
  let ?s = "(tiny_server [admin_client])\<lparr>command_cache := [(4, ?c), (4, new_transmit 1), (4, new_transmit 2)]\<rparr>"
  obtain known s1 where d: "decrement_client_waiting 4 ?s = (known, s1)"
    by (cases "decrement_client_waiting 4 ?s")
  have k: "fst (decrement_client_waiting 4 ?s)" by code_simp
  obtain ok s2 where r: "send_client_command tiny_env 4 ?c s1 = (ok, s2)"
    by (cases "send_client_command tiny_env 4 ?c s1")
  have "\<not> fst (send_client_command tiny_env 4 ?c (snd (decrement_client_waiting 4 ?s)))" by code_simp
  with d r have no: "\<not> ok" by simp
  have ns: "\<not> check_all (execute_type ?c) command_server" by code_simp
  from d k r no have d': "decrement_client_waiting 4 ?s = (True, s1)"
    and r': "send_client_command tiny_env 4 ?c s1 = (False, s2)" by simp_all
  have "command_cache ?s = (4, ?c) # (4, new_transmit 1) # [(4, new_transmit 2)]" by simp
  from refused_command_takes_next [OF this d' ns r'] show ?thesis by simp
qed

end
