(* ===== verification/Local_Client.thy ===== *)
theory Local_Client
  imports Execution
begin

text \<open>
  The thread of a client (\<open>libs/server/client-thread.cpp\<close> and \<open>local_client::monitor_response\<close> in
  \<open>libs/server/local-client.cpp\<close>). The parser of the command language is generated code: a turn of
  the loop takes what \<open>parse_command\<close> made of the input as an argument, \<open>None\<close> when it failed.
  Whether the client's process still runs is an argument as well.
\<close>

section \<open>One command\<close>

definition count_one_error :: "handle \<Rightarrow> server \<Rightarrow> server" where
  "count_one_error h = update_client h (\<lambda>c. c\<lparr>total_errors := total_errors c + 1\<rparr>)"

definition answer_unless_response :: "env \<Rightarrow> command_transmit \<Rightarrow> u32 \<Rightarrow> server \<Rightarrow> server" where
  "answer_unless_response e c ev s =
     (if \<not> check_all (execute_type c) command_response then snd (send_server_response e c ev s) else s)"

definition at_command_limit :: "client_id \<Rightarrow> server \<Rightarrow> bool" where
  "at_command_limit k s \<longleftrightarrow> total_waiting k + total_errors k \<ge> unat (max_client_commands (parameters s))"

definition queue_parsed :: "env \<Rightarrow> handle \<Rightarrow> client_id \<Rightarrow> command_transmit \<Rightarrow> server \<Rightarrow> server" where
  "queue_parsed e identity k c s =
     (if at_command_limit k s then
        answer_unless_response e c event_retry
          (count_one_error identity
            (monitor_client_limit ''max_client_commands'' (process_id k) (max_client_commands (parameters s))
              (update_client identity (max_command_logged_update (\<lambda>_. True)) s)))
      else case queue_client_command e (identity, c) s of (queue_outcome, s1) \<Rightarrow>
        (case queue_outcome of
           result_success \<Rightarrow> update_client identity
             (\<lambda>k. k\<lparr>max_command_logged := False, total_waiting := total_waiting k + 1\<rparr>) s1
         | result_fail \<Rightarrow> answer_unless_response e c event_retry
             (count_one_error identity
               (monitor_server_limit ''max_commands'' (max_commands (parameters s1)) s1))
         | result_invalid \<Rightarrow> answer_unless_response e c event_rejected (count_one_error identity s1)))"

definition receive_command :: "env \<Rightarrow> handle \<Rightarrow> command_transmit option \<Rightarrow> server \<Rightarrow> server" where
  "receive_command e identity parsed s =
     (case (parsed, get_client_id identity s) of
        (Some c0, Some k) \<Rightarrow>
          let c = c0\<lparr>sender_type := client_type k, send_to := identity\<rparr>
          in if command_ready c
             then queue_parsed e identity k (c\<lparr>priority := override_priority c (min_priority k)\<rparr>) s
             else snd (send_server_response e c event_error (count_one_error identity s))
      | _ \<Rightarrow> s)"

section \<open>The loop and its end\<close>

definition listening :: "bool \<Rightarrow> handle \<Rightarrow> server \<Rightarrow> bool" where
  "listening process_runs identity s \<longleftrightarrow>
     (case get_client_id identity s of
        None \<Rightarrow> False
      | Some k \<Rightarrow> attached_client k \<and> \<not> ipc_closed k \<and> (process_id k = 0 \<or> process_runs) \<and>
          total_errors k < unat (max_client_error (parameters s)) \<and>
          total_invalid k < unat (max_client_invalid (parameters s)))"

definition end_monitoring :: "handle \<Rightarrow> server \<Rightarrow> server" where
  "end_monitoring identity s =
     (case get_client_id identity s of
        None \<Rightarrow> s
      | Some k \<Rightarrow>
          let s1 = (if total_errors k \<ge> unat (max_client_error (parameters s))
                    then monitor_client_limit ''max_client_error'' (process_id k) (max_client_error (parameters s)) s
                    else s);
              s2 = (if total_invalid k \<ge> unat (max_client_invalid (parameters s))
                    then monitor_client_limit ''max_client_invalid'' (process_id k) (max_client_invalid (parameters s)) s1
                    else s1)
          in if detached_socket k < 0 then update_client identity (ipc_closed_update (\<lambda>_. True)) s2 else s2)"

definition remove_local_client :: "env \<Rightarrow> handle \<Rightarrow> server \<Rightarrow> bool \<times> server" where
  "remove_local_client e cClient s =
     (case terminate_running_client e cClient False (remove_handle_commands cClient s) of (outcome, s1) \<Rightarrow>
        (outcome, send_all_monitor_updates e s1))"

text \<open>The end of \<open>client_thread\<close>, which follows \<open>monitor_response\<close>; that may return before the end of its loop,
  when \<open>select\<close> fails.\<close>

definition thread_exit :: "env \<Rightarrow> handle \<Rightarrow> server \<Rightarrow> server" where
  "thread_exit e cClient s1 =
     (let first_exit = (case get_client_id cClient s1 of None \<Rightarrow> False | Some k \<Rightarrow> process_id k \<ge> 0);
          s2 = update_client cClient (response_thread_update (\<lambda>_. False)) s1
      in if first_exit then snd (remove_local_client e cClient s2) else s2)"

definition client_thread_end :: "env \<Rightarrow> handle \<Rightarrow> server \<Rightarrow> server" where
  "client_thread_end e cClient s = thread_exit e cClient (end_monitoring cClient s)"

text \<open>\<open>start_new_client\<close> and \<open>add_detached_client\<close> make the thread; it attaches the local client before it reads.\<close>

definition thread_starting :: "handle \<Rightarrow> server \<Rightarrow> bool" where
  "thread_starting h s \<longleftrightarrow>
     (case get_client_id h s of None \<Rightarrow> False | Some k \<Rightarrow> response_thread k \<and> \<not> attached_client k)"

definition thread_attached :: "handle \<Rightarrow> server \<Rightarrow> bool" where
  "thread_attached h s \<longleftrightarrow>
     (case get_client_id h s of None \<Rightarrow> False | Some k \<Rightarrow> response_thread k \<and> attached_client k)"

section \<open>What is kept\<close>

lemma count_one_error_keeps: "keeps s (count_one_error h s)"
  unfolding count_one_error_def by (rule update_client_keeps) simp

lemma limit_keeps: "keeps s (monitor_client_limit n p v s)" "keeps s (monitor_server_limit m w s)"
  by (rule keeps_monitoring, rule monitoring_only)+

lemma answer_keeps: "keeps s (answer_unless_response e c ev s)"
  by (simp add: answer_unless_response_def response_keeps)

lemma flag_core [simp]:
  "client_core (c\<lparr>ipc_closed := b\<rparr>) = client_core c"
  "client_core (c\<lparr>max_command_logged := b, total_waiting := w\<rparr>) = client_core c"
  by (simp_all add: client_core_def)

lemma end_monitoring_keeps: "keeps s (end_monitoring h s)"
proof (cases "get_client_id h s")
  case (Some k)
  have u: "keeps t (update_client h (ipc_closed_update (\<lambda>_. True)) t)" for t
    by (rule update_client_keeps) simp
  show ?thesis
    using Some limit_keeps(1) keeps_trans [OF limit_keeps(1) limit_keeps(1)] keeps_trans [OF limit_keeps(1) u]
      keeps_trans [OF limit_keeps(1) keeps_trans [OF limit_keeps(1) u]] u
    by (simp add: end_monitoring_def Let_def)
qed (simp add: end_monitoring_def)

text \<open>What a step does to the whole: the invariant holds after it, the settings are the same, and the
  command counter has advanced by at most \<open>k\<close>.\<close>

definition moves :: "nat \<Rightarrow> server \<Rightarrow> server \<Rightarrow> bool" where
  "moves k s t \<longleftrightarrow> run_ok t \<and> settings t = settings s \<and> unat (counter t) \<le> unat (counter s) + k"

lemma moves_refl: "run_ok s \<Longrightarrow> moves k s s"
  by (simp add: moves_def)

lemma keeps_moves: "keeps t u \<Longrightarrow> moves k s t \<Longrightarrow> moves k s u"
  using keeps_run_ok [of t u] by (simp add: moves_def keeps_def same_queue_def)

lemma remove_handle_commands_moves:
  assumes "run_ok s"
  shows "moves 0 s (remove_handle_commands h s)"
proof -
  have "\<forall>x \<in> set (queue_items (commands s)). wait_start (snd x) \<le> counter s"
    using assms by (simp add: run_ok_def server_queue_ok_def)
  then have len: "\<forall>x \<in> set (remove_commands h (queue_items (commands s))). wait_start (snd x) \<le> counter s"
    by (auto simp: remove_commands_def)
  show ?thesis
    using assms len remove_commands_heap
    by (simp add: moves_def run_ok_def remove_handle_commands_def update_commands_def server_queue_ok_def cache_ok_def
        server_ok_def bounded_def cores_def parameters_def)
qed

lemma thread_exit_moves:
  assumes "run_ok s"
  shows "moves 0 s (thread_exit e h s)"
proof -
  let ?s2 = "update_client h (response_thread_update (\<lambda>_. False)) s"
  have "keeps s ?s2" by (rule update_client_keeps) simp
  then have m2: "moves 0 s ?s2" by (rule keeps_moves) (rule moves_refl [OF assms])
  then have r: "moves 0 s (remove_handle_commands h ?s2)"
    using remove_handle_commands_moves [of ?s2 h] by (simp add: moves_def)
  have "keeps t (send_all_monitor_updates e (snd (terminate_running_client e h False t)))" for t
    by (rule keeps_trans [OF running_keeps(1) updates_keep])
  note keeps_moves [OF this r]
  with m2 show ?thesis
    by (simp add: thread_exit_def remove_local_client_def Let_def split_beta)
qed

lemma thread_end_moves:
  assumes "run_ok s"
  shows "moves 0 s (client_thread_end e h s)"
proof -
  have "moves 0 s (end_monitoring h s)" by (rule keeps_moves [OF end_monitoring_keeps moves_refl [OF assms]])
  with thread_exit_moves [of "end_monitoring h s" e h] show ?thesis by (simp add: client_thread_end_def moves_def)
qed

lemma attach_core [simp]: "client_core (c\<lparr>attached_client := a\<rparr>) = client_core c"
  by (simp add: client_core_def)

lemma set_local_client_moves: "run_ok s \<Longrightarrow> moves 0 s (set_local_client h s)"
  unfolding set_local_client_def by (rule keeps_moves [OF update_client_keeps moves_refl]) simp_all

lemma counter_next_le:
  fixes c n :: u64
  assumes "c \<le> n" and "n \<noteq> - 1"
  shows "c \<le> n + 1"
proof -
  have "n < - 1" using assms(2) by (simp add: word_order.not_eq_extremum)
  then have "n \<le> n + 1" by (simp add: word_le_nat_alt word_less_nat_alt
      unat_word_ariths unsigned_minus_1_eq_mask mask_eq_exp_minus_1)
  with assms(1) show ?thesis by (rule order_trans)
qed

lemma queue_client_command_frame:
  assumes "queue_client_command e x s = (r, s')"
  shows "cores s' = cores s" "services s' = services s" "settings s' = settings s"
    "command_cache s' = command_cache s" "counter s' = counter s \<or> counter s' = counter s + 1"
    "r \<noteq> result_invalid"
  using assms
  by (auto simp: queue_client_command_def Let_def queue_new_execute_commands queue_new_execute_cache cores_def
      monitor_server_limit_def add_single_update_def split: if_splits)

lemma counter_next_unat: "unat (n + 1 :: u64) \<le> Suc (unat n)"
  by (simp add: unat_word_ariths)

lemma queue_client_command_moves:
  assumes "run_ok s" and "counter s \<noteq> - 1" and "queue_client_command e x s = (r, s')"
  shows "moves 1 s s'"
proof -
  note f = queue_client_command_frame [OF assms(3)]
  have "server_queue_ok s" using assms(1) by (simp add: run_ok_def)
  from queue_client_command_result [OF this assms(2,3)] have "server_queue_ok s'" by blast
  moreover have "cache_ok s'"
    using assms(1,2) f(4,5) counter_next_le by (auto simp: run_ok_def cache_ok_def)
  moreover have "unat (counter s') \<le> Suc (unat (counter s))"
    using f(5) counter_next_unat [of "counter s"] by auto
  ultimately show ?thesis
    using assms(1) f by (simp add: moves_def run_ok_def server_ok_def bounded_def)
qed

lemma receive_command_moves:
  assumes "run_ok s" and "counter s \<noteq> - 1"
  shows "moves 1 s (receive_command e h p s)"
proof -
  have fail: "keeps s (snd (send_server_response e c event_error (count_one_error h s)))" for c
    by (rule keeps_trans [OF count_one_error_keeps response_keeps(1)])
  have answered: "keeps t (answer_unless_response e c ev (count_one_error h (monitor_server_limit n v t)))"
    "keeps t (answer_unless_response e c ev (count_one_error h t))" for c ev n v t
    by (rule keeps_trans [OF limit_keeps(2) keeps_trans [OF count_one_error_keeps answer_keeps]],
      rule keeps_trans [OF count_one_error_keeps answer_keeps])
  have limited: "keeps s (answer_unless_response e c ev (count_one_error h (monitor_client_limit n q v
      (update_client h (max_command_logged_update (\<lambda>_. True)) s))))" for c ev n q v
    by (rule keeps_trans [OF update_client_keeps keeps_trans [OF limit_keeps(1)
          keeps_trans [OF count_one_error_keeps answer_keeps]]]) simp
  have accepted: "keeps t (update_client h (\<lambda>k. k\<lparr>max_command_logged := False,
      total_waiting := total_waiting k + 1\<rparr>) t)" for t
    by (rule update_client_keeps) simp
  have "moves 1 s (queue_parsed e h k c s)" for k c
  proof -
    obtain r s1 where q: "queue_client_command e (h, c) s = (r, s1)"
      by (cases "queue_client_command e (h, c) s")
    have "moves 1 s s1" by (rule queue_client_command_moves [OF assms q])
    with keeps_moves [OF answered(1)] keeps_moves [OF answered(2)] keeps_moves [OF accepted]
      keeps_moves [OF limited moves_refl [OF assms(1)]]
    show ?thesis by (simp add: queue_parsed_def q split: multi_result.split)
  qed
  with keeps_moves [OF fail moves_refl [OF assms(1)]] moves_refl [OF assms(1)] show ?thesis
    by (simp add: receive_command_def Let_def split: option.split)
qed

end
