(* ===== verification/Server_Run.thy ===== *)
theory Server_Run
  imports Local_Client
begin

text \<open>
  The running server: the steps the threads of the clients and the execution thread
  (\<open>execute_server_thread\<close> in \<open>libs/server/execute-thread.cpp\<close>) take in any order, and what holds in
  every state they reach. A step is what a thread does between two points where another one may
  run: the thread of a client attaches its connection when it starts, passes the test of its loop, receives one
  command or ends; the execution thread fills its cache or executes one command. How many commands a turn takes (\<open>calculate_execution\<close>) depends on the
  timing and is left open, and so is what the system answers, which may differ in every step.
\<close>

section \<open>Runs of a step relation\<close>

text \<open>A step has a cost; a run adds them up.\<close>

inductive runs :: "('s \<Rightarrow> nat \<Rightarrow> 's \<Rightarrow> bool) \<Rightarrow> 's \<Rightarrow> nat \<Rightarrow> 's \<Rightarrow> bool" for step where
  runs_start: "runs step s 0 s"
| runs_step: "runs step s n t \<Longrightarrow> step t k u \<Longrightarrow> runs step s (n + k) u"

text \<open>A clock that a step advances by at most its cost, and an invariant the steps keep as long as
  the clock stays below its limit.\<close>

locale clocked_invariant =
  fixes step :: "'s \<Rightarrow> nat \<Rightarrow> 's \<Rightarrow> bool" and inv :: "'s \<Rightarrow> bool" and clock :: "'s \<Rightarrow> nat"
    and limit :: nat
  assumes step_inv: "inv s \<Longrightarrow> step s k t \<Longrightarrow> clock s + k \<le> limit \<Longrightarrow> inv t \<and> clock t \<le> clock s + k"
begin

lemma runs_inv: "runs step s n t \<Longrightarrow> inv s \<Longrightarrow> clock s + n \<le> limit \<Longrightarrow> inv t \<and> clock t \<le> clock s + n"
proof (induction rule: runs.induct)
  case (runs_step s n t k u)
  then have "inv t" "clock t \<le> clock s + n" by auto
  with step_inv [OF this(1) runs_step.hyps(2)] runs_step.prems show ?case by simp
qed simp

end

section \<open>The steps of the server\<close>

text \<open>\<open>server_execute_next\<close> on the server's queue and cache.\<close>

definition fetch_commands :: "nat \<Rightarrow> server \<Rightarrow> server" where
  "fetch_commands cache_size s =
     (case server_execute_next (time_priority_factor (parameters s)) (counter s) cache_size
          (commands s) (command_cache s) of
        (_, q, cache) \<Rightarrow> s\<lparr>commands := q, command_cache := cache\<rparr>)"

text \<open>
  The state of a run is that of the server and the threads that have passed the test at the top of the loop of
  \<open>monitor_response\<close> and wait for input. The test is not made again before they receive a command, whatever has
  happened meanwhile. The thread of a client that was removed is cancelled.
\<close>

type_synonym run_state = "server \<times> handle set"

definition remaining :: "handle set \<Rightarrow> server \<Rightarrow> handle set" where
  "remaining R s = {h \<in> R. get_client_id h s \<noteq> None}"

inductive server_step :: "run_state \<Rightarrow> nat \<Rightarrow> run_state \<Rightarrow> bool" where
  attaches: "thread_starting h s \<Longrightarrow> server_step (s, R) 0 (set_local_client h s, R)"
| turns: "thread_attached h s \<Longrightarrow> h \<notin> R \<Longrightarrow> listening running h s \<Longrightarrow> server_step (s, R) 0 (s, insert h R)"
| receives: "h \<in> R \<Longrightarrow> server_step (s, R) 1 (receive_command e h parsed s, R - {h})"
| breaks: "h \<in> R \<Longrightarrow> t = thread_exit e h s \<Longrightarrow> server_step (s, R) 0 (t, remaining (R - {h}) t)"
| leaves: "thread_attached h s \<Longrightarrow> h \<notin> R \<Longrightarrow> \<not> listening running h s \<Longrightarrow> t = client_thread_end e h s \<Longrightarrow>
    server_step (s, R) 0 (t, remaining R t)"
| fetches: "\<not> exit_flag s \<Longrightarrow> 0 < commands_waiting s \<Longrightarrow> server_step (s, R) 0 (fetch_commands cache_size s, R)"
| executes: "env_ok e \<Longrightarrow> server_busy s \<Longrightarrow> t = internal_execute_step e s \<Longrightarrow>
    server_step (s, R) 0 (t, remaining R t)"

section \<open>Every step keeps the invariant\<close>

lemma fetch_commands_moves:
  assumes "run_ok s"
  shows "moves 0 s (fetch_commands n s)"
proof -
  obtain ok q cache where r: "server_execute_next (time_priority_factor (parameters s)) (counter s) n
      (commands s) (command_cache s) = (ok, q, cache)" by (rule prod_cases3)
  have "queue_ok (time_priority_factor (parameters s)) (counter s) (commands s)"
    using assms by (simp add: run_ok_def server_queue_ok_def)
  from execute_next_result [OF this r] obtain es where es: "cache = command_cache s @ es"
    "mset es + mset (queue_items q) = mset (queue_items (commands s))"
    "queue_ok (time_priority_factor (parameters s)) (counter s) q" by blast
  have sets: "set es \<union> set (queue_items q) = set (queue_items (commands s))"
    using arg_cong [OF es(2), of set_mset] by simp
  have old: "\<forall>x \<in> set (queue_items (commands s)) \<union> set (command_cache s). wait_start (snd x) \<le> counter s"
    using assms by (auto simp: run_ok_def server_queue_ok_def cache_ok_def)
  have "\<forall>x \<in> set (queue_items q) \<union> set cache. wait_start (snd x) \<le> counter s"
    using old es(1) unfolding sets [symmetric] by auto
  moreover have "fetch_commands n s = s\<lparr>commands := q, command_cache := cache\<rparr>"
    by (simp add: fetch_commands_def r)
  ultimately show ?thesis
    using assms es(3) by (auto simp: moves_def run_ok_def server_ok_def bounded_def cores_def
        server_queue_ok_def cache_ok_def parameters_def)
qed

lemma set_cache_frame [simp]: "settings (set_cache q s) = settings s" "counter (set_cache q s) = counter s"
  by (simp_all add: set_cache_def)

lemma keeps_frame: "keeps s t \<Longrightarrow> settings t = settings s \<and> counter t = counter s"
  by (simp add: keeps_def same_queue_def)

lemma execute_single_frame:
  assumes "env_ok e"
  shows "settings (snd (execute_single e s)) = settings s \<and> counter (snd (execute_single e s)) = counter s"
  using routes_command keeps_frame [OF decrement_keeps] keeps_frame [OF validate_and_execute_keeps [OF assms]]
    keeps_frame [OF updates_keep]
  by (auto simp: execute_single_def Let_def routes_def split_beta split: list.splits)

lemma step_frame:
  "env_ok e \<Longrightarrow> settings (internal_execute_step e s) = settings s \<and> counter (internal_execute_step e s) = counter s"
  using execute_single_frame [of e s] by (simp add: internal_execute_step_def split_beta)

lemma step_moves:
  assumes "env_ok e" and "run_ok s"
  shows "moves 0 s (internal_execute_step e s)"
  using step_ok [OF assms] step_frame [OF assms(1), of s] by (simp add: moves_def)


lemma server_step_moves:
  assumes "server_step x k y" and "run_ok (fst x)" and "unat (counter (fst x)) + k \<le> 2 ^ 64 - 1"
  shows "moves k (fst x) (fst y)"
  using assms(1)
proof (cases rule: server_step.cases)
  case (attaches h s R)
  with set_local_client_moves assms(2) show ?thesis by simp
next
  case (turns h s R running)
  with moves_refl assms(2) show ?thesis by simp
next
  case (receives h R s e parsed)
  have "counter s \<noteq> - 1"
    using assms(3) receives by (auto simp: unsigned_minus_1_eq_mask mask_eq_exp_minus_1)
  with receive_command_moves assms(2) receives show ?thesis by simp
next
  case (breaks h R t e s)
  with thread_exit_moves assms(2) show ?thesis by simp
next
  case (leaves h s R running t e)
  with thread_end_moves assms(2) show ?thesis by simp
next
  case (fetches s R n)
  with fetch_commands_moves assms(2) show ?thesis by simp
next
  case (executes e s t R)
  with step_moves assms(2) show ?thesis by simp
qed

interpretation run: clocked_invariant server_step "\<lambda>x. run_ok (fst x) \<and> settings (fst x) = y"
  "\<lambda>x. unat (counter (fst x))" "2 ^ 64 - 1" for y
  using server_step_moves by unfold_locales (auto simp: moves_def)

section \<open>The loop of the execution thread is a run\<close>

text \<open>The inner loop of \<open>execute_server_thread\<close>, for the loads \<open>calculate_execution\<close> asks for, while
  no other thread interferes.\<close>

fun execute_waiting :: "env \<Rightarrow> nat list \<Rightarrow> server \<Rightarrow> server" where
  "execute_waiting e [] s = s"
| "execute_waiting e (cache_size # loads) s =
     (if \<not> exit_flag s \<and> 0 < commands_waiting s
      then let s1 = fetch_commands cache_size s
           in if command_cache s1 = [] then s1 else execute_waiting e loads (internal_execute e s1)
      else s)"

lemma runs_before: "runs step t m u \<Longrightarrow> runs step s n t \<Longrightarrow> runs step s (n + m) u"
proof (induction rule: runs.induct)
  case (runs_step t m u k v)
  from runs_step.hyps(2) have "runs step s (n + m + k) v"
    by (rule runs.runs_step [OF runs_step.IH [OF runs_step.prems]])
  then show ?case by (simp add: add.assoc)
qed simp

lemma runs_one: "step s k t \<Longrightarrow> runs step s k t"
  using runs.runs_step [OF runs.runs_start] by fastforce

lemma internal_execute_runs:
  "env_ok e \<Longrightarrow> \<exists>R'. runs server_step (s, R) 0 (internal_execute e s, R')"
proof (induction e s arbitrary: R rule: internal_execute.induct)
  case (1 e s)
  show ?case
  proof (cases "server_busy s")
    case True
    let ?t = "internal_execute_step e s"
    have one: "runs server_step (s, R) 0 (?t, remaining R ?t)"
      by (rule runs_one, rule executes [OF 1(2) True refl])
    from 1(1) [OF True 1(2)] obtain R' where "runs server_step (?t, remaining R ?t) 0 (internal_execute e ?t, R')"
      by blast
    from runs_before [OF this one] show ?thesis by (subst internal_execute.simps) (auto simp: True)
  next
    case False
    then show ?thesis by (subst internal_execute.simps) (auto intro: runs_start)
  qed
qed

lemma execute_waiting_runs:
  "env_ok e \<Longrightarrow> \<exists>R'. runs server_step (s, R) 0 (execute_waiting e loads s, R')"
proof (induction e loads s arbitrary: R rule: execute_waiting.induct)
  case (2 e n loads s)
  show ?case
  proof (cases "\<not> exit_flag s \<and> 0 < commands_waiting s")
    case True
    let ?s1 = "fetch_commands n s"
    have f: "runs server_step (s, R) 0 (?s1, R)" by (rule runs_one, rule fetches) (use True in auto)
    show ?thesis
    proof (cases "command_cache ?s1 = []")
      case c: True
      with f True show ?thesis by (auto simp: Let_def)
    next
      case c: False
      obtain R1 where r1: "runs server_step (?s1, R) 0 (internal_execute e ?s1, R1)"
        using internal_execute_runs [OF 2(2)] by blast
      obtain R2 where "runs server_step (internal_execute e ?s1, R1) 0
          (execute_waiting e loads (internal_execute e ?s1), R2)"
        using 2(1) [OF True refl c 2(2)] by blast
      from runs_before [OF this runs_before [OF r1 f]] True c show ?thesis by (auto simp: Let_def)
    qed
  next
    case False
    then show ?thesis by (auto intro: runs_start)
  qed
qed (auto intro: runs_start)

section \<open>What holds in every state\<close>

lemma run_ok_reached:
  assumes "runs server_step (s, R) n (t, R')" and "run_ok s" and "unat (counter s) + n \<le> 2 ^ 64 - 1"
  shows "run_ok t \<and> settings t = settings s"
  using run.runs_inv [OF assms(1), of "settings s"] assms(2,3) by simp

lemma distinct_filter_map:
  "distinct (filter P (map f xs)) \<Longrightarrow> x \<in> set xs \<Longrightarrow> y \<in> set xs \<Longrightarrow> P (f x) \<Longrightarrow> f x = f y \<Longrightarrow> x = y"
  by (induction xs) (auto split: if_splits simp: rev_image_eqI)

lemma in_cores: "c \<in> set (clients s) \<Longrightarrow> client_core c \<in> set (cores s)"
  by (simp add: cores_def)

text \<open>A run: a client that was just started attaches its connection, waits, and registers; its command is fetched
  and executed.\<close>

definition starting_client :: client_id where
  "starting_client = (new_client_id 4)\<lparr>process_id := 7, response_thread := True,
     max_permissions := type_default_allowed, max_new_client := type_resource_client OR type_any_client\<rparr>"

definition register_text :: command_transmit where
  "register_text = (new_transmit 1)\<lparr>execute_type := command_server OR command_builtin OR command_no_remote,
     command := Some (Common_Command (Register_Client ''adm'' type_resource_client_all False)), priority := 3\<rparr>"

definition after_command :: server where
  "after_command = internal_execute_step tiny_env (fetch_commands 1
     (receive_command tiny_env 4 (Some register_text) (set_local_client 4 (tiny_server [starting_client]))))"

lemma sample_start: "run_ok (tiny_server [starting_client])" "unat (counter (tiny_server [starting_client])) + 1 \<le> 2 ^ 64 - 1"
  by (simp_all add: run_ok_def server_ok_def tables_ok_def bounded_def core_bounded_def cores_def tiny_server_def
      client_core_def core_name_def starting_client_def new_client_id_def initial_settings_def
      server_queue_ok_def queue_ok_def heap_ok_def cache_ok_def taken_def flag_defs)

lemma sample_fields:
  "client_name (clients after_command ! 0) = ''adm''" "clients after_command \<noteq> []"
  "client_type (clients after_command ! 0) \<noteq> type_none" "total_waiting (clients after_command ! 0) = 0"
  by code_simp+

lemma sample_run: "\<exists>R. runs server_step (tiny_server [starting_client], {}) 1 (after_command, R)"
proof -
  let ?s = "tiny_server [starting_client]"
  let ?s1 = "set_local_client 4 ?s"
  let ?s2 = "receive_command tiny_env 4 (Some register_text) ?s1"
  let ?s3 = "fetch_commands 1 ?s2"
  have a: "runs server_step (?s, {}) 0 (?s1, {})"
    by (rule runs_one, rule attaches, code_simp)
  have t: "runs server_step (?s1, {}) 0 (?s1, {4})"
  proof (rule runs_one, rule turns [where running = True])
    show "thread_attached 4 ?s1" "listening True 4 ?s1" by code_simp+
  qed simp
  have r: "runs server_step (?s1, {4}) 1 (?s2, {4} - {4})"
    by (rule runs_one, rule receives) simp
  have f: "runs server_step (?s2, {4} - {4}) 0 (?s3, {4} - {4})"
  proof (rule runs_one, rule fetches)
    show "\<not> exit_flag ?s2" "0 < commands_waiting ?s2" by code_simp+
  qed
  have "server_busy ?s3" by code_simp
  from runs_one [of server_step, OF executes [OF tiny_env_ok this refl]]
  have x: "runs server_step (?s3, {4} - {4}) 0 (after_command, remaining ({4} - {4}) after_command)"
    unfolding after_command_def .
  from runs_before [OF x runs_before [OF f runs_before [OF r runs_before [OF t a]]]] show ?thesis by auto
qed

text \<open>
  C1. No privilege is gained while the server runs: in whatever order clients send commands, leave,
  and have their commands executed, no client ever is of a type that its own permissions do not
  cover, and neither its permissions nor what it may hand on exceed the server's maximum.
\<close>

theorem permissions_bounded:
  assumes "runs server_step (s, R) n (t, R')" and "run_ok s" and "unat (counter s) + n \<le> 2 ^ 64 - 1"
    and "c \<in> set (clients t)"
  shows "client_type c AND NOT (max_permissions c) = 0 \<and>
    max_permissions c AND NOT (srv_max_permissions (settings s)) = 0 \<and>
    max_new_client c AND NOT (srv_max_permissions (settings s)) = 0 \<and>
    max_new_client c AND NOT (srv_max_new_client (settings s)) = 0"
proof -
  have t: "run_ok t" "settings t = settings s" using run_ok_reached [OF assms(1-3)] by simp_all
  from in_cores [OF assms(4)] t show ?thesis
    by (auto simp: run_ok_def server_ok_def tables_ok_def bounded_def core_bounded_def client_core_def)
qed

theorem permissions_bounded_witness:
  "client_type (clients after_command ! 0) \<noteq> type_none \<and>
   client_type (clients after_command ! 0) AND NOT (max_permissions (clients after_command ! 0)) = 0 \<and>
   max_permissions (clients after_command ! 0) AND NOT type_default_allowed = 0"
proof -
  obtain R where r: "runs server_step (tiny_server [starting_client], {}) 1 (after_command, R)"
    using sample_run by blast
  have "clients after_command ! 0 \<in> set (clients after_command)" using sample_fields(2) by simp
  from permissions_bounded [OF r sample_start this] sample_fields(3) show ?thesis
    by (simp add: tiny_server_def initial_settings_def)
qed

text \<open>
  C28. Names stay unambiguous while the server runs: two registered clients of the same name are the same client,
  no service has the name of a client, no two services with names have the same one, and every service belongs
  to a client of the table.
\<close>

theorem names_unambiguous:
  assumes "runs server_step (s, R) n (t, R')" and "run_ok s" and "unat (counter s) + n \<le> 2 ^ 64 - 1"
    and "c \<in> set (clients t)" and "client_name c \<noteq> []"
  shows "(\<forall>d \<in> set (clients t). client_name d = client_name c \<longrightarrow> d = c) \<and>
    (\<forall>x \<in> set (services t). service_name (snd x) \<noteq> client_name c) \<and>
    distinct (filter (\<lambda>n. n \<noteq> []) (map (service_name \<circ> snd) (services t))) \<and>
    fst ` set (services t) \<subseteq> client_address ` set (clients t)"
proof -
  have "server_ok t" using run_ok_reached [OF assms(1-3)] by (simp add: run_ok_def)
  then have y: "distinct (filter (\<lambda>n. n \<noteq> []) (map (service_name \<circ> snd) (services t)))"
    "fst ` set (services t) \<subseteq> client_address ` set (clients t)"
    by (simp_all add: server_ok_def tables_ok_def taken_def cores_def client_core_def image_image comp_def)
  have "server_ok t" using run_ok_reached [OF assms(1-3)] by (simp add: run_ok_def)
  then have d: "distinct (filter (\<lambda>n. n \<noteq> []) (map client_name (clients t)))"
    and x: "set (filter (\<lambda>n. n \<noteq> []) (map client_name (clients t))) \<inter>
      set (filter (\<lambda>n. n \<noteq> []) (map (service_name \<circ> snd) (services t))) = {}"
    by (simp_all add: server_ok_def tables_ok_def taken_def cores_def client_core_def core_name_def comp_def)
  have "k = c" if "k \<in> set (clients t)" "client_name k = client_name c" for k
    by (rule distinct_filter_map [OF d that(1) assms(4)]) (use that(2) assms(5) in auto)
  moreover have "service_name (snd y) \<noteq> client_name c" if "y \<in> set (services t)" for y
  proof
    assume e: "service_name (snd y) = client_name c"
    have "client_name c \<in> set (filter (\<lambda>n. n \<noteq> []) (map client_name (clients t)))"
      using assms(4,5) by simp
    moreover have "service_name (snd y) \<in> set (filter (\<lambda>n. n \<noteq> []) (map (service_name \<circ> snd) (services t)))"
      using that e assms(5) by (simp add: rev_image_eqI)
    ultimately show False using x unfolding e by blast
  qed
  ultimately show ?thesis using y by blast
qed

theorem names_unambiguous_witness:
  "{d \<in> set (clients after_command). client_name d = ''adm''} = {clients after_command ! 0}"
proof -
  obtain R where r: "runs server_step (tiny_server [starting_client], {}) 1 (after_command, R)"
    using sample_run by blast
  obtain k where k: "clients after_command ! 0 = k" by blast
  have m: "k \<in> set (clients after_command)" "client_name k = ''adm''"
    using sample_fields(1,2) k by auto
  then have "client_name k \<noteq> []" by simp
  from names_unambiguous [OF r sample_start m(1) this] m(2)
  have "\<forall>d \<in> set (clients after_command). client_name d = ''adm'' \<longrightarrow> d = k" by simp
  with m show ?thesis unfolding k by blast
qed

lemma aged_value:
  assumes "wait_start (snd e) \<le> wait_start (snd x)" and "wait_start (snd x) \<le> n"
    and "65790 < of_nat (unat (wait_start (snd x) - wait_start (snd e))) * f"
  shows "\<not> priority_adjust f n x e"
proof -
  let ?e = "snd e" and ?x = "snd x"
  have split: "unat (n - wait_start ?e) = unat (n - wait_start ?x) + unat (wait_start ?x - wait_start ?e)"
    using assms(1,2) order_trans [OF assms(1,2)] unat_sub [of "wait_start ?e" n]
      unat_sub [of "wait_start ?x" n] unat_sub [of "wait_start ?e" "wait_start ?x"]
    unfolding word_le_nat_alt by linarith
  have "uint (priority ?e) \<le> 255" "uint (penalty ?e) \<le> 65535"
    using uint_lt2p [of "priority ?e"] uint_lt2p [of "penalty ?e"] by simp_all
  then have "uint (priority ?e) + uint (penalty ?e) \<le> 65790" by linarith
  then have "of_int (uint (priority ?e) + uint (penalty ?e)) \<le> (65790 :: rat)"
    by (simp only: of_int_le_numeral_iff)
  moreover have "(0 :: rat) \<le> of_int (uint (priority ?x) + uint (penalty ?x))"
    by (simp only: of_int_0_le_iff) simp
  ultimately show ?thesis
    using assms(3) by (simp add: priority_adjust_def priority_value_def split distrib_right)
qed

text \<open>
  C3. No command starves: once commands have been received so much later than a waiting one that
  the difference of their stamps, weighted with \<open>time_priority_factor\<close>, exceeds the range of a
  priority with its penalty, none of them is taken to the cache while the older one is left
  behind, whatever their priorities are.
\<close>

theorem no_starvation:
  assumes "runs server_step (s, R) n (t, R')" and "run_ok s" and "unat (counter s) + n \<le> 2 ^ 64 - 1"
    and "command_cache t = []" and "x \<in> set (command_cache (fetch_commands m t))"
    and "e \<in> set (queue_items (commands t))" and "wait_start (snd e) \<le> wait_start (snd x)"
    and "65790 < of_nat (unat (wait_start (snd x) - wait_start (snd e))) * time_priority_factor (parameters t)"
  shows "e \<in> set (command_cache (fetch_commands m t))"
proof -
  let ?f = "time_priority_factor (parameters t)"
  obtain ok q cache where r: "server_execute_next ?f (counter t) m (commands t) (command_cache t) = (ok, q, cache)"
    by (rule prod_cases3)
  have f: "command_cache (fetch_commands m t) = cache" by (simp add: fetch_commands_def r)
  have ok: "server_queue_ok t" using run_ok_reached [OF assms(1-3)] by (simp add: run_ok_def)
  from execute_next_result [OF _ r] ok assms(4) obtain es where es: "cache = es"
    "mset es + mset (queue_items q) = mset (queue_items (commands t))"
    "\<forall>e \<in> set es. \<forall>x \<in> set (queue_items q). priority_adjust ?f (counter t) e x"
    by (auto simp: server_queue_ok_def)
  have sets: "set es \<union> set (queue_items q) = set (queue_items (commands t))"
    using arg_cong [OF es(2), of set_mset] by simp
  have x: "x \<in> set es" using assms(5) f es(1) by simp
  then have "wait_start (snd x) \<le> counter t" using ok sets by (auto simp: server_queue_ok_def)
  from aged_value [OF assms(7) this assms(8)] x es(3) have "e \<notin> set (queue_items q)" by blast
  with assms(6) sets f es(1) show ?thesis by auto
qed

definition aged_queue :: "queued list" where
  "aged_queue = [(1, (new_transmit 1)\<lparr>wait_start := 2, priority := 255\<rparr>),
     (2, (new_transmit 1)\<lparr>wait_start := 69000\<rparr>)]"

definition aged_server :: server where
  "aged_server = (tiny_server [])\<lparr>counter := 70000, commands := \<lparr>queue_items = aged_queue, max_size = 10\<rparr>\<rparr>"

lemma aged_fields:
  "commands aged_server = \<lparr>queue_items = aged_queue, max_size = 10\<rparr>" "counter aged_server = 70000"
  "time_priority_factor (parameters aged_server) = 1" "command_cache aged_server = []"
  "cores aged_server = []" "services aged_server = []"
  by (simp_all add: aged_server_def tiny_server_def initial_settings_def parameters_def cores_def)

lemma aged_queue_ok: "queue_ok 1 70000 \<lparr>queue_items = aged_queue, max_size = 10\<rparr>"
  by (simp add: aged_queue_def queue_ok_def heap_ok_def less_Suc_eq heap_parent_def PARAM_EXECUTE_HEAP_ORDER_def
      priority_adjust_def priority_value_def new_transmit_def clear_info_def command_info.defs flag_defs)

lemma aged_run_ok: "run_ok aged_server"
  using aged_queue_ok by (simp add: run_ok_def server_ok_def tables_ok_def bounded_def server_queue_ok_def
      cache_ok_def taken_def aged_fields aged_queue_def new_transmit_def clear_info_def command_info.defs)

theorem no_starvation_witness:
  "(1, (new_transmit 1)\<lparr>wait_start := 2, priority := 255\<rparr>) \<in> set (command_cache (fetch_commands 2 aged_server))"
proof -
  have x: "(2, (new_transmit 1)\<lparr>wait_start := 69000\<rparr>) \<in> set (command_cache (fetch_commands 2 aged_server))"
    by code_simp
  show ?thesis
    by (rule no_starvation [OF runs_start aged_run_ok _ _ x]) (simp_all add: aged_fields aged_queue_def)
qed

end
