(* ===== verification/Terminal_Request.thy ===== *)
theory Terminal_Request
  imports Execution
begin

text \<open>
  Who gets the server's terminal (\<open>request_terminal\<close> of the server interface in
  \<open>libs/server/execute-thread.cpp\<close>): the arbitration between clients of different types as an
  order of ranks, and what the requester is told.
\<close>

section \<open>The order of the holders\<close>

text \<open>Server control is above administration, that above control clients, those above resource
  clients, and all others are last.\<close>

definition terminal_rank :: "mask16 \<Rightarrow> nat" where
  "terminal_rank t =
     (if check_all t type_server_control then 4 else if check_all t type_admin_client then 3
      else if check_all t type_control_client then 2 else if check_all t type_resource_client then 1 else 0)"

lemma check_all_single: "check_all (t :: mask16) (2 ^ k) = bit t k" if "k < 16"
  using that by (auto simp: check_all_bits bit_exp_iff)

lemma rank_bits:
  fixes t :: mask16
  shows "check_all t type_server_control = bit t 9" "check_all t type_admin_client = bit t 3"
    "check_all t type_control_client = bit t 7" "check_all t type_resource_client = bit t 6"
  using check_all_single [of 9 t] check_all_single [of 3 t] check_all_single [of 7 t] check_all_single [of 6 t]
  by (simp_all add: flag_defs)

lemma kind_bits:
  fixes t u :: mask16
  assumes "t AND type_all_clients = u AND type_all_clients"
  shows "bit t 3 = bit u 3" "bit t 7 = bit u 7" "bit t 6 = bit u 6"
proof -
  have "bit (t AND type_all_clients) n = bit (u AND type_all_clients) n" for n
    using assms by simp
  from this [of 3] this [of 7] this [of 6] show "bit t 3 = bit u 3" "bit t 7 = bit u 7" "bit t 6 = bit u 6"
    by (simp_all add: flag_defs bit_and_iff)
qed

lemma terminal_allowed_rank:
  assumes "terminal_allowed c p t = (True, True)"
  shows "type_terminal_equal AND client_type c \<noteq> type_terminal_equal AND terminal_type t \<and>
    (terminal_rank (terminal_type t) \<le> terminal_rank (client_type c) \<or>
     terminal_rank (terminal_type t) = 4 \<and> terminal_rank (client_type c) < 4 \<and>
     client_type c AND type_all_clients = terminal_type t AND type_all_clients \<and> p < terminal_priority t)"
  using assms kind_bits [of "client_type c" "terminal_type t"]
  by (auto simp: terminal_allowed_def Let_def terminal_rank_def rank_bits split: if_splits)

section \<open>The request\<close>

lemma interface_request_cases:
  assumes "interface_request_terminal e p a t pri s = (ev, s')"
  shows "(ev = event_complete \<or> ev = event_rejected) \<and> (terminal s' = terminal s \<or>
    terminal s' = \<lparr>terminal_pid = p, terminal_type = t, terminal_priority = pri\<rparr>)"
  using assms by (auto simp: interface_request_terminal_def take_terminal_control_def set_terminal_def Let_def
      split: if_splits)

text \<open>
  C29. The terminal is handed on in the order of the ranks: a request that takes it from its holder is
  one of an active client that is not detached, whose process then holds it under its own type and
  least priority, and whose rank is at least the holder's. The one exception is a request from a
  client that lacks the server control the holder has but is otherwise of the same kind and asks
  with a smaller priority.
\<close>

theorem terminal_order:
  assumes "server_request_terminal e h cmd s = (ev, s')" and "terminal s' \<noteq> terminal s"
    and "0 \<le> terminal_pid (terminal s)" and "terminal_type (terminal s) \<noteq> type_none"
  shows "\<exists>c. get_client_id h s = Some c \<and> check_all (client_type c) type_active_client \<and>
    \<not> check_all (client_type c) type_detached_client \<and>
    terminal s' = \<lparr>terminal_pid = process_id c, terminal_type = client_type c,
      terminal_priority = min_priority c\<rparr> \<and>
    (terminal_rank (terminal_type (terminal s)) \<le> terminal_rank (client_type c) \<or>
     check_all (terminal_type (terminal s)) type_server_control \<and>
     client_type c AND type_all_clients = terminal_type (terminal s) AND type_all_clients \<and>
     priority cmd < terminal_priority (terminal s))"
proof -
  obtain c where c: "get_client_id h s = Some c" "check_all (client_type c) type_active_client"
    "\<not> check_all (client_type c) type_detached_client"
    using assms(1,2) by (auto simp: server_request_terminal_def on_client_def split: option.splits if_splits)
  obtain allowed allowed2 where a: "terminal_allowed c (priority cmd) (terminal s) = (allowed, allowed2)"
    by (cases "terminal_allowed c (priority cmd) (terminal s)")
  have second: "allowed2" using a assms(3,4) by (auto simp: terminal_allowed_def Let_def)
  have rejected: "terminal (monitor_terminal_rejected p t) = terminal t" for p t
    by (simp add: monitor_message_defs add_single_update_def)
  have first: "allowed"
    using assms(1,2) c a second rejected by (cases allowed) (auto simp: server_request_terminal_def on_client_def)
  obtain ev' where i: "interface_request_terminal e (process_id c) (sint (creator_pid cmd)) (client_type c)
      (min_priority c) s = (ev', s')"
    using assms(1) c a first by (auto simp: server_request_terminal_def on_client_def split: prod.splits)
  have "terminal s' = \<lparr>terminal_pid = process_id c, terminal_type = client_type c,
      terminal_priority = min_priority c\<rparr>"
    using interface_request_cases [OF i] assms(2) by simp
  moreover have "check_all t type_server_control" if "terminal_rank t = 4" for t
    using that by (auto simp: terminal_rank_def split: if_splits)
  moreover have "terminal_allowed c (priority cmd) (terminal s) = (True, True)"
    using a first second by simp
  note terminal_allowed_rank [OF this]
  ultimately show ?thesis using c by (intro exI [of _ c]) auto
qed

text \<open>A server whose terminal is held by process 9, and the client of \<open>admin_client\<close>.\<close>

definition held_server :: "mask16 \<Rightarrow> server" where
  "held_server t = (tiny_server [admin_client])\<lparr>terminal :=
     \<lparr>terminal_pid = 9, terminal_type = t, terminal_priority = 50\<rparr>\<rparr>"

definition terminal_command :: command_transmit where
  "terminal_command = (new_transmit 7)\<lparr>priority := 3\<rparr>"

definition leader_env :: env where
  "leader_env = tiny_env\<lparr>own_session := 100, process_session := (\<lambda>p. 100)\<rparr>"

theorem terminal_order_witness:
  "terminal_pid (terminal (snd (server_request_terminal leader_env 4 terminal_command
     (held_server (type_admin_client OR type_server_control))))) = 7 \<and>
   terminal_rank (client_type admin_client) < terminal_rank (type_admin_client OR type_server_control)"
proof -
  let ?s = "held_server (type_admin_client OR type_server_control)"
  obtain ev s' where r: "server_request_terminal leader_env 4 terminal_command ?s = (ev, s')"
    by (cases "server_request_terminal leader_env 4 terminal_command ?s")
  have "terminal_pid (terminal (snd (server_request_terminal leader_env 4 terminal_command ?s))) = 7"
    by code_simp
  then have "terminal_pid (terminal s') = 7" using r by simp
  then have "terminal s' \<noteq> terminal ?s" by (auto simp: held_server_def)
  moreover have "get_client_id 4 ?s = Some admin_client" by code_simp
  ultimately obtain "terminal s' = \<lparr>terminal_pid = process_id admin_client,
      terminal_type = client_type admin_client, terminal_priority = min_priority admin_client\<rparr>"
    using terminal_order [OF r] by (auto simp: held_server_def flag_defs)
  then have "terminal_pid (terminal s') = 7" by (simp add: admin_client_def)
  moreover have "terminal_rank (client_type admin_client) < terminal_rank (type_admin_client OR type_server_control)"
    by code_simp
  ultimately show ?thesis unfolding r by simp
qed

text \<open>
  Priority never moves the terminal between clients of one kind: while the holder and the
  requester agree in the types that count for the terminal, the request has to wait however small
  its priority is, and nothing but a message to the monitors happens, although the rule before
  allows a handover between clients of the same type to the one with the higher priority.
\<close>

theorem same_kind_waits:
  assumes "get_client_id h s = Some c" and "check_all (client_type c) type_active_client"
    and "\<not> check_all (client_type c) type_detached_client"
    and "0 \<le> terminal_pid (terminal s)" and "terminal_type (terminal s) \<noteq> type_none"
    and "type_terminal_equal AND client_type c = type_terminal_equal AND terminal_type (terminal s)"
  shows "server_request_terminal e h cmd s = (event_wait, monitor_terminal_rejected (process_id c) s)"
  using assms by (auto simp: server_request_terminal_def on_client_def terminal_allowed_def Let_def)

theorem same_kind_waits_witness:
  "fst (server_request_terminal leader_env 4 terminal_command (held_server type_admin_client)) = event_wait \<and>
   priority terminal_command < terminal_priority (terminal (held_server type_admin_client))"
proof -
  have c: "get_client_id 4 (held_server type_admin_client) = Some admin_client"
    "check_all (client_type admin_client) type_active_client"
    "\<not> check_all (client_type admin_client) type_detached_client" by code_simp+
  show ?thesis
    using same_kind_waits [OF c, of leader_env terminal_command]
    by (simp add: held_server_def admin_client_def terminal_command_def flag_defs)
qed

text \<open>
  A requester is told that it has the terminal when it has not: once the arbitration lets the
  request through, the answer is \<open>event_complete\<close> also if the server is not the leader of its session
  and nothing is handed over, because the event \<open>interface_request_terminal\<close> returns is taken for
  a truth value.
\<close>

theorem refused_terminal_reported_complete:
  assumes "get_client_id h s = Some c" and "check_all (client_type c) type_active_client"
    and "\<not> check_all (client_type c) type_detached_client"
    and "fst (terminal_allowed c (priority cmd) (terminal s))" and "\<not> session_leader e"
  shows "server_request_terminal e h cmd s = (event_complete, s)"
  using assms by (simp add: server_request_terminal_def on_client_def split_beta
      interface_request_terminal_def take_terminal_control_def flag_defs)

theorem refused_terminal_reported_complete_witness:
  "server_request_terminal (tiny_env\<lparr>own_session := 1\<rparr>) 4 terminal_command (tiny_server [admin_client])
     = (event_complete, tiny_server [admin_client])"
proof -
  have "get_client_id 4 (tiny_server [admin_client]) = Some admin_client"
    "check_all (client_type admin_client) type_active_client"
    "\<not> check_all (client_type admin_client) type_detached_client"
    "fst (terminal_allowed admin_client (priority terminal_command) (terminal (tiny_server [admin_client])))"
    "\<not> session_leader (tiny_env\<lparr>own_session := 1\<rparr>)" by code_simp+
  then show ?thesis by (rule refused_terminal_reported_complete)
qed

end
