(* ===== verification/Client_State.thy ===== *)
theory Client_State
  imports Complex_Main Transmit Address_Scope
begin

text \<open>
  The state of a client program: the static data of the client library (\<open>libs/client\<close>) as one
  record \<open>client_program\<close>. Queued commands and messages live at addresses, which the program hands
  out as handles; the allocator answers with a fresh one. What the program writes to the server is
  recorded in \<open>sent_commands\<close>, in order, and what it hands to the hooks of the application in
  \<open>hook_calls\<close>. Times and thresholds, floating-point numbers in the code, are rationals here.
\<close>

section \<open>Commands that were sent\<close>

text \<open>\<open>command_status\<close> (\<open>api-command-queue.hpp\<close>): the functors to call and the events so far.\<close>

record command_status =
  local_callbacks :: "nat list"
  local_status :: u32

definition new_command_status :: command_status where
  "new_command_status = \<lparr>local_callbacks = [], local_status = 0\<rparr>"

type_synonym command_status_list = "(u32 \<times> command_status) list"

text \<open>An element of \<open>command_queue\<close>: the command and the address that is its handle.\<close>

type_synonym command_queue = "(handle \<times> command_transmit) list"

section \<open>Messages\<close>

text \<open>What a message carries: the text or the bytes of a single message with their size, zero for a text,
  or the texts of a list.\<close>

datatype message_data =
    Single_Message nat string
  | Multi_Message "string list"

datatype message_content =
    Request_Content message_data
  | Response_Content mask16 message_data
  | Remote_Content handle
  | Info_Content nat string
  | Async_Content

text \<open>\<open>message_info\<close> and the \<open>message_mirror\<close> that owns its strings; \<open>message_type\<close> is \<open>__type\<close>.\<close>

record message_info =
  message_address :: handle
  message_type :: mask16
  last_reference :: u32
  message_reference :: u32
  message_pid :: u32
  message_priority :: u8
  message_command :: string
  received_from :: string
  received_address :: string
  sent_to :: string
  sent_address :: string
  message_content :: message_content

section \<open>Hooks\<close>

text \<open>\<open>remote_service_data\<close> (\<open>api/remote-service.h\<close>), with its bit fields; the three pointers the code
  tests may be null.\<close>

record remote_service_data =
  originator :: bool
  no_check :: bool
  service_direction :: u2
  service_action :: u2
  current_target :: "string option"
  remote_service :: string
  monitor_connection :: string
  notify_entity :: "string option"
  notify_address :: "string option"
  complete_address :: string

datatype hook_call =
    Monitor_Update u32 "string list"
  | Resource_Exit_Hook string
  | Remote_Service_Hook remote_service_data

section \<open>The program\<close>

definition PARAM_DEFAULT_MAX_MESSAGES :: nat where "PARAM_DEFAULT_MAX_MESSAGES = 256"

record client_program =
  local_client :: local_info
  client_server :: string
  alternate_name :: string
  queued_commands :: command_queue
  status_list :: command_status_list
  internal_reference :: u32
  message_list :: "message_info list"
  message_index :: nat
  message_max :: nat
  block_message_flag :: bool
  allow_privileged_responses_flag :: bool
  allow_responses_flag :: bool
  block_remote_flag :: bool
  queue_thread :: bool
  inline_queue :: bool
  exit_state :: bool
  queue_paused :: bool
  timeout_thread :: bool
  pause_thread_timeout :: rat
  auto_pause_threshold :: rat
  auto_pause_restore :: rat
  auto_pause_timeout :: rat
  disable_ready :: bool
  readiness_sent :: bool
  isolated :: bool
  timing_updates :: "(bool \<times> string list) list"
  sent_commands :: "command_transmit list"
  client_writes :: nat
  hook_calls :: "hook_call list"

text \<open>
  The values of the static data before anything was called. The program is no server, and it has
  neither a type nor a name until the server has registered it.
\<close>

definition initial_client :: client_program where
  "initial_client =
     \<lparr>local_client = \<lparr>is_server = False, local_type = 0, entity_name = []\<rparr>,
      client_server = [], alternate_name = ''(none)'',
      queued_commands = [], status_list = [], internal_reference = 1,
      message_list = [], message_index = 0, message_max = PARAM_DEFAULT_MAX_MESSAGES,
      block_message_flag = False, allow_privileged_responses_flag = True,
      allow_responses_flag = True, block_remote_flag = True,
      queue_thread = False, inline_queue = False, exit_state = True, queue_paused = False,
      timeout_thread = False, pause_thread_timeout = 0,
      auto_pause_threshold = 0, auto_pause_restore = 0, auto_pause_timeout = 0,
      disable_ready = False, readiness_sent = False, isolated = False, timing_updates = [],
      sent_commands = [], client_writes = 0, hook_calls = []\<rparr>"

text \<open>
  The system a client runs on: \<open>sends n\<close> tells whether the \<open>n\<close>th write to the server succeeds, \<open>new_block\<close>
  is the allocator, \<open>super_user\<close> and \<open>super_group\<close> tell whether the program runs as the superuser,
  \<open>callback\<close> is the result of the application's functors, \<open>timing_table\<close> the generated
  parser of timing specifications and \<open>timing_compiled\<close> the calculation of the table from them; the
  last four are times of the compiled table.
\<close>

record cenv =
  sends :: "nat \<Rightarrow> command_transmit \<Rightarrow> bool"
  new_block :: "handle list \<Rightarrow> handle"
  super_user :: bool
  super_group :: bool
  own_pid :: u32
  callback :: "nat \<Rightarrow> u32 \<Rightarrow> u32 \<Rightarrow> u32 \<Rightarrow> command_transmit option \<Rightarrow> bool"
  timing_table :: "string list \<Rightarrow> bool"
  timing_compiled :: "(bool \<times> string list) list \<Rightarrow> bool"
  open_pipes :: bool
  new_thread :: bool
  status_retry :: rat
  register_wait :: rat
  terminal_wait :: rat
  terminate_wait :: rat

definition used_handles :: "client_program \<Rightarrow> handle list" where
  "used_handles s = map fst (queued_commands s) @ map message_address (message_list s)"

definition fresh_block :: "cenv \<Rightarrow> client_program \<Rightarrow> handle" where
  "fresh_block e s = new_block e (used_handles s)"

definition cenv_ok :: "cenv \<Rightarrow> bool" where
  "cenv_ok e \<longleftrightarrow> (\<forall>hs. new_block e hs \<notin> set hs \<and> new_block e hs \<noteq> 0)"

lemma fresh_block_ok:
  "cenv_ok e \<Longrightarrow> fresh_block e s \<notin> set (used_handles s) \<and> fresh_block e s \<noteq> 0"
  by (simp add: cenv_ok_def fresh_block_def)

definition base_command :: "cenv \<Rightarrow> command_transmit" where
  "base_command e = new_transmit (own_pid e)"

text \<open>\<open>send_protected_output(pipe_output, ...)\<close>: an isolated client has closed its pipe.\<close>

definition send_to_server :: "cenv \<Rightarrow> command_transmit \<Rightarrow> client_program \<Rightarrow> bool \<times> client_program" where
  "send_to_server e c s =
     (if \<not> isolated s \<and> sends e (client_writes s) c
      then (True, s\<lparr>sent_commands := sent_commands s @ [c], client_writes := Suc (client_writes s)\<rparr>)
      else (False, s\<lparr>client_writes := Suc (client_writes s)\<rparr>))"

section \<open>The data of the program\<close>

text \<open>\<open>client-command.cpp\<close>.\<close>

definition change_local_type :: "mask16 \<Rightarrow> client_program \<Rightarrow> client_program" where
  "change_local_type tType s = s\<lparr>local_client := (local_client s)\<lparr>local_type := tType\<rparr>\<rparr>"

definition change_local_name :: "string \<Rightarrow> client_program \<Rightarrow> client_program" where
  "change_local_name nName s = s\<lparr>local_client := (local_client s)\<lparr>entity_name := nName\<rparr>\<rparr>"

definition change_server_name :: "string \<Rightarrow> client_program \<Rightarrow> client_program" where
  "change_server_name nName s = s\<lparr>client_server := nName\<rparr>"

definition set_log_client_name :: "string option \<Rightarrow> client_program \<Rightarrow> bool \<times> client_program" where
  "set_log_client_name nName s =
     (if entity_name (local_client s) \<noteq> [] \<or> \<not> check_entity_label nName then (False, s)
      else (True, s\<lparr>alternate_name := (case nName of None \<Rightarrow> [] | Some n \<Rightarrow> n)\<rparr>))"

definition isolate_client :: "client_program \<Rightarrow> client_program" where
  "isolate_client s = s\<lparr>isolated := True\<rparr>"

text \<open>\<open>message_queue_status\<close> (\<open>api-message-queue.cpp\<close>).\<close>

definition message_queue_status :: "client_program \<Rightarrow> bool" where
  "message_queue_status s \<longleftrightarrow> inline_queue s \<or> queue_thread s"

section \<open>Well-formed programs\<close>

text \<open>Handles are addresses of different blocks, the current message is one of the list, and the list
  keeps to its limit when it has one.\<close>

definition client_ok :: "client_program \<Rightarrow> bool" where
  "client_ok s \<longleftrightarrow>
     distinct (used_handles s) \<and> 0 \<notin> set (used_handles s) \<and>
     message_index s \<le> length (message_list s) - 1 \<and>
     (message_max s \<noteq> 0 \<longrightarrow> length (message_list s) \<le> message_max s) \<and>
     distinct (map fst (status_list s)) \<and> \<not> is_server (local_client s)"

lemma initial_client_ok: "client_ok initial_client"
  by (simp add: client_ok_def initial_client_def used_handles_def)

end
