(* ===== verification/Client_Queue.thy ===== *)
theory Client_Queue
  imports Client_State
begin

text \<open>
  The commands a client has made and not yet destroyed (\<open>libs/client/command-queue.cpp\<close>). A handle is
  the address of a queued command; every operation looks the handle up and refuses one that is not in
  the queue.
\<close>

section \<open>The queue\<close>

definition find_command_handle :: "handle \<Rightarrow> client_program \<Rightarrow> nat option" where
  "find_command_handle h s = find_index (\<lambda>x. fst x = h) (queued_commands s)"

definition queued_command :: "handle \<Rightarrow> client_program \<Rightarrow> command_transmit option" where
  "queued_command h s = map_option (\<lambda>i. snd (queued_commands s ! i)) (find_command_handle h s)"

definition set_queued :: "handle \<Rightarrow> command_transmit \<Rightarrow> client_program \<Rightarrow> client_program" where
  "set_queued h c s =
     (case find_command_handle h s of
        None \<Rightarrow> s
      | Some i \<Rightarrow> s\<lparr>queued_commands := update_at i (\<lambda>x. (fst x, c)) (queued_commands s)\<rparr>)"

definition queue_new_command ::
  "cenv \<Rightarrow> command_transmit \<Rightarrow> client_program \<Rightarrow> handle \<times> client_program" where
  "queue_new_command e cCommand s =
     (let h = fresh_block e s
      in (h, s\<lparr>queued_commands := queued_commands s @ [(h, cCommand\<lparr>priority := priority_immediate\<rparr>)]\<rparr>))"

definition remove_command :: "handle \<Rightarrow> client_program \<Rightarrow> bool \<times> client_program" where
  "remove_command h s =
     (if h = 0 then (False, s)
      else (True, s\<lparr>queued_commands := filter (\<lambda>x. fst x \<noteq> h) (queued_commands s)\<rparr>))"

text \<open>
  \<open>transmit_command\<close>. The fields it sets stay with the queued command, the temporary remote reference
  apart; so does the tree \<open>command_sendable\<close> builds.
\<close>

definition prepare_transmit :: "client_program \<Rightarrow> u32 \<Rightarrow> bool \<Rightarrow> command_transmit \<Rightarrow> command_transmit" where
  "prepare_transmit s rReference sSilent c =
     c\<lparr>orig_reference := rReference,
       remote_reference := (if remote_reference c \<noteq> 0 then remote_reference c else rReference),
       orig_entity := (if orig_entity c = [] then entity_name (local_client s) else orig_entity c),
       silent_auto_response := (if orig_address c = [] \<or> \<not> sSilent then sSilent
                                else silent_auto_response c)\<rparr>"

definition transmit_refused :: "command_transmit \<Rightarrow> bool" where
  "transmit_refused c \<longleftrightarrow>
     no_send c \<noteq> 0 \<or> (check_all (execute_type c) command_no_remote \<and> target_address c \<noteq> [])"

definition transmit_command ::
  "cenv \<Rightarrow> handle \<Rightarrow> u32 \<Rightarrow> bool \<Rightarrow> client_program \<Rightarrow> bool \<times> client_program" where
  "transmit_command e h rReference sSilent s =
     (case queued_command h s of
        None \<Rightarrow> (False, s)
      | Some c \<Rightarrow>
          if transmit_refused c then (False, s)
          else case command_sendable (local_client s) (prepare_transmit s rReference sSilent c) of
            (ready, c1) \<Rightarrow>
              (case (if ready then send_to_server e c1 s else (False, s)) of
                (outcome, s1) \<Rightarrow>
                  (outcome, set_queued h
                     (if remote_reference c = 0 then c1\<lparr>remote_reference := 0\<rparr> else c1) s1)))"

text \<open>\<open>forward_command\<close> takes the command out of the queue; \<open>extract_command\<close> only reads its text.\<close>

definition forward_command :: "handle \<Rightarrow> client_program \<Rightarrow> command_transmit option \<times> client_program" where
  "forward_command h s =
     (case queued_command h s of
        None \<Rightarrow> (None, s)
      | Some c \<Rightarrow>
          if no_send c = 0 then (None, s)
          else (Some c, s\<lparr>queued_commands := remove_at (the (find_command_handle h s)) (queued_commands s)\<rparr>))"

definition set_response_entity :: "handle \<Rightarrow> string \<Rightarrow> client_program \<Rightarrow> bool \<times> client_program" where
  "set_response_entity h eEntity s =
     (case queued_command h s of
        None \<Rightarrow> (False, s)
      | Some c \<Rightarrow>
          if no_send c \<noteq> 0 then (False, s)
          else (True, set_queued h (c\<lparr>orig_entity := eEntity\<rparr>) s))"

definition address_refused :: "command_transmit \<Rightarrow> bool" where
  "address_refused c \<longleftrightarrow>
     no_send c \<noteq> 0 \<or> check_all (execute_type c) command_no_remote \<or>
     check_all (execute_type c) command_response"

definition insert_remote_scope :: "handle \<Rightarrow> string \<Rightarrow> client_program \<Rightarrow> bool \<times> client_program" where
  "insert_remote_scope h aAddress s =
     (case queued_command h s of
        None \<Rightarrow> (False, s)
      | Some c \<Rightarrow>
          if address_refused c then (False, s)
          else (case insert_existing_scope (target_entity c, target_address c) aAddress of
            (t, a) \<Rightarrow> (True, set_queued h (c\<lparr>target_entity := t, target_address := a\<rparr>) s)))"

definition change_priority :: "handle \<Rightarrow> u8 \<Rightarrow> client_program \<Rightarrow> bool \<times> client_program" where
  "change_priority h pPriority s =
     (case queued_command h s of
        None \<Rightarrow> (False, s)
      | Some c \<Rightarrow> (True, set_queued h (c\<lparr>priority := pPriority\<rparr>) s))"

definition set_server_address ::
  "handle \<Rightarrow> string \<Rightarrow> string \<Rightarrow> client_program \<Rightarrow> bool \<times> client_program" where
  "set_server_address h cClient aAddress s =
     (case queued_command h s of
        None \<Rightarrow> (False, s)
      | Some c \<Rightarrow>
          if address_refused c then (False, s)
          else (case set_to_server_scope (cClient, aAddress) of
            (t, a) \<Rightarrow> (True, set_queued h (c\<lparr>target_entity := t, target_address := a\<rparr>) s)))"

text \<open>\<open>strncpy\<close> into a buffer of \<open>sSize\<close> characters.\<close>

definition next_remote_address :: "handle \<Rightarrow> nat \<Rightarrow> client_program \<Rightarrow> string option" where
  "next_remote_address h sSize s =
     (case queued_command h s of
        None \<Rightarrow> None
      | Some c \<Rightarrow>
          if no_send c = 0 then None
          else map_option (take sSize) (copy_next_scope (target_address c)))"

section \<open>Looking up handles\<close>

lemma queued_commandD:
  assumes "queued_command h s = Some c"
  obtains i where "find_command_handle h s = Some i" "i < length (queued_commands s)"
    "queued_commands s ! i = (h, c)"
proof -
  from assms obtain i where i: "find_command_handle h s = Some i" "snd (queued_commands s ! i) = c"
    by (auto simp: queued_command_def)
  with find_index_SomeD [of "\<lambda>x. fst x = h" "queued_commands s" i] that show thesis
    by (metis find_command_handle_def prod.collapse)
qed

lemma queued_command_None: "queued_command h s = None \<longleftrightarrow> h \<notin> fst ` set (queued_commands s)"
  by (auto simp: queued_command_def find_command_handle_def)

lemma queued_command_map_of: "queued_command h s = map_of (queued_commands s) h"
proof -
  have "map_option (\<lambda>i. snd (xs ! i)) (find_index (\<lambda>x. fst x = h) xs) = map_of xs h" for xs :: command_queue
    by (induction xs) (auto simp: option.map_comp comp_def)
  then show ?thesis by (simp add: queued_command_def find_command_handle_def)
qed

lemma map_fst_update [simp]: "map fst (update_at i (\<lambda>x. (fst x, c)) xs) = map fst xs"
  by (rule map_update_at) simp

lemma set_queued_frame [frame_simps]:
  "map fst (queued_commands (set_queued h c s)) = map fst (queued_commands s)"
  "message_list (set_queued h c s) = message_list s" "message_index (set_queued h c s) = message_index s"
  "message_max (set_queued h c s) = message_max s" "status_list (set_queued h c s) = status_list s"
  "local_client (set_queued h c s) = local_client s" "sent_commands (set_queued h c s) = sent_commands s"
  "internal_reference (set_queued h c s) = internal_reference s"
  by (simp_all add: set_queued_def split: option.split)

lemma map_of_update:
  "map_of (update_at i (\<lambda>x. (fst x, c)) xs) k =
    (if i < length xs \<and> fst (xs ! i) = k \<and> (\<forall>j < i. fst (xs ! j) \<noteq> k) then Some c else map_of xs k)"
proof (induction xs arbitrary: i)
  case (Cons x xs)
  show ?case
  proof (cases i)
    case (Suc n)
    have u: "update_at (Suc n) (\<lambda>x. (fst x, c)) (x # xs) = x # update_at n (\<lambda>x. (fst x, c)) xs"
      by (simp add: update_at_def)
    have "(\<forall>j < Suc n. fst ((x # xs) ! j) \<noteq> k) \<longleftrightarrow> fst x \<noteq> k \<and> (\<forall>j < n. fst (xs ! j) \<noteq> k)"
      using less_Suc_eq_0_disj by auto
    with Suc u Cons show ?thesis by (cases x) auto
  qed (simp add: update_at_def)
qed (simp add: update_at_def)

lemma queued_set_queued:
  "queued_command k (set_queued h c s) =
    (if k = h \<and> queued_command h s \<noteq> None then Some c else queued_command k s)"
proof (cases "find_command_handle h s")
  case (Some i)
  then have "i < length (queued_commands s) \<and> fst (queued_commands s ! i) = h \<and>
      (\<forall>j < i. fst (queued_commands s ! j) \<noteq> h)"
    unfolding find_command_handle_def by (rule find_index_Some)
  moreover have "queued_command h s \<noteq> None" using Some by (simp add: queued_command_def)
  ultimately show ?thesis
    using Some by (auto simp: set_queued_def queued_command_map_of map_of_update)
qed (simp add: set_queued_def queued_command_def)

lemma send_to_server_frame [frame_simps]:
  "queued_commands (snd (send_to_server e c s)) = queued_commands s"
  "message_list (snd (send_to_server e c s)) = message_list s"
  "message_index (snd (send_to_server e c s)) = message_index s"
  "message_max (snd (send_to_server e c s)) = message_max s"
  "status_list (snd (send_to_server e c s)) = status_list s"
  "local_client (snd (send_to_server e c s)) = local_client s"
  "internal_reference (snd (send_to_server e c s)) = internal_reference s"
  by (simp_all add: send_to_server_def)

section \<open>Operations that keep the handles\<close>

definition same_shape :: "client_program \<Rightarrow> client_program \<Rightarrow> bool" where
  "same_shape s t \<longleftrightarrow>
     map fst (queued_commands t) = map fst (queued_commands s) \<and>
     map message_address (message_list t) = map message_address (message_list s) \<and>
     message_index t = message_index s \<and> message_max t = message_max s \<and>
     map fst (status_list t) = map fst (status_list s) \<and> is_server (local_client t) = is_server (local_client s)"

lemma same_shape_refl [simp]: "same_shape s s"
  by (simp add: same_shape_def)

lemma same_shape_trans: "same_shape s t \<Longrightarrow> same_shape t u \<Longrightarrow> same_shape s u"
  by (simp add: same_shape_def)

lemma same_shape_ok: "same_shape s t \<Longrightarrow> client_ok s \<Longrightarrow> client_ok t"
proof -
  assume a: "same_shape s t" "client_ok s"
  then have "used_handles t = used_handles s" "length (message_list t) = length (message_list s)"
    using map_eq_imp_length_eq by (auto simp: same_shape_def used_handles_def)
  with a show ?thesis by (simp add: client_ok_def same_shape_def)
qed

lemma set_queued_shape: "same_shape s (set_queued h c s)"
  by (simp add: same_shape_def frame_simps)

lemma send_shape: "same_shape s (snd (send_to_server e c s))"
  by (simp add: same_shape_def frame_simps)

lemma queue_edit_shape:
  "same_shape s (snd (set_response_entity h n s))" "same_shape s (snd (insert_remote_scope h a s))"
  "same_shape s (snd (change_priority h p s))" "same_shape s (snd (set_server_address h n a s))"
  by (auto simp: set_response_entity_def insert_remote_scope_def change_priority_def set_server_address_def
      set_queued_shape split: option.split prod.split)

lemma transmit_shape: "same_shape s (snd (transmit_command e h r q s))"
proof (cases "queued_command h s")
  case (Some c)
  obtain ready c1 where c: "command_sendable (local_client s) (prepare_transmit s r q c) = (ready, c1)"
    by fastforce
  show ?thesis
    using Some c same_shape_trans [OF send_shape set_queued_shape]
    by (simp add: transmit_command_def split_beta set_queued_shape)
qed (simp add: transmit_command_def)

section \<open>Operations that add and take commands\<close>

lemma queue_new_command_ok:
  assumes "cenv_ok e" and "client_ok s"
  shows "client_ok (snd (queue_new_command e c s))"
  using assms fresh_block_ok [of e s]
  by (auto simp: queue_new_command_def Let_def client_ok_def used_handles_def)

lemma fewer_commands_ok:
  assumes "client_ok s" and "fst ` set q \<subseteq> fst ` set (queued_commands s)" and "distinct (map fst q)"
  shows "client_ok (s\<lparr>queued_commands := q\<rparr>)"
proof -
  have "fst ` set (queued_commands s) \<inter> message_address ` set (message_list s) = {}"
    "0 \<notin> fst ` set (queued_commands s)"
    using assms(1) by (simp_all add: client_ok_def used_handles_def)
  with assms(2) have "fst ` set q \<inter> message_address ` set (message_list s) = {}" "0 \<notin> fst ` set q"
    by blast+
  with assms(1,3) show ?thesis by (simp add: client_ok_def used_handles_def)
qed

lemma remove_command_ok: "client_ok s \<Longrightarrow> client_ok (snd (remove_command h s))"
  using fewer_commands_ok [of s "filter (\<lambda>x. fst x \<noteq> h) (queued_commands s)"]
  by (auto simp: remove_command_def client_ok_def used_handles_def distinct_map_filter)

lemma forward_command_ok:
  assumes "client_ok s"
  shows "client_ok (snd (forward_command h s))"
proof -
  have "distinct (map fst (remove_at i (queued_commands s)))" for i
    using assms by (simp add: client_ok_def used_handles_def map_remove_at distinct_remove_at)
  then have "client_ok (s\<lparr>queued_commands := remove_at i (queued_commands s)\<rparr>)" for i
    using fewer_commands_ok [OF assms] set_remove_at_subset image_mono by metis
  with assms show ?thesis by (simp add: forward_command_def split: option.split)
qed

lemma queued_queue_new:
  assumes "cenv_ok e"
  shows "queued_command (fst (queue_new_command e c s)) (snd (queue_new_command e c s))
      = Some (c\<lparr>priority := priority_immediate\<rparr>)"
    and "k \<noteq> fst (queue_new_command e c s) \<Longrightarrow>
      queued_command k (snd (queue_new_command e c s)) = queued_command k s"
proof -
  have "map_of (queued_commands s) (fresh_block e s) = None"
    using fresh_block_ok [OF assms, of s] by (simp add: used_handles_def map_of_eq_None_iff)
  then show "queued_command (fst (queue_new_command e c s)) (snd (queue_new_command e c s))
      = Some (c\<lparr>priority := priority_immediate\<rparr>)"
    "k \<noteq> fst (queue_new_command e c s) \<Longrightarrow>
      queued_command k (snd (queue_new_command e c s)) = queued_command k s"
    by (simp_all add: queued_command_map_of queue_new_command_def Let_def map_add_def split: option.split)
qed

end
