(* ===== verification/Message_Queue.thy ===== *)
theory Message_Queue
  imports Client_Queue
begin

text \<open>
  The messages a client has received and not yet removed, the flags that block them and the pausing of
  the queue (\<open>libs/client/api-message-queue.cpp\<close>). The list is a ring with a current position: the
  positions the code uses count from there, while elements are added and cut off at the physical end.
\<close>

section \<open>The ring\<close>

text \<open>\<open>ring_find\<close> is \<open>f_find\<close>, \<open>ring_remove\<close> is \<open>remove_single\<close> and \<open>ring_limit\<close> is \<open>set_max_size\<close> of
  \<open>clist\<close>. Removing an element other than the current one moves the current position back.\<close>

definition ring_find :: "('a \<Rightarrow> bool) \<Rightarrow> 'a list \<Rightarrow> nat \<Rightarrow> nat option" where
  "ring_find P xs i = find_index P (rotate i xs)"

definition ring_nth :: "'a list \<Rightarrow> nat \<Rightarrow> nat \<Rightarrow> 'a" where
  "ring_nth xs i p = xs ! ((i + p) mod length xs)"

definition ring_remove :: "nat \<Rightarrow> 'a list \<Rightarrow> nat \<Rightarrow> 'a list \<times> nat" where
  "ring_remove p xs i =
     (let n = length xs;
          i1 = (if i = n - 1 then 0 else if p \<noteq> 0 then (if i = 0 then n - 1 else i - 1) else i)
      in if n = 0 then (xs, i)
         else (remove_at ((i + p) mod n) xs, if n - 1 = 0 then 0 else i1 mod (n - 1)))"

definition ring_limit :: "nat \<Rightarrow> 'a list \<Rightarrow> nat \<Rightarrow> 'a list \<times> nat" where
  "ring_limit m xs i =
     (let ys = (if m = 0 then xs else take m xs) in (ys, if ys = [] then 0 else i mod length ys))"

section \<open>Flags\<close>

definition block_messages :: "client_program \<Rightarrow> client_program" where
  "block_messages s = s\<lparr>allow_privileged_responses_flag := False, allow_responses_flag := False,
     block_message_flag := True\<rparr>"

definition allow_messages :: "client_program \<Rightarrow> client_program" where
  "allow_messages s = s\<lparr>allow_privileged_responses_flag := True, allow_responses_flag := True,
     block_message_flag := False\<rparr>"

definition allow_privileged_responses :: "client_program \<Rightarrow> client_program" where
  "allow_privileged_responses s = s\<lparr>allow_privileged_responses_flag := True,
     allow_responses_flag := False, block_message_flag := True\<rparr>"

definition allow_responses :: "client_program \<Rightarrow> client_program" where
  "allow_responses s = s\<lparr>allow_privileged_responses_flag := True, allow_responses_flag := True,
     block_message_flag := True\<rparr>"

definition allow_privileged_responses_status :: "client_program \<Rightarrow> bool" where
  "allow_privileged_responses_status s \<longleftrightarrow>
     allow_privileged_responses_flag s \<or> allow_responses_flag s \<or> \<not> block_message_flag s"

definition allow_responses_status :: "client_program \<Rightarrow> bool" where
  "allow_responses_status s \<longleftrightarrow> allow_responses_flag s \<or> \<not> block_message_flag s"

definition block_remote :: "client_program \<Rightarrow> client_program" where
  "block_remote s = s\<lparr>block_remote_flag := True\<rparr>"

definition allow_remote :: "client_program \<Rightarrow> client_program" where
  "allow_remote s = s\<lparr>block_remote_flag := False\<rparr>"

section \<open>Pausing\<close>

definition cancel_pause_timeout :: "client_program \<Rightarrow> client_program" where
  "cancel_pause_timeout s = s\<lparr>timeout_thread := False\<rparr>"

definition message_queue_pause :: "client_program \<Rightarrow> bool \<times> client_program" where
  "message_queue_pause s =
     (if \<not> message_queue_status s then (False, s) else (True, s\<lparr>queue_paused := True\<rparr>))"

definition message_queue_unpause :: "client_program \<Rightarrow> bool \<times> client_program" where
  "message_queue_unpause s =
     (if \<not> message_queue_status s \<or> \<not> queue_paused s then (False, s)
      else (True, (cancel_pause_timeout s)\<lparr>queue_paused := False\<rparr>))"

definition message_queue_pause_state :: "bool \<Rightarrow> client_program \<Rightarrow> bool \<times> client_program" where
  "message_queue_pause_state in_queue s =
     (if in_queue then (False, s)
      else let s1 = (if message_list s = [] then snd (message_queue_unpause s) else s)
           in (message_queue_status s1 \<and> queue_paused s1, s1))"

definition message_queue_timed_pause :: "cenv \<Rightarrow> rat \<Rightarrow> client_program \<Rightarrow> bool \<times> client_program" where
  "message_queue_timed_pause e tTime s =
     (if \<not> message_queue_status s \<or> tTime \<le> 0 then (False, s)
      else let s1 = (cancel_pause_timeout s)\<lparr>pause_thread_timeout := tTime\<rparr>
           in if new_thread e then (True, s1\<lparr>timeout_thread := True\<rparr>) else (False, s1))"

text \<open>\<open>pause_timeout_thread\<close> before and after it sleeps, for the time it returns.\<close>

definition pause_timeout_start :: "client_program \<Rightarrow> rat option \<times> client_program" where
  "pause_timeout_start s =
     (case message_queue_pause s of (paused, s1) \<Rightarrow>
        if \<not> paused then (None, s1\<lparr>timeout_thread := False\<rparr>)
        else (Some (pause_thread_timeout s1), s1\<lparr>pause_thread_timeout := 0\<rparr>))"

definition pause_timeout_end :: "client_program \<Rightarrow> client_program" where
  "pause_timeout_end s = (snd (message_queue_unpause s))\<lparr>timeout_thread := False\<rparr>"

definition message_queue_auto_pause ::
  "rat \<Rightarrow> rat \<Rightarrow> rat \<Rightarrow> client_program \<Rightarrow> bool \<times> client_program" where
  "message_queue_auto_pause tThreshold rRestore tTime s =
     (if tThreshold > 1 \<or> rRestore \<ge> 1 \<or> rRestore \<ge> tThreshold then (False, s)
      else if tThreshold < 0 \<or> rRestore < 0 \<or> tTime < 0 then (False, s)
      else if tThreshold = 0 \<and> (rRestore \<noteq> 0 \<or> tTime \<noteq> 0) then (False, s)
      else (True, s\<lparr>auto_pause_threshold := tThreshold, auto_pause_restore := rRestore,
              auto_pause_timeout := tTime\<rparr>))"

definition below_restore :: "nat \<Rightarrow> nat \<Rightarrow> client_program \<Rightarrow> bool" where
  "below_restore sSize cCapacity s \<longleftrightarrow>
     cCapacity = 0 \<or> auto_pause_threshold s = 0 \<or>
     of_nat sSize \<le> of_nat cCapacity * auto_pause_restore s"

definition auto_pause_check :: "cenv \<Rightarrow> nat \<Rightarrow> nat \<Rightarrow> client_program \<Rightarrow> client_program" where
  "auto_pause_check e sSize cCapacity s =
     (if below_restore sSize cCapacity s then snd (message_queue_unpause s)
      else if of_nat sSize \<ge> of_nat cCapacity * auto_pause_threshold s then
        (if auto_pause_timeout s \<noteq> 0 then snd (message_queue_timed_pause e (auto_pause_timeout s) s)
         else snd (message_queue_pause s))
      else s)"

definition auto_unpause_check :: "nat \<Rightarrow> nat \<Rightarrow> client_program \<Rightarrow> client_program" where
  "auto_unpause_check sSize cCapacity s =
     (if below_restore sSize cCapacity s then snd (message_queue_unpause s) else s)"

definition check_size :: "client_program \<Rightarrow> client_program" where
  "check_size s = auto_unpause_check (length (message_list s)) (message_max s) s"

section \<open>Messages\<close>

text \<open>Texts are copied as C strings, binary data by its size.\<close>

fun mirror_data :: "message_data \<Rightarrow> message_data" where
  "mirror_data (Single_Message n d) = Single_Message n (if n = 0 then c_str d else take n d)"
| "mirror_data (Multi_Message ds) = Multi_Message (map c_str ds)"

fun mirror_content :: "message_content \<Rightarrow> message_content" where
  "mirror_content (Request_Content d) = Request_Content (mirror_data d)"
| "mirror_content (Response_Content t d) = Response_Content t (mirror_data d)"
| "mirror_content (Info_Content n d) = Info_Content n (if n = 0 then c_str d else take n d)"
| "mirror_content (Remote_Content h) = Remote_Content h"
| "mirror_content Async_Content = Async_Content"

fun content_type :: "message_content \<Rightarrow> mask16" where
  "content_type (Request_Content d) = command_request"
| "content_type (Response_Content t d) = command_response"
| "content_type (Remote_Content h) = command_remote"
| "content_type (Info_Content n d) = command_null"
| "content_type Async_Content = command_none"

definition new_message :: "handle \<Rightarrow> command_transmit \<Rightarrow> message_content \<Rightarrow> message_info" where
  "new_message h oOriginal m =
     \<lparr>message_address = h, message_type = content_type m, last_reference = orig_reference oOriginal,
      message_reference =
        (case m of Remote_Content p \<Rightarrow> orig_reference oOriginal
         | _ \<Rightarrow> if remote_reference oOriginal \<noteq> 0 then remote_reference oOriginal
               else target_reference oOriginal),
      message_pid = creator_pid oOriginal, message_priority = priority oOriginal,
      message_command = command_name oOriginal,
      received_from = orig_entity oOriginal, received_address = orig_address oOriginal,
      sent_to = target_entity oOriginal, sent_address = target_address oOriginal,
      message_content = mirror_content m\<rparr>"

text \<open>The current position is set to the start while the element is added; it is put back only when
  there was room.\<close>

definition add_new_message ::
  "cenv \<Rightarrow> command_transmit \<Rightarrow> message_content \<Rightarrow> client_program \<Rightarrow> handle option \<times> client_program" where
  "add_new_message e oOriginal m s =
     (if message_max s \<noteq> 0 \<and> length (message_list s) \<ge> message_max s then (None, s\<lparr>message_index := 0\<rparr>)
      else let h = fresh_block e s;
               s1 = s\<lparr>message_list := message_list s @ [new_message h oOriginal m]\<rparr>
           in (Some h, auto_pause_check e (length (message_list s1)) (message_max s1) s1))"

definition find_message_handle :: "handle \<Rightarrow> client_program \<Rightarrow> nat option" where
  "find_message_handle h s = ring_find (\<lambda>m. message_address m = h) (message_list s) (message_index s)"

definition set_ring :: "message_info list \<times> nat \<Rightarrow> client_program \<Rightarrow> client_program" where
  "set_ring r s = s\<lparr>message_list := fst r, message_index := snd r\<rparr>"

definition remove_current_message :: "client_program \<Rightarrow> bool \<times> client_program" where
  "remove_current_message s =
     (True, check_size (set_ring (fst (ring_remove 0 (message_list s) (message_index s)), 0) s))"

definition remove_message :: "handle \<Rightarrow> client_program \<Rightarrow> bool \<times> client_program" where
  "remove_message h s =
     (if h = 0 then (False, s)
      else case find_message_handle h s of
        None \<Rightarrow> (False, s)
      | Some p \<Rightarrow> (True, check_size (set_ring (ring_remove p (message_list s) (message_index s)) s)))"

definition find_message :: "handle \<Rightarrow> client_program \<Rightarrow> message_info option" where
  "find_message h s =
     (if h = 0 then None
      else map_option (ring_nth (message_list s) (message_index s)) (find_message_handle h s))"

definition current_message :: "client_program \<Rightarrow> message_info option" where
  "current_message s =
     (if message_list s = [] then None else Some (ring_nth (message_list s) (message_index s) 0))"

definition response_to :: "u32 \<Rightarrow> message_info \<Rightarrow> bool" where
  "response_to r m \<longleftrightarrow> message_type m = command_response \<and> message_reference m = r"

definition check_responses :: "u32 \<Rightarrow> client_program \<Rightarrow> nat" where
  "check_responses r s = length (filter (response_to r) (message_list s))"

definition rotate_response :: "u32 \<Rightarrow> client_program \<Rightarrow> message_info option \<times> client_program" where
  "rotate_response r s =
     (if message_list s = [] then (None, s)
      else let s0 = s\<lparr>message_index := 0\<rparr>
           in case ring_find (response_to r) (message_list s) 0 of
                None \<Rightarrow> (None, s0)
              | Some p \<Rightarrow> (Some (ring_nth (message_list s) p 0), s0\<lparr>message_index := p\<rparr>))"

definition remove_all_responses :: "u32 \<Rightarrow> client_program \<Rightarrow> client_program" where
  "remove_all_responses r s =
     (let keep = (if r \<noteq> 0 then filter (\<lambda>m. \<not> response_to r m) (message_list s)
                  else filter (\<lambda>m. message_type m = command_none) (message_list s))
      in check_size (set_ring (keep, 0) s))"

definition clear_messages :: "client_program \<Rightarrow> client_program" where
  "clear_messages s = remove_all_responses 0 s"

definition remove_responses :: "u32 \<Rightarrow> client_program \<Rightarrow> bool \<times> client_program" where
  "remove_responses r s = (if r = 0 then (False, s) else (True, remove_all_responses r s))"

text \<open>\<open>copy_message_response\<close> fills in the command that answers a message.\<close>

definition copy_response :: "handle \<Rightarrow> command_transmit \<Rightarrow> client_program \<Rightarrow> command_transmit option" where
  "copy_response h c s =
     (case find_message h s of
        None \<Rightarrow> None
      | Some m \<Rightarrow> Some (c\<lparr>orig_entity := sent_to m, orig_address := [], creator_pid := message_pid m,
          priority := message_priority m, target_entity := received_from m,
          target_address := received_address m, target_reference := last_reference m,
          remote_reference := message_reference m\<rparr>))"

definition set_message_queue_limit :: "cenv \<Rightarrow> nat \<Rightarrow> client_program \<Rightarrow> client_program" where
  "set_message_queue_limit e mMax s =
     (let s1 = set_ring (ring_limit mMax (message_list s) (message_index s)) (s\<lparr>message_max := mMax\<rparr>)
      in auto_pause_check e (length (message_list s1)) mMax s1)"

section \<open>Starting and stopping\<close>

text \<open>\<open>common_start\<close> asks for open pipes; the loader of commands is never left accepting.\<close>

definition common_start :: "cenv \<Rightarrow> client_program \<Rightarrow> bool" where
  "common_start e s \<longleftrightarrow> open_pipes e \<and> \<not> isolated s"

definition start_message_queue :: "cenv \<Rightarrow> client_program \<Rightarrow> bool \<times> client_program" where
  "start_message_queue e s =
     (if queue_thread s then (True, s)
      else if \<not> common_start e s \<or> \<not> new_thread e then (False, s)
      else (True, s\<lparr>queue_thread := True, exit_state := False\<rparr>))"

text \<open>\<open>stop_message_queue\<close>; the queue in the caller's own thread only notes that it is to end.\<close>

definition stop_message_queue :: "client_program \<Rightarrow> bool \<times> client_program" where
  "stop_message_queue s =
     (if inline_queue s then (False, s\<lparr>exit_state := True\<rparr>)
      else if \<not> queue_thread s then (False, s)
      else (True, (snd (message_queue_unpause (s\<lparr>exit_state := True\<rparr>)))\<lparr>queue_thread := False\<rparr>))"

section \<open>The ring stays in range\<close>

lemma rotate_nth: "p < length xs \<Longrightarrow> rotate i xs ! p = ring_nth xs i p"
  by (simp add: ring_nth_def nth_rotate)

lemma ring_find_SomeD:
  assumes "ring_find P xs i = Some p"
  shows "p < length xs" and "P (ring_nth xs i p)" and "xs \<noteq> []"
  using find_index_SomeD [of P "rotate i xs" p] assms by (auto simp: ring_find_def rotate_nth)

lemma ring_find_None: "ring_find P xs i = None \<longleftrightarrow> (\<forall>x \<in> set xs. \<not> P x)"
  by (simp add: ring_find_def)

lemma ring_nth_in: "xs \<noteq> [] \<Longrightarrow> ring_nth xs i p \<in> set xs"
  by (simp add: ring_nth_def)

lemma ring_remove_range:
  assumes "i \<le> length xs - 1"
  shows "snd (ring_remove p xs i) \<le> length (fst (ring_remove p xs i)) - 1"
proof (cases "length xs \<le> 1")
  case True
  with assms have "xs = [] \<or> length xs = 1" by (cases xs) auto
  with assms show ?thesis by (auto simp: ring_remove_def Let_def)
next
  case False
  then have "0 < length xs" by linarith
  with False have n: "(i + p) mod length xs < length xs" "0 < length xs - 1" by simp_all
  have "j mod (length xs - 1) \<le> length xs - 1 - 1" for j
    using mod_less_divisor [OF n(2), of j] by linarith
  with n show ?thesis by (auto simp: ring_remove_def Let_def length_remove_at)
qed

lemma ring_remove_sub:
  "set (fst (ring_remove p xs i)) \<subseteq> set xs" (is ?a)
  "length (fst (ring_remove p xs i)) \<le> length xs" (is ?b)
  "distinct (map f xs) \<Longrightarrow> distinct (map f (fst (ring_remove p xs i)))"
proof -
  show ?a
    using set_remove_at_subset [of "(i + p) mod length xs" xs] by (auto simp: ring_remove_def Let_def)
  show ?b by (simp add: ring_remove_def Let_def length_remove_at)
  show "distinct (map f xs) \<Longrightarrow> distinct (map f (fst (ring_remove p xs i)))"
    by (simp add: ring_remove_def Let_def map_remove_at distinct_remove_at)
qed

section \<open>What pausing leaves alone\<close>

definition only_pausing :: "client_program \<Rightarrow> client_program \<Rightarrow> bool" where
  "only_pausing s t \<longleftrightarrow>
     t\<lparr>queue_paused := queue_paused s, timeout_thread := timeout_thread s,
       pause_thread_timeout := pause_thread_timeout s\<rparr> = s"

lemma only_pausingD:
  assumes "only_pausing s t"
  obtains p b r where "t = s\<lparr>queue_paused := p, timeout_thread := b, pause_thread_timeout := r\<rparr>"
proof -
  have "t = (t\<lparr>queue_paused := queue_paused s, timeout_thread := timeout_thread s,
       pause_thread_timeout := pause_thread_timeout s\<rparr>)\<lparr>queue_paused := queue_paused t,
       timeout_thread := timeout_thread t, pause_thread_timeout := pause_thread_timeout t\<rparr>"
    by simp
  with assms that show thesis unfolding only_pausing_def by metis
qed

lemma only_pausing_frame:
  assumes "only_pausing s t"
  shows "message_list t = message_list s" and "message_index t = message_index s"
    and "message_max t = message_max s" and "queued_commands t = queued_commands s"
    and "status_list t = status_list s" and "local_client t = local_client s"
    and "internal_reference t = internal_reference s" and "sent_commands t = sent_commands s"
    and "message_queue_status t = message_queue_status s"
  using assms by (rule only_pausingD, simp add: message_queue_status_def)+

lemma only_pausing_shape: "only_pausing s t \<Longrightarrow> same_shape s t"
  by (simp add: same_shape_def only_pausing_frame)

lemma pausing_only:
  "only_pausing s (snd (message_queue_pause s))" "only_pausing s (snd (message_queue_unpause s))"
  "only_pausing s (snd (message_queue_timed_pause e t s))"
  by (simp_all add: only_pausing_def message_queue_pause_def message_queue_unpause_def
      message_queue_timed_pause_def cancel_pause_timeout_def Let_def)

lemma pausing_checks_only:
  "only_pausing s (auto_pause_check e n m s)" "only_pausing s (auto_unpause_check n m s)"
  "only_pausing s (check_size s)" "only_pausing s (snd (message_queue_pause_state b s))"
  using pausing_only
  by (simp_all add: auto_pause_check_def auto_unpause_check_def check_size_def only_pausing_def
      message_queue_pause_state_def Let_def)

section \<open>Every operation keeps the program well-formed\<close>

lemma messages_ok:
  assumes "client_ok s" and "message_address ` set xs \<subseteq> message_address ` set (message_list s)"
    and "distinct (map message_address xs)" and "length xs \<le> length (message_list s)"
    and "i \<le> length xs - 1"
  shows "client_ok (set_ring (xs, i) s)"
proof -
  have "fst ` set (queued_commands s) \<inter> message_address ` set (message_list s) = {}"
    "0 \<notin> message_address ` set (message_list s)"
    using assms(1) by (simp_all add: client_ok_def used_handles_def)
  with assms(2) have "fst ` set (queued_commands s) \<inter> message_address ` set xs = {}"
    "0 \<notin> message_address ` set xs" by blast+
  with assms show ?thesis by (auto simp: client_ok_def used_handles_def set_ring_def)
qed

lemma paused_ok: "only_pausing s t \<Longrightarrow> client_ok s \<Longrightarrow> client_ok t"
  using only_pausing_shape same_shape_ok by blast

lemma add_new_message_ok:
  assumes "cenv_ok e" and "client_ok s"
  shows "client_ok (snd (add_new_message e c m s))"
proof (cases "message_max s \<noteq> 0 \<and> length (message_list s) \<ge> message_max s")
  case True
  with assms(2) show ?thesis by (simp add: add_new_message_def client_ok_def used_handles_def)
next
  case False
  have "client_ok (s\<lparr>message_list := message_list s @ [new_message (fresh_block e s) c m]\<rparr>)"
    using assms False fresh_block_ok [of e s]
    by (auto simp: client_ok_def used_handles_def new_message_def)
  from paused_ok [OF pausing_checks_only(1) this] False show ?thesis
    by (auto simp: add_new_message_def Let_def)
qed

lemma ring_remove_ok:
  assumes "client_ok s"
  shows "client_ok (set_ring (ring_remove p (message_list s) (message_index s)) s)"
    and "client_ok (set_ring (fst (ring_remove p (message_list s) (message_index s)), 0) s)"
proof -
  let ?r = "ring_remove p (message_list s) (message_index s)"
  have r: "message_address ` set (fst ?r) \<subseteq> message_address ` set (message_list s)"
    "distinct (map message_address (fst ?r))" "length (fst ?r) \<le> length (message_list s)"
    "snd ?r \<le> length (fst ?r) - 1"
    using assms ring_remove_sub [where p = p and xs = "message_list s" and i = "message_index s"]
      ring_remove_range [where p = p and xs = "message_list s" and i = "message_index s"]
    by (auto simp: client_ok_def used_handles_def)
  from messages_ok [OF assms r] show "client_ok (set_ring ?r s)" by simp
  from messages_ok [OF assms r(1-3)] show "client_ok (set_ring (fst ?r, 0) s)" by simp
qed

lemma filter_messages_ok:
  "client_ok s \<Longrightarrow> client_ok (set_ring (filter P (message_list s), 0) s)"
  by (rule messages_ok) (auto simp: client_ok_def used_handles_def distinct_map_filter)

lemma remove_messages_ok:
  assumes "client_ok s"
  shows "client_ok (snd (remove_current_message s))" and "client_ok (snd (remove_message h s))"
    and "client_ok (remove_all_responses r s)" and "client_ok (snd (remove_responses r s))"
    and "client_ok (snd (rotate_response r s))"
proof -
  show "client_ok (snd (remove_current_message s))"
    using paused_ok [OF pausing_checks_only(3) ring_remove_ok(2) [OF assms]]
    by (simp add: remove_current_message_def)
  show "client_ok (snd (remove_message h s))"
    using paused_ok [OF pausing_checks_only(3) ring_remove_ok(1) [OF assms]] assms
    by (simp add: remove_message_def split: option.split)
  show all: "client_ok (remove_all_responses r s)" for r
    using paused_ok [OF pausing_checks_only(3) filter_messages_ok [OF assms]]
    by (simp add: remove_all_responses_def Let_def)
  from all assms show "client_ok (snd (remove_responses r s))" by (simp add: remove_responses_def)
  have i: "client_ok (s\<lparr>message_index := p\<rparr>)" if "p \<le> length (message_list s) - 1" for p
    using assms that by (simp add: client_ok_def used_handles_def)
  have "p \<le> length (message_list s) - 1" if "ring_find (response_to r) (message_list s) 0 = Some p" for p
    using ring_find_SomeD(1) [OF that] by linarith
  with i i [of 0] assms show "client_ok (snd (rotate_response r s))"
    by (auto simp: rotate_response_def Let_def split: option.split)
qed

lemma ring_limit_ok:
  assumes "client_ok s"
  shows "client_ok (set_ring (ring_limit m (message_list s) (message_index s)) (s\<lparr>message_max := m\<rparr>))"
proof -
  let ?xs = "fst (ring_limit m (message_list s) (message_index s))"
  let ?i = "snd (ring_limit m (message_list s) (message_index s))"
  have "?i \<le> length ?xs - 1"
    using mod_less_divisor [of "length ?xs" "message_index s"]
    by (cases "?xs = []") (auto simp: ring_limit_def Let_def simp del: mod_less_divisor)
  moreover have "distinct (map message_address ?xs)"
    using assms by (auto simp: ring_limit_def Let_def client_ok_def used_handles_def take_map [symmetric])
  moreover have "set ?xs \<subseteq> set (message_list s)" "length ?xs \<le> length (message_list s)"
    by (auto simp: ring_limit_def Let_def dest: in_set_takeD)
  ultimately have "client_ok (set_ring (?xs, ?i) s)"
    by (intro messages_ok [OF assms]) auto
  then show ?thesis by (auto simp: client_ok_def used_handles_def set_ring_def ring_limit_def Let_def)
qed

lemma set_limit_ok: "client_ok s \<Longrightarrow> client_ok (set_message_queue_limit e m s)"
  unfolding set_message_queue_limit_def Let_def
  by (rule paused_ok [OF pausing_checks_only(1) ring_limit_ok])

lemma stop_ok: "client_ok s \<Longrightarrow> client_ok (snd (stop_message_queue s))"
  using paused_ok [OF pausing_only(2), of "s\<lparr>exit_state := True\<rparr>"]
  by (auto simp: stop_message_queue_def client_ok_def used_handles_def)

section \<open>Pausing and the number of messages\<close>

text \<open>
  Automatic pausing is set for a threshold above the restoring level and at most one, and for
  nothing else. So three zeros, which the API documents as cancelling it, are refused: pausing that
  was set once stays.
\<close>

theorem auto_pause_never_cancelled:
  "(fst (message_queue_auto_pause t r w s) \<longleftrightarrow> 0 \<le> r \<and> r < t \<and> t \<le> 1 \<and> 0 \<le> w) \<and>
    message_queue_auto_pause 0 0 0 s = (False, s)"
  by (auto simp: message_queue_auto_pause_def)

text \<open>A message that fills the list to the threshold pauses the queue, and while the list is above the
  restoring level nothing the list does unpauses it.\<close>

lemma add_message_pauses:
  assumes "add_new_message e c m s = (Some h, s')" and "message_queue_status s"
    and "\<not> below_restore (length (message_list s) + 1) (message_max s) s" and "auto_pause_timeout s = 0"
  shows "queue_paused s' \<longleftrightarrow> queue_paused s \<or>
    of_nat (length (message_list s) + 1) \<ge> of_nat (message_max s) * auto_pause_threshold s"
proof -
  let ?t = "s\<lparr>message_list := message_list s @ [new_message (fresh_block e s) c m]\<rparr>"
  have "s' = auto_pause_check e (length (message_list ?t)) (message_max ?t) ?t"
    using assms(1) by (auto simp: add_new_message_def Let_def split: if_splits)
  with assms(2-4) show ?thesis
    by (auto simp: auto_pause_check_def below_restore_def message_queue_pause_def message_queue_status_def)
qed

lemma check_size_keeps_paused:
  "\<not> below_restore (length (message_list s)) (message_max s) s \<Longrightarrow> check_size s = s"
  by (simp add: check_size_def auto_unpause_check_def)

section \<open>Rotation\<close>

lemma find_index_first:
  "find_index P xs = Some i \<Longrightarrow> filter P xs \<noteq> [] \<and> xs ! i = hd (filter P xs)"
  by (induction xs arbitrary: i) (auto split: if_splits)

lemma rotate_response_fst:
  "fst (rotate_response r s) =
    (case filter (response_to r) (message_list s) of [] \<Rightarrow> None | m # ms \<Rightarrow> Some m)"
proof (cases "find_index (response_to r) (message_list s)")
  case None
  then have "filter (response_to r) (message_list s) = []" by simp
  with None show ?thesis by (simp add: rotate_response_def Let_def ring_find_def del: find_index_None)
next
  case (Some p)
  then have "p < length (message_list s)" by (rule find_index_SomeD)
  moreover obtain m ms where "filter (response_to r) (message_list s) = m # ms" "message_list s ! p = m"
    using find_index_first [OF Some] by (cases "filter (response_to r) (message_list s)") auto
  ultimately show ?thesis
    using Some by (auto simp: rotate_response_def ring_find_def ring_nth_def)
qed

lemma rotate_response_list: "message_list (snd (rotate_response r s)) = message_list s"
  by (simp add: rotate_response_def Let_def split: option.split)

lemma rotate_response_current:
  assumes "fst (rotate_response r s) = Some m"
  shows "current_message (snd (rotate_response r s)) = Some m"
  using assms by (auto simp: rotate_response_def current_message_def Let_def ring_nth_def split: if_splits option.splits)

text \<open>
  \<open>rotate_response\<close> makes the first response to a command that arrived the current message, and
  doing it again gives the same message: it never moves on to the next response, which is what the
  API says it does.
\<close>

theorem rotation_never_advances:
  assumes "rotate_response r s = (Some m, s')"
  shows "m = hd (filter (response_to r) (message_list s)) \<and> current_message s' = Some m \<and>
    fst (rotate_response r s') = Some m"
proof -
  have f: "fst (rotate_response r s) = Some m" "snd (rotate_response r s) = s'" using assms by simp_all
  then have "m = hd (filter (response_to r) (message_list s))"
    by (simp add: rotate_response_fst split: list.splits)
  moreover have "fst (rotate_response r s') = Some m"
    using f rotate_response_list [of r s] by (simp add: rotate_response_fst)
  ultimately show ?thesis using rotate_response_current [of r s m] f by simp
qed

definition two_responses :: client_program where
  "two_responses = initial_client\<lparr>message_list :=
     map (\<lambda>n. new_message n ((new_transmit 7)\<lparr>remote_reference := 3\<rparr>)
       (Response_Content response_normal (Single_Message 0 (replicate n CHR ''a'')))) [1, 2]\<rparr>"

lemma two_responses_count: "check_responses 3 two_responses = 2"
  by code_simp

theorem rotation_never_advances_witness:
  "\<exists>m s'. rotate_response 3 two_responses = (Some m, s') \<and> fst (rotate_response 3 s') = Some m \<and>
    message_address m = 1 \<and> check_responses 3 s' = 2"
proof -
  have r: "map_option message_address (fst (rotate_response 3 two_responses)) = Some 1"
    "check_responses 3 (snd (rotate_response 3 two_responses)) = 2" by code_simp+
  obtain om s' where e: "rotate_response 3 two_responses = (om, s')" by fastforce
  with r(1) obtain m where m: "om = Some m" "message_address m = 1" by auto
  from rotation_never_advances [OF e [unfolded m(1)]] m r(2) e show ?thesis by auto
qed

text \<open>Removing a message behind the current one makes the message before the current one current.\<close>

lemma remove_behind_moves:
  assumes "0 < i" and "0 < p" and "i + p < length xs" and "i < length xs - 1"
  shows "ring_nth (fst (ring_remove p xs i)) (snd (ring_remove p xs i)) 0 = xs ! (i - 1)"
proof -
  have "ring_remove p xs i = (remove_at (i + p) xs, i - 1)"
    using assms by (auto simp: ring_remove_def Let_def)
  moreover have "i - 1 < i + p" using assms by linarith
  ultimately show ?thesis
    using assms by (simp add: ring_nth_def length_remove_at) (simp add: remove_at_def nth_append)
qed

end
