(* ===== verification/Client_Status.thy ===== *)
theory Client_Status
  imports Message_Queue
begin

text \<open>
  Sending commands and following what becomes of them (\<open>libs/client/api-command-queue.cpp\<close>): the list
  of statuses by reference, the functors called for each event, and the wait for an event.
\<close>

section \<open>The status of a command\<close>

text \<open>\<open>command_status::update_status\<close>: a functor that returns true is done; the element is to be removed
  when the last functor is.\<close>

fun run_callbacks :: "(nat \<Rightarrow> bool) \<Rightarrow> nat list \<Rightarrow> nat list \<Rightarrow> nat list \<times> bool" where
  "run_callbacks f kept [] = (kept, False)"
| "run_callbacks f kept (x # xs) =
     (if f x then (case run_callbacks f kept xs of (cs, remove_status) \<Rightarrow>
                     (cs, remove_status \<or> kept @ xs = []))
      else run_callbacks f (kept @ [x]) xs)"

definition command_status_update ::
  "cenv \<Rightarrow> u32 \<Rightarrow> u32 \<Rightarrow> command_transmit option \<Rightarrow> command_status \<Rightarrow> command_status \<times> bool" where
  "command_status_update e r ev iInfo st =
     (case run_callbacks (\<lambda>f. callback e f r ev (local_status st) iInfo) [] (local_callbacks st) of
        (cs, remove_status) \<Rightarrow>
          (\<lparr>local_callbacks = cs, local_status = local_status st OR ev\<rparr>, remove_status))"

definition find_status :: "u32 \<Rightarrow> client_program \<Rightarrow> nat option" where
  "find_status r s = find_index (\<lambda>x. fst x = r) (status_list s)"

definition update_status ::
  "cenv \<Rightarrow> u32 \<Rightarrow> u32 \<Rightarrow> command_transmit option \<Rightarrow> client_program \<Rightarrow> bool \<times> client_program" where
  "update_status e r ev iInfo s =
     (case find_status r s of
        None \<Rightarrow> (False, s)
      | Some i \<Rightarrow>
          (case command_status_update e r ev iInfo (snd (status_list s ! i)) of (st, remove_status) \<Rightarrow>
            (True, s\<lparr>status_list :=
               (if remove_status then remove_at i (status_list s)
                else update_at i (\<lambda>x. (fst x, st)) (status_list s))\<rparr>)))"

text \<open>\<open>f_remove_duplicates\<close> sorts positions with a stable sort and keeps the first of equal keys.\<close>

fun keep_first :: "('a \<times> 'b) list \<Rightarrow> ('a \<times> 'b) list" where
  "keep_first [] = []"
| "keep_first (x # xs) = x # filter (\<lambda>y. fst y \<noteq> fst x) (keep_first xs)"

definition register_reference :: "u32 \<Rightarrow> client_program \<Rightarrow> bool \<times> client_program" where
  "register_reference r s =
     (True, s\<lparr>status_list := keep_first (status_list s @ [(r, new_command_status)])\<rparr>)"

definition deregister_reference :: "u32 \<Rightarrow> client_program \<Rightarrow> bool \<times> client_program" where
  "deregister_reference r s = (True, s\<lparr>status_list := filter (\<lambda>x. fst x \<noteq> r) (status_list s)\<rparr>)"

definition register_functor :: "u32 \<Rightarrow> nat list \<Rightarrow> client_program \<Rightarrow> bool \<times> client_program" where
  "register_functor r fs s =
     (case find_status r s of
        None \<Rightarrow> (False, s)
      | Some i \<Rightarrow> (True, s\<lparr>status_list :=
          update_at i (\<lambda>x. (fst x, (snd x)\<lparr>local_callbacks := local_callbacks (snd x) @ fs\<rparr>)) (status_list s)\<rparr>))"

definition find_command_status :: "u32 \<Rightarrow> client_program \<Rightarrow> u32" where
  "find_command_status r s =
     (case find_status r s of
        None \<Rightarrow> event_unavailable | Some i \<Rightarrow> local_status (snd (status_list s ! i)))"

definition new_status_functors :: "u32 \<Rightarrow> nat list \<Rightarrow> client_program \<Rightarrow> bool \<times> client_program" where
  "new_status_functors r fs s = (if fs \<noteq> [] then register_functor r fs s else (False, s))"

section \<open>Sending\<close>

definition manual_message_number :: "client_program \<Rightarrow> u32 \<times> client_program" where
  "manual_message_number s =
     (internal_reference s, s\<lparr>internal_reference := internal_reference s + 1\<rparr>)"

definition may_send :: "cenv \<Rightarrow> client_program \<Rightarrow> bool" where
  "may_send e s \<longleftrightarrow> \<not> super_user e \<and> message_queue_status s"

definition send_command_no_status :: "cenv \<Rightarrow> handle \<Rightarrow> client_program \<Rightarrow> u32 \<times> client_program" where
  "send_command_no_status e h s =
     (if h = 0 \<or> \<not> may_send e s then (0, s)
      else case manual_message_number s of (r, s1) \<Rightarrow>
        if r = 0 then (0, s1)
        else (case transmit_command e h r True s1 of (ok, s2) \<Rightarrow> (if ok then r else 0, s2)))"

definition send_command_functors ::
  "cenv \<Rightarrow> handle \<Rightarrow> nat list \<Rightarrow> client_program \<Rightarrow> u32 \<times> client_program" where
  "send_command_functors e h fs s =
     (if h = 0 \<or> \<not> may_send e s then (0, s)
      else case manual_message_number s of (r, s1) \<Rightarrow>
        if r = 0 then (0, s1)
        else let s2 = snd (register_reference r s1);
                 s3 = (if fs \<noteq> [] then snd (register_functor r fs s2) else s2)
             in (case transmit_command e h r False s3 of (ok, s4) \<Rightarrow>
                  if \<not> ok
                  then (0, snd (deregister_reference r (snd (update_status e r event_unsent None s4))))
                  else (r, s4)))"

definition send_command :: "cenv \<Rightarrow> handle \<Rightarrow> client_program \<Rightarrow> u32 \<times> client_program" where
  "send_command e h s = send_command_functors e h [] s"

section \<open>Waiting\<close>

text \<open>
  The loop polls the status; \<open>other n\<close> is what the message queue and other threads do to the program
  during the \<open>n\<close>th sleep of \<open>cyc\<close> seconds, \<open>cancel n\<close> whether the caller's callback ends the wait.
  It returns the last status it read. With a sleep of no length it may go on forever.
\<close>

partial_function (option) wait_loop ::
  "rat \<Rightarrow> (nat \<Rightarrow> client_program \<Rightarrow> client_program) \<Rightarrow> (nat \<Rightarrow> bool) \<Rightarrow> u32 \<Rightarrow> u32 \<Rightarrow> rat \<Rightarrow>
    nat \<Rightarrow> rat \<Rightarrow> u32 \<Rightarrow> client_program \<Rightarrow> (u32 \<times> rat \<times> nat \<times> client_program) option" where
  "wait_loop cyc other cancel r sStatus wWait n elapsed cur s =
     (if \<not> elapsed < wWait then Some (cur, elapsed, n, s)
      else let now = find_command_status r s
           in if check_any now (sStatus OR event_no_success) \<or> \<not> message_queue_status s \<or> cancel n
              then Some (now, elapsed, n, s)
              else wait_loop cyc other cancel r sStatus wWait (Suc n) (elapsed + cyc) now (other n s))"

declare wait_loop.simps [code]

definition wait_outcome :: "u32 \<Rightarrow> rat \<Rightarrow> u32 \<times> rat \<Rightarrow> client_program \<Rightarrow> u32" where
  "wait_outcome sStatus wWait ct s =
     (case ct of (cur, elapsed) \<Rightarrow>
        if check_any cur sStatus then cur
        else if \<not> message_queue_status s then event_no_connection
        else if elapsed \<ge> wWait then event_unavailable
        else cur)"

text \<open>After the queue has ended there is one more sleep, so that the response to the end still counts.\<close>

definition cancelable_wait ::
  "cenv \<Rightarrow> (nat \<Rightarrow> client_program \<Rightarrow> client_program) \<Rightarrow> (nat \<Rightarrow> bool) \<Rightarrow> bool \<Rightarrow> u32 \<Rightarrow> u32 \<Rightarrow> rat \<Rightarrow>
    client_program \<Rightarrow> (u32 \<times> client_program) option" where
  "cancelable_wait e other cancel in_queue r sStatus wWait s =
     (if r = 0 then Some (event_unsent, s)
      else if in_queue then Some (event_unavailable, s)
      else case message_queue_pause_state False s of (paused, s0) \<Rightarrow>
        if paused then Some (event_unavailable, s0)
        else (case wait_loop (status_retry e) other cancel r sStatus wWait 0 0 event_unavailable s0 of
            None \<Rightarrow> None
          | Some (cur, elapsed, n, s1) \<Rightarrow>
              if \<not> message_queue_status s1 \<and> \<not> check_any cur sStatus then
                let s2 = other n s1
                in Some (wait_outcome sStatus wWait (find_command_status r s2, elapsed) s2, s2)
              else Some (wait_outcome sStatus wWait (cur, elapsed) s1, s1)))"

definition wait_command_event ::
  "cenv \<Rightarrow> (nat \<Rightarrow> client_program \<Rightarrow> client_program) \<Rightarrow> bool \<Rightarrow> u32 \<Rightarrow> u32 \<Rightarrow> rat \<Rightarrow>
    client_program \<Rightarrow> (u32 \<times> client_program) option" where
  "wait_command_event e other in_queue r sStatus wWait s =
     cancelable_wait e other (\<lambda>_. False) in_queue r sStatus wWait s"

section \<open>The list as a map\<close>

text \<open>Running the functors keeps those that returned false, and the element is removed when functors
  were there and none is left.\<close>

lemma run_callbacks_filter:
  "fst (run_callbacks f kept xs) = kept @ filter (\<lambda>x. \<not> f x) xs"
  "snd (run_callbacks f kept xs) \<longleftrightarrow> xs \<noteq> [] \<and> f (last xs) \<and> kept @ filter (\<lambda>x. \<not> f x) xs = []"
proof (induction xs arbitrary: kept)
  case (Cons x xs)
  {
    case 1
    from Cons.IH(1) show ?case by (simp add: split_beta)
  next
    case 2
    from Cons.IH(2) show ?case by (auto simp: split_beta)
  }
qed simp_all

definition statuses :: "client_program \<Rightarrow> u32 \<rightharpoonup> command_status" where
  "statuses s = map_of (status_list s)"

definition status_ok :: "client_program \<Rightarrow> bool" where
  "status_ok s \<longleftrightarrow> distinct (map fst (status_list s))"

lemma find_status_Some:
  assumes "find_status r s = Some i"
  shows "i < length (status_list s)" and "fst (status_list s ! i) = r"
    and "statuses s r = Some (snd (status_list s ! i))"
proof -
  show "i < length (status_list s)" "fst (status_list s ! i) = r"
    using find_index_SomeD [OF assms [unfolded find_status_def]] by auto
  have "find_index (\<lambda>x. fst x = r) xs = Some i \<Longrightarrow> map_of xs r = Some (snd (xs ! i))"
    for xs :: command_status_list
    by (induction xs arbitrary: i) auto
  with assms show "statuses s r = Some (snd (status_list s ! i))"
    by (simp add: statuses_def find_status_def)
qed

lemma find_status_None: "find_status r s = None \<longleftrightarrow> statuses s r = None"
  by (auto simp: find_status_def statuses_def map_of_eq_None_iff)

lemma find_command_status_map:
  "find_command_status r s = (case statuses s r of None \<Rightarrow> event_unavailable | Some st \<Rightarrow> local_status st)"
proof (cases "find_status r s")
  case None
  then have "statuses s r = None" by (simp add: find_status_None)
  with None show ?thesis by (simp add: find_command_status_def)
next
  case (Some i)
  with find_status_Some(3) [OF Some] show ?thesis by (simp add: find_command_status_def)
qed

lemma no_key: "k \<notin> fst ` set xs \<Longrightarrow> map_of xs k = None"
  by (simp add: map_of_eq_None_iff)

lemma map_of_update_at:
  assumes "distinct (map fst xs)" and "i < length xs" and "\<And>x. fst (f x) = fst x"
  shows "map_of (update_at i f xs) = (map_of xs)(fst (xs ! i) \<mapsto> snd (f (xs ! i)))"
  using assms(1,2)
proof (induction xs arbitrary: i)
  case (Cons x xs)
  show ?case
  proof (cases i)
    case 0
    with assms(3) show ?thesis by (cases "f x") (simp add: update_at_def, metis fst_conv snd_conv map_of.simps(2))
  next
    case (Suc n)
    have u: "update_at (Suc n) f (x # xs) = x # update_at n f xs" by (simp add: update_at_def)
    have "fst (xs ! n) \<in> fst ` set xs" using Cons.prems(2) Suc by simp
    moreover have "fst x \<notin> fst ` set xs" using Cons.prems(1) by simp
    ultimately have "fst (xs ! n) \<noteq> fst x" by metis
    moreover have "n < length xs" using Cons.prems(2) Suc by simp
    ultimately show ?thesis using Suc u Cons.IH [of n] Cons.prems(1) by (cases x) (auto simp: fun_eq_iff)
  qed
qed simp

lemma map_of_remove_at:
  assumes "distinct (map fst xs)" and "i < length xs"
  shows "map_of (remove_at i xs) = (map_of xs)(fst (xs ! i) := None)"
proof (rule ext)
  fix k
  let ?ys = "remove_at i xs"
  have d: "distinct (map fst ?ys)" using assms(1) by (simp add: map_remove_at distinct_remove_at)
  have set: "set ?ys = {x \<in> set xs. fst x \<noteq> fst (xs ! i)}" using assms by (rule set_remove_at_distinct)
  show "map_of ?ys k = ((map_of xs)(fst (xs ! i) := None)) k"
  proof (cases "map_of xs k")
    case None
    then have "k \<notin> fst ` set ?ys" using set by (auto simp: map_of_eq_None_iff)
    from no_key [OF this] None show ?thesis by simp
  next
    case (Some v)
    show ?thesis
    proof (cases "k = fst (xs ! i)")
      case True
      have "fst (xs ! i) \<notin> fst ` set ?ys" unfolding set by auto
      from no_key [OF this] True show ?thesis by simp
    next
      case False
      with map_of_SomeD [OF Some] set have "(k, v) \<in> set ?ys" by simp
      from map_of_is_SomeI [OF d this] False Some show ?thesis by simp
    qed
  qed
qed

lemma keep_first_distinct: "distinct (map fst xs) \<Longrightarrow> keep_first xs = xs"
proof (induction xs)
  case (Cons x xs)
  then have "keep_first xs = xs" by simp
  moreover have "fst x \<notin> fst ` set xs" using Cons.prems by simp
  then have "fst y \<noteq> fst x" if "y \<in> set xs" for y
    using imageI [OF that, of fst] by metis
  then have "filter (\<lambda>y. fst y \<noteq> fst x) xs = xs" by (simp add: filter_id_conv)
  ultimately show ?case by simp
qed simp

lemma keep_first_snoc:
  "keep_first (xs @ [x]) = (if fst x \<in> fst ` set xs then keep_first xs else keep_first xs @ [x])"
  by (induction xs) auto

lemma distinct_keep_first: "distinct (map fst (keep_first xs))"
  by (induction xs) (auto simp: distinct_map_filter)

lemma register_list:
  assumes "status_ok s"
  shows "status_list (snd (register_reference r s)) =
    (if statuses s r = None then status_list s @ [(r, new_command_status)] else status_list s)"
  using assms
  by (auto simp: register_reference_def keep_first_snoc keep_first_distinct status_ok_def statuses_def
      map_of_eq_None_iff)

section \<open>What each operation does to the map\<close>

datatype status_op =
    Register u32
  | Deregister u32
  | Attach u32 "nat list"
  | Event u32 u32 "command_transmit option"

fun status_step :: "cenv \<Rightarrow> status_op \<Rightarrow> client_program \<Rightarrow> client_program" where
  "status_step e (Register r) s = snd (register_reference r s)"
| "status_step e (Deregister r) s = snd (deregister_reference r s)"
| "status_step e (Attach r fs) s = snd (register_functor r fs s)"
| "status_step e (Event r ev i) s = snd (update_status e r ev i s)"

fun status_spec :: "cenv \<Rightarrow> status_op \<Rightarrow> (u32 \<rightharpoonup> command_status) \<Rightarrow> (u32 \<rightharpoonup> command_status)" where
  "status_spec e (Register r) m = (if m r = None then m(r \<mapsto> new_command_status) else m)"
| "status_spec e (Deregister r) m = m(r := None)"
| "status_spec e (Attach r fs) m =
     (case m r of None \<Rightarrow> m
      | Some st \<Rightarrow> m(r \<mapsto> st\<lparr>local_callbacks := local_callbacks st @ fs\<rparr>))"
| "status_spec e (Event r ev i) m =
     (case m r of None \<Rightarrow> m
      | Some st \<Rightarrow> (case command_status_update e r ev i st of (st', remove_status) \<Rightarrow>
          if remove_status then m(r := None) else m(r \<mapsto> st')))"

lemma status_step_refines:
  assumes "status_ok s"
  shows "status_ok (status_step e x s) \<and> statuses (status_step e x s) = status_spec e x (statuses s)"
proof (cases x)
  case (Register r)
  show ?thesis
  proof (cases "statuses s r")
    case None
    then have "r \<notin> fst ` set (status_list s)" by (simp add: statuses_def map_of_eq_None_iff)
    moreover have "map_of (xs @ [(r, v)]) = (map_of xs)(r \<mapsto> v)" if "map_of xs r = None"
      for xs :: command_status_list and v
      using that by (auto simp: fun_eq_iff map_add_def split: option.split)
    ultimately show ?thesis
      using register_list [OF assms, of r] assms None Register by (simp add: statuses_def status_ok_def)
  qed (use register_list [OF assms, of r] assms Register in \<open>simp add: statuses_def status_ok_def\<close>)
next
  case (Deregister r)
  have "map_of (filter (\<lambda>x. fst x \<noteq> r) xs) = (map_of xs)(r := None)" for xs :: command_status_list
    by (induction xs) (auto simp: fun_eq_iff)
  with Deregister assms show ?thesis
    by (simp add: deregister_reference_def statuses_def status_ok_def distinct_map_filter)
next
  case (Attach r fs)
  show ?thesis
  proof (cases "find_status r s")
    case None
    then have "statuses s r = None" by (simp add: find_status_None)
    with None Attach assms show ?thesis by (simp add: register_functor_def)
  next
    case (Some i)
    let ?f = "\<lambda>x. (fst x, (snd x)\<lparr>local_callbacks := local_callbacks (snd x) @ fs\<rparr>)"
    note f = find_status_Some [OF Some]
    have "map_of (update_at i ?f (status_list s)) = (map_of (status_list s))(r \<mapsto> snd (?f (status_list s ! i)))"
      using map_of_update_at [of "status_list s" i ?f] f(1,2) assms by (simp add: status_ok_def)
    with Some Attach assms f(3) show ?thesis
      by (simp add: register_functor_def statuses_def status_ok_def map_update_at)
  qed
next
  case (Event r ev info)
  show ?thesis
  proof (cases "find_status r s")
    case None
    then have "statuses s r = None" by (simp add: find_status_None)
    with None Event assms show ?thesis by (simp add: update_status_def)
  next
    case (Some i)
    note f = find_status_Some [OF Some]
    obtain st rm where u: "command_status_update e r ev info (snd (status_list s ! i)) = (st, rm)"
      by fastforce
    let ?f = "\<lambda>x. (fst x, st)"
    have "map_of (update_at i ?f (status_list s)) = (map_of (status_list s))(r \<mapsto> st)"
      using map_of_update_at [of "status_list s" i ?f] f(1,2) assms by (simp add: status_ok_def)
    moreover have "map_of (remove_at i (status_list s)) = (map_of (status_list s))(r := None)"
      using map_of_remove_at [of "status_list s" i] f(1,2) assms by (simp add: status_ok_def)
    ultimately show ?thesis
      using Some Event assms f(3) u
      by (simp add: update_status_def statuses_def status_ok_def map_update_at map_remove_at distinct_remove_at)
  qed
qed

interpretation status_map: simulation status_ok statuses "status_step e" "status_spec e"
  for e
  by unfold_locales (simp_all add: status_step_refines)

text \<open>
  C8. The list of statuses, with its search, its removal of duplicates and its removal of elements whose
  functors are done, behaves under every sequence of operations as a map from references to statuses;
  what a program reads of a command is read from that map.
\<close>

theorem statuses_refine_map:
  assumes "status_ok s"
  shows "statuses (fold (status_step e) xs s) = fold (status_spec e) xs (statuses s) \<and>
    find_command_status r (fold (status_step e) xs s) =
      (case fold (status_spec e) xs (statuses s) r of None \<Rightarrow> event_unavailable | Some st \<Rightarrow> local_status st)"
  using status_map.run_view [OF assms, of e xs] by (simp add: find_command_status_map)

definition tiny_cenv :: cenv where
  "tiny_cenv = \<lparr>sends = (\<lambda>n c. True), new_block = (\<lambda>hs. Suc (sum_list hs)), super_user = False,
     super_group = False, own_pid = 7, callback = (\<lambda>f r ev st i. check_all ev event_complete),
     timing_table = (\<lambda>ts. True), timing_compiled = (\<lambda>ts. True), open_pipes = True, new_thread = True,
     status_retry = 1, register_wait = 2, terminal_wait = 2, terminate_wait = 2\<rparr>"

lemma tiny_cenv_ok: "cenv_ok tiny_cenv"
proof -
  have "x \<le> sum_list hs" if "x \<in> set hs" for x and hs :: "nat list"
    using that by (simp add: member_le_sum_list)
  then show ?thesis by (fastforce simp: cenv_ok_def tiny_cenv_def)
qed

theorem statuses_refine_map_witness:
  "find_command_status 3 (fold (status_step tiny_cenv)
      [Register 3, Register 4, Attach 4 [9], Event 3 event_received_server None,
       Event 4 event_complete None, Event 3 event_complete None] initial_client)
    = event_received_server OR event_complete \<and>
   find_command_status 4 (fold (status_step tiny_cenv)
      [Register 4, Attach 4 [9], Event 4 event_complete None] initial_client) = event_unavailable"
proof -
  have "status_ok initial_client" and m: "statuses initial_client = Map.empty"
    by (simp_all add: status_ok_def statuses_def initial_client_def)
  note t = statuses_refine_map [OF this(1), THEN conjunct2]
  show ?thesis
    unfolding t m
    by (simp add: command_status_update_def tiny_cenv_def new_command_status_def flag_defs check_all_def)
qed

section \<open>Events are never lost\<close>

definition event_for :: "u32 \<Rightarrow> status_op \<Rightarrow> u32" where
  "event_for r x = (case x of Event q ev i \<Rightarrow> if q = r then ev else 0 | _ \<Rightarrow> 0)"

fun leaves_status :: "u32 \<Rightarrow> status_op \<Rightarrow> bool" where
  "leaves_status r (Deregister q) \<longleftrightarrow> q \<noteq> r"
| "leaves_status r (Attach q fs) \<longleftrightarrow> q \<noteq> r"
| "leaves_status r _ \<longleftrightarrow> True"

lemma spec_collects:
  assumes "m r = Some \<lparr>local_callbacks = [], local_status = st\<rparr>" and "leaves_status r x"
  shows "status_spec e x m r = Some \<lparr>local_callbacks = [], local_status = st OR event_for r x\<rparr>"
  using assms
  by (cases x) (auto simp: event_for_def command_status_update_def split: option.split prod.splits)

lemma collects_events:
  assumes "m r = Some \<lparr>local_callbacks = [], local_status = st\<rparr>" and "list_all (leaves_status r) xs"
  shows "fold (status_spec e) xs m r =
    Some \<lparr>local_callbacks = [], local_status = fold (\<lambda>x a. a OR event_for r x) xs st\<rparr>"
  using assms
proof (induction xs arbitrary: m st)
  case (Cons x xs)
  from Cons.prems have "status_spec e x m r = Some \<lparr>local_callbacks = [], local_status = st OR event_for r x\<rparr>"
    by (intro spec_collects) simp_all
  from Cons.IH [where m = "status_spec e x m", OF this] Cons.prems(2) show ?case by simp
qed simp

text \<open>
  C37. As long as nobody clears the status of a command that was sent without functors, it is the union of
  all events reported for its reference, in any order and between events for other commands.
\<close>

theorem status_is_union_of_events:
  assumes "status_ok s" and "statuses s r = Some new_command_status" and "list_all (leaves_status r) xs"
  shows "find_command_status r (fold (status_step e) xs s) = fold (\<lambda>x a. a OR event_for r x) xs 0"
  using collects_events [of "statuses s" r 0 xs e] assms status_map.run_view [OF assms(1), of e xs]
  by (simp add: find_command_status_map new_command_status_def)

theorem status_is_union_of_events_witness:
  "find_command_status 3 (fold (status_step tiny_cenv)
      [Event 3 event_received_server None, Event 4 event_error None, Register 3, Deregister 4,
       Event 3 event_complete None] (snd (register_reference 3 initial_client)))
    = event_received_server OR event_complete"
proof -
  let ?s = "snd (register_reference 3 initial_client)"
  have "status_ok ?s" "statuses ?s 3 = Some new_command_status"
    by (simp_all add: status_ok_def statuses_def register_reference_def initial_client_def)
  from status_is_union_of_events [OF this, of
      "[Event 3 event_received_server None, Event 4 event_error None, Register 3, Deregister 4,
        Event 3 event_complete None]" tiny_cenv]
  show ?thesis by (simp add: event_for_def)
qed

section \<open>Waiting ends\<close>

lemma wait_loop_ends:
  assumes "0 < cyc"
  shows "\<exists>cur' t n' s'. wait_loop cyc other cancel r sStatus wWait n elapsed cur s = Some (cur', t, n', s') \<and>
    (t < wWait \<longrightarrow> cur' = find_command_status r s') \<and>
    (\<not> t < wWait \<longrightarrow> cur' = cur \<or> \<not> check_any cur' (sStatus OR event_no_success))"
proof (induction "nat \<lceil>(wWait - elapsed) / cyc\<rceil>" arbitrary: n elapsed cur s rule: less_induct)
  case less
  show ?case
  proof (cases "elapsed < wWait")
    case True
    let ?now = "find_command_status r s"
    show ?thesis
    proof (cases "check_any ?now (sStatus OR event_no_success) \<or> \<not> message_queue_status s \<or> cancel n")
      case ready: True
      then have "wait_loop cyc other cancel r sStatus wWait n elapsed cur s = Some (?now, elapsed, n, s)"
        using True by (subst wait_loop.simps) simp
      with True show ?thesis by simp
    next
      case False
      then have step: "wait_loop cyc other cancel r sStatus wWait n elapsed cur s =
          wait_loop cyc other cancel r sStatus wWait (Suc n) (elapsed + cyc) ?now (other n s)"
        using True by (subst wait_loop.simps) simp
      have "(wWait - (elapsed + cyc)) / cyc = (wWait - elapsed) / cyc - 1"
        using assms by (simp add: field_simps)
      moreover have "0 < (wWait - elapsed) / cyc" using True assms by simp
      ultimately have m: "nat \<lceil>(wWait - (elapsed + cyc)) / cyc\<rceil> < nat \<lceil>(wWait - elapsed) / cyc\<rceil>"
        by simp
      show ?thesis
      proof (cases "elapsed + cyc < wWait")
        case True
        with less [OF m, of "Suc n" ?now "other n s"] step False show ?thesis by auto
      next
        case over: False
        then have "wait_loop cyc other cancel r sStatus wWait (Suc n) (elapsed + cyc) ?now (other n s) =
            Some (?now, elapsed + cyc, Suc n, other n s)"
          by (subst wait_loop.simps) simp
        with step over False show ?thesis by simp
      qed
    qed
  next
    case False
    then have "wait_loop cyc other cancel r sStatus wWait n elapsed cur s = Some (cur, elapsed, n, s)"
      by (subst wait_loop.simps) simp
    with False show ?thesis by simp
  qed
qed

text \<open>
  C38. Waiting for an event ends, whatever other threads do to the program meanwhile, if the cycle of the
  loop takes time. When it returns one of the events that were asked for, and the wait was not for
  unavailability, this is the status the command has at that moment.
\<close>

theorem wait_returns:
  assumes "0 < status_retry e"
  shows "\<exists>ev s'. wait_command_event e other in_queue r sStatus wWait s = Some (ev, s') \<and>
    (check_any ev sStatus \<and> sStatus \<noteq> 0 \<and>
      check_none sStatus (event_unavailable OR event_unsent OR event_no_connection) \<longrightarrow>
      find_command_status r s' = ev)"
proof -
  obtain paused s0 where p: "message_queue_pause_state False s = (paused, s0)" by fastforce
  obtain cur t n s1 where w: "wait_loop (status_retry e) other (\<lambda>_. False) r sStatus wWait 0 0
      event_unavailable s0 = Some (cur, t, n, s1)"
    and c: "t < wWait \<longrightarrow> cur = find_command_status r s1"
    and u: "\<not> t < wWait \<longrightarrow> cur = event_unavailable \<or> \<not> check_any cur (sStatus OR event_no_success)"
    using wait_loop_ends [OF assms, of other "\<lambda>_. False" r sStatus wWait 0 0 event_unavailable s0] by blast
  have e: "\<not> check_any event_unavailable sStatus" "\<not> check_any event_unsent sStatus"
    "\<not> check_any event_no_connection sStatus"
    if "sStatus \<noteq> 0" "check_none sStatus (event_unavailable OR event_unsent OR event_no_connection)"
    using that by (simp_all add: check_none_or) (simp_all add: check_none_def check_any_def and.commute)
  have cur: "cur = find_command_status r s1" if "check_any cur sStatus" "sStatus \<noteq> 0"
    "check_none sStatus (event_unavailable OR event_unsent OR event_no_connection)"
  proof -
    have "check_any cur (sStatus OR event_no_success)" using that(1,2) by (auto simp: check_any_bits bit_simps)
    with u c that e(1) show ?thesis by auto
  qed
  show ?thesis
    using p w e cur
    by (auto simp: wait_command_event_def cancelable_wait_def wait_outcome_def Let_def)
qed

theorem wait_returns_witness:
  "\<exists>ev s'. wait_command_event tiny_cenv (\<lambda>n s. snd (update_status tiny_cenv 3 event_complete None s))
    False 3 event_complete 2 (initial_client\<lparr>queue_thread := True\<rparr>) = Some (ev, s')"
proof -
  have "0 < status_retry tiny_cenv" by (simp add: tiny_cenv_def)
  from wait_returns [OF this] show ?thesis by blast
qed

section \<open>What sending does\<close>

lemma status_ops_frame [frame_simps]:
  "queued_commands (snd (update_status e r ev i s)) = queued_commands s"
  "queued_commands (snd (register_reference r s)) = queued_commands s"
  "queued_commands (snd (deregister_reference r s)) = queued_commands s"
  "queued_commands (snd (register_functor r fs s)) = queued_commands s"
  "local_client (snd (update_status e r ev i s)) = local_client s"
  "local_client (snd (register_reference r s)) = local_client s"
  "local_client (snd (deregister_reference r s)) = local_client s"
  "local_client (snd (register_functor r fs s)) = local_client s"
  by (simp_all add: update_status_def register_reference_def deregister_reference_def register_functor_def
      split: option.split prod.split)

lemma status_list_ok:
  assumes "client_ok s" and "distinct (map fst xs)"
  shows "client_ok (s\<lparr>status_list := xs\<rparr>)"
  using assms by (simp add: client_ok_def used_handles_def)

lemma status_step_ok: "client_ok s \<Longrightarrow> client_ok (status_step e x s)"
proof -
  assume ok: "client_ok s"
  then have "status_ok (status_step e x s)"
    using status_step_refines [of s e x] by (simp add: client_ok_def status_ok_def)
  moreover have "\<exists>xs. status_step e x s = s\<lparr>status_list := xs\<rparr>"
  proof (cases x)
    case (Event r ev i)
    show ?thesis
    proof (cases "find_status r s")
      case None
      with Event have "status_step e x s = s\<lparr>status_list := status_list s\<rparr>" by (simp add: update_status_def)
      then show ?thesis ..
    qed (use Event in \<open>auto simp: update_status_def split: prod.split\<close>)
  next
    case (Attach r fs)
    show ?thesis
    proof (cases "find_status r s")
      case None
      with Attach have "status_step e x s = s\<lparr>status_list := status_list s\<rparr>" by (simp add: register_functor_def)
      then show ?thesis ..
    qed (use Attach in \<open>auto simp: register_functor_def\<close>)
  qed (auto simp: register_reference_def deregister_reference_def)
  then obtain xs where "status_step e x s = s\<lparr>status_list := xs\<rparr>" ..
  ultimately show ?thesis using status_list_ok [OF ok, of xs] by (simp add: status_ok_def)
qed

lemmas status_ops_ok =
  status_step_ok [where x = "Register r" for r, simplified]
  status_step_ok [where x = "Deregister r" for r, simplified]
  status_step_ok [where x = "Attach r fs" for r fs, simplified]
  status_step_ok [where x = "Event r ev i" for r ev i, simplified]

lemma transmit_ok: "client_ok s \<Longrightarrow> client_ok (snd (transmit_command e h r q s))"
  by (rule same_shape_ok [OF transmit_shape])

lemma number_ok: "client_ok s \<Longrightarrow> client_ok (snd (manual_message_number s))"
  by (simp add: manual_message_number_def client_ok_def used_handles_def)

lemma send_ok:
  assumes "client_ok s"
  shows "client_ok (snd (send_command_functors e h fs s))"
    and "client_ok (snd (send_command_no_status e h s))" and "client_ok (snd (send_command e h s))"
proof -
  note n = number_ok [OF assms]
  show functors: "client_ok (snd (send_command_functors e h fs s))" for fs
    using assms n status_ops_ok transmit_ok
    by (simp add: send_command_functors_def Let_def split_beta)
  show "client_ok (snd (send_command_no_status e h s))"
    using assms n transmit_ok by (simp add: send_command_no_status_def split_beta)
  show "client_ok (snd (send_command e h s))" using functors by (simp add: send_command_def)
qed

lemma command_sendable_tree:
  "command_sendable l c = (ok, c') \<Longrightarrow> c' = c\<lparr>tree := tree c'\<rparr> \<and> (ok \<longrightarrow> tree c' = [] \<longrightarrow> tree c = [])"
  by (auto simp: command_sendable_def assemble_command_def split: if_splits option.splits)

lemma transmit_sends:
  assumes "transmit_command e h r q s = (ok, s')"
  shows "status_list s' = status_list s"
    and "\<not> ok \<Longrightarrow> sent_commands s' = sent_commands s"
    and "ok \<Longrightarrow> \<exists>c c1. queued_command h s = Some c \<and> \<not> transmit_refused c \<and>
      command_sendable (local_client s) (prepare_transmit s r q c) = (True, c1) \<and>
      sent_commands s' = sent_commands s @ [c1]"
proof -
  have q: "status_list (set_queued h d t) = status_list t" "sent_commands (set_queued h d t) = sent_commands t" for d t
    by (simp_all add: frame_simps)
  show "status_list s' = status_list s"
    using assms by (auto simp: transmit_command_def send_to_server_def q split: option.splits if_splits prod.splits)
  show "\<not> ok \<Longrightarrow> sent_commands s' = sent_commands s"
    using assms by (auto simp: transmit_command_def send_to_server_def q split: option.splits if_splits prod.splits)
  show "ok \<Longrightarrow> \<exists>c c1. queued_command h s = Some c \<and> \<not> transmit_refused c \<and>
      command_sendable (local_client s) (prepare_transmit s r q c) = (True, c1) \<and>
      sent_commands s' = sent_commands s @ [c1]"
    using assms by (auto simp: transmit_command_def send_to_server_def q split: option.splits if_splits prod.splits)
qed

lemma statuses_update_other: "map_of ((m :: command_status_list)) r = None \<Longrightarrow> (map_of m)(r := None) = map_of m"
  by auto

text \<open>The fields of a command as it goes out under a reference.\<close>

definition sent_form :: "local_info \<Rightarrow> u32 \<Rightarrow> command_transmit \<Rightarrow> command_transmit" where
  "sent_form l r c = c\<lparr>orig_reference := r,
     remote_reference := (if remote_reference c \<noteq> 0 then remote_reference c else r),
     orig_entity := (if orig_entity c = [] then entity_name l else orig_entity c),
     silent_auto_response := False\<rparr>"

text \<open>
  C10. A command that was sent with functors went out once, under the reference that was returned and with
  the program's name if it had no sender yet, asking for responses; its status is registered with
  no event and those functors. A command that was not sent leaves the statuses as they were.
\<close>

theorem send_registers:
  assumes "send_command_functors e h fs s = (r, s')" and "status_ok s"
    and "statuses s (internal_reference s) = None"
  shows "if r = 0 then statuses s' = statuses s \<and> sent_commands s' = sent_commands s
    else r = internal_reference s \<and>
      statuses s' = (statuses s)(r \<mapsto> \<lparr>local_callbacks = fs, local_status = 0\<rparr>) \<and>
      (\<exists>c c'. queued_command h s = Some c \<and> sent_commands s' = sent_commands s @ [c'] \<and>
        c' = (sent_form (local_client s) r c)\<lparr>tree := tree c'\<rparr>)"
proof (cases "h = 0 \<or> \<not> may_send e s \<or> internal_reference s = 0")
  case True
  then have "r = 0" "s' = s \<or> s' = s\<lparr>internal_reference := internal_reference s + 1\<rparr>"
    using assms(1) by (auto simp: send_command_functors_def manual_message_number_def split: if_splits)
  then show ?thesis by (auto simp: statuses_def)
next
  case False
  let ?n = "internal_reference s"
  define s1 where "s1 = s\<lparr>internal_reference := ?n + 1\<rparr>"
  define s3 where "s3 = (if fs \<noteq> [] then snd (register_functor ?n fs (snd (register_reference ?n s1)))
    else snd (register_reference ?n s1))"
  obtain ok s4 where t: "transmit_command e h ?n False s3 = (ok, s4)" by fastforce
  have r: "(r, s') = (if \<not> ok then (0, snd (deregister_reference ?n (snd (update_status e ?n event_unsent None s4))))
      else (?n, s4))"
    using assms(1) False t unfolding s1_def s3_def
    by (simp add: send_command_functors_def manual_message_number_def Let_def)
  have s1: "status_ok s1" "statuses s1 = statuses s" "queued_commands s1 = queued_commands s"
    "local_client s1 = local_client s" "sent_commands s1 = sent_commands s"
    using assms(2) by (simp_all add: s1_def status_ok_def statuses_def)
  have s3: "status_ok s3 \<and> statuses s3 = (statuses s)(?n \<mapsto> \<lparr>local_callbacks = fs, local_status = 0\<rparr>)"
    using status_step_refines [OF s1(1), of e "Register ?n"] assms(3) s1(2)
      status_step_refines [of "snd (register_reference ?n s1)" e "Attach ?n fs"]
    by (auto simp: s3_def new_command_status_def)
  have f3: "queued_command h s3 = queued_command h s" "local_client s3 = local_client s"
    "sent_commands s3 = sent_commands s"
    using s1 by (simp_all add: s3_def queued_command_map_of frame_simps register_reference_def
        register_functor_def split: option.split)
  have s4: "statuses s4 = statuses s3" "status_ok s4"
    using transmit_sends(1) [OF t] s3 by (simp_all add: statuses_def status_ok_def)
  show ?thesis
  proof (cases ok)
    case True
    from transmit_sends(3) [OF t True] f3 obtain c c1 where c: "queued_command h s = Some c"
      "command_sendable (local_client s) (prepare_transmit s3 ?n False c) = (True, c1)"
      "sent_commands s' = sent_commands s @ [c1]" using r True by auto
    have "prepare_transmit s3 ?n False c = sent_form (local_client s) ?n c"
      unfolding prepare_transmit_def sent_form_def f3 by simp
    then have "c1 = (sent_form (local_client s) ?n c)\<lparr>tree := tree c1\<rparr>"
      using command_sendable_tree [OF c(2)] by metis
    with c r True False s3 s4 show ?thesis by auto
  next
    case not_sent: False
    let ?u = "snd (update_status e ?n event_unsent None s4)"
    have u: "status_ok ?u" "(statuses ?u)(?n := None) = statuses s"
      using status_step_refines [OF s4(2), of e "Event ?n event_unsent None"] s3 s4 assms(3)
      by (auto simp: fun_eq_iff split: prod.splits)
    have "statuses s' = (statuses ?u)(?n := None)"
      using status_step_refines [OF u(1), of e "Deregister ?n"] r not_sent by simp
    moreover have "sent_commands s' = sent_commands s"
      using transmit_sends(2) [OF t] not_sent r f3
      by (simp add: deregister_reference_def update_status_def split: option.split prod.split)
    ultimately show ?thesis using u(2) r not_sent by simp
  qed
qed

definition ready_client :: client_program where
  "ready_client = initial_client\<lparr>
     local_client := \<lparr>is_server = False, local_type = type_resource_client_all, entity_name = ''me''\<rparr>,
     client_server := ''server'', queue_thread := True, exit_state := False,
     queued_commands := [(1, (base_command tiny_cenv)\<lparr>command := Some (Common_Command Ping_Client),
       execute_type := command_request OR command_builtin, target_entity := ''you''\<rparr>)]\<rparr>"

theorem send_registers_witness:
  "\<exists>s' c. send_command_functors tiny_cenv 1 [5] ready_client = (1, s') \<and>
    statuses s' 1 = Some \<lparr>local_callbacks = [5], local_status = 0\<rparr> \<and> sent_commands s' = [c] \<and>
    orig_reference c = 1 \<and> orig_entity c = ''me''"
proof -
  obtain r s' where e: "send_command_functors tiny_cenv 1 [5] ready_client = (r, s')" by fastforce
  have "fst (send_command_functors tiny_cenv 1 [5] ready_client) = 1" by code_simp
  with e have r: "r = 1" by simp
  have f: "status_ok ready_client" "statuses ready_client (internal_reference ready_client) = None"
    "sent_commands ready_client = []" "entity_name (local_client ready_client) = ''me''"
    "internal_reference ready_client = 1"
    by (simp_all add: status_ok_def statuses_def ready_client_def initial_client_def)
  have q: "map_option orig_entity (queued_command 1 ready_client) = Some []" by code_simp
  from send_registers [OF e f(1,2)] r f obtain c c' where st: "statuses s' = (statuses ready_client)
      (1 \<mapsto> \<lparr>local_callbacks = [5], local_status = 0\<rparr>)" "queued_command 1 ready_client = Some c"
    "sent_commands s' = [c']" and c': "c' = (sent_form (local_client ready_client) 1 c)\<lparr>tree := tree c'\<rparr>"
    by auto
  have "orig_reference c' = 1" "orig_entity c' = (if orig_entity c = [] then ''me'' else orig_entity c)"
    using arg_cong [OF c', of orig_reference] arg_cong [OF c', of orig_entity] f(4)
    by (simp_all add: sent_form_def)
  with st q e r show ?thesis by auto
qed

end
