(* ===== verification/Client_Commands.thy ===== *)
theory Client_Commands
  imports Client_Status
begin

text \<open>
  The commands a client knows and how it takes them in and sets them up: the table of
  \<open>libs/client/client-command.cpp\<close>, and the rest of \<open>libs/client/api-command-queue.cpp\<close>. Only the built-in
  commands are in the table; plug-ins are code of other packages.
\<close>

section \<open>The table of commands\<close>

definition lookup_command :: "local_info \<Rightarrow> string \<Rightarrow> mask16 option" where
  "lookup_command l nName =
     (case generate nName of
        None \<Rightarrow> None
      | Some b \<Rightarrow> (case body_generator b of
          None \<Rightarrow> None
        | Some g \<Rightarrow> if create_permissions l g then Some (execution_type g) else None))"

text \<open>
  \<open>empty_client_command\<close>. Commands on their way to a further server become null commands, except
  responses; those keep their body and may be registered as remote as well.
\<close>

definition remote_null_type :: mask16 where
  "remote_null_type = command_remote OR command_null OR command_builtin"

definition client_command_type ::
  "local_info \<Rightarrow> command_transmit \<Rightarrow> string \<Rightarrow> (body \<times> mask16) option" where
  "client_command_type l base nName =
     (if nName = [] then Some (Null_Command nName, command_null)
      else (case generate nName of
        None \<Rightarrow> if target_address base = [] then None else Some (Null_Command nName, remote_null_type)
      | Some b \<Rightarrow> (case body_generator b of
          None \<Rightarrow> None
        | Some g \<Rightarrow>
            if \<not> parse_permissions_gen l g then None
            else if target_address base \<noteq> [] \<and> \<not> check_all (execution_type g) command_response
                 then Some (Null_Command nName, remote_null_type)
            else Some (b, if target_address base \<noteq> [] then execution_type g OR command_remote
                          else execution_type g))))"

definition empty_client_command ::
  "local_info \<Rightarrow> command_transmit \<Rightarrow> string \<Rightarrow> bool \<times> command_transmit" where
  "empty_client_command l bBase nName =
     (case client_command_type l bBase nName of
        None \<Rightarrow> (False, bBase\<lparr>execute_type := command_null\<rparr>)
      | Some (b, ty) \<Rightarrow> set_command l (Some b) (bBase\<lparr>execute_type := ty\<rparr>))"

text \<open>\<open>command_transmit::find_command\<close> with the client's finder.\<close>

definition client_find_command :: "local_info \<Rightarrow> command_transmit \<Rightarrow> bool \<times> command_transmit" where
  "client_find_command l c =
     (case empty_client_command l c (command_label c) of
        (ok, c') \<Rightarrow>
          if \<not> ok \<or> (orig_address c' \<noteq> [] \<and> check_all (execute_type c') command_no_remote)
          then (False, c') else (True, c'))"

section \<open>Commands from other servers\<close>

text \<open>The common end of \<open>insert_remote_command\<close> and \<open>receive_stream_command\<close>: the hop the command came
  over goes to the front of its return address, the hop it was sent to off its target address.\<close>

definition came_over :: "string \<Rightarrow> string \<Rightarrow> command_transmit \<Rightarrow> command_transmit" where
  "came_over sender aAddress c =
     c\<lparr>orig_address := insert_remote_client (insert_remote_address (orig_address c) aAddress) (orig_entity c),
       orig_entity := sender, target_address := next_address_scope (target_address c)\<rparr>"

definition local_sender :: "string option \<Rightarrow> client_program \<Rightarrow> string" where
  "local_sender nName s = (case nName of Some n \<Rightarrow> n | None \<Rightarrow> entity_name (local_client s))"

text \<open>The parser of the command language is generated: what it made of the text is an argument.\<close>

definition insert_remote_command ::
  "cenv \<Rightarrow> command_transmit option \<Rightarrow> string option \<Rightarrow> string option \<Rightarrow> client_program \<Rightarrow> handle \<times> client_program" where
  "insert_remote_command e parsed nName aAddress s =
     (case (aAddress, parsed) of
        (Some a, Some c) \<Rightarrow>
          if \<not> check_entity_label (Some a) then (0, s)
          else queue_new_command e (came_over (local_sender nName s) a c) s
      | _ \<Rightarrow> (0, s))"

definition receive_stream_command ::
  "cenv \<Rightarrow> bool \<Rightarrow> command_transmit option \<Rightarrow> bool \<Rightarrow> string option \<Rightarrow> string option \<Rightarrow> client_program \<Rightarrow>
    multi_result \<times> handle \<times> client_program" where
  "receive_stream_command e mode_set parsed terminated nName aAddress s =
     (case aAddress of
        None \<Rightarrow> (result_fail, 0, s)
      | Some a \<Rightarrow>
          if \<not> check_entity_label (Some a) \<or> \<not> mode_set then (result_fail, 0, s)
          else (case (if terminated then None else parsed) of
              None \<Rightarrow> (if terminated then result_invalid else result_fail, 0, s)
            | Some c \<Rightarrow>
                if \<not> command_ready c then (result_success, 0, s)
                else (result_success, queue_new_command e (came_over (local_sender nName s) a c) s)))"

text \<open>The variant with a buffer and a filter only looks at the input's end when parsing failed.\<close>

definition filtered_receive_stream_command ::
  "cenv \<Rightarrow> bool \<Rightarrow> command_transmit option \<Rightarrow> bool \<Rightarrow> string option \<Rightarrow> string option \<Rightarrow> client_program \<Rightarrow>
    multi_result \<times> handle \<times> client_program" where
  "filtered_receive_stream_command e mode_set parsed terminated nName aAddress s =
     (case aAddress of
        None \<Rightarrow> (result_fail, 0, s)
      | Some a \<Rightarrow>
          if \<not> check_entity_label (Some a) \<or> \<not> mode_set then (result_fail, 0, s)
          else (case parsed of
              None \<Rightarrow> (if terminated then result_invalid else result_fail, 0, s)
            | Some c \<Rightarrow>
                if \<not> command_ready c then (result_success, 0, s)
                else (result_success, queue_new_command e (came_over (local_sender nName s) a c) s)))"

text \<open>\<open>filtered_send_stream_command\<close>: \<open>written\<close> and \<open>closed_output\<close> are the answers of the connection.\<close>

definition filtered_send_stream_command ::
  "(command_transmit \<Rightarrow> bool) \<Rightarrow> bool \<Rightarrow> handle \<Rightarrow> client_program \<Rightarrow>
    multi_result \<times> command_transmit option \<times> client_program" where
  "filtered_send_stream_command written closed_output h s =
     (if h = 0 then (result_fail, None, s)
      else case forward_command h s of
        (None, s1) \<Rightarrow> (result_fail, None, s1)
      | (Some c, s1) \<Rightarrow>
          (case command_sendable (local_client s) c of (ready, c1) \<Rightarrow>
            if ready \<and> written c1 then (result_success, Some c1, s1)
            else if closed_output then (result_invalid, None, s1)
            else (result_fail, None, s1)))"

definition extract_remote_command :: "u32 \<Rightarrow> handle \<Rightarrow> client_program \<Rightarrow> string option" where
  "extract_remote_command now h s =
     (if h = 0 then None
      else case queued_command h s of
        None \<Rightarrow> None
      | Some c \<Rightarrow> if no_send c = 0 then None else Some (case send_data now c of None \<Rightarrow> [] | Some t \<Rightarrow> t))"

section \<open>Changing queued commands\<close>

definition set_alternate_sender :: "handle \<Rightarrow> string \<Rightarrow> client_program \<Rightarrow> bool \<times> client_program" where
  "set_alternate_sender h rResponses s =
     (if \<not> check_all (local_type (local_client s)) type_resource_client then (False, s)
      else if h = 0 \<or> \<not> check_entity_label (Some rResponses) then (False, s)
      else set_response_entity h rResponses s)"

definition insert_remote_address_handle :: "handle \<Rightarrow> string \<Rightarrow> client_program \<Rightarrow> bool \<times> client_program" where
  "insert_remote_address_handle h tTarget s =
     (if tTarget = [] then (True, s)
      else if \<not> check_address_label (Some tTarget) \<or> \<not> check_next_to_client (Some tTarget) then (False, s)
      else insert_remote_scope h tTarget s)"

definition insert_remote_target :: "handle \<Rightarrow> string \<Rightarrow> string option \<Rightarrow> client_program \<Rightarrow> bool \<times> client_program" where
  "insert_remote_target h cClient aAddress s =
     (case aAddress of
        None \<Rightarrow> (False, s)
      | Some a \<Rightarrow>
          if cClient = [] then (False, s)
          else if \<not> check_entity_label (Some cClient) \<or> \<not> check_entity_label (Some a) then (False, s)
          else insert_remote_scope h (insert_remote_client a cClient) s)"

definition insert_service_address :: "handle \<Rightarrow> string \<Rightarrow> client_program \<Rightarrow> bool \<times> client_program" where
  "insert_service_address h sService s =
     (if sService = [] then (False, s)
      else if \<not> check_entity_label (Some sService) then (False, s)
      else insert_remote_scope h (insert_remote_client [] sService) s)"

definition set_target_to_server_of ::
  "handle \<Rightarrow> string \<Rightarrow> string option \<Rightarrow> client_program \<Rightarrow> bool \<times> client_program" where
  "set_target_to_server_of h cClient aAddress s =
     (if cClient = [] then (False, s)
      else if \<not> check_entity_label (Some cClient) then (False, s)
      else if \<not> check_address_label aAddress \<or> \<not> check_next_to_client aAddress then (False, s)
      else set_server_address h cClient (the aAddress) s)"

section \<open>New commands\<close>

text \<open>\<open>manual_command\<close>: a command for another client; the server is no target for it.\<close>

definition manual_command :: "cenv \<Rightarrow> string option \<Rightarrow> body \<Rightarrow> client_program \<Rightarrow> handle \<times> client_program" where
  "manual_command e nName cCommand s =
     (case nName of
        None \<Rightarrow> (0, s)
      | Some n \<Rightarrow>
          (case set_command (local_client s) (Some cCommand) (base_command e) of (ok, c) \<Rightarrow>
            if \<not> ok then (0, s)
            else (case lookup_command (local_client s) (command_name c) of
                None \<Rightarrow> (0, s)
              | Some ty \<Rightarrow> queue_new_command e (c\<lparr>execute_type := ty,
                  orig_entity := entity_name (local_client s), target_entity := n\<rparr>) s)))"

text \<open>\<open>GENERAL_RESPONSE\<close>: the answer to a message that is still in the queue; the sender is the name the
  message was sent to.\<close>

definition general_response :: "cenv \<Rightarrow> handle \<Rightarrow> body \<Rightarrow> client_program \<Rightarrow> handle \<times> client_program" where
  "general_response e h b s =
     (if h = 0 then (0, s)
      else case copy_response h (base_command e) s of
        None \<Rightarrow> (0, s)
      | Some c \<Rightarrow>
          (case set_command (local_client s) (Some b) c of (ok, c1) \<Rightarrow>
            if \<not> ok then (0, s)
            else (case lookup_command (local_client s) (command_name c1) of
                None \<Rightarrow> (0, s)
              | Some ty \<Rightarrow> queue_new_command e (c1\<lparr>execute_type := ty\<rparr>) s)))"

end
