(* ===== verification/Client_Interface.thy ===== *)
theory Client_Interface
  imports Client_Commands
begin

text \<open>
  What a command may do to the client that evaluates it: \<open>external_client_interface\<close>
  (\<open>libs/client/api-message-queue.cpp\<close>). Every function tests the type of the command it is called by
  and the flags of the queue. Also the responses a client sends on its own
  (\<open>libs/client/api-client.cpp\<close>, \<open>send_client_response\<close> of \<open>libs/proto/proto-common/proto-common.cpp\<close>).
\<close>

section \<open>The interface\<close>

text \<open>\<open>ct\<close> is \<open>current_command_type\<close>.\<close>

definition requirement_fail :: "mask16 \<Rightarrow> mask16 \<Rightarrow> bool" where
  "requirement_fail ct rRequired \<longleftrightarrow> \<not> check_all ct rRequired"

definition update_local_command_status ::
  "cenv \<Rightarrow> mask16 \<Rightarrow> command_transmit \<Rightarrow> u32 \<Rightarrow> client_program \<Rightarrow> bool \<times> client_program" where
  "update_local_command_status e ct iInfo eEvent s =
     (if requirement_fail ct command_response then (False, s)
      else if creator_pid iInfo \<noteq> own_pid e then (False, s)
      else update_status e (target_reference iInfo) eEvent (Some iInfo) s)"

definition update_remote_command_status ::
  "cenv \<Rightarrow> mask16 \<Rightarrow> command_transmit \<Rightarrow> u32 \<Rightarrow> client_program \<Rightarrow> bool \<times> client_program" where
  "update_remote_command_status e ct iInfo eEvent s =
     (if requirement_fail ct command_response then (False, s)
      else if creator_pid iInfo \<noteq> own_pid e then (False, s)
      else update_status e (remote_reference iInfo) eEvent (Some iInfo) s)"

definition obey_directive :: "bool \<Rightarrow> client_program \<Rightarrow> client_program" where
  "obey_directive d s = (if d then snd (stop_message_queue (isolate_client s)) else s)"

definition send_directive :: "mask16 \<Rightarrow> u8 \<Rightarrow> client_program \<Rightarrow> bool \<times> client_program" where
  "send_directive ct dDirective s =
     (if requirement_fail ct (command_request OR command_privileged) then (False, s)
      else (dDirective = 0,
        obey_directive (check_all dDirective directed_disconnect)
          (obey_directive (check_all dDirective directed_terminate) s)))"

definition register_request ::
  "cenv \<Rightarrow> mask16 \<Rightarrow> command_transmit \<Rightarrow> message_data \<Rightarrow> client_program \<Rightarrow> bool \<times> client_program" where
  "register_request e ct iInfo d s =
     (if requirement_fail ct command_request \<or> block_message_flag s then (False, s)
      else case add_new_message e iInfo (Request_Content d) s of (h, s1) \<Rightarrow> (h \<noteq> None, s1))"

definition register_response ::
  "cenv \<Rightarrow> mask16 \<Rightarrow> command_transmit \<Rightarrow> mask16 \<Rightarrow> message_data \<Rightarrow> client_program \<Rightarrow> bool \<times> client_program" where
  "register_response e ct iInfo t d s =
     (if requirement_fail ct command_response then (False, s)
      else if \<not> requirement_fail ct command_remote then (False, s)
      else if \<not> allow_responses_status s \<and>
          \<not> (allow_privileged_responses_status s \<and>
             \<not> requirement_fail ct (command_builtin OR command_privileged)) then (False, s)
      else if creator_pid iInfo \<noteq> own_pid e then (False, s)
      else case add_new_message e iInfo (Response_Content t d) s of (h, s1) \<Rightarrow> (h \<noteq> None, s1))"

text \<open>The copy of a command that is to go on to the next server: it is never sent to the own server
  again, and its next hop is the first one of its address.\<close>

definition remote_copy :: "mask16 \<Rightarrow> command_transmit \<Rightarrow> command_transmit \<Rightarrow> command_transmit" where
  "remote_copy ct iInfo c =
     (case next_client_scope (target_address c) of (t, a) \<Rightarrow>
        c\<lparr>no_send := 1, execute_type := execute_type c OR command_remote,
          target_entity := t, target_address := a,
          target_reference := (if orig_address iInfo \<noteq> [] \<and> \<not> requirement_fail ct command_response
                               then remote_reference c else target_reference c)\<rparr>)"

definition queue_remote ::
  "cenv \<Rightarrow> command_transmit \<Rightarrow> command_transmit \<Rightarrow> client_program \<Rightarrow> bool \<times> client_program" where
  "queue_remote e iInfo c s =
     (case queue_new_command e c s of (h, s1) \<Rightarrow>
       (case add_new_message e iInfo (Remote_Content h) s1 of
          (None, s2) \<Rightarrow> (False, snd (remove_command h s2))
        | (Some m, s2) \<Rightarrow> (True, s2)))"

definition register_remote ::
  "cenv \<Rightarrow> mask16 \<Rightarrow> command_transmit \<Rightarrow> client_program \<Rightarrow> bool \<times> client_program" where
  "register_remote e ct iInfo s =
     (if target_address iInfo = [] then (False, s)
      else if requirement_fail ct command_remote \<or> block_remote_flag s then (False, s)
      else if \<not> command_ready iInfo then (False, s)
      else queue_remote e iInfo (remote_copy ct iInfo iInfo) s)"

definition register_alt_remote ::
  "cenv \<Rightarrow> mask16 \<Rightarrow> command_transmit \<Rightarrow> body \<Rightarrow> client_program \<Rightarrow> bool \<times> client_program" where
  "register_alt_remote e ct iInfo b s =
     (if target_address iInfo = [] then (False, s)
      else if requirement_fail ct command_remote \<or> block_remote_flag s then (False, s)
      else case set_command (local_client s) (Some b) (property_equal (base_command e) iInfo) of (ok, c) \<Rightarrow>
        if \<not> ok then (False, s)
        else (case lookup_command (local_client s) (command_name c) of
            None \<Rightarrow> (False, s)
          | Some ty \<Rightarrow> queue_remote e iInfo (remote_copy ct iInfo (c\<lparr>execute_type := ty\<rparr>)) s))"

definition register_message ::
  "cenv \<Rightarrow> mask16 \<Rightarrow> command_transmit \<Rightarrow> string \<Rightarrow> client_program \<Rightarrow> bool \<times> client_program" where
  "register_message e ct iInfo m s =
     (if requirement_fail ct command_request \<or> block_message_flag s then (False, s)
      else case add_new_message e iInfo (Info_Content 0 m) s of (h, s1) \<Rightarrow> (h \<noteq> None, s1))"

text \<open>The timing table itself is compiled by generated code; the specifications it was set from and
  updated with are kept.\<close>

definition set_timing_table :: "cenv \<Rightarrow> mask16 \<Rightarrow> string list \<Rightarrow> client_program \<Rightarrow> bool \<times> client_program" where
  "set_timing_table e ct d s =
     (if requirement_fail ct (command_response OR command_builtin) then (False, s)
      else if \<not> timing_table e d then (False, s)
      else let s1 = s\<lparr>timing_updates := [(False, d)]\<rparr> in (timing_compiled e (timing_updates s1), s1))"

definition update_timing_table :: "cenv \<Rightarrow> mask16 \<Rightarrow> string list \<Rightarrow> client_program \<Rightarrow> bool \<times> client_program" where
  "update_timing_table e ct d s =
     (if requirement_fail ct (command_response OR command_builtin) then (False, s)
      else if \<not> timing_table e d then (False, s)
      else let s1 = s\<lparr>timing_updates := timing_updates s @ [(True, d)]\<rparr>
           in (timing_compiled e (timing_updates s1), s1))"

definition update_registration ::
  "mask16 \<Rightarrow> command_transmit \<Rightarrow> mask16 \<Rightarrow> client_program \<Rightarrow> bool \<times> client_program" where
  "update_registration ct iInfo tType s =
     (if requirement_fail ct (command_response OR command_builtin OR command_privileged) then (False, s)
      else (True, change_server_name (orig_entity iInfo)
             (change_local_name (target_entity iInfo) (change_local_type tType s))))"

section \<open>Responses of the client itself\<close>

text \<open>\<open>COPY_TO_RESPONSE\<close> in a program that is no server; the receiver of responses is the client's own
  pipe, which a command from the queue has as its \<open>send_to\<close>.\<close>

definition client_copy_to_response ::
  "client_program \<Rightarrow> body \<Rightarrow> command_transmit \<Rightarrow> command_transmit \<Rightarrow> command_transmit option" where
  "client_copy_to_response s b left right =
     (case set_command (local_client s) (Some b) (left\<lparr>send_to := 0\<rparr>) of (ok, l) \<Rightarrow>
        if \<not> ok then None
        else if send_to right = 0 then None
        else Some (l\<lparr>orig_entity := target_entity right, orig_address := [], orig_reference := 0,
          creator_pid := creator_pid right, target_entity := orig_entity right,
          target_address := orig_address right, target_reference := orig_reference right,
          remote_reference := (if remote_reference right \<noteq> 0 then remote_reference right
                               else orig_reference right)\<rparr>))"

definition client_auto_send :: "cenv \<Rightarrow> command_transmit option \<Rightarrow> client_program \<Rightarrow> bool \<times> client_program" where
  "client_auto_send e r s =
     (case r of
        None \<Rightarrow> (False, s)
      | Some c \<Rightarrow> (case command_sendable (local_client s) c of (ok, c1) \<Rightarrow>
          if \<not> ok then (False, s) else send_to_server e c1 s))"

definition send_client_response ::
  "cenv \<Rightarrow> command_transmit \<Rightarrow> u32 \<Rightarrow> client_program \<Rightarrow> bool \<times> client_program" where
  "send_client_response e cCommand rResult s =
     (if target_entity cCommand = [] then (False, s)
      else client_auto_send e
        (client_copy_to_response s (Common_Command (Short_Response rResult)) (base_command e) cCommand) s)"

definition client_manual_response ::
  "cenv \<Rightarrow> command_transmit \<Rightarrow> body \<Rightarrow> client_program \<Rightarrow> bool \<times> client_program" where
  "client_manual_response e cCommand rResponse s =
     (if target_entity cCommand = [] then (False, s)
      else let c = property_equal (base_command e) cCommand
           in client_auto_send e (client_copy_to_response s rResponse c c) s)"

text \<open>What a client response carries is cut to what a bypassing command may carry: a message to its
  length, a list to the texts before the one that makes it too large.\<close>

definition PARAM_BYPASS_LENGTH_MAX :: nat where "PARAM_BYPASS_LENGTH_MAX = PARAM_ADDRESS_LIMIT * 2"
definition PARAM_BYPASS_SIZE_MAX :: nat where "PARAM_BYPASS_SIZE_MAX = 8192 div 4"

fun bypass_prefix :: "nat \<Rightarrow> string list \<Rightarrow> string list" where
  "bypass_prefix current_size [] = []"
| "bypass_prefix current_size (d # ds) =
     (if current_size + length d > PARAM_BYPASS_SIZE_MAX then []
      else d # bypass_prefix (current_size + length d) ds)"

definition client_response_body :: "client_program \<Rightarrow> u32 \<Rightarrow> string \<Rightarrow> body" where
  "client_response_body s ev m =
     Common_Command (Client_Response (entity_name (local_client s)) ev (take PARAM_BYPASS_LENGTH_MAX m))"

definition client_response_list_body :: "client_program \<Rightarrow> u32 \<Rightarrow> string list \<Rightarrow> body" where
  "client_response_list_body s ev ms =
     Common_Command (Client_Response_List (entity_name (local_client s)) ev (bypass_prefix 0 ms))"

definition client_auto_response ::
  "cenv \<Rightarrow> command_transmit \<Rightarrow> u32 \<Rightarrow> string \<Rightarrow> client_program \<Rightarrow> bool \<times> client_program" where
  "client_auto_response e cCommand rResult m s =
     client_manual_response e cCommand (client_response_body s rResult m) s"

definition client_auto_response_list ::
  "cenv \<Rightarrow> command_transmit \<Rightarrow> u32 \<Rightarrow> string list \<Rightarrow> client_program \<Rightarrow> bool \<times> client_program" where
  "client_auto_response_list e cCommand rResult ms s =
     client_manual_response e cCommand (client_response_list_body s rResult ms) s"

text \<open>\<open>SILENT_SEND_SERVER_COMMAND\<close>: a command to the server whose outcome nobody follows.\<close>

definition create_server_command :: "cenv \<Rightarrow> body \<Rightarrow> client_program \<Rightarrow> bool \<times> client_program" where
  "create_server_command e b s =
     (case set_command (local_client s) (Some b) (base_command e) of (ok, c) \<Rightarrow>
        if \<not> ok then (False, s)
        else (case lookup_command (local_client s) (command_name c) of
            None \<Rightarrow> (False, s)
          | Some ty \<Rightarrow>
              (case manual_message_number s of (r, s1) \<Rightarrow>
                client_auto_send e (Some (c\<lparr>execute_type := ty, orig_reference := r,
                  orig_entity := entity_name (local_client s)\<rparr>)) s1)))"

end
