(* ===== verification/Client_Eval.thy ===== *)
theory Client_Eval
  imports Client_Interface
begin

text \<open>
  The evaluation of commands by a client: \<open>evaluate_client\<close> of every built-in command
  (\<open>libs/proto\<close>), of null commands and of \<open>command_transmit\<close> (\<open>libs/protocol/ipc\<close>), and a turn of the
  message queue (\<open>internal_queue_loop\<close>, \<open>libs/client/api-message-queue.cpp\<close>). \<open>iface\<close> tells whether the
  command is given the client's interface. Dereferencing the null interface has no result.
\<close>

section \<open>Responses\<close>

definition to_remote :: "command_transmit \<Rightarrow> bool" where "to_remote c \<longleftrightarrow> target_address c \<noteq> []"
definition from_remote :: "command_transmit \<Rightarrow> bool" where "from_remote c \<longleftrightarrow> orig_address c \<noteq> []"

definition update_either_status ::
  "cenv \<Rightarrow> mask16 \<Rightarrow> command_transmit \<Rightarrow> u32 \<Rightarrow> client_program \<Rightarrow> client_program" where
  "update_either_status e ct iInfo ev s =
     snd (if \<not> from_remote iInfo then update_local_command_status e ct iInfo ev s
          else update_remote_command_status e ct iInfo ev s)"

text \<open>The branch of the responses that carry an event, for those that go on to another server.\<close>

definition pass_on_response ::
  "cenv \<Rightarrow> mask16 \<Rightarrow> command_transmit \<Rightarrow> bool \<Rightarrow> u32 \<Rightarrow> client_program \<Rightarrow> client_program" where
  "pass_on_response e ct iInfo forward ev s =
     (let s1 = (if forward then snd (register_remote e ct iInfo s) else s)
      in if \<not> from_remote iInfo then snd (update_local_command_status e ct iInfo ev s1) else s1)"

definition take_response ::
  "cenv \<Rightarrow> mask16 \<Rightarrow> command_transmit \<Rightarrow> mask16 \<Rightarrow> message_data option \<Rightarrow> u32 \<Rightarrow> client_program \<Rightarrow> client_program" where
  "take_response e ct iInfo t d ev s =
     update_either_status e ct iInfo ev
       (case d of None \<Rightarrow> s | Some m \<Rightarrow> snd (register_response e ct iInfo t m s))"

definition event_response ::
  "cenv \<Rightarrow> mask16 \<Rightarrow> command_transmit \<Rightarrow> bool \<Rightarrow> message_data option \<Rightarrow> u32 \<Rightarrow> client_program \<Rightarrow> client_program" where
  "event_response e ct iInfo forward d ev s =
     (if to_remote iInfo then pass_on_response e ct iInfo forward ev s
      else take_response e ct iInfo response_normal d ev s)"

text \<open>The branch of the responses of services, which say when a message was not taken.\<close>

definition service_response_eval ::
  "cenv \<Rightarrow> mask16 \<Rightarrow> command_transmit \<Rightarrow> mask16 \<Rightarrow> message_data \<Rightarrow> u32 \<Rightarrow> client_program \<Rightarrow> u32 \<times> client_program" where
  "service_response_eval e ct iInfo t d ev s =
     (if to_remote iInfo then
        (case register_remote e ct iInfo s of (ok, s1) \<Rightarrow> (if ok then event_none else event_rejected, s1))
      else (case register_response e ct iInfo t d s of (ok, s1) \<Rightarrow>
        (if ok then event_none else event_rejected, update_either_status e ct iInfo ev s1)))"

section \<open>Bodies\<close>

fun client_evaluate_common ::
  "cenv \<Rightarrow> mask16 \<Rightarrow> bool \<Rightarrow> command_transmit \<Rightarrow> common_body \<Rightarrow> client_program \<Rightarrow> u32 \<times> client_program" where
  "client_evaluate_common e ct iface iInfo (Client_Response o' ev m) s =
     (event_none, if \<not> iface then s
       else event_response e ct iInfo (check_any ev event_forward) (Some (Single_Message 0 m)) ev s)"
| "client_evaluate_common e ct iface iInfo (Client_Response_List o' ev ms) s =
     (event_none, if \<not> iface then s
       else event_response e ct iInfo (check_any ev event_forward) (Some (Multi_Message ms)) ev s)"
| "client_evaluate_common e ct iface iInfo (Short_Response ev) s =
     (event_none, if \<not> iface then s
       else event_response e ct iInfo (check_any ev event_forward) None ev s)"
| "client_evaluate_common e ct iface iInfo (Client_Register_Response t) s =
     (event_none, if \<not> iface then s
       else case update_registration ct iInfo t s of (ok, s1) \<Rightarrow>
         if ok then snd (update_local_command_status e ct iInfo event_complete s1) else s1)"
| "client_evaluate_common e ct iface iInfo (Client_Message m) s =
     (if \<not> iface then (event_rejected, s)
      else case register_message e ct iInfo m s of (ok, s1) \<Rightarrow>
        (if ok then event_complete else event_rejected, s1))"
| "client_evaluate_common e ct iface iInfo Ping_Client s = (event_complete, s)"
| "client_evaluate_common e ct iface iInfo (Register_Client _ _ _) s = (event_rejected, s)"
| "client_evaluate_common e ct iface iInfo Indicate_Ready s = (event_rejected, s)"
| "client_evaluate_common e ct iface iInfo Term_Request s = (event_rejected, s)"
| "client_evaluate_common e ct iface iInfo Term_Return s = (event_rejected, s)"
| "client_evaluate_common e ct iface iInfo Ping_Server s = (event_rejected, s)"

fun client_evaluate_server ::
  "cenv \<Rightarrow> mask16 \<Rightarrow> bool \<Rightarrow> command_transmit \<Rightarrow> server_body \<Rightarrow> client_program \<Rightarrow> u32 \<times> client_program" where
  "client_evaluate_server e ct iface iInfo (Server_Response o' ev m) s =
     (event_none, if \<not> iface then s
       else event_response e ct iInfo (check_any ev event_forward)
         (if m \<noteq> [] then Some (Single_Message 0 m) else None) ev s)"
| "client_evaluate_server e ct iface iInfo (Server_Response_List o' ev ms) s =
     (event_none, if \<not> iface then s
       else event_response e ct iInfo (ev AND event_forward \<noteq> 0) (Some (Multi_Message ms)) ev s)"
| "client_evaluate_server e ct iface iInfo (Server_Directive d) s =
     (event_none, if \<not> iface then s else snd (send_directive ct d s))"
| "client_evaluate_server e ct iface iInfo (Set_Timing ts) s =
     (event_none, if \<not> iface then s else snd (set_timing_table e ct ts s))"
| "client_evaluate_server e ct iface iInfo (Update_Timing ts) s =
     (event_none, if \<not> iface then s else snd (update_timing_table e ct ts s))"
| "client_evaluate_server e ct iface iInfo (Monitor_Data ev ms) s =
     (event_none, if \<not> iface then s
       else s\<lparr>hook_calls := hook_calls s @ [Monitor_Update ev (map c_str ms)]\<rparr>)"

fun client_evaluate_service ::
  "cenv \<Rightarrow> mask16 \<Rightarrow> bool \<Rightarrow> command_transmit \<Rightarrow> service_body \<Rightarrow> client_program \<Rightarrow> u32 \<times> client_program" where
  "client_evaluate_service e ct iface iInfo (Service_Request b o' m) s =
     (if \<not> iface then (event_rejected, s)
      else case register_request e ct iInfo (Single_Message (if b then length m else 0) m) s of (ok, s1) \<Rightarrow>
        (if ok then event_none else event_rejected, s1))"
| "client_evaluate_service e ct iface iInfo (Service_Request_List o' ms) s =
     (if \<not> iface then (event_none, s)
      else case register_request e ct iInfo (Multi_Message ms) s of (ok, s1) \<Rightarrow>
        (if ok then event_none else event_rejected, update_either_status e ct iInfo event_complete s1))"
| "client_evaluate_service e ct iface iInfo (Service_Response b o' m) s =
     (if \<not> iface then (event_none, s)
      else service_response_eval e ct iInfo response_normal
        (Single_Message (if b then length m else 0) m) event_complete s)"
| "client_evaluate_service e ct iface iInfo (Service_Response_List o' ms) s =
     (if \<not> iface then (event_none, s)
      else service_response_eval e ct iInfo response_normal (Multi_Message ms) event_complete s)"
| "client_evaluate_service e ct iface iInfo (Partial_Response o' t m) s =
     (if \<not> iface then (event_none, s)
      else service_response_eval e ct iInfo t (Single_Message 0 m) (convert_response t) s)"
| "client_evaluate_service e ct iface iInfo (Partial_Response_List o' t ms) s =
     (if \<not> iface then (event_none, s)
      else service_response_eval e ct iInfo t (Multi_Message ms) (convert_response t) s)"
| "client_evaluate_service e ct iface iInfo (Find_Services _ _) s = (event_rejected, s)"

section \<open>Remote services\<close>

text \<open>Following the life of a service through several servers: the server next to the service watches
  it, and every client on the way learns where to send news of its end.\<close>

definition watch_resource :: "cenv \<Rightarrow> u2 \<Rightarrow> string \<Rightarrow> client_program \<Rightarrow> client_program" where
  "watch_resource e action n s =
     (if action = RSERVR_REMOTE_MONITOR
        then snd (create_server_command e (Resource_Command (Monitor_Resource_Exit n)) s)
      else if action = RSERVR_REMOTE_UNMONITOR
        then snd (create_server_command e (Resource_Command (Unmonitor_Resource_Exit n)) s)
      else s)"

definition service_hook :: "remote_service_data \<Rightarrow> client_program \<Rightarrow> client_program" where
  "service_hook d s = s\<lparr>hook_calls := hook_calls s @ [Remote_Service_Hook d]\<rparr>"

definition hook_data ::
  "bool \<Rightarrow> bool \<Rightarrow> u2 \<Rightarrow> u2 \<Rightarrow> command_transmit \<Rightarrow> string \<Rightarrow> string \<Rightarrow> string \<Rightarrow> string \<Rightarrow> string \<Rightarrow>
    remote_service_data" where
  "hook_data orig nocheck dir action iInfo n connection entity address whole =
     \<lparr>originator = orig, no_check = nocheck, service_direction = dir, service_action = action,
      current_target = Some (target_entity iInfo), remote_service = n, monitor_connection = connection,
      notify_entity = Some entity, notify_address = Some address, complete_address = whole\<rparr>"

definition sender_if :: "bool \<Rightarrow> command_transmit \<Rightarrow> string" where
  "sender_if b iInfo = (if b then orig_entity iInfo else [])"

definition service_action_eval ::
  "cenv \<Rightarrow> mask16 \<Rightarrow> command_transmit \<Rightarrow> u2 \<Rightarrow> string \<Rightarrow> string \<Rightarrow> client_program \<Rightarrow> client_program" where
  "service_action_eval e ct iInfo action n whole s =
     (if whole = [] then update_either_status e ct iInfo event_complete s
      else
        let s1 = (if from_remote iInfo \<and> \<not> is_next_server (orig_address iInfo) then
                    watch_resource e action (orig_entity iInfo)
                      (snd (client_manual_response e iInfo
                        (Resource_Command (Remote_Service_Back_Action RSERVR_REMOTE_TOWARD_SERVER action n
                          (target_address iInfo) whole)) s))
                  else if \<not> from_remote iInfo then watch_resource e action n s
                  else s);
            s2 = (if \<not> is_next_server (target_address iInfo) then snd (register_remote e ct iInfo s1) else s1);
            s3 = (case only_last_address (target_address iInfo) of (ok, connection) \<Rightarrow>
                    if ok then service_hook (hook_data (\<not> to_remote iInfo) False RSERVR_REMOTE_TOWARD_CLIENT
                      action iInfo n connection (sender_if (from_remote iInfo) iInfo)
                      (orig_address iInfo) whole) s2
                    else s2)
        in if to_remote iInfo
           then service_hook (hook_data False True RSERVR_REMOTE_TOWARD_SERVER action iInfo n
             (sender_if (from_remote iInfo) iInfo) (target_entity iInfo) (target_address iInfo) whole) s3
           else update_either_status e ct iInfo event_complete s3)"

definition service_back_action_eval ::
  "cenv \<Rightarrow> command_transmit \<Rightarrow> u2 \<Rightarrow> u2 \<Rightarrow> string \<Rightarrow> string \<Rightarrow> string \<Rightarrow> client_program \<Rightarrow> client_program" where
  "service_back_action_eval e iInfo direction action n supplement whole s =
     (if whole = [] then s
      else
        let near = from_remote iInfo \<or> direction = RSERVR_REMOTE_TOWARD_SERVER;
            s1 = watch_resource e action (orig_entity iInfo) s;
            s2 = (case only_last_address (target_address iInfo) of (ok, connection) \<Rightarrow>
                    if ok then service_hook (hook_data
                      (\<not> to_remote iInfo \<and> direction = RSERVR_REMOTE_TOWARD_CLIENT) False direction action
                      iInfo n connection (sender_if near iInfo) supplement whole) s1
                    else s1)
        in if to_remote iInfo
           then service_hook (hook_data
             (\<not> to_remote iInfo \<and> direction = RSERVR_REMOTE_TOWARD_SERVER) True (NOT direction) action
             iInfo n (sender_if near iInfo) (target_entity iInfo) (target_address iInfo) whole) s2
           else s2)"

definition service_disconnect_eval ::
  "cenv \<Rightarrow> mask16 \<Rightarrow> command_transmit \<Rightarrow> u2 \<Rightarrow> string \<Rightarrow> string \<Rightarrow> client_program \<Rightarrow> client_program" where
  "service_disconnect_eval e ct iInfo direction n whole s =
     (let s1 = (if \<not> is_next_server (orig_address iInfo) then
                  snd (create_server_command e (Resource_Command (Unmonitor_Resource_Exit (orig_entity iInfo)))
                    (snd (client_manual_response e iInfo
                      (Resource_Command (Remote_Service_Back_Action (NOT direction) RSERVR_REMOTE_UNMONITOR n
                        (target_address iInfo) whole)) s)))
                else s)
      in if \<not> to_remote iInfo then s1
         else
           let s2 = (if \<not> is_next_server (target_address iInfo) then snd (register_remote e ct iInfo s1) else s1);
               s3 = (case only_last_address (target_address iInfo) of (ok, connection) \<Rightarrow>
                       if ok then service_hook (hook_data
                         (\<not> to_remote iInfo \<and> direction = RSERVR_REMOTE_TOWARD_CLIENT) False direction
                         RSERVR_REMOTE_UNMONITOR iInfo n connection (sender_if (from_remote iInfo) iInfo)
                         (orig_address iInfo) whole) s2
                       else s2)
           in service_hook (hook_data
                (\<not> to_remote iInfo \<and> direction = RSERVR_REMOTE_TOWARD_SERVER) True (NOT direction)
                RSERVR_REMOTE_UNMONITOR iInfo n (orig_entity iInfo) (target_entity iInfo)
                (target_address iInfo) whole) s3)"

fun client_evaluate_resource ::
  "cenv \<Rightarrow> mask16 \<Rightarrow> bool \<Rightarrow> command_transmit \<Rightarrow> resource_body \<Rightarrow> client_program \<Rightarrow> u32 \<times> client_program" where
  "client_evaluate_resource e ct iface iInfo (Remote_Service_Action a n c) s =
     (event_none, if \<not> iface then s else service_action_eval e ct iInfo a n c s)"
| "client_evaluate_resource e ct iface iInfo (Remote_Service_Back_Action d a n p c) s =
     (event_none, if \<not> iface then s else service_back_action_eval e iInfo d a n p c s)"
| "client_evaluate_resource e ct iface iInfo (Remote_Service_Disconnect d n c) s =
     (event_none, if \<not> iface then s else service_disconnect_eval e ct iInfo d n c s)"
| "client_evaluate_resource e ct iface iInfo (Resource_Exit n) s =
     (event_none, s\<lparr>hook_calls := hook_calls s @ [Resource_Exit_Hook (c_str n)]\<rparr>)"
| "client_evaluate_resource e ct iface iInfo (Register_Service _ _) s = (event_rejected, s)"
| "client_evaluate_resource e ct iface iInfo (Deregister_Own_Service _) s = (event_rejected, s)"
| "client_evaluate_resource e ct iface iInfo Deregister_All_Own_Services s = (event_rejected, s)"
| "client_evaluate_resource e ct iface iInfo (Deregister_Remote_Services _) s = (event_rejected, s)"
| "client_evaluate_resource e ct iface iInfo (Find_Resource_Clients _) s = (event_rejected, s)"
| "client_evaluate_resource e ct iface iInfo (Monitor_Resource_Exit _) s = (event_rejected, s)"
| "client_evaluate_resource e ct iface iInfo (Unmonitor_Resource_Exit _) s = (event_rejected, s)"

text \<open>A null command without the interface would call through the null pointer.\<close>

fun client_evaluate_body ::
  "cenv \<Rightarrow> mask16 \<Rightarrow> bool \<Rightarrow> command_transmit \<Rightarrow> body \<Rightarrow> client_program \<Rightarrow> (u32 \<times> client_program) option" where
  "client_evaluate_body e ct iface iInfo (Null_Command n) s =
     (if to_remote iInfo \<or> \<not> iface then
        (if \<not> iface then None
         else case register_remote e ct iInfo s of (ok, s1) \<Rightarrow>
           Some (if ok then event_none else event_rejected, s1))
      else Some (event_none, s))"
| "client_evaluate_body e ct iface iInfo (Common_Command b) s = Some (client_evaluate_common e ct iface iInfo b s)"
| "client_evaluate_body e ct iface iInfo (Server_Command b) s = Some (client_evaluate_server e ct iface iInfo b s)"
| "client_evaluate_body e ct iface iInfo (Admin_Command b) s = Some (event_rejected, s)"
| "client_evaluate_body e ct iface iInfo (Resource_Command b) s = Some (client_evaluate_resource e ct iface iInfo b s)"
| "client_evaluate_body e ct iface iInfo (Service_Command b) s = Some (client_evaluate_service e ct iface iInfo b s)"

section \<open>Commands\<close>

text \<open>\<open>command_transmit::evaluate_client\<close>; the interface's current type is the command's own.\<close>

definition interface_given :: "command_transmit \<Rightarrow> bool" where
  "interface_given c \<longleftrightarrow>
     \<not> (check_all (execute_type c) command_null \<and> \<not> check_all (execute_type c) command_builtin)"

definition evaluate_client ::
  "cenv \<Rightarrow> command_transmit \<Rightarrow> client_program \<Rightarrow> (bool \<times> client_program) option" where
  "evaluate_client e c s =
     (if super_user e \<or> super_group e then Some (False, s)
      else if command_name c = [] then Some (False, s)
      else if orig_address c \<noteq> [] \<and> check_all (execute_type c) command_no_remote then Some (False, s)
      else if \<not> allow_execute_client (is_server (local_client s)) (execute_type c) then
        (if silent_auto_response c then Some (False, s) else Some (send_client_response e c event_rejected s))
      else case command c of
        None \<Rightarrow> Some (True, s)
      | Some b \<Rightarrow>
          (case client_evaluate_body e (execute_type c) (interface_given c) c b s of
             None \<Rightarrow> None
           | Some (current_event, s1) \<Rightarrow>
               if current_event \<noteq> event_none \<and> \<not> silent_auto_response c
               then Some (send_client_response e c current_event s1)
               else Some (True, s1)))"

section \<open>The message queue\<close>

text \<open>
  A turn of \<open>internal_queue_loop\<close>, for a command that was received: it is announced as received to
  senders other than the server, and evaluated. \<open>PARAM_DISABLE_REMOTE_RECEIPT\<close> is defined.
\<close>

definition announce_receipt :: "cenv \<Rightarrow> command_transmit \<Rightarrow> client_program \<Rightarrow> client_program" where
  "announce_receipt e c s =
     (if local_type (local_client s) \<noteq> type_none \<and> check_none (execute_type c) command_response \<and>
         orig_entity c \<noteq> client_server s \<and> orig_address c = []
      then snd (send_client_response e c event_received_client s) else s)"

definition client_turn :: "cenv \<Rightarrow> command_transmit \<Rightarrow> client_program \<Rightarrow> client_program option" where
  "client_turn e c0 s =
     (let c = c0\<lparr>send_to := 1\<rparr>
      in if \<not> command_ready c then Some s
         else map_option snd (evaluate_client e c (announce_receipt e c s)))"

text \<open>The end of \<open>lexer_input::parse_command\<close>: a command without data gets an empty section, and its
  body is found. A command that is not found is dropped.\<close>

definition parsed_command :: "local_info \<Rightarrow> command_transmit \<Rightarrow> command_transmit option" where
  "parsed_command l raw =
     (case client_find_command l (raw\<lparr>tree := (if tree raw = [] then [Empty_Section []] else tree raw)\<rparr>) of
        (ok, c) \<Rightarrow> if ok then Some c else None)"

definition client_receive :: "cenv \<Rightarrow> command_transmit \<Rightarrow> client_program \<Rightarrow> client_program option" where
  "client_receive e raw s =
     (case parsed_command (local_client s) raw of None \<Rightarrow> Some s | Some c \<Rightarrow> client_turn e c s)"

text \<open>\<open>set_async_response\<close>, called by a plug-in hook for the command being executed.\<close>

definition set_async_response :: "cenv \<Rightarrow> command_transmit option \<Rightarrow> client_program \<Rightarrow> handle \<times> client_program" where
  "set_async_response e executing_command s =
     (case executing_command of
        None \<Rightarrow> (0, s)
      | Some c \<Rightarrow> (case add_new_message e c Async_Content s of
          (None, s1) \<Rightarrow> (0, s1) | (Some h, s1) \<Rightarrow> (h, s1)))"

end
