(* ===== verification/Client_Turns.thy ===== *)
theory Client_Turns
  imports Client_Eval
begin

text \<open>
  What the evaluation of a command may do to a client. One relation, \<open>stays_within\<close>, says it for a command:
  the invariant is kept; statuses change by responses to the own process only; messages are added
  only if the flags of the queue allow their kind; the program's identity and its connection change by
  privileged commands only. Every function of the interface stays within it, and so does every command.
\<close>

section \<open>What a command may change\<close>

definition admissible :: "cenv \<Rightarrow> mask16 \<Rightarrow> client_program \<Rightarrow> message_info \<Rightarrow> bool" where
  "admissible e ct s m \<longleftrightarrow>
     (case message_content m of
        Request_Content d \<Rightarrow> check_all ct command_request \<and> \<not> block_message_flag s
      | Info_Content n d \<Rightarrow> check_all ct command_request \<and> \<not> block_message_flag s
      | Response_Content t d \<Rightarrow> check_all ct command_response \<and> \<not> check_all ct command_remote \<and>
          message_pid m = own_pid e \<and>
          (allow_responses_status s \<or>
           allow_privileged_responses_status s \<and> check_all ct (command_builtin OR command_privileged))
      | Remote_Content h \<Rightarrow> check_all ct command_remote \<and> \<not> block_remote_flag s
      | Async_Content \<Rightarrow> False)"

definition same_flags :: "client_program \<Rightarrow> client_program \<Rightarrow> bool" where
  "same_flags s t \<longleftrightarrow>
     block_message_flag t = block_message_flag s \<and> allow_responses_flag t = allow_responses_flag s \<and>
     allow_privileged_responses_flag t = allow_privileged_responses_flag s \<and>
     block_remote_flag t = block_remote_flag s"

definition stays_within :: "cenv \<Rightarrow> mask16 \<Rightarrow> u32 \<Rightarrow> client_program \<Rightarrow> client_program \<Rightarrow> bool" where
  "stays_within e ct pid s t \<longleftrightarrow>
     (cenv_ok e \<longrightarrow> client_ok s \<longrightarrow> client_ok t) \<and> same_flags s t \<and>
     (status_list t \<noteq> status_list s \<longrightarrow> check_all ct command_response \<and> pid = own_pid e) \<and>
     (\<forall>m \<in> set (message_list t). m \<in> set (message_list s) \<or> admissible e ct s m) \<and>
     (local_client t \<noteq> local_client s \<longrightarrow>
        check_all ct (command_response OR command_builtin OR command_privileged)) \<and>
     (isolated t \<noteq> isolated s \<or> message_queue_status t \<noteq> message_queue_status s \<longrightarrow>
        check_all ct (command_request OR command_privileged))"

lemma within_refl [simp]: "stays_within e ct pid s s"
  by (simp add: stays_within_def same_flags_def)

lemma same_flags_admissible: "same_flags s t \<Longrightarrow> admissible e ct t m \<longleftrightarrow> admissible e ct s m"
  by (simp add: admissible_def same_flags_def allow_responses_status_def
      allow_privileged_responses_status_def split: message_content.split)

lemma within_trans:
  assumes "stays_within e ct pid s t" and "stays_within e ct pid t u"
  shows "stays_within e ct pid s u"
proof -
  have f: "same_flags s t" "same_flags t u" using assms by (simp_all add: stays_within_def)
  have "cenv_ok e \<longrightarrow> client_ok s \<longrightarrow> client_ok u" using assms unfolding stays_within_def by metis
  moreover have "same_flags s u" using f by (simp add: same_flags_def)
  moreover have "\<forall>m \<in> set (message_list u). m \<in> set (message_list s) \<or> admissible e ct s m"
    using assms same_flags_admissible [OF f(1)] unfolding stays_within_def by metis
  moreover have "status_list u \<noteq> status_list s \<longrightarrow> check_all ct command_response \<and> pid = own_pid e"
    using assms unfolding stays_within_def by metis
  moreover have "local_client u \<noteq> local_client s \<longrightarrow>
      check_all ct (command_response OR command_builtin OR command_privileged)"
    using assms unfolding stays_within_def by metis
  moreover have "isolated u \<noteq> isolated s \<or> message_queue_status u \<noteq> message_queue_status s \<longrightarrow>
      check_all ct (command_request OR command_privileged)"
    using assms unfolding stays_within_def by metis
  ultimately show ?thesis unfolding stays_within_def by (intro conjI)
qed

text \<open>A change of other fields is no change here.\<close>

definition other_fields :: "client_program \<Rightarrow> client_program \<Rightarrow> bool" where
  "other_fields s t \<longleftrightarrow>
     same_flags s t \<and> status_list t = status_list s \<and> message_list t = message_list s \<and>
     message_index t = message_index s \<and> message_max t = message_max s \<and>
     map fst (queued_commands t) = map fst (queued_commands s) \<and> local_client t = local_client s \<and>
     isolated t = isolated s \<and> message_queue_status t = message_queue_status s"

lemma other_fields_within: "other_fields s t \<Longrightarrow> stays_within e ct pid s t"
proof -
  assume o: "other_fields s t"
  then have "same_shape s t" by (simp add: other_fields_def same_shape_def)
  then have "client_ok s \<Longrightarrow> client_ok t" by (rule same_shape_ok)
  with o show ?thesis unfolding stays_within_def other_fields_def by simp
qed

lemma send_other: "other_fields s (snd (send_to_server e c s))"
  by (simp add: other_fields_def same_flags_def send_to_server_def message_queue_status_def)

lemma auto_send_other: "other_fields s (snd (client_auto_send e r s))"
  using send_other
  by (simp add: client_auto_send_def other_fields_def same_flags_def split: option.split prod.split)

lemma response_other:
  "other_fields s (snd (send_client_response e c ev s))" "other_fields s (snd (client_manual_response e c b s))"
  using auto_send_other
  by (simp_all add: send_client_response_def client_manual_response_def Let_def other_fields_def same_flags_def)

lemma server_command_other: "other_fields s (snd (create_server_command e b s))"
proof -
  have "other_fields s (s\<lparr>internal_reference := n\<rparr>)" for n
    by (simp add: other_fields_def same_flags_def message_queue_status_def)
  moreover have "other_fields s t \<Longrightarrow> other_fields t u \<Longrightarrow> other_fields s u" for t u
    by (simp add: other_fields_def same_flags_def)
  ultimately show ?thesis
    using auto_send_other
    by (simp add: create_server_command_def manual_message_number_def split_beta split: option.split)
      (auto simp: other_fields_def same_flags_def)
qed

lemma hooks_other: "other_fields s (s\<lparr>hook_calls := h\<rparr>)" "other_fields s (s\<lparr>timing_updates := u\<rparr>)"
  by (simp_all add: other_fields_def same_flags_def message_queue_status_def)

lemmas within_others =
  response_other [THEN other_fields_within] server_command_other [THEN other_fields_within]
  hooks_other [THEN other_fields_within]

section \<open>The interface\<close>

lemma update_status_within:
  assumes "check_all ct command_response" and "pid = own_pid e"
  shows "stays_within e ct pid s (snd (update_status e r ev i s))"
proof -
  have "client_ok s \<Longrightarrow> client_ok (snd (update_status e r ev i s))" by (rule status_ops_ok(4))
  then show ?thesis
    using assms
    by (auto simp: stays_within_def same_flags_def update_status_def message_queue_status_def
        split: option.splits prod.splits)
qed

lemma update_local_within:
  "stays_within e ct (creator_pid i) s (snd (update_local_command_status e ct i ev s))"
  "stays_within e ct (creator_pid i) s (snd (update_remote_command_status e ct i ev s))"
  using update_status_within
  by (simp_all add: update_local_command_status_def update_remote_command_status_def requirement_fail_def)

lemma update_either_within: "stays_within e ct (creator_pid i) s (update_either_status e ct i ev s)"
  by (simp add: update_either_status_def update_local_within)

lemma only_pausing_flags:
  assumes "only_pausing s t"
  shows "same_flags s t" and "isolated t = isolated s"
  using assms by (auto elim: only_pausingD simp: same_flags_def)

lemma add_within:
  assumes "\<And>h. admissible e ct s (new_message h c m)"
  shows "stays_within e ct pid s (snd (add_new_message e c m s))"
proof (cases "message_max s \<noteq> 0 \<and> length (message_list s) \<ge> message_max s")
  case True
  then have "snd (add_new_message e c m s) = s\<lparr>message_index := 0\<rparr>" by (simp add: add_new_message_def)
  with add_new_message_ok [of e s c m] show ?thesis
    by (auto simp: stays_within_def same_flags_def message_queue_status_def)
next
  case False
  let ?u = "s\<lparr>message_list := message_list s @ [new_message (fresh_block e s) c m]\<rparr>"
  let ?t = "auto_pause_check e (length (message_list ?u)) (message_max ?u) ?u"
  have t: "snd (add_new_message e c m s) = ?t" using False by (auto simp: add_new_message_def Let_def)
  note p = pausing_checks_only(1) [of ?u e "length (message_list ?u)" "message_max ?u"]
  note f = only_pausing_frame [OF p] only_pausing_flags [OF p]
  have "message_list ?t = message_list s @ [new_message (fresh_block e s) c m]" using f(1) by simp
  moreover have "status_list ?t = status_list s" "local_client ?t = local_client s"
    "message_queue_status ?t = message_queue_status s" "isolated ?t = isolated s" "same_flags s ?t"
    using f by (simp_all add: message_queue_status_def same_flags_def)
  ultimately show ?thesis
    using assms add_new_message_ok [of e s c m] unfolding stays_within_def t by auto
qed

lemma register_message_within:
  "stays_within e ct pid s (snd (register_request e ct i d s))"
  "stays_within e ct pid s (snd (register_message e ct i m s))"
  by (simp_all add: register_request_def register_message_def requirement_fail_def split_beta add_within
      admissible_def new_message_def)

lemma register_response_within: "stays_within e ct pid s (snd (register_response e ct i t d s))"
  by (simp add: register_response_def requirement_fail_def split_beta)
    (auto intro!: add_within simp: admissible_def new_message_def)

lemma queue_within:
  "stays_within e ct pid s (snd (queue_new_command e c s))"
  "stays_within e ct pid s (snd (remove_command h s))"
  using queue_new_command_ok [of e s c] remove_command_ok [of s h]
  by (auto simp: stays_within_def same_flags_def queue_new_command_def remove_command_def Let_def
      message_queue_status_def)

lemma queue_remote_within:
  assumes "check_all ct command_remote" and "\<not> block_remote_flag s"
  shows "stays_within e ct pid s (snd (queue_remote e i c s))"
proof -
  obtain h s1 where q: "queue_new_command e c s = (h, s1)" by fastforce
  obtain m s2 where a: "add_new_message e i (Remote_Content h) s1 = (m, s2)" by fastforce
  have w1: "stays_within e ct pid s s1" using queue_within(1) [of e ct pid s c] q by simp
  have "admissible e ct s1 (new_message k i (Remote_Content h))" for k
    using assms q by (auto simp: admissible_def new_message_def queue_new_command_def Let_def)
  then have w2: "stays_within e ct pid s1 s2" using add_within [of e ct s1 i "Remote_Content h" pid] a by simp
  note w = within_trans [OF w1 w2]
  show ?thesis
    using w within_trans [OF w queue_within(2)] by (simp add: queue_remote_def q a split: option.split)
qed

lemma register_remote_within:
  "stays_within e ct pid s (snd (register_remote e ct i s))"
  "stays_within e ct pid s (snd (register_alt_remote e ct i b s))"
  using queue_remote_within
  by (auto simp: register_remote_def register_alt_remote_def requirement_fail_def
      split: prod.split option.split)

lemma obey_within:
  assumes "check_all ct (command_request OR command_privileged)"
  shows "stays_within e ct pid s (obey_directive d s)"
proof -
  let ?t = "isolate_client s"
  have ok: "client_ok s \<Longrightarrow> client_ok ?t" by (simp add: isolate_client_def client_ok_def used_handles_def)
  have "same_flags s (snd (stop_message_queue ?t))" "status_list (snd (stop_message_queue ?t)) = status_list s"
    "message_list (snd (stop_message_queue ?t)) = message_list s"
    "local_client (snd (stop_message_queue ?t)) = local_client s"
    by (simp_all add: stop_message_queue_def same_flags_def isolate_client_def message_queue_unpause_def
        cancel_pause_timeout_def)
  with assms ok stop_ok [of ?t] have "stays_within e ct pid s (snd (stop_message_queue ?t))"
    by (auto simp: stays_within_def)
  then show ?thesis by (simp add: obey_directive_def)
qed

lemma directive_within: "stays_within e ct pid s (snd (send_directive ct d s))"
  by (simp add: send_directive_def requirement_fail_def within_trans [OF obey_within obey_within])

lemma timing_within:
  "stays_within e ct pid s (snd (set_timing_table e ct ts s))"
  "stays_within e ct pid s (snd (update_timing_table e ct ts s))"
  by (simp_all add: set_timing_table_def update_timing_table_def Let_def within_others)

lemma registration_within: "stays_within e ct pid s (snd (update_registration ct i t s))"
  by (simp add: update_registration_def requirement_fail_def)
    (simp add: stays_within_def same_flags_def change_server_name_def change_local_name_def
      change_local_type_def client_ok_def used_handles_def message_queue_status_def)

lemmas interface_within =
  update_local_within update_either_within register_message_within register_response_within
  register_remote_within directive_within timing_within registration_within within_others

section \<open>Every command\<close>

lemma pass_on_within: "stays_within e ct (creator_pid i) s (pass_on_response e ct i f ev s)"
  using within_trans [OF register_remote_within(1) update_local_within(1)]
  by (simp add: pass_on_response_def Let_def interface_within)

lemma take_response_within: "stays_within e ct (creator_pid i) s (take_response e ct i t d ev s)"
  using within_trans [OF register_response_within update_either_within]
  by (simp add: take_response_def interface_within split: option.split)

lemma event_response_within: "stays_within e ct (creator_pid i) s (event_response e ct i f d ev s)"
  by (simp add: event_response_def pass_on_within take_response_within)

lemma service_response_within: "stays_within e ct (creator_pid i) s (snd (service_response_eval e ct i t d ev s))"
  using within_trans [OF register_response_within update_either_within]
  by (simp add: service_response_eval_def split_beta interface_within)

lemma watch_within: "stays_within e ct pid s (watch_resource e a n s)"
  by (simp add: watch_resource_def within_others)

lemma service_hook_within: "stays_within e ct pid s (service_hook d s)"
  by (simp add: service_hook_def within_others)

lemma if_within:
  "stays_within e ct pid s t \<Longrightarrow> stays_within e ct pid s u \<Longrightarrow> stays_within e ct pid s (if b then t else u)"
  by simp

lemma hook_if_within:
  "stays_within e ct pid s t \<Longrightarrow>
    stays_within e ct pid s (case p of (ok, x) \<Rightarrow> if ok then service_hook (f x) t else t)"
  using within_trans [OF _ service_hook_within] by (simp split: prod.split)

lemmas chain_within =
  within_trans [OF _ register_remote_within(1)] within_trans [OF _ service_hook_within]
  within_trans [OF _ update_either_within] within_trans [OF _ watch_within]
  within_trans [OF _ within_others(2)] within_trans [OF _ within_others(3)]

lemma service_evals_within:
  "stays_within e ct (creator_pid i) s (service_action_eval e ct i a n c s)"
  "stays_within e ct (creator_pid i) s (service_back_action_eval e i d a n p c s)"
  "stays_within e ct (creator_pid i) s (service_disconnect_eval e ct i d n c s)"
  unfolding service_action_eval_def service_back_action_eval_def service_disconnect_eval_def Let_def
  by (intro if_within hook_if_within chain_within within_refl)+

lemma common_within: "stays_within e ct (creator_pid i) s (snd (client_evaluate_common e ct f i b s))"
proof (cases b)
  case (Client_Register_Response t)
  show ?thesis
    using within_trans [OF registration_within update_local_within(1)] registration_within
    by (simp add: Client_Register_Response split_beta)
qed (simp_all add: event_response_within register_message_within split_beta)

lemma server_within: "stays_within e ct (creator_pid i) s (snd (client_evaluate_server e ct f i b s))"
  by (cases b) (simp_all add: event_response_within interface_within)

lemma resource_within: "stays_within e ct (creator_pid i) s (snd (client_evaluate_resource e ct f i b s))"
  by (cases b) (simp_all add: service_evals_within interface_within)

lemma service_within: "stays_within e ct (creator_pid i) s (snd (client_evaluate_service e ct f i b s))"
proof (cases b)
  case (Service_Request_List m ms)
  show ?thesis
    using within_trans [OF register_message_within(1) update_either_within]
    by (simp add: Service_Request_List split_beta)
qed (simp_all add: service_response_within register_message_within split_beta)

lemma body_within:
  assumes "client_evaluate_body e ct f i b s = Some (ev, t)"
  shows "stays_within e ct (creator_pid i) s t"
proof (cases b)
  case (Null_Command n)
  with assms register_remote_within(1) [of e ct "creator_pid i" s i] show ?thesis
    by (cases "register_remote e ct i s") (auto split: if_splits)
next
  case (Common_Command c)
  with assms common_within [of e ct i s f c] show ?thesis by simp
next
  case (Server_Command c)
  with assms server_within [of e ct i s f c] show ?thesis by simp
next
  case (Resource_Command c)
  with assms resource_within [of e ct i s f c] show ?thesis by simp
next
  case (Service_Command c)
  with assms service_within [of e ct i s f c] show ?thesis by simp
qed (use assms in simp)

lemma evaluate_client_result:
  assumes "evaluate_client e c s = Some (ok, t)"
  shows "t = s \<or> t = snd (send_client_response e c event_rejected s) \<or>
    (\<exists>b ev s1. client_evaluate_body e (execute_type c) (interface_given c) c b s = Some (ev, s1) \<and>
      (t = s1 \<or> t = snd (send_client_response e c ev s1)))"
proof -
  have snd: "x = (ok, t) \<Longrightarrow> t = snd x" for x by simp
  show ?thesis
    using assms unfolding evaluate_client_def
    by (auto split: if_splits option.splits prod.splits dest!: snd)
qed

lemma evaluate_client_within:
  assumes "evaluate_client e c s = Some (ok, t)"
  shows "stays_within e (execute_type c) (creator_pid c) s t"
proof -
  have r: "stays_within e ct pid u (snd (send_client_response e c ev u))" for ct pid u ev
    by (simp add: within_others)
  from evaluate_client_result [OF assms] show ?thesis
    using r within_trans [OF body_within r] body_within by auto
qed

lemma announce_within: "stays_within e ct pid s (announce_receipt e c s)"
  by (simp add: announce_receipt_def within_others)

lemma client_turn_within:
  assumes "client_turn e c s = Some t"
  shows "stays_within e (execute_type c) (creator_pid c) s t"
proof (cases "command_ready c")
  case True
  let ?c = "c\<lparr>send_to := 1\<rparr>"
  from assms True obtain ok where "evaluate_client e ?c (announce_receipt e ?c s) = Some (ok, t)"
    by (auto simp: client_turn_def Let_def command_ready_def)
  from evaluate_client_within [OF this]
  have "stays_within e (execute_type c) (creator_pid c) (announce_receipt e ?c s) t" by simp
  from within_trans [OF announce_within this] show ?thesis .
qed (use assms in \<open>simp add: client_turn_def command_ready_def\<close>)

section \<open>The null interface\<close>

lemma set_command_type: "set_command l b c = (ok, c') \<Longrightarrow> execute_type c' = execute_type c \<and>
    creator_pid c' = creator_pid c \<and> orig_address c' = orig_address c \<and> target_address c' = target_address c"
  by (auto simp: set_command_def split: option.splits if_splits)

lemma compile_null: "compile_body l b t = Some (Null_Command n) \<Longrightarrow> b = Null_Command n"
  by (cases b) (auto simp: compile_body_def body_parse_def split: option.splits)

lemma generate_not_null: "generate n \<noteq> Some (Null_Command m)"
  by (auto simp: generate_def body_parse_def split: option.splits)

lemma set_null: "set_command l (Some b) c = (True, c') \<Longrightarrow> command c' = Some (Null_Command n) \<Longrightarrow> b = Null_Command n"
  by (auto simp: set_command_def split: option.splits if_splits dest: compile_null)

lemma found_null:
  assumes "client_find_command l c = (True, c')" and "command c' = Some (Null_Command n)"
  shows "n = [] \<or> interface_given c'"
proof -
  from assms(1) obtain b ty where t: "client_command_type l c (command_label c) = Some (b, ty)"
    and s: "set_command l (Some b) (c\<lparr>execute_type := ty\<rparr>) = (True, c')"
    by (auto simp: client_find_command_def empty_client_command_def split: option.splits prod.splits if_splits)
  from set_null [OF s assms(2)] have b: "b = Null_Command n" .
  have ty: "execute_type c' = ty" using set_command_type [OF s] by simp
  have "check_all remote_null_type command_builtin"
    by (simp add: remote_null_type_def check_all_bits bit_simps)
  with t b ty generate_not_null show ?thesis
    by (auto simp: client_command_type_def interface_given_def split: if_splits option.splits)
qed

lemma evaluate_some:
  assumes "\<And>b. command c = Some b \<Longrightarrow> command_name c \<noteq> [] \<Longrightarrow>
    client_evaluate_body e (execute_type c) (interface_given c) c b s \<noteq> None"
  shows "evaluate_client e c s \<noteq> None"
  using assms unfolding evaluate_client_def by (auto split: option.split)

lemma evaluate_found:
  assumes "client_find_command l c = (True, c')"
  shows "evaluate_client e (c'\<lparr>send_to := h\<rparr>) s \<noteq> None"
proof (rule evaluate_some)
  fix b
  let ?c = "c'\<lparr>send_to := h\<rparr>"
  assume b: "command ?c = Some b" "command_name ?c \<noteq> []"
  have ig: "interface_given ?c = interface_given c'" by (simp add: interface_given_def)
  show "client_evaluate_body e (execute_type ?c) (interface_given ?c) ?c b s \<noteq> None"
  proof (cases b)
    case (Null_Command n)
    with b found_null [OF assms, of n] have "interface_given c'" by (auto simp: command_name_def)
    with Null_Command ig show ?thesis by (simp split: prod.split)
  qed simp_all
qed

end
