(* ===== verification/Client_Api.thy ===== *)
theory Client_Api
  imports Client_Turns
begin

text \<open>
  The calls an application makes (\<open>libs/client/api-*.cpp\<close>): commands that are queued to be sent
  (\<open>DEFAULT_QUEUE_CLIENT_COMMAND\<close>, \<open>DEFAULT_QUEUE_SERVER_COMMAND\<close>), and commands to the server whose
  outcome is waited for (\<open>libs/client/local-include/command-macro.hpp\<close>). A call that waits takes what other
  threads do meanwhile as an argument, like \<open>wait_command_event\<close>.
\<close>

section \<open>Queued commands\<close>

definition default_queue :: "cenv \<Rightarrow> string \<Rightarrow> body \<Rightarrow> client_program \<Rightarrow> handle \<times> client_program" where
  "default_queue e target b s =
     (case set_command (local_client s) (Some b) (base_command e) of (ok, c) \<Rightarrow>
        if \<not> ok then (0, s)
        else (case lookup_command (local_client s) (command_name c) of
            None \<Rightarrow> (0, s)
          | Some ty \<Rightarrow>
              let c1 = c\<lparr>execute_type := ty, orig_entity := entity_name (local_client s), target_entity := target\<rparr>
              in if \<not> command_ready c1 then (0, s) else queue_new_command e c1 s))"

definition default_queue_client_command ::
  "cenv \<Rightarrow> string \<Rightarrow> body \<Rightarrow> client_program \<Rightarrow> handle \<times> client_program" where
  "default_queue_client_command e nName b s =
     (if nName = [] \<or> \<not> check_entity_label (Some nName) then (0, s) else default_queue e nName b s)"

definition default_queue_server_command :: "cenv \<Rightarrow> body \<Rightarrow> client_program \<Rightarrow> handle \<times> client_program" where
  "default_queue_server_command e b s = default_queue e [] b s"

definition own_name :: "client_program \<Rightarrow> string" where
  "own_name s = entity_name (local_client s)"

definition text_or_empty :: "string option \<Rightarrow> string" where
  "text_or_empty t = (case t of None \<Rightarrow> [] | Some d \<Rightarrow> d)"

definition client_message :: "cenv \<Rightarrow> string \<Rightarrow> string option \<Rightarrow> client_program \<Rightarrow> handle \<times> client_program" where
  "client_message e nName m s =
     default_queue_client_command e nName (Common_Command (Client_Message (text_or_empty m))) s"

definition ping_client :: "cenv \<Rightarrow> string \<Rightarrow> client_program \<Rightarrow> handle \<times> client_program" where
  "ping_client e nName s = default_queue_client_command e nName (Common_Command Ping_Client) s"

definition ping_server :: "cenv \<Rightarrow> client_program \<Rightarrow> handle \<times> client_program" where
  "ping_server e s = default_queue_server_command e (Common_Command Ping_Server) s"

definition service_request :: "cenv \<Rightarrow> string \<Rightarrow> string option \<Rightarrow> client_program \<Rightarrow> handle \<times> client_program" where
  "service_request e nName m s = default_queue_client_command e nName
     (Service_Command (Service_Request False (own_name s) (text_or_empty m))) s"

definition service_request_list ::
  "cenv \<Rightarrow> string \<Rightarrow> string list \<Rightarrow> client_program \<Rightarrow> handle \<times> client_program" where
  "service_request_list e nName ms s = default_queue_client_command e nName
     (Service_Command (Service_Request_List (own_name s) ms)) s"

text \<open>\<open>sSize\<close> bytes are copied; without a message they are zero.\<close>

definition sized_bytes :: "string option \<Rightarrow> nat \<Rightarrow> string" where
  "sized_bytes m sSize = (case m of None \<Rightarrow> replicate sSize (CHR 0x00) | Some d \<Rightarrow> take sSize d)"

definition binary_service_request ::
  "cenv \<Rightarrow> string \<Rightarrow> string option \<Rightarrow> nat \<Rightarrow> client_program \<Rightarrow> handle \<times> client_program" where
  "binary_service_request e nName m sSize s = default_queue_client_command e nName
     (Service_Command (Service_Request True (own_name s) (sized_bytes m sSize))) s"

definition find_services ::
  "cenv \<Rightarrow> string option \<Rightarrow> string option \<Rightarrow> client_program \<Rightarrow> handle \<times> client_program" where
  "find_services e nName tType s = default_queue_server_command e
     (Service_Command (Find_Services (text_or_empty nName) (text_or_empty tType))) s"

definition register_service ::
  "cenv \<Rightarrow> string option \<Rightarrow> string option \<Rightarrow> client_program \<Rightarrow> handle \<times> client_program" where
  "register_service e nName tType s = default_queue_server_command e
     (Resource_Command (Register_Service (text_or_empty nName) (text_or_empty tType))) s"

definition deregister_own_service :: "cenv \<Rightarrow> string option \<Rightarrow> client_program \<Rightarrow> handle \<times> client_program" where
  "deregister_own_service e nName s = default_queue_server_command e
     (Resource_Command (Deregister_Own_Service (text_or_empty nName))) s"

definition deregister_all_own_services :: "cenv \<Rightarrow> client_program \<Rightarrow> handle \<times> client_program" where
  "deregister_all_own_services e s =
     default_queue_server_command e (Resource_Command Deregister_All_Own_Services) s"

definition deregister_remote_services :: "cenv \<Rightarrow> string option \<Rightarrow> client_program \<Rightarrow> handle \<times> client_program" where
  "deregister_remote_services e aAddress s = default_queue_server_command e
     (Resource_Command (Deregister_Remote_Services (text_or_empty aAddress))) s"

definition find_resource_clients :: "cenv \<Rightarrow> string option \<Rightarrow> client_program \<Rightarrow> handle \<times> client_program" where
  "find_resource_clients e nName s = default_queue_server_command e
     (Resource_Command (Find_Resource_Clients (text_or_empty nName))) s"

definition create_new_system_client ::
  "cenv \<Rightarrow> bool \<Rightarrow> string option \<Rightarrow> u32 \<Rightarrow> u32 \<Rightarrow> u8 \<Rightarrow> mask16 \<Rightarrow> u8 \<Rightarrow> client_program \<Rightarrow> handle \<times> client_program" where
  "create_new_system_client e pProcess cCommand uUid gGid pPriority pPerm fFlags s =
     default_queue_server_command e (Admin_Command (Create_Client CREATE_SYSTEM pProcess uUid gGid
       pPriority pPerm fFlags [text_or_empty cCommand])) s"

definition create_new_exec_client ::
  "cenv \<Rightarrow> bool \<Rightarrow> string list \<Rightarrow> u32 \<Rightarrow> u32 \<Rightarrow> u8 \<Rightarrow> mask16 \<Rightarrow> u8 \<Rightarrow> client_program \<Rightarrow> handle \<times> client_program" where
  "create_new_exec_client e pProcess cCommand uUid gGid pPriority pPerm fFlags s =
     default_queue_server_command e (Admin_Command (Create_Client CREATE_EXEC pProcess uUid gGid
       pPriority pPerm fFlags cCommand)) s"

definition connect_detached_client ::
  "cenv \<Rightarrow> string option \<Rightarrow> u8 \<Rightarrow> mask16 \<Rightarrow> u8 \<Rightarrow> client_program \<Rightarrow> handle \<times> client_program" where
  "connect_detached_client e sSocket pPriority pPerm fFlags s = default_queue_server_command e
     (Admin_Command (Detached_Client (text_or_empty sSocket) pPriority pPerm fFlags)) s"

definition remove_type_of :: "bool \<Rightarrow> u8" where
  "remove_type_of kill = (if kill then CLIENT_KILL else CLIENT_TERM)"

definition end_client :: "cenv \<Rightarrow> bool \<Rightarrow> string option \<Rightarrow> client_program \<Rightarrow> handle \<times> client_program" where
  "end_client e kill nName s = default_queue_server_command e
     (Admin_Command (Remove_Client (remove_type_of kill) (text_or_empty nName))) s"

definition end_client_pattern :: "cenv \<Rightarrow> bool \<Rightarrow> string option \<Rightarrow> client_program \<Rightarrow> handle \<times> client_program" where
  "end_client_pattern e kill nName s = default_queue_server_command e
     (Admin_Command (Remove_Find_Client (remove_type_of kill) (text_or_empty nName))) s"

definition end_client_pid :: "cenv \<Rightarrow> bool \<Rightarrow> int \<Rightarrow> client_program \<Rightarrow> handle \<times> client_program" where
  "end_client_pid e kill pPid s = default_queue_server_command e
     (Admin_Command (Remove_Pid_Client (remove_type_of kill) pPid)) s"

definition find_registered_clients ::
  "cenv \<Rightarrow> string option \<Rightarrow> mask16 \<Rightarrow> mask16 \<Rightarrow> client_program \<Rightarrow> handle \<times> client_program" where
  "find_registered_clients e nName iInclude eExclude s = default_queue_server_command e
     (Admin_Command (Find_Clients (text_or_empty nName) iInclude eExclude)) s"

definition find_control_clients :: "cenv \<Rightarrow> string option \<Rightarrow> client_program \<Rightarrow> handle \<times> client_program" where
  "find_control_clients e nName s = default_queue_server_command e
     (Admin_Command (Find_Control_Clients (text_or_empty nName))) s"

definition monitor_set_mask :: u32 where [flag_defs]:
  "monitor_set_mask = monitor_attached_clients OR monitor_registered_clients OR
     monitor_registered_services OR monitor_terminal_status OR monitor_server OR monitor_clients"

definition set_monitor_flags :: "cenv \<Rightarrow> u32 \<Rightarrow> client_program \<Rightarrow> handle \<times> client_program" where
  "set_monitor_flags e eEvent s = default_queue_server_command e
     (Admin_Command (Set_Monitor_Types (eEvent AND monitor_set_mask))) s"

section \<open>Responses to messages\<close>

definition client_response ::
  "cenv \<Rightarrow> handle \<Rightarrow> u32 \<Rightarrow> string option \<Rightarrow> client_program \<Rightarrow> handle \<times> client_program" where
  "client_response e rRequest eEvent m s =
     general_response e rRequest (client_response_body s eEvent (text_or_empty m)) s"

definition client_response_list ::
  "cenv \<Rightarrow> handle \<Rightarrow> u32 \<Rightarrow> string list \<Rightarrow> client_program \<Rightarrow> handle \<times> client_program" where
  "client_response_list e rRequest eEvent ms s =
     general_response e rRequest (client_response_list_body s eEvent ms) s"

definition short_response :: "cenv \<Rightarrow> handle \<Rightarrow> u32 \<Rightarrow> client_program \<Rightarrow> handle \<times> client_program" where
  "short_response e rRequest eEvent s = general_response e rRequest (Common_Command (Short_Response eEvent)) s"

definition service_response ::
  "cenv \<Rightarrow> handle \<Rightarrow> string option \<Rightarrow> client_program \<Rightarrow> handle \<times> client_program" where
  "service_response e rRequest m s =
     general_response e rRequest (Service_Command (Service_Response False (own_name s) (text_or_empty m))) s"

definition binary_service_response ::
  "cenv \<Rightarrow> handle \<Rightarrow> string option \<Rightarrow> nat \<Rightarrow> client_program \<Rightarrow> handle \<times> client_program" where
  "binary_service_response e rRequest m sSize s =
     general_response e rRequest (Service_Command (Service_Response True (own_name s) (sized_bytes m sSize))) s"

definition partial_service_response ::
  "cenv \<Rightarrow> handle \<Rightarrow> string option \<Rightarrow> mask16 \<Rightarrow> client_program \<Rightarrow> handle \<times> client_program" where
  "partial_service_response e rRequest m tType s =
     general_response e rRequest (Service_Command (Partial_Response (own_name s) tType (text_or_empty m))) s"

definition partial_service_response_list ::
  "cenv \<Rightarrow> handle \<Rightarrow> string list \<Rightarrow> mask16 \<Rightarrow> client_program \<Rightarrow> handle \<times> client_program" where
  "partial_service_response_list e rRequest ms tType s =
     general_response e rRequest (Service_Command (Partial_Response_List (own_name s) tType ms)) s"

section \<open>Commands that are waited for\<close>

text \<open>
  \<open>DEFAULT_SEND_SERVER_COMMAND\<close> and \<open>SEND_SERVER_COMMAND_NO_EVENT\<close>. The first returns \<open>event_unsent\<close> or
  \<open>event_error\<close> early, and waits also for a command that could not be assembled and was never sent.
  The second gives up then; \<open>None\<close> inside is its early \<open>return false\<close>.
\<close>

definition server_command :: "cenv \<Rightarrow> body \<Rightarrow> client_program \<Rightarrow> (command_transmit \<times> client_program) option" where
  "server_command e b s =
     (case set_command (local_client s) (Some b) (base_command e) of (ok, c) \<Rightarrow>
        if \<not> ok then None
        else (case lookup_command (local_client s) (command_name c) of
            None \<Rightarrow> None
          | Some ty \<Rightarrow> (case manual_message_number s of (r, s1) \<Rightarrow>
              Some (c\<lparr>execute_type := ty, orig_reference := r,
                orig_entity := entity_name (local_client s)\<rparr>, s1))))"

type_synonym others = "nat \<Rightarrow> client_program \<Rightarrow> client_program"

definition await_complete ::
  "cenv \<Rightarrow> others \<Rightarrow> bool \<Rightarrow> u32 \<Rightarrow> rat \<Rightarrow> client_program \<Rightarrow> (u32 \<times> client_program) option" where
  "await_complete e other in_queue r wait s =
     map_option (\<lambda>(ev, t). (ev, snd (deregister_reference r t)))
       (wait_command_event e other in_queue r event_complete wait s)"

definition start_command ::
  "cenv \<Rightarrow> command_transmit \<Rightarrow> client_program \<Rightarrow> bool \<times> bool \<times> client_program" where
  "start_command e c s =
     (let s1 = snd (register_reference (orig_reference c) s)
      in case command_sendable (local_client s1) c of (ready, c1) \<Rightarrow>
           (ready, if ready then send_to_server e c1 s1 else (False, s1)))"

definition default_send_server_command ::
  "cenv \<Rightarrow> others \<Rightarrow> bool \<Rightarrow> body \<Rightarrow> rat \<Rightarrow> client_program \<Rightarrow> (u32 \<times> client_program) option" where
  "default_send_server_command e other in_queue b wait s =
     (case server_command e b s of
        None \<Rightarrow> Some (event_unsent, s)
      | Some (c, s1) \<Rightarrow>
          (case start_command e c s1 of (ready, sent, s2) \<Rightarrow>
             if ready \<and> \<not> sent then Some (event_error, snd (deregister_reference (orig_reference c) s2))
             else await_complete e other in_queue (orig_reference c) wait s2))"

definition send_server_command_no_event ::
  "cenv \<Rightarrow> others \<Rightarrow> bool \<Rightarrow> body \<Rightarrow> rat \<Rightarrow> client_program \<Rightarrow> (u32 option \<times> client_program) option" where
  "send_server_command_no_event e other in_queue b wait s =
     (case server_command e b s of
        None \<Rightarrow> Some (None, s)
      | Some (c, s1) \<Rightarrow>
          (case start_command e c s1 of (ready, sent, s2) \<Rightarrow>
             if \<not> sent then Some (None, snd (deregister_reference (orig_reference c) s2))
             else map_option (\<lambda>(ev, t). (Some ev, t))
               (await_complete e other in_queue (orig_reference c) wait s2)))"

definition completed :: "u32 option \<Rightarrow> bool" where
  "completed out = (case out of None \<Rightarrow> False | Some ev \<Rightarrow> check_all ev event_complete)"

definition terminate_server ::
  "cenv \<Rightarrow> others \<Rightarrow> bool \<Rightarrow> client_program \<Rightarrow> (bool \<times> client_program) option" where
  "terminate_server e other in_queue s =
     (if \<not> may_send e s then Some (False, s)
      else map_option (\<lambda>(out, t). (completed out, t))
        (send_server_command_no_event e other in_queue (Admin_Command Terminate_Server) (terminate_wait e) s))"

definition disable_indicate_ready :: "client_program \<Rightarrow> client_program" where
  "disable_indicate_ready s = (if \<not> readiness_sent s then s\<lparr>disable_ready := True\<rparr> else s)"

definition manual_indicate_ready ::
  "cenv \<Rightarrow> others \<Rightarrow> bool \<Rightarrow> client_program \<Rightarrow> (bool \<times> client_program) option" where
  "manual_indicate_ready e other in_queue s =
     (if \<not> disable_ready s \<or> readiness_sent s then Some (False, s)
      else if \<not> may_send e s then Some (False, s)
      else map_option (\<lambda>(out, t). case out of
          None \<Rightarrow> (False, t)
        | Some ev \<Rightarrow> let sent = readiness_sent t \<or> check_all ev event_complete
                     in (sent, t\<lparr>readiness_sent := sent\<rparr>))
        (send_server_command_no_event e other in_queue (Common_Command Indicate_Ready) (register_wait e) s))"

text \<open>\<open>request_terminal\<close>: \<open>tty\<close> tells whether the program has an open terminal, \<open>in_group\<close> whether its
  process group has the terminal after the server has granted it.\<close>

definition request_terminal ::
  "cenv \<Rightarrow> others \<Rightarrow> bool \<Rightarrow> bool \<Rightarrow> bool \<Rightarrow> client_program \<Rightarrow> (u32 \<times> client_program) option" where
  "request_terminal e other in_queue tty in_group s =
     (if \<not> may_send e s \<or> \<not> tty then Some (event_unsent, s)
      else map_option (\<lambda>(ev, t). (if check_all ev event_complete \<and> \<not> in_group then event_rejected else ev, t))
        (default_send_server_command e other in_queue (Common_Command Term_Request) (terminal_wait e) s))"

definition return_terminal ::
  "cenv \<Rightarrow> others \<Rightarrow> bool \<Rightarrow> bool \<Rightarrow> client_program \<Rightarrow> (bool \<times> client_program) option" where
  "return_terminal e other in_queue tty s =
     (if \<not> tty \<or> \<not> may_send e s then Some (False, s)
      else map_option (\<lambda>(out, t). (completed out, t))
        (send_server_command_no_event e other in_queue (Common_Command Term_Return) (terminal_wait e) s))"

section \<open>Registration\<close>

definition master_register_client ::
  "cenv \<Rightarrow> others \<Rightarrow> bool \<Rightarrow> string option \<Rightarrow> mask16 \<Rightarrow> client_program \<Rightarrow> (bool \<times> client_program) option" where
  "master_register_client e other in_queue nName tType s =
     (if \<not> check_entity_label nName \<or> \<not> may_send e s then Some (False, s)
      else if tType \<noteq> type_none \<and> local_type (local_client s) \<noteq> type_none then Some (False, s)
      else case server_command e (Common_Command (Register_Client (text_or_empty nName) tType (disable_ready s))) s of
        None \<Rightarrow> Some (False, s)
      | Some (c0, s1) \<Rightarrow>
          let c = c0\<lparr>orig_entity := (if tType = type_none then entity_name (local_client s) else text_or_empty nName)\<rparr>;
              r = orig_reference c
          in case start_command e c s1 of (ready, sent, s2) \<Rightarrow>
            if \<not> sent then Some (False, snd (deregister_reference r s2))
            else map_option (\<lambda>(ev, t).
                if check_all ev event_complete
                then (True, t\<lparr>readiness_sent := readiness_sent t \<or> \<not> disable_ready t\<rparr>)
                else (False, snd (deregister_reference r t)))
              (await_complete e other in_queue r (register_wait e) s2))"

definition deregister_client ::
  "cenv \<Rightarrow> others \<Rightarrow> bool \<Rightarrow> client_program \<Rightarrow> (bool \<times> client_program) option" where
  "deregister_client e other in_queue s = master_register_client e other in_queue (Some []) type_none s"

definition register_admin_client ::
  "cenv \<Rightarrow> others \<Rightarrow> bool \<Rightarrow> string option \<Rightarrow> client_program \<Rightarrow> (bool \<times> client_program) option" where
  "register_admin_client e other in_queue nName s =
     master_register_client e other in_queue nName type_admin_client_all s"

definition register_control_client ::
  "cenv \<Rightarrow> others \<Rightarrow> bool \<Rightarrow> string option \<Rightarrow> client_program \<Rightarrow> (bool \<times> client_program) option" where
  "register_control_client e other in_queue nName s =
     master_register_client e other in_queue nName type_control_client_all s"

definition register_resource_client ::
  "cenv \<Rightarrow> others \<Rightarrow> bool \<Rightarrow> string option \<Rightarrow> client_program \<Rightarrow> (bool \<times> client_program) option" where
  "register_resource_client e other in_queue nName s =
     master_register_client e other in_queue nName type_resource_client_all s"

definition register_monitor_client ::
  "cenv \<Rightarrow> others \<Rightarrow> bool \<Rightarrow> client_program \<Rightarrow> (bool \<times> client_program) option" where
  "register_monitor_client e other in_queue s =
     master_register_client e other in_queue None type_monitor_client_all s"

text \<open>\<open>entity_type\<close> is a type, so \<open>entity_type()\<close> in the next two functions is the value zero and not
  the program's type.\<close>

definition have_server_control :: "client_program \<Rightarrow> bool" where
  "have_server_control s \<longleftrightarrow> check_all (0 :: mask16) type_server_control"

definition monitoring_allowed :: "client_program \<Rightarrow> bool" where
  "monitoring_allowed s \<longleftrightarrow> check_all (0 :: mask16) type_monitor_client"

section \<open>Broken connections\<close>

text \<open>
  \<open>remote_service_broken_connection\<close>. Both messages are made in one \<open>command_transmit\<close>: the second one's
  body is set with the tree of the first one there, and it is sent without being assembled. A null
  \<open>notify_address\<close> is given to \<open>strlen\<close>; there is no result then.
\<close>

definition disconnect_command ::
  "cenv \<Rightarrow> remote_service_data \<Rightarrow> command_transmit \<Rightarrow> client_program \<Rightarrow> bool \<times> client_program" where
  "disconnect_command e d c s =
     (case set_command (local_client s) (Some (Resource_Command (Remote_Service_Disconnect
          (service_direction d) (remote_service d) (complete_address d)))) c of (ok, c1) \<Rightarrow>
        if \<not> ok then (False, s)
        else (case lookup_command (local_client s) (command_name c1) of
            None \<Rightarrow> (False, s)
          | Some ty \<Rightarrow> send_to_server e (c1\<lparr>execute_type := ty, orig_entity := text_or_empty (current_target d),
              target_entity := text_or_empty (notify_entity d),
              target_address := text_or_empty (notify_address d)\<rparr>) s))"

definition deregister_command ::
  "cenv \<Rightarrow> remote_service_data \<Rightarrow> client_program \<Rightarrow> command_transmit option \<times> client_program" where
  "deregister_command e d s =
     (case set_command (local_client s) (Some (Resource_Command (Deregister_Own_Service (remote_service d))))
          (base_command e) of (ok, c) \<Rightarrow>
        if \<not> ok then (None, s)
        else (case lookup_command (local_client s) (command_name c) of
            None \<Rightarrow> (None, s)
          | Some ty \<Rightarrow>
              (case set_to_server_scope (text_or_empty (notify_entity d), text_or_empty (notify_address d)) of
                (t, a) \<Rightarrow>
                  (case command_sendable (local_client s) (c\<lparr>execute_type := ty,
                      orig_entity := text_or_empty (current_target d), target_entity := t, target_address := a\<rparr>) of
                    (ready, c1) \<Rightarrow>
                      if \<not> ready then (None, s)
                      else (case send_to_server e c1 s of (sent, s1) \<Rightarrow> (if sent then Some c1 else None, s1))))))"

definition remote_service_broken_connection ::
  "cenv \<Rightarrow> remote_service_data \<Rightarrow> client_program \<Rightarrow> (bool \<times> client_program) option" where
  "remote_service_broken_connection e d s =
     (if (service_direction d \<noteq> RSERVR_REMOTE_TOWARD_CLIENT \<and>
          service_direction d \<noteq> RSERVR_REMOTE_TOWARD_SERVER) \<or>
         \<not> message_queue_status s \<or> current_target d = None then Some (False, s)
      else case (if service_direction d = RSERVR_REMOTE_TOWARD_CLIENT \<and> notify_entity d \<noteq> None \<and>
                    notify_address d \<noteq> None
                 then deregister_command e d s else (Some (base_command e), s)) of
        (None, s1) \<Rightarrow> Some (False, s1)
      | (Some c, s1) \<Rightarrow>
          (case notify_address d of
             None \<Rightarrow> None
           | Some a \<Rightarrow>
               if a \<noteq> [] \<and> notify_entity d \<noteq> None then Some (disconnect_command e d c s1)
               else Some (True, s1)))"

definition compare_original_servers ::
  "string option \<Rightarrow> string option \<Rightarrow> string option \<Rightarrow> string option \<Rightarrow> bool" where
  "compare_original_servers cClient1 sServer1 cClient2 sServer2 \<longleftrightarrow>
     set_to_server_scope (text_or_empty cClient1, text_or_empty sServer1) =
     set_to_server_scope (text_or_empty cClient2, text_or_empty sServer2)"

section \<open>Properties\<close>

text \<open>
  The two queries for what the program may do always answer no: a client with control of the
  server, and one that is registered as a monitor, is told that it has no such permission.
\<close>

theorem permission_queries_always_no: "\<not> have_server_control s \<and> \<not> monitoring_allowed s"
  by (simp add: have_server_control_def monitoring_allowed_def flag_defs check_all_def)

lemma set_command_bare: "tree c = [] \<Longrightarrow> set_command l (Some b) c = (True, c\<lparr>command := Some b\<rparr>)"
  by (simp add: set_command_def)

text \<open>
  The message that a connection toward the server broke is sent without its data: the command goes
  out with an empty tree, whatever service it is about.
\<close>

theorem broken_connection_without_data:
  assumes "remote_service_broken_connection e d s = Some (True, t)"
    and "service_direction d = RSERVR_REMOTE_TOWARD_SERVER"
    and "notify_entity d \<noteq> None" and "notify_address d = Some a" and "a \<noteq> []"
  shows "let c = last (sent_commands t) in sent_commands t = sent_commands s @ [c] \<and> tree c = [] \<and>
    command_name c = ''proto_remote_service_disconnect'' \<and> target_address c = a"
proof -
  have "RSERVR_REMOTE_TOWARD_SERVER \<noteq> RSERVR_REMOTE_TOWARD_CLIENT"
    by (simp add: RSERVR_REMOTE_TOWARD_SERVER_def RSERVR_REMOTE_TOWARD_CLIENT_def)
  with assms have "disconnect_command e d (base_command e) s = (True, t)"
    by (auto simp: remote_service_broken_connection_def split: if_splits)
  moreover have "tree (base_command e) = []"
    by (simp add: base_command_def new_transmit_def command_info.defs)
  ultimately show ?thesis
    using assms(4)
    by (auto simp: disconnect_command_def set_command_bare send_to_server_def command_name_def text_or_empty_def
        split: option.splits if_splits)
qed

definition broken_service :: remote_service_data where
  "broken_service = \<lparr>originator = False, no_check = False, service_direction = RSERVR_REMOTE_TOWARD_SERVER,
     service_action = RSERVR_REMOTE_UNMONITOR, current_target = Some ''me'', remote_service = ''svc'',
     monitor_connection = ''con'', notify_entity = Some ''you'', notify_address = Some ''c?a'',
     complete_address = ''c?a''\<rparr>"

theorem broken_connection_without_data_witness:
  "\<exists>t c. remote_service_broken_connection tiny_cenv broken_service ready_client = Some (True, t) \<and>
    sent_commands t = [c] \<and> tree c = [] \<and> command_name c = ''proto_remote_service_disconnect''"
proof -
  have "map_option fst (remote_service_broken_connection tiny_cenv broken_service ready_client) = Some True"
    by code_simp
  then obtain t where t: "remote_service_broken_connection tiny_cenv broken_service ready_client = Some (True, t)"
    by auto
  have "sent_commands ready_client = []" by (simp add: ready_client_def initial_client_def)
  with broken_connection_without_data [OF t] t show ?thesis by (auto simp: broken_service_def Let_def)
qed

end
