(* ===== verification/Client_Run.thy ===== *)
theory Client_Run
  imports Client_Api
begin

text \<open>
  A client program over time: every call of the application, every command that arrives and every step
  of the pause timer as one step relation. Calls that wait are the steps they are made of, between which
  others take place. Every reachable state is well-formed, and every queued command has the type the
  table of commands gives for its label.
\<close>

section \<open>Types of commands\<close>

definition table_type :: "string \<Rightarrow> mask16 option" where
  "table_type n = (case generate n of None \<Rightarrow> None | Some b \<Rightarrow> map_option execution_type (body_generator b))"

text \<open>A null command has a null type; any other body has the type listed for its label, with the flag
  for commands to other servers perhaps.\<close>

definition null_body :: "body \<Rightarrow> bool" where
  "null_body b = (case b of Null_Command n \<Rightarrow> True | _ \<Rightarrow> False)"

definition has_type :: "body \<Rightarrow> mask16 \<Rightarrow> bool" where
  "has_type b ty \<longleftrightarrow> null_body b \<and> check_all ty command_null \<or>
     (\<exists>t. table_type (body_name b) = Some t \<and> (ty = t \<or> ty = t OR command_remote))"

definition typed :: "command_transmit \<Rightarrow> bool" where
  "typed c = (case command c of None \<Rightarrow> False | Some b \<Rightarrow> has_type b (execute_type c))"

definition queue_typed :: "client_program \<Rightarrow> bool" where
  "queue_typed s \<longleftrightarrow> (\<forall>x \<in> set (queued_commands s). typed (snd x))"

lemma lookup_table: "lookup_command l n = Some ty \<Longrightarrow> table_type n = Some ty"
  by (auto simp: lookup_command_def table_type_def split: option.splits if_splits)

lemma group_parse_name:
  "server_parse l n t = Some a \<Longrightarrow> server_tag a = n" "common_parse l n t = Some b \<Longrightarrow> common_tag b = n"
  "admin_parse l n t = Some c \<Longrightarrow> admin_tag c = n" "service_parse l n t = Some d \<Longrightarrow> service_tag d = n"
  "resource_parse l n t = Some r \<Longrightarrow> resource_tag r = n"
  by (auto simp: server_parse_def common_parse_def admin_parse_def service_parse_def resource_parse_def
      split: if_splits prod.splits)

lemma body_parse_name: "body_parse l n t = Some b \<Longrightarrow> body_name b = n"
  by (auto simp: body_parse_def group_parse_name split: option.splits)

lemma body_parse_not_null: "body_parse l n t \<noteq> Some (Null_Command m)"
  by (auto simp: body_parse_def split: option.splits)

lemma compile_keeps:
  assumes "compile_body l b t = Some b'"
  shows "body_name b' = body_name b \<and> (null_body b' \<longleftrightarrow> null_body b)"
proof (cases "null_body b")
  case True
  with assms show ?thesis by (cases b) (auto simp: null_body_def compile_body_def)
next
  case False
  with assms have p: "body_parse l (body_name b) t = Some b'"
    by (cases b) (auto simp: null_body_def compile_body_def)
  have "\<not> null_body b'"
    using p body_parse_not_null [of l "body_name b" t] by (cases b') (simp_all add: null_body_def)
  with False body_parse_name [OF p] show ?thesis by simp
qed

lemma set_command_keeps:
  assumes "set_command l (Some b) c = (True, c')"
  shows "\<exists>b'. command c' = Some b' \<and> body_name b' = body_name b \<and> (null_body b' \<longleftrightarrow> null_body b) \<and>
    execute_type c' = execute_type c"
  using assms compile_keeps [of l b "tree c"]
  by (auto simp: set_command_def split: if_splits option.splits)

text \<open>What a client finds for a command that arrives has a type.\<close>

lemma client_type_typed:
  assumes "client_command_type l c n = Some (b, ty)"
  shows "has_type b ty"
proof -
  have r: "check_all remote_null_type command_null"
    by (simp add: remote_null_type_def check_all_bits bit_simps)
  have g: "table_type n = Some (execution_type g) \<and> body_name b' = n"
    if "generate n = Some b'" "body_generator b' = Some g" for b' g
    using that by (auto simp: table_type_def generate_def body_parse_name)
  show ?thesis
    using assms r g unfolding client_command_type_def
    by (auto simp: null_body_def has_type_def split: if_splits option.splits)
qed

lemma found_typed:
  assumes "client_find_command l c = (True, c')"
  shows "typed c'"
proof -
  from assms obtain b ty where t: "client_command_type l c (command_label c) = Some (b, ty)"
    and s: "set_command l (Some b) (c\<lparr>execute_type := ty\<rparr>) = (True, c')"
    by (auto simp: client_find_command_def empty_client_command_def split: option.splits prod.splits if_splits)
  from set_command_keeps [OF s] obtain b' where "command c' = Some b'" "body_name b' = body_name b"
    "null_body b' = null_body b" "execute_type c' = ty" by auto
  with client_type_typed [OF t] show ?thesis by (simp add: typed_def has_type_def)
qed

text \<open>So has a command that is looked up in the table after its body was set.\<close>

lemma looked_up_typed:
  assumes "set_command l (Some b) c = (True, c1)" and "lookup_command l (command_name c1) = Some ty"
  shows "typed (c1\<lparr>execute_type := ty\<rparr>)"
  using set_command_keeps [OF assms(1)] lookup_table [OF assms(2)]
  by (auto simp: typed_def has_type_def command_name_def)

lemma typed_cong: "command c = command d \<Longrightarrow> execute_type c = execute_type d \<Longrightarrow> typed c \<longleftrightarrow> typed d"
  by (cases "command d") (simp_all add: typed_def)

lemma has_type_remote: "has_type b ty \<Longrightarrow> has_type b (ty OR command_remote)"
proof -
  have "check_all t command_null \<Longrightarrow> check_all (t OR command_remote) command_null" for t
    by (auto simp: check_all_bits bit_simps)
  then show "has_type b ty \<Longrightarrow> has_type b (ty OR command_remote)"
    by (auto simp: has_type_def or.assoc)
qed

lemma remote_copy_typed: "typed c \<Longrightarrow> typed (remote_copy ct i c)"
  using has_type_remote by (auto simp: remote_copy_def typed_def split: prod.split option.splits)

section \<open>What a command adds to the queue\<close>

definition adds_remote :: "command_transmit \<Rightarrow> client_program \<Rightarrow> client_program \<Rightarrow> bool" where
  "adds_remote c s t \<longleftrightarrow>
     (\<forall>x \<in> set (queued_commands t). x \<in> set (queued_commands s) \<or>
        (command (snd x) = command c \<and> execute_type (snd x) = execute_type c OR command_remote))"

lemma adds_refl [simp]: "adds_remote c s s"
  by (simp add: adds_remote_def)

lemma adds_trans: "adds_remote c s t \<Longrightarrow> adds_remote c t u \<Longrightarrow> adds_remote c s u"
  unfolding adds_remote_def by blast

lemma adds_same: "queued_commands t = queued_commands s \<Longrightarrow> adds_remote c s t"
  by (simp add: adds_remote_def)

lemma add_message_queue [frame_simps]: "queued_commands (snd (add_new_message e c m s)) = queued_commands s"
  using only_pausing_frame(4) [OF pausing_checks_only(1)]
  by (simp add: add_new_message_def Let_def)

lemma auto_send_queue [frame_simps]: "queued_commands (snd (client_auto_send e r s)) = queued_commands s"
  by (simp add: client_auto_send_def frame_simps split: option.split prod.split)

lemma directive_queue: "queued_commands (snd (send_directive ct d s)) = queued_commands s"
proof -
  have "queued_commands (obey_directive b t) = queued_commands t" for b t
    by (simp add: obey_directive_def stop_message_queue_def isolate_client_def message_queue_unpause_def
        cancel_pause_timeout_def)
  then show ?thesis by (simp add: send_directive_def)
qed

lemma interface_queue [frame_simps]:
  "queued_commands (snd (update_local_command_status e ct i ev s)) = queued_commands s"
  "queued_commands (snd (update_remote_command_status e ct i ev s)) = queued_commands s"
  "queued_commands (snd (send_directive ct d s)) = queued_commands s"
  "queued_commands (snd (register_request e ct i md s)) = queued_commands s"
  "queued_commands (snd (register_message e ct i m s)) = queued_commands s"
  "queued_commands (snd (register_response e ct i t md s)) = queued_commands s"
  "queued_commands (snd (set_timing_table e ct ts s)) = queued_commands s"
  "queued_commands (snd (update_timing_table e ct ts s)) = queued_commands s"
  "queued_commands (snd (update_registration ct i t s)) = queued_commands s"
  "queued_commands (snd (send_client_response e i ev s)) = queued_commands s"
  "queued_commands (snd (client_manual_response e i b s)) = queued_commands s"
  by (simp_all add: update_local_command_status_def update_remote_command_status_def directive_queue
      register_request_def register_message_def register_response_def set_timing_table_def
      update_timing_table_def update_registration_def change_server_name_def change_local_name_def
      change_local_type_def send_client_response_def client_manual_response_def Let_def frame_simps split_beta)

lemma server_command_queue [frame_simps]:
  "queued_commands (snd (create_server_command e b s)) = queued_commands s"
  by (simp add: create_server_command_def manual_message_number_def frame_simps split_beta split: option.split)

lemma either_queue [frame_simps]:
  "queued_commands (update_either_status e ct i ev s) = queued_commands s"
  "queued_commands (watch_resource e a n s) = queued_commands s"
  "queued_commands (service_hook d s) = queued_commands s"
  "queued_commands (take_response e ct i t md ev s) = queued_commands s"
  by (simp_all add: update_either_status_def watch_resource_def service_hook_def take_response_def frame_simps
      split: option.split)

lemma remote_grows: "adds_remote i s (snd (register_remote e ct i s))"
proof -
  obtain h s1 where q: "queue_new_command e (remote_copy ct i i) s = (h, s1)" by fastforce
  obtain m s2 where a: "add_new_message e i (Remote_Content h) s1 = (m, s2)" by fastforce
  have "queued_commands s2 = queued_commands s @ [(h, (remote_copy ct i i)\<lparr>priority := priority_immediate\<rparr>)]"
    using q add_message_queue [of e i "Remote_Content h" s1] a by (auto simp: queue_new_command_def Let_def)
  moreover have "command (remote_copy ct i i) = command i"
    "execute_type (remote_copy ct i i) = execute_type i OR command_remote"
    by (simp_all add: remote_copy_def split: prod.split)
  ultimately have "adds_remote i s s2" "adds_remote i s (snd (remove_command h s2))"
    by (auto simp: adds_remote_def remove_command_def)
  then show ?thesis by (simp add: register_remote_def queue_remote_def q a split: option.split)
qed

lemmas chain_grows =
  adds_trans [OF _ remote_grows] adds_trans [OF _ adds_same [OF either_queue(1)]]
  adds_trans [OF _ adds_same [OF either_queue(2)]] adds_trans [OF _ adds_same [OF either_queue(3)]]
  adds_trans [OF _ adds_same [OF interface_queue(1)]] adds_trans [OF _ adds_same [OF interface_queue(11)]]
  adds_trans [OF _ adds_same [OF server_command_queue]]

lemma if_grows: "adds_remote i s t \<Longrightarrow> adds_remote i s u \<Longrightarrow> adds_remote i s (if b then t else u)"
  by simp

lemma hook_if_grows:
  "adds_remote i s t \<Longrightarrow> adds_remote i s (case p of (ok, x) \<Rightarrow> if ok then service_hook (f x) t else t)"
  using chain_grows(4) by (simp split: prod.split)

lemma evals_grow:
  "adds_remote i s (service_action_eval e ct i a n c s)" "adds_remote i s (service_back_action_eval e i d a n p c s)"
  "adds_remote i s (service_disconnect_eval e ct i d n c s)" "adds_remote i s (event_response e ct i f md ev s)"
  unfolding service_action_eval_def service_back_action_eval_def service_disconnect_eval_def
    event_response_def pass_on_response_def Let_def
  by (intro if_grows hook_if_grows chain_grows adds_refl adds_same [OF either_queue(4)])+

lemma service_response_grows: "adds_remote i s (snd (service_response_eval e ct i t md ev s))"
  using remote_grows by (simp add: service_response_eval_def split_beta adds_same frame_simps)

lemma body_grows:
  assumes "client_evaluate_body e ct f i b s = Some (ev, t)"
  shows "adds_remote i s t"
proof (cases b)
  case (Null_Command n)
  with assms remote_grows [of i s e ct] show ?thesis
    by (cases "register_remote e ct i s") (auto split: if_splits)
next
  case (Common_Command c)
  have "adds_remote i s (snd (client_evaluate_common e ct f i c s))"
    by (cases c) (simp_all add: evals_grow adds_same frame_simps split_beta)
  with assms Common_Command show ?thesis by simp
next
  case (Server_Command c)
  have "adds_remote i s (snd (client_evaluate_server e ct f i c s))"
    by (cases c) (simp_all add: evals_grow adds_same frame_simps)
  with assms Server_Command show ?thesis by simp
next
  case (Resource_Command c)
  have "adds_remote i s (snd (client_evaluate_resource e ct f i c s))"
    by (cases c) (simp_all add: evals_grow adds_same)
  with assms Resource_Command show ?thesis by simp
next
  case (Service_Command c)
  have "adds_remote i s (snd (client_evaluate_service e ct f i c s))"
    by (cases c) (simp_all add: service_response_grows adds_same frame_simps split_beta)
  with assms Service_Command show ?thesis by simp
qed (use assms in simp)

lemma turn_grows:
  assumes "client_turn e c s = Some t"
  shows "adds_remote c s t"
proof (cases "command_ready c")
  case True
  let ?c = "c\<lparr>send_to := 1\<rparr>"
  let ?s = "announce_receipt e ?c s"
  have s: "queued_commands ?s = queued_commands s" by (simp add: announce_receipt_def frame_simps)
  from assms True obtain ok where "evaluate_client e ?c ?s = Some (ok, t)"
    by (auto simp: client_turn_def Let_def command_ready_def)
  from evaluate_client_result [OF this] have "adds_remote ?c ?s t"
    using body_grows adds_trans [OF body_grows adds_same [OF interface_queue(10)]]
      adds_same [OF interface_queue(10)] adds_refl by metis
  with s show ?thesis by (simp add: adds_remote_def)
qed (use assms in \<open>simp add: client_turn_def command_ready_def\<close>)

section \<open>Steps\<close>

text \<open>
  \<open>Receive\<close> is a turn of the message queue, for a command the parser has read; a command from another
  server, which a forwarding client hands in as text or reads from a connection, is parsed the same way.
  \<open>Start_Call\<close> is the part of a call before it waits, \<open>End_Call\<close> the part after it.
\<close>

inductive client_step :: "cenv \<Rightarrow> client_program \<Rightarrow> client_program \<Rightarrow> bool" for e :: cenv where
  Receive: "client_receive e raw s = Some t \<Longrightarrow> client_step e s t"
| Async: "client_step e s (snd (set_async_response e (parsed_command (local_client s) raw) s))"
| Make_Server: "client_step e s (snd (default_queue_server_command e b s))"
| Make_Client: "client_step e s (snd (default_queue_client_command e n b s))"
| Make_Manual: "client_step e s (snd (manual_command e to b s))"
| Make_Response: "client_step e s (snd (general_response e h b s))"
| Make_Auto: "client_step e s (snd (create_server_command e b s))"
| Insert: "client_step e s (snd (insert_remote_command e (parsed_command (local_client s) raw) from a s))"
| From_Stream: "client_step e s
    (snd (snd (receive_stream_command e mode (parsed_command (local_client s) raw) over from a s)))"
| From_Filter: "client_step e s
    (snd (snd (filtered_receive_stream_command e mode (parsed_command (local_client s) raw) over from a s)))"
| Send: "client_step e s (snd (send_command_functors e h fs s))"
| Send_Only: "client_step e s (snd (send_command_no_status e h s))"
| To_Stream: "client_step e s (snd (snd (filtered_send_stream_command written over h s)))"
| Remove: "client_step e s (snd (remove_command h s))"
| Sender: "client_step e s (snd (set_alternate_sender h n s))"
| Address: "client_step e s (snd (insert_remote_address_handle h n s))"
| Target: "client_step e s (snd (insert_remote_target h n a s))"
| Service: "client_step e s (snd (insert_service_address h n s))"
| Server_Of: "client_step e s (snd (set_target_to_server_of h n a s))"
| Priority: "client_step e s (snd (change_priority h p s))"
| Status: "client_step e s (status_step e x s)"
| Number: "client_step e s (snd (manual_message_number s))"
| Start_Call: "server_command e b s = Some (c, s1) \<Longrightarrow>
    client_step e s (snd (snd (start_command e (c\<lparr>orig_entity := n\<rparr>) s1)))"
| End_Call: "client_step e s (s\<lparr>readiness_sent := sent\<rparr>)"
| No_Ready: "client_step e s (disable_indicate_ready s)"
| Log_Name: "client_step e s (snd (set_log_client_name n s))"
| Broken: "remote_service_broken_connection e d s = Some (ok, t) \<Longrightarrow> client_step e s t"
| Remove_Message: "client_step e s (snd (remove_message h s))"
| Remove_Current: "client_step e s (snd (remove_current_message s))"
| Clear: "client_step e s (clear_messages s)"
| Remove_Responses: "client_step e s (snd (remove_responses r s))"
| Rotate: "client_step e s (snd (rotate_response r s))"
| Limit: "client_step e s (set_message_queue_limit e m s)"
| Block: "client_step e s (block_messages s)"
| Allow: "client_step e s (allow_messages s)"
| Allow_Privileged: "client_step e s (allow_privileged_responses s)"
| Allow_Responses: "client_step e s (allow_responses s)"
| Block_Remote: "client_step e s (block_remote s)"
| Allow_Remote: "client_step e s (allow_remote s)"
| Pause: "client_step e s (snd (message_queue_pause s))"
| Unpause: "client_step e s (snd (message_queue_unpause s))"
| Pause_State: "client_step e s (snd (message_queue_pause_state b s))"
| Timed_Pause: "client_step e s (snd (message_queue_timed_pause e w s))"
| Auto_Pause: "client_step e s (snd (message_queue_auto_pause x y z s))"
| Timer_Start: "client_step e s (snd (pause_timeout_start s))"
| Timer_End: "client_step e s (pause_timeout_end s)"
| Start_Queue: "client_step e s (snd (start_message_queue e s))"
| Stop_Queue: "client_step e s (snd (stop_message_queue s))"

inductive client_reaches :: "cenv \<Rightarrow> client_program \<Rightarrow> client_program \<Rightarrow> bool" for e :: cenv where
  reach_same [intro]: "client_reaches e s s"
| reach_step: "client_reaches e s t \<Longrightarrow> client_step e t u \<Longrightarrow> client_reaches e s u"

definition program_ok :: "client_program \<Rightarrow> bool" where
  "program_ok s \<longleftrightarrow> client_ok s \<and> queue_typed s"

section \<open>Steps that leave the queue of commands\<close>

definition quiet :: "client_program \<Rightarrow> client_program \<Rightarrow> bool" where
  "quiet s t \<longleftrightarrow> same_shape s t \<and> queued_commands t = queued_commands s"

lemma quiet_refl [simp]: "quiet s s"
  by (simp add: quiet_def)

lemma quiet_trans: "quiet s t \<Longrightarrow> quiet t u \<Longrightarrow> quiet s u"
  unfolding quiet_def using same_shape_trans by metis

lemma program_ok_same: "client_ok t \<Longrightarrow> queued_commands t = queued_commands s \<Longrightarrow> program_ok s \<Longrightarrow> program_ok t"
  by (simp add: program_ok_def queue_typed_def)

lemma program_ok_quiet:
  assumes "quiet s t" and "program_ok s"
  shows "program_ok t"
proof -
  from assms have "client_ok t" using same_shape_ok [of s t] by (simp add: quiet_def program_ok_def)
  from program_ok_same [OF this] assms show ?thesis by (simp add: quiet_def)
qed

lemma pausing_quiet: "only_pausing s t \<Longrightarrow> quiet s t"
  using only_pausing_shape only_pausing_frame(4) by (simp add: quiet_def)

lemma flags_quiet:
  "quiet s (block_messages s)" "quiet s (allow_messages s)" "quiet s (allow_privileged_responses s)"
  "quiet s (allow_responses s)" "quiet s (block_remote s)" "quiet s (allow_remote s)"
  "quiet s (disable_indicate_ready s)" "quiet s (s\<lparr>readiness_sent := b\<rparr>)"
  "quiet s (snd (set_log_client_name n s))" "quiet s (snd (message_queue_auto_pause x y z s))"
  "quiet s (snd (start_message_queue e s))" "quiet s (snd (manual_message_number s))"
  by (simp_all add: quiet_def same_shape_def block_messages_def allow_messages_def
      allow_privileged_responses_def allow_responses_def block_remote_def allow_remote_def
      disable_indicate_ready_def set_log_client_name_def message_queue_auto_pause_def
      start_message_queue_def manual_message_number_def)

lemma timers_quiet:
  "quiet s (snd (pause_timeout_start s))" "quiet s (pause_timeout_end s)"
  "quiet s (snd (stop_message_queue s))"
  by (simp_all add: quiet_def same_shape_def pause_timeout_start_def pause_timeout_end_def
      stop_message_queue_def message_queue_pause_def message_queue_unpause_def cancel_pause_timeout_def
      split: prod.split)

lemma send_quiet: "quiet s (snd (send_to_server e c s))"
  by (simp add: quiet_def send_shape frame_simps)

lemma auto_send_quiet: "quiet s (snd (client_auto_send e r s))"
  using send_quiet by (simp add: client_auto_send_def split: option.split prod.split)

lemma create_server_quiet: "quiet s (snd (create_server_command e b s))"
proof -
  have "quiet s (snd (client_auto_send e r (snd (manual_message_number s))))" for r
    using quiet_trans [OF flags_quiet(12) auto_send_quiet] .
  then show ?thesis by (simp add: create_server_command_def split_beta split: option.split)
qed

lemma broken_quiet:
  assumes "remote_service_broken_connection e d s = Some (ok, t)"
  shows "quiet s t"
proof -
  have d: "quiet u (snd (disconnect_command e d c u))" for c u
    using send_quiet by (simp add: disconnect_command_def split: prod.split option.split)
  have "quiet s (snd (deregister_command e d s))"
    using send_quiet [of s e] by (auto simp: deregister_command_def split_beta split: option.split)
  then have p: "quiet s (snd (if service_direction d = RSERVR_REMOTE_TOWARD_CLIENT \<and> notify_entity d \<noteq> None \<and>
      notify_address d \<noteq> None then deregister_command e d s else (Some (base_command e), s)))" (is "quiet s (snd ?p)")
    by simp
  have q: "quiet s u" if "disconnect_command e d c (snd ?p) = (k, u)" for c k u
    using quiet_trans [OF p d [of "snd ?p" c]] that by simp
  show ?thesis
    using assms p q unfolding remote_service_broken_connection_def
    by (cases ?p) (auto split: if_splits option.splits)
qed

lemma start_command_ok:
  assumes "client_ok s"
  shows "client_ok (snd (snd (start_command e c s)))"
    and "queued_commands (snd (snd (start_command e c s))) = queued_commands s"
proof -
  have r: "client_ok (snd (register_reference n s))" for n using status_ops_ok(1) [OF assms] .
  have "quiet u (snd (send_to_server e d u))" for u d by (rule send_quiet)
  then have "quiet (snd (register_reference (orig_reference c) s)) (snd (snd (start_command e c s)))"
    by (simp add: start_command_def Let_def split_beta)
  with r same_shape_ok show "client_ok (snd (snd (start_command e c s)))"
    "queued_commands (snd (snd (start_command e c s))) = queued_commands s"
    by (auto simp: quiet_def frame_simps)
qed

lemma server_command_number: "server_command e b s = Some (c, s1) \<Longrightarrow> s1 = snd (manual_message_number s)"
  by (auto simp: server_command_def manual_message_number_def split: prod.splits if_splits option.splits)

section \<open>Steps that change the queue\<close>

definition typed_within :: "client_program \<Rightarrow> client_program \<Rightarrow> bool" where
  "typed_within s t \<longleftrightarrow> (queue_typed s \<longrightarrow> queue_typed t)"

lemma fewer_typed: "set (queued_commands t) \<subseteq> set (queued_commands s) \<Longrightarrow> typed_within s t"
  by (auto simp: typed_within_def queue_typed_def)

lemma add_typed: "typed c \<Longrightarrow> typed_within s (snd (queue_new_command e c s))"
  using typed_cong [of "c\<lparr>priority := priority_immediate\<rparr>" c]
  by (auto simp: typed_within_def queue_typed_def queue_new_command_def Let_def)

lemma set_queued_in: "x \<in> set (queued_commands (set_queued h c s)) \<Longrightarrow> x \<in> set (queued_commands s) \<or> snd x = c"
  by (auto simp: set_queued_def update_at_def in_set_conv_nth nth_list_update split: option.splits if_splits)

lemma edit_typed:
  assumes "queued_command h s = Some c" and "command d = command c" and "execute_type d = execute_type c"
    and "queued_commands u = queued_commands s"
  shows "typed_within s (set_queued h d u)"
proof -
  from assms(1) have "(h, c) \<in> set (queued_commands s)"
    by (simp add: queued_command_map_of map_of_SomeD)
  moreover have "typed d \<longleftrightarrow> typed c" using assms(2,3) by (rule typed_cong)
  ultimately show ?thesis
    using set_queued_in [of _ h d u] assms(4) unfolding typed_within_def queue_typed_def by fastforce
qed

lemma edits_typed:
  "typed_within s (snd (set_response_entity h n s))" "typed_within s (snd (insert_remote_scope h a s))"
  "typed_within s (snd (change_priority h p s))" "typed_within s (snd (set_server_address h n a s))"
proof -
  have r: "typed_within s s" by (simp add: typed_within_def)
  then show "typed_within s (snd (set_response_entity h n s))" "typed_within s (snd (change_priority h p s))"
    by (auto simp: set_response_entity_def change_priority_def split: option.split intro!: edit_typed)
  from r show "typed_within s (snd (insert_remote_scope h a s))" "typed_within s (snd (set_server_address h n a s))"
    by (auto simp: insert_remote_scope_def set_server_address_def split: option.split prod.split
        intro!: edit_typed)
qed

lemma sendable_same: "command_sendable l c = (ok, d) \<Longrightarrow> command d = command c \<and> execute_type d = execute_type c"
  by (auto simp: command_sendable_def assemble_command_def split: if_splits option.splits)

lemma transmit_typed: "typed_within s (snd (transmit_command e h r q s))"
proof (cases "queued_command h s")
  case (Some c)
  obtain ready c1 where c: "command_sendable (local_client s) (prepare_transmit s r q c) = (ready, c1)"
    by fastforce
  from sendable_same [OF c] have "command c1 = command c" "execute_type c1 = execute_type c"
    by (simp_all add: prepare_transmit_def)
  with Some c edit_typed [OF Some, of c1] edit_typed [OF Some, of "c1\<lparr>remote_reference := 0\<rparr>"]
  show ?thesis
    by (auto simp: transmit_command_def typed_within_def frame_simps split_beta split: if_splits)
qed (simp add: transmit_command_def typed_within_def)

lemma send_typed:
  "typed_within s (snd (send_command_functors e h fs s))" "typed_within s (snd (send_command_no_status e h s))"
proof -
  have t: "queued_commands u = queued_commands s \<Longrightarrow> typed_within s (snd (transmit_command e h r q u))" for r q u
    using transmit_typed [of u e h r q] by (simp add: typed_within_def queue_typed_def)
  have same: "queued_commands v = queued_commands u \<Longrightarrow> typed_within s u \<Longrightarrow> typed_within s v" for u v
    by (simp add: typed_within_def queue_typed_def)
  have n: "queued_commands (snd (manual_message_number s)) = queued_commands s"
    by (simp add: manual_message_number_def)
  have "typed_within s s" by (simp add: typed_within_def)
  with n same t show "typed_within s (snd (send_command_functors e h fs s))"
    by (simp add: send_command_functors_def Let_def frame_simps split_beta)
  from \<open>typed_within s s\<close> n same t show "typed_within s (snd (send_command_no_status e h s))"
    by (simp add: send_command_no_status_def split_beta)
qed

lemma run_ok_edit: "same_shape s t \<Longrightarrow> typed_within s t \<Longrightarrow> program_ok s \<Longrightarrow> program_ok t"
proof -
  assume a: "same_shape s t" "typed_within s t" "program_ok s"
  then have "client_ok t" using same_shape_ok [of s t] by (simp add: program_ok_def)
  with a show "program_ok t" by (simp add: program_ok_def typed_within_def)
qed

lemma run_ok_typed: "client_ok t \<Longrightarrow> typed_within s t \<Longrightarrow> program_ok s \<Longrightarrow> program_ok t"
  by (simp add: program_ok_def typed_within_def)

lemma edits_ok:
  assumes "program_ok s"
  shows "program_ok (snd (set_alternate_sender h n s))" and "program_ok (snd (insert_remote_address_handle h n s))"
    and "program_ok (snd (insert_remote_target h n a s))" and "program_ok (snd (insert_service_address h n s))"
    and "program_ok (snd (set_target_to_server_of h n a s))" and "program_ok (snd (change_priority h p s))"
proof -
  have e: "program_ok (snd (set_response_entity h m s))" "program_ok (snd (insert_remote_scope h m s))"
    "program_ok (snd (change_priority h p s))" "program_ok (snd (set_server_address h m b s))" for m b
    using run_ok_edit [OF queue_edit_shape(1) edits_typed(1)] run_ok_edit [OF queue_edit_shape(2) edits_typed(2)]
      run_ok_edit [OF queue_edit_shape(3) edits_typed(3)] run_ok_edit [OF queue_edit_shape(4) edits_typed(4)]
      assms by blast+
  from e assms show "program_ok (snd (set_alternate_sender h n s))" "program_ok (snd (insert_remote_address_handle h n s))"
    "program_ok (snd (insert_remote_target h n a s))" "program_ok (snd (insert_service_address h n s))"
    "program_ok (snd (set_target_to_server_of h n a s))" "program_ok (snd (change_priority h p s))"
    by (simp_all add: set_alternate_sender_def insert_remote_address_handle_def insert_remote_target_def
        insert_service_address_def set_target_to_server_of_def split: option.split)
qed

lemma new_ok: "cenv_ok e \<Longrightarrow> program_ok s \<Longrightarrow> typed c \<Longrightarrow> program_ok (snd (queue_new_command e c s))"
  using run_ok_typed [OF queue_new_command_ok add_typed] by (simp add: program_ok_def)

text \<open>What every call that makes a command does: set the body, look up the type.\<close>

lemma made_ok:
  assumes "cenv_ok e" and "program_ok s" and "set_command l (Some b) c = (True, c1)"
    and "lookup_command l (command_name c1) = Some ty"
    and "command d = command c1" and "execute_type d = ty"
  shows "program_ok (snd (queue_new_command e d s))"
proof -
  have "typed d" using looked_up_typed [OF assms(3,4)] typed_cong [of d "c1\<lparr>execute_type := ty\<rparr>"] assms(5,6) by simp
  with assms(1,2) show ?thesis by (rule new_ok)
qed

lemma makes_ok:
  assumes "cenv_ok e" and "program_ok s"
  shows "program_ok (snd (default_queue e n b s))" and "program_ok (snd (manual_command e to b s))"
    and "program_ok (snd (general_response e h b s))"
  using assms
  by (auto simp: default_queue_def manual_command_def general_response_def Let_def
      split: prod.split option.split intro: made_ok)

lemma parsed_typed: "parsed_command l raw = Some c \<Longrightarrow> typed c"
  using found_typed by (auto simp: parsed_command_def split: prod.splits if_splits)

lemma came_over_typed: "typed c \<Longrightarrow> typed (came_over n a c)"
  using typed_cong [of "came_over n a c" c] by (simp add: came_over_def)

lemma inserts_ok:
  assumes "cenv_ok e" and "program_ok s" and "\<And>c. parsed = Some c \<Longrightarrow> typed c"
  shows "program_ok (snd (insert_remote_command e parsed n a s))"
    and "program_ok (snd (snd (receive_stream_command e mode parsed over n a s)))"
    and "program_ok (snd (snd (filtered_receive_stream_command e mode parsed over n a s)))"
  using assms new_ok [OF assms(1,2) came_over_typed]
  by (auto simp: insert_remote_command_def receive_stream_command_def filtered_receive_stream_command_def
      split: option.split)

lemma removes_ok:
  assumes "program_ok s"
  shows "program_ok (snd (remove_command h s))" and "program_ok (snd (forward_command h s))"
    and "program_ok (snd (snd (filtered_send_stream_command w over h s)))"
proof -
  have ok: "client_ok s" using assms by (simp add: program_ok_def)
  have "typed_within s (snd (remove_command h s))"
    by (rule fewer_typed) (auto simp: remove_command_def)
  from run_ok_typed [OF remove_command_ok [OF ok] this assms] show "program_ok (snd (remove_command h s))" .
  have "typed_within s (snd (forward_command h s))"
    by (rule fewer_typed) (auto simp: forward_command_def dest: set_remove_at_subset [THEN subsetD] split: option.split)
  from run_ok_typed [OF forward_command_ok [OF ok] this assms] show f: "program_ok (snd (forward_command h s))" .
  have "snd (snd (filtered_send_stream_command w over h s)) = (if h = 0 then s else snd (forward_command h s))"
    by (simp add: filtered_send_stream_command_def split: prod.split option.split)
  with f assms show "program_ok (snd (snd (filtered_send_stream_command w over h s)))" by simp
qed

lemma messages_run_ok:
  assumes "program_ok s"
  shows "program_ok (snd (remove_message h s))" and "program_ok (snd (remove_current_message s))"
    and "program_ok (clear_messages s)" and "program_ok (snd (remove_responses r s))"
    and "program_ok (snd (rotate_response r s))" and "program_ok (set_message_queue_limit e m s)"
proof -
  have ok: "client_ok s" using assms by (simp add: program_ok_def)
  note p = only_pausing_frame(4) [OF pausing_checks_only(3)] only_pausing_frame(4) [OF pausing_checks_only(1)]
  have q: "queued_commands (set_ring x u) = queued_commands u" for x u by (simp add: set_ring_def)
  show "program_ok (snd (remove_message h s))" "program_ok (snd (remove_current_message s))"
    by (rule program_ok_same [OF remove_messages_ok(2) [OF ok] _ assms],
        simp add: remove_message_def p q split: option.split)
      (rule program_ok_same [OF remove_messages_ok(1) [OF ok] _ assms], simp add: remove_current_message_def p q)
  have all: "queued_commands (remove_all_responses k s) = queued_commands s" for k
    by (simp add: remove_all_responses_def p q)
  then show "program_ok (clear_messages s)"
    unfolding clear_messages_def using program_ok_same [OF remove_messages_ok(3) [OF ok] _ assms] by blast
  show "program_ok (snd (remove_responses r s))"
    by (rule program_ok_same [OF remove_messages_ok(4) [OF ok] _ assms]) (simp add: remove_responses_def all)
  show "program_ok (snd (rotate_response r s))"
    by (rule program_ok_same [OF remove_messages_ok(5) [OF ok] _ assms])
      (simp add: rotate_response_def Let_def split: option.split)
  show "program_ok (set_message_queue_limit e m s)"
    by (rule program_ok_same [OF set_limit_ok [OF ok] _ assms])
      (simp add: set_message_queue_limit_def Let_def p q)
qed

section \<open>Every step\<close>

lemma turn_run_ok:
  assumes "cenv_ok e" and "program_ok s" and "typed c" and "client_turn e c s = Some t"
  shows "program_ok t"
proof -
  have "client_ok t"
    using client_turn_within [OF assms(4)] assms(1,2) by (simp add: stays_within_def program_ok_def)
  moreover have "typed (snd x)"
    if x: "x \<in> set (queued_commands t)" "x \<notin> set (queued_commands s)" for x
  proof -
    from turn_grows [OF assms(4)] x have "command (snd x) = command c"
      "execute_type (snd x) = execute_type c OR command_remote" by (auto simp: adds_remote_def)
    with assms(3) has_type_remote show ?thesis by (auto simp: typed_def split: option.splits)
  qed
  ultimately show ?thesis using assms(2) by (auto simp: program_ok_def queue_typed_def)
qed

lemma receive_run_ok:
  assumes "cenv_ok e" and "program_ok s" and "client_receive e raw s = Some t"
  shows "program_ok t"
proof (cases "parsed_command (local_client s) raw")
  case (Some c)
  with assms(3) have "client_turn e c s = Some t" by (simp add: client_receive_def)
  from turn_run_ok [OF assms(1,2) parsed_typed [OF Some] this] show ?thesis .
qed (use assms in \<open>simp add: client_receive_def\<close>)

lemma async_run_ok:
  assumes "cenv_ok e" and "program_ok s"
  shows "program_ok (snd (set_async_response e x s))"
proof (cases x)
  case (Some c)
  have "program_ok (snd (add_new_message e c Async_Content s))"
    using program_ok_same [OF add_new_message_ok [OF assms(1)] add_message_queue assms(2)] assms(2)
    by (simp add: program_ok_def)
  with Some show ?thesis
    by (cases "add_new_message e c Async_Content s") (simp add: set_async_response_def split: option.split)
qed (use assms in \<open>simp add: set_async_response_def\<close>)

lemma status_run_ok: "program_ok s \<Longrightarrow> program_ok (status_step e x s)"
proof -
  assume r: "program_ok s"
  have "queued_commands (status_step e x s) = queued_commands s" by (cases x) (simp_all add: frame_simps)
  with r status_step_ok [of s e x] show "program_ok (status_step e x s)" using program_ok_same by (simp add: program_ok_def)
qed

lemma start_run_ok:
  assumes "program_ok s" and "server_command e b s = Some (c, s1)"
  shows "program_ok (snd (snd (start_command e d s1)))"
proof -
  have "program_ok s1"
    using server_command_number [OF assms(2)] program_ok_quiet [OF flags_quiet(12) assms(1)] by simp
  with start_command_ok [of s1 e d] show ?thesis using program_ok_same by (simp add: program_ok_def)
qed

lemma default_queue_ok:
  assumes "cenv_ok e" and "program_ok s"
  shows "program_ok (snd (default_queue_server_command e b s))" "program_ok (snd (default_queue_client_command e n b s))"
  using makes_ok(1) [OF assms] assms
  by (simp_all add: default_queue_server_command_def default_queue_client_command_def)

lemma sends_run_ok:
  assumes "program_ok s"
  shows "program_ok (snd (send_command_functors e h fs s))" and "program_ok (snd (send_command_no_status e h s))"
  using assms run_ok_typed [OF send_ok(1) send_typed(1)] run_ok_typed [OF send_ok(2) send_typed(2)]
  by (auto simp: program_ok_def)

lemmas quiet_run_ok =
  flags_quiet [THEN program_ok_quiet] timers_quiet [THEN program_ok_quiet] create_server_quiet [THEN program_ok_quiet]
  pausing_only [THEN pausing_quiet, THEN program_ok_quiet]
  pausing_checks_only [THEN pausing_quiet, THEN program_ok_quiet]

lemma step_run_ok: "client_step e s t \<Longrightarrow> cenv_ok e \<Longrightarrow> program_ok s \<Longrightarrow> program_ok t"
proof (induction rule: client_step.induct)
  case (Broken d s ok t)
  then show ?case using program_ok_quiet broken_quiet by blast
qed (simp_all add: receive_run_ok async_run_ok default_queue_ok makes_ok quiet_run_ok inserts_ok parsed_typed
    sends_run_ok removes_ok edits_ok status_run_ok start_run_ok messages_run_ok)

lemma initial_run_ok: "program_ok initial_client"
  using initial_client_ok by (simp add: program_ok_def queue_typed_def initial_client_def)

lemma reaches_run_ok: "client_reaches e s t \<Longrightarrow> cenv_ok e \<Longrightarrow> program_ok s \<Longrightarrow> program_ok t"
  by (induction rule: client_reaches.induct) (auto intro: step_run_ok)

lemma reaches_trans: "client_reaches e t u \<Longrightarrow> client_reaches e s t \<Longrightarrow> client_reaches e s u"
  by (induction rule: client_reaches.induct) (auto intro: reach_step)

lemma reaches_one: "client_step e s t \<Longrightarrow> client_reaches e s t"
  by (rule reach_step [OF reach_same])

section \<open>Calls that wait\<close>

text \<open>What other threads do during the sleeps of a wait are steps of the same program.\<close>

definition others_step :: "cenv \<Rightarrow> others \<Rightarrow> bool" where
  "others_step e other \<longleftrightarrow> (\<forall>n s. client_reaches e s (other n s))"

lemma wait_loop_reaches:
  assumes "wait_loop cyc other cancel r sStatus wWait n elapsed cur s = Some y" and "others_step e other"
  shows "client_reaches e s (snd (snd (snd y)))"
proof -
  have "others_step e other \<longrightarrow> client_reaches e s (snd (snd (snd y)))"
  proof (rule wait_loop.raw_induct [OF _ assms(1), where
        P = "\<lambda>cyc other cancel r sStatus wWait n elapsed cur s y.
          others_step e other \<longrightarrow> client_reaches e s (snd (snd (snd y)))"], goal_cases)
    case (1 wl cyc other cancel r sStatus wWait n elapsed cur s y)
    note induct = 1(1) and result = 1(2)
    show ?case
    proof
      assume o: "others_step e other"
      show "client_reaches e s (snd (snd (snd y)))"
      proof (cases "wl cyc other cancel r sStatus wWait (Suc n) (elapsed + cyc) (find_command_status r s) (other n s)
          = Some y")
        case True
        from induct [OF this] o have "client_reaches e (other n s) (snd (snd (snd y)))" by simp
        moreover have "client_reaches e s (other n s)" using o by (simp add: others_step_def)
        ultimately show ?thesis by (rule reaches_trans)
      next
        case False
        with result have "snd (snd (snd y)) = s" by (auto simp: Let_def split: if_splits)
        then show ?thesis by auto
      qed
    qed
  qed
  with assms(2) show ?thesis by simp
qed

lemma wait_reaches:
  assumes "cancelable_wait e other cancel b r sStatus wWait s = Some (ev, t)" and "others_step e other"
  shows "client_reaches e s t"
proof -
  let ?s0 = "snd (message_queue_pause_state False s)"
  have s0: "client_reaches e s ?s0" by (rule reaches_one [OF Pause_State])
  have w: "client_reaches e s s1"
    if "wait_loop (status_retry e) other cancel r sStatus wWait 0 0 event_unavailable ?s0 = Some (cur, x, n, s1)"
    for cur x n s1
    using reaches_trans [OF wait_loop_reaches [OF that assms(2)] s0] by simp
  have o: "client_reaches e s (other n s1)" if "client_reaches e s s1" for n s1
    using reaches_trans [OF _ that] assms(2) by (simp add: others_step_def)
  show ?thesis
    using assms(1) s0 w o reach_same
    by (auto simp: cancelable_wait_def Let_def split: if_splits prod.splits option.splits)
qed

lemma await_reaches:
  assumes "await_complete e other b r wWait s = Some (ev, t)" and "others_step e other"
  shows "client_reaches e s t"
proof -
  from assms(1) obtain u where "wait_command_event e other b r event_complete wWait s = Some (ev, u)"
    and t: "t = status_step e (Deregister r) u" by (auto simp: await_complete_def)
  then have "client_reaches e s u" using wait_reaches assms(2) by (simp add: wait_command_event_def)
  from reach_step [OF this Status [where x = "Deregister r"]] t show ?thesis by simp
qed

lemma await_returns: "0 < status_retry e \<Longrightarrow> await_complete e other b r wWait s \<noteq> None"
proof -
  assume c: "0 < status_retry e"
  obtain p s0 where p: "message_queue_pause_state False s = (p, s0)" by fastforce
  from wait_loop_ends [OF c, of other "\<lambda>_. False" r event_complete wWait 0 0 event_unavailable s0] p
  show ?thesis
    by (auto simp: await_complete_def wait_command_event_def cancelable_wait_def Let_def split: if_splits)
qed

text \<open>The part of a call up to the wait, and the call as a whole.\<close>

lemma start_reaches:
  assumes "server_command e b s = Some (c, s1)" and "start_command e (c\<lparr>orig_entity := n\<rparr>) s1 = (ready, sent, s2)"
  shows "client_reaches e s s2"
  using reaches_one [OF Start_Call [OF assms(1), of n]] assms(2) by simp

lemma own_entity: "server_command e b s = Some (c, s1) \<Longrightarrow> c\<lparr>orig_entity := entity_name (local_client s)\<rparr> = c"
  by (auto simp: server_command_def split: prod.splits if_splits option.splits)

lemma deregister_reaches: "client_reaches e s t \<Longrightarrow> client_reaches e s (snd (deregister_reference r t))"
  using reach_step [OF _ Status [where x = "Deregister r" for r]] by simp

lemma end_reaches: "client_reaches e s t \<Longrightarrow> client_reaches e s (t\<lparr>readiness_sent := b\<rparr>)"
  by (rule reach_step [OF _ End_Call])

lemma no_event_reaches:
  assumes "send_server_command_no_event e other b body w s = Some (out, t)" and "others_step e other"
  shows "client_reaches e s t"
proof (cases "server_command e body s")
  case (Some p)
  obtain c s1 where c: "server_command e body s = Some (c, s1)" using Some by (cases p) simp
  obtain ready sent s2 where st: "start_command e c s1 = (ready, sent, s2)" by (cases "start_command e c s1") auto
  have s2: "client_reaches e s s2"
    using start_reaches [OF c, of "entity_name (local_client s)"] own_entity [OF c] st by simp
  have "client_reaches e s u" if "await_complete e other b r w s2 = Some (ev, u)" for r ev u
    using reaches_trans [OF await_reaches [OF that assms(2)] s2] .
  then show ?thesis
    using assms(1) c st s2 deregister_reaches
    by (auto simp: send_server_command_no_event_def split: if_splits)
qed (use assms in \<open>auto simp: send_server_command_no_event_def\<close>)

lemma default_send_reaches:
  assumes "default_send_server_command e other b body w s = Some (ev, t)" and "others_step e other"
  shows "client_reaches e s t"
proof (cases "server_command e body s")
  case (Some p)
  obtain c s1 where c: "server_command e body s = Some (c, s1)" using Some by (cases p) simp
  obtain ready sent s2 where st: "start_command e c s1 = (ready, sent, s2)" by (cases "start_command e c s1") auto
  have s2: "client_reaches e s s2"
    using start_reaches [OF c, of "entity_name (local_client s)"] own_entity [OF c] st by simp
  have "client_reaches e s u" if "await_complete e other b r w s2 = Some (x, u)" for r x u
    using reaches_trans [OF await_reaches [OF that assms(2)] s2] .
  then show ?thesis
    using assms(1) c st s2 deregister_reaches
    by (auto simp: default_send_server_command_def split: if_splits)
qed (use assms in \<open>auto simp: default_send_server_command_def\<close>)

lemma register_reaches:
  assumes "master_register_client e other b n ty s = Some (ok, t)" and "others_step e other"
  shows "client_reaches e s t"
proof (cases "server_command e (Common_Command (Register_Client (text_or_empty n) ty (disable_ready s))) s")
  case (Some p)
  let ?o = "if ty = type_none then entity_name (local_client s) else text_or_empty n"
  obtain c s1 where c: "server_command e (Common_Command (Register_Client (text_or_empty n) ty (disable_ready s))) s
      = Some (c, s1)" using Some by (cases p) simp
  obtain ready sent s2 where st: "start_command e (c\<lparr>orig_entity := ?o\<rparr>) s1 = (ready, sent, s2)"
    by (cases "start_command e (c\<lparr>orig_entity := ?o\<rparr>) s1") auto
  note s2 = start_reaches [OF c st]
  have "client_reaches e s u" if "await_complete e other b r w s2 = Some (x, u)" for r w x u
    using reaches_trans [OF await_reaches [OF that assms(2)] s2] .
  then show ?thesis
    using assms(1) c st s2 deregister_reaches end_reaches
    by (auto simp: master_register_client_def Let_def split: if_splits)
qed (use assms in \<open>auto simp: master_register_client_def split: if_splits\<close>)

lemma calls_return:
  assumes "0 < status_retry e"
  shows "send_server_command_no_event e other b body w s \<noteq> None"
    and "default_send_server_command e other b body w s \<noteq> None"
    and "master_register_client e other b n ty s \<noteq> None"
  using await_returns [OF assms]
  by (simp_all add: send_server_command_no_event_def default_send_server_command_def master_register_client_def
      Let_def split_beta option.map_disc_iff del: not_None_eq split: option.split)

lemma named_calls_reach:
  assumes "others_step e other"
  shows "terminate_server e other b s = Some (ok, t) \<Longrightarrow> client_reaches e s t"
    and "manual_indicate_ready e other b s = Some (ok, t) \<Longrightarrow> client_reaches e s t"
    and "return_terminal e other b tty s = Some (ok, t) \<Longrightarrow> client_reaches e s t"
    and "request_terminal e other b tty grp s = Some (ev, t) \<Longrightarrow> client_reaches e s t"
  using no_event_reaches [OF _ assms] default_send_reaches [OF _ assms] end_reaches
  by (auto simp: terminate_server_def manual_indicate_ready_def return_terminal_def request_terminal_def Let_def
      split: if_splits option.splits)

section \<open>Properties\<close>

text \<open>
  C6. Receiving a command always ends with a state: the null interface is never called. A command that is
  not found changes nothing. A command of the type found keeps the program well-formed, leaves the flags
  of the queue alone, and only: changes statuses if it is a response to this process; adds messages of
  the kinds the flags allow; changes the program's name and type if it is a privileged built-in
  response; stops the queue or cuts the connection if it is a privileged request.
\<close>

theorem receiving_stays_within:
  "\<exists>t. client_receive e raw s = Some t \<and>
    (case parsed_command (local_client s) raw of
       None \<Rightarrow> t = s
     | Some c \<Rightarrow> creator_pid c = creator_pid raw \<and> stays_within e (execute_type c) (creator_pid raw) s t)"
proof (cases "parsed_command (local_client s) raw")
  case (Some c)
  let ?raw = "raw\<lparr>tree := (if tree raw = [] then [Empty_Section []] else tree raw)\<rparr>"
  from Some have f: "client_find_command (local_client s) ?raw = (True, c)"
    by (auto simp: parsed_command_def split: prod.splits if_splits)
  have pid: "creator_pid c = creator_pid raw"
    using f by (auto simp: client_find_command_def empty_client_command_def dest!: set_command_type
        split: option.splits prod.splits if_splits)
  have "client_turn e c s \<noteq> None"
    using evaluate_found [OF f, of e 1] by (simp add: client_turn_def Let_def del: not_None_eq)
  then obtain t where t: "client_turn e c s = Some t" by auto
  from client_turn_within [OF t] pid t Some show ?thesis by (simp add: client_receive_def)
qed (simp add: client_receive_def)

text \<open>
  C7. In every state a client program can get into, each command in its queue has a body, and its type is
  the one the table of commands lists for its label, or that with the flag of commands for other
  servers; bodies that stand for a command on its way elsewhere have a null type. The handles in use
  are distinct and not null, and the list of messages keeps to its limit.
\<close>

theorem queued_commands_typed:
  assumes "client_reaches e initial_client s" and "cenv_ok e"
  shows "queue_typed s \<and> client_ok s"
  using reaches_run_ok [OF assms initial_run_ok] by (simp add: program_ok_def)

theorem queued_commands_typed_witness:
  "let s = snd (default_queue_server_command tiny_cenv
      (Common_Command (Register_Client ''me'' type_resource_client_all False)) initial_client)
   in queue_typed s \<and> length (queued_commands s) = 1"
proof -
  let ?s = "snd (default_queue_server_command tiny_cenv
      (Common_Command (Register_Client ''me'' type_resource_client_all False)) initial_client)"
  have "length (queued_commands ?s) = 1" by code_simp
  with queued_commands_typed [OF reaches_one [OF Make_Server] tiny_cenv_ok] show ?thesis by (simp add: Let_def)
qed

text \<open>
  C9. Registering with the server returns, whatever steps the program's other threads take while it
  waits, in a state the program can get into, well-formed and with its queue typed.
\<close>

theorem registering_returns:
  assumes "client_reaches e initial_client s" and "cenv_ok e" and "0 < status_retry e"
    and "others_step e other"
  shows "\<exists>ok t. master_register_client e other in_queue n ty s = Some (ok, t) \<and>
    client_reaches e initial_client t \<and> program_ok t"
proof -
  from calls_return(3) [OF assms(3), of other in_queue n ty s] obtain ok t
    where t: "master_register_client e other in_queue n ty s = Some (ok, t)" by auto
  from reaches_trans [OF register_reaches [OF t assms(4)] assms(1)] t
    reaches_run_ok [OF _ assms(2) initial_run_ok] show ?thesis by auto
qed

text \<open>A message queue that gets the same command over and over.\<close>

definition repeated :: "command_transmit \<Rightarrow> others" where
  "repeated raw n s = (case client_receive tiny_cenv raw s of None \<Rightarrow> s | Some t \<Rightarrow> t)"

theorem registering_returns_witness:
  "\<exists>ok t. master_register_client tiny_cenv (repeated (new_transmit 7)) False (Some ''me'') type_resource_client_all
     (snd (start_message_queue tiny_cenv initial_client)) = Some (ok, t) \<and> program_ok t"
proof -
  have o: "others_step tiny_cenv (repeated (new_transmit 7))"
    by (auto simp: others_step_def repeated_def split: option.split intro: reaches_one [OF Receive])
  have "0 < status_retry tiny_cenv" by (simp add: tiny_cenv_def)
  from registering_returns [OF reaches_one [OF Start_Queue] tiny_cenv_ok this o] show ?thesis by blast
qed

end
