(* ===== verification/Command_Lexer.thy ===== *)
theory Command_Lexer
  imports Transmit Label_Check
begin

text \<open>
  The scanner of the command language (\<open>libs/protocol/ipc/ipc-lexer.l\<close>). The generated scanner takes the
  rule with the longest match and of those the first; \<open>best_match\<close> is that choice, \<open>lex\<close> the sequence of
  tokens of a text. Data is read in two modes of its own, which count characters.
\<close>

section \<open>Tokens\<close>

datatype token =
    Command_Start
  | Route_Start
  | SInteger int
  | UInteger u32
  | Label string
  | Extended string
  | Text string
  | Binary string
  | Mark char
  | Garbage

section \<open>Character classes\<close>

definition letters :: string where
  "letters = ''abcdefghijklmnopqrstuvwxyz'' @ ''ABCDEFGHIJKLMNOPQRSTUVWXYZ''"

definition label_start :: "char \<Rightarrow> bool" where
  "label_start c \<longleftrightarrow> c \<in> set (letters @ ''_'')"

definition label_char :: "char \<Rightarrow> bool" where
  "label_char c \<longleftrightarrow> c \<in> set (letters @ ''_0123456789'')"

definition extended_char :: "char \<Rightarrow> bool" where
  "extended_char c \<longleftrightarrow> c \<in> set (''-'' @ letters @ ''0123456789~`#$%^&_+;:'' @ [CHR 0x27] @ '',./@?|'')"

definition decimal_char :: "char \<Rightarrow> bool" where
  "decimal_char c \<longleftrightarrow> c \<in> set ''0123456789''"

definition hex_char :: "char \<Rightarrow> bool" where
  "hex_char c \<longleftrightarrow> c \<in> set ''ABCDEFabcdef0123456789''"

definition blank :: "char \<Rightarrow> bool" where
  "blank c \<longleftrightarrow> c \<in> set ([CHR '' '', CHR 0x09, CHR 0x0D, CHR 0x0A])"

definition mark_char :: "char \<Rightarrow> bool" where
  "mark_char c \<longleftrightarrow> c \<in> set ''[]{}=''"

section \<open>Rules\<close>

datatype rule =
    Start_Rule | Route_Rule | Signed_Rule | Unsigned_Rule | Label_Rule | Extended_Rule
  | Text_Rule | Binary_Rule | Mark_Rule | Blank_Rule | Garbage_Rule

text \<open>The rules of the initial mode, in the order of the file; zero is no match. A dot in a pattern
  stands for any character but the end of a line.\<close>

definition span :: "(char \<Rightarrow> bool) \<Rightarrow> string \<Rightarrow> nat" where
  "span P s = length (takeWhile P s)"

definition header_length :: "char \<Rightarrow> char \<Rightarrow> string \<Rightarrow> nat" where
  "header_length x y s =
     (case s of
        a # b # t \<Rightarrow>
          let n = span hex_char t
          in if a = CHR 0x5C \<and> (b = x \<or> b = y) \<and> n \<noteq> 0 \<and> (case drop n t of [] \<Rightarrow> False | z # _ \<Rightarrow> z = CHR 0x5C)
             then n + 3 else 0
      | _ \<Rightarrow> 0)"

fun match_length :: "rule \<Rightarrow> string \<Rightarrow> nat" where
  "match_length Start_Rule s = (if take 7 s = ''!rservr'' then 7 else 0)"
| "match_length Route_Rule s = (if take 6 s = ''!route'' then 6 else 0)"
| "match_length Signed_Rule s =
     (case s of
        a # t \<Rightarrow>
          let k = (case t of b # u \<Rightarrow> if b = CHR ''-'' then 1 else 0 | [] \<Rightarrow> 0);
              n = span decimal_char (drop k t)
          in if a = CHR ''!'' \<and> n \<noteq> 0 then 1 + k + n else 0
      | [] \<Rightarrow> 0)"
| "match_length Unsigned_Rule s =
     (if take 2 s = ''!x'' \<and> span hex_char (drop 2 s) \<noteq> 0 then 2 + span hex_char (drop 2 s) else 0)"
| "match_length Label_Rule s =
     (case s of a # t \<Rightarrow> if label_start a then 1 + span label_char t else 0 | [] \<Rightarrow> 0)"
| "match_length Extended_Rule s = span extended_char s"
| "match_length Text_Rule s = header_length CHR ''t'' CHR ''T'' s"
| "match_length Binary_Rule s = header_length CHR ''b'' CHR ''B'' s"
| "match_length Mark_Rule s = (case s of a # t \<Rightarrow> if mark_char a then 1 else 0 | [] \<Rightarrow> 0)"
| "match_length Blank_Rule s = span blank s"
| "match_length Garbage_Rule s = (case s of a # t \<Rightarrow> if a \<noteq> CHR 0x0A then 1 else 0 | [] \<Rightarrow> 0)"

definition rules :: "rule list" where
  "rules = [Start_Rule, Route_Rule, Signed_Rule, Unsigned_Rule, Label_Rule, Extended_Rule,
     Text_Rule, Binary_Rule, Mark_Rule, Blank_Rule, Garbage_Rule]"

definition best_match :: "string \<Rightarrow> rule \<times> nat" where
  "best_match s =
     foldl (\<lambda>(r, n) q. if match_length q s > n then (q, match_length q s) else (r, n)) (Garbage_Rule, 0) rules"

section \<open>Data\<close>

text \<open>
  In the mode of text every character but the null character counts, in the mode of binary data every
  one but the end of a line; those that do not count are discarded. A token is complete when one more
  character that counts has been seen; that one is read again. \<open>None\<close> if the input ends before.
\<close>

fun read_counted :: "(char \<Rightarrow> bool) \<Rightarrow> nat \<Rightarrow> string \<Rightarrow> (string \<times> string) option" where
  "read_counted P n [] = None"
| "read_counted P 0 (c # cs) = (if P c then Some ([], c # cs) else read_counted P 0 cs)"
| "read_counted P (Suc n) (c # cs) =
     (if P c then map_option (\<lambda>(d, rest). (c # d, rest)) (read_counted P n cs) else read_counted P (Suc n) cs)"

definition read_text :: "nat \<Rightarrow> string \<Rightarrow> (string \<times> string) option" where
  "read_text n s = read_counted (\<lambda>c. c \<noteq> CHR 0x00) n s"

definition read_binary :: "nat \<Rightarrow> string \<Rightarrow> (string \<times> string) option" where
  "read_binary n s = read_counted (\<lambda>c. c \<noteq> CHR 0x0A) n s"

text \<open>\<open>target\<close> is an \<open>unsigned int\<close>, for text one more than the number given. If it is zero there is no
  token, and the mode stays.\<close>

definition header_target :: "string \<Rightarrow> u32" where
  "header_target w = of_nat (fst (strtoul16 (take (length w - 3) (drop 2 w))))"

section \<open>The scanner\<close>

text \<open>\<open>parse_s_integer10\<close> and \<open>parse_u_integer16\<close> with the conversion to 32 bits.\<close>

definition rule_token :: "rule \<Rightarrow> string \<Rightarrow> token option" where
  "rule_token r w =
     (case r of
        Start_Rule \<Rightarrow> Some Command_Start
      | Route_Rule \<Rightarrow> Some Route_Start
      | Signed_Rule \<Rightarrow> Some (SInteger (signed_take_bit 31 (fst (strtol10 (drop 1 w)))))
      | Unsigned_Rule \<Rightarrow> Some (UInteger (of_nat (fst (strtoul16 (drop 2 w)))))
      | Label_Rule \<Rightarrow> Some (Label w)
      | Extended_Rule \<Rightarrow> Some (Extended w)
      | Mark_Rule \<Rightarrow> Some (Mark (hd w))
      | Garbage_Rule \<Rightarrow> Some Garbage
      | _ \<Rightarrow> None)"

lemma read_counted_length: "read_counted P n s = Some (d, rest) \<Longrightarrow> length rest \<le> length s"
  by (induction P n s arbitrary: d rule: read_counted.induct) (fastforce split: if_splits)+

function lex :: "string \<Rightarrow> token list" where
  "lex s =
     (case best_match s of (r, n) \<Rightarrow>
       if n = 0 \<or> s = [] then []
       else if r = Text_Rule then
         (if header_target (take n s) + 1 = 0 then lex (drop n s)
          else case read_text (unat (header_target (take n s) + 1) - 1) (drop n s) of
            None \<Rightarrow> [] | Some (d, rest) \<Rightarrow> Text d # lex rest)
       else if r = Binary_Rule then
         (if header_target (take n s) = 0 then lex (drop n s)
          else case read_binary (unat (header_target (take n s))) (drop n s) of
            None \<Rightarrow> [] | Some (d, rest) \<Rightarrow> Binary d # lex rest)
       else case rule_token r (take n s) of
         None \<Rightarrow> lex (drop n s) | Some t \<Rightarrow> t # lex (drop n s))"
  by auto
termination
  by (relation "measure length") (auto simp: read_text_def read_binary_def neq_Nil_conv dest!: read_counted_length)

declare lex.simps [simp del]

section \<open>Choosing a rule\<close>

lemma span_Nil [simp]: "span P [] = 0"
  by (simp add: span_def)

lemma span_Cons [simp]: "span P (c # s) = (if P c then Suc (span P s) else 0)"
  by (simp add: span_def)

lemma span_le: "span P s \<le> length s"
  by (simp add: span_def length_takeWhile_le)

lemma span_append:
  assumes "list_all P w" and "s = [] \<or> \<not> P (hd s)"
  shows "span P (w @ s) = length w"
  using assms by (induction w) (cases s; auto)+

lemma char_classes:
  "label_start c \<Longrightarrow> label_char c" "label_char c \<Longrightarrow> extended_char c"
  by (auto simp: label_start_def label_char_def extended_char_def)

text \<open>Characters no other rule starts with.\<close>

definition plain_start :: "char \<Rightarrow> bool" where
  "plain_start c \<longleftrightarrow> c \<noteq> CHR ''!'' \<and> c \<noteq> CHR 0x5C"

lemma plain_start:
  "extended_char c \<Longrightarrow> plain_start c" "blank c \<Longrightarrow> plain_start c" "mark_char c \<Longrightarrow> plain_start c"
  by (auto simp: plain_start_def extended_char_def letters_def blank_def mark_char_def)

lemma plain_no_match:
  assumes "plain_start c"
  shows "match_length Start_Rule (c # s) = 0" "match_length Route_Rule (c # s) = 0"
    "match_length Signed_Rule (c # s) = 0" "match_length Unsigned_Rule (c # s) = 0"
    "match_length Text_Rule (c # s) = 0" "match_length Binary_Rule (c # s) = 0"
  using assms by (auto simp: plain_start_def header_length_def split: list.split)

lemma classes_disjoint:
  "blank c \<Longrightarrow> \<not> label_start c \<and> \<not> extended_char c \<and> \<not> mark_char c"
  "mark_char c \<Longrightarrow> \<not> label_start c \<and> \<not> extended_char c \<and> \<not> blank c \<and> c \<noteq> CHR 0x0A"
  "extended_char c \<Longrightarrow> \<not> mark_char c \<and> \<not> blank c"
  by (auto simp: blank_def label_start_def extended_char_def letters_def mark_char_def)

lemma best_blank: "blank c \<Longrightarrow> best_match (c # s) = (Blank_Rule, Suc (span blank s))"
  using plain_no_match [OF plain_start(2)] classes_disjoint(1)
  by (auto simp: best_match_def rules_def)

lemma best_mark: "mark_char c \<Longrightarrow> best_match (c # s) = (Mark_Rule, 1)"
  using plain_no_match [OF plain_start(3)] classes_disjoint(2)
  by (auto simp: best_match_def rules_def)

definition is_label :: "string \<Rightarrow> bool" where
  "is_label w \<longleftrightarrow> w \<noteq> [] \<and> label_start (hd w) \<and> list_all label_char w"

lemma label_span_le: "list_all extended_char w \<Longrightarrow> s = [] \<or> \<not> extended_char (hd s) \<Longrightarrow> span label_char (w @ s) \<le> length w"
  using char_classes(2) by (induction w) (cases s; auto)+

lemma label_span_full:
  "list_all extended_char w \<Longrightarrow> s = [] \<or> \<not> extended_char (hd s) \<Longrightarrow>
    span label_char (w @ s) = length w \<longleftrightarrow> list_all label_char w"
  using char_classes(2) label_span_le by (induction w) (cases s; auto)+

lemma best_word:
  assumes "w \<noteq> []" and "list_all extended_char w" and "s = [] \<or> \<not> extended_char (hd s)"
  shows "best_match (w @ s) = (if is_label w then Label_Rule else Extended_Rule, length w)"
proof -
  obtain c v where w: "w = c # v" using assms(1) by (cases w) auto
  have v: "list_all extended_char v" "extended_char c" using assms(2) w by auto
  have e: "span extended_char (v @ s) = length v" using span_append [OF v(1) assms(3)] .
  have l: "span label_char (v @ s) \<le> length v" using label_span_le [OF v(1) assms(3)] .
  have il: "is_label w \<longleftrightarrow> label_start c \<and> span label_char (v @ s) = length v"
    using label_span_full [OF v(1) assms(3)] char_classes(1) w by (auto simp: is_label_def)
  have m: "match_length Label_Rule (c # v @ s) = (if label_start c then Suc (span label_char (v @ s)) else 0)"
    "match_length Extended_Rule (c # v @ s) = Suc (length v)" "match_length Mark_Rule (c # v @ s) = 0"
    "match_length Blank_Rule (c # v @ s) = 0" "match_length Garbage_Rule (c # v @ s) \<le> 1"
    using classes_disjoint(3) [OF v(2)] v(2) e by simp_all
  show ?thesis
  proof (cases "is_label w")
    case True
    with il have "label_start c" "span label_char (v @ s) = length v" by simp_all
    with True m w plain_no_match [OF plain_start(1) [OF v(2)]] show ?thesis
      by (simp add: best_match_def rules_def del: match_length.simps)
  next
    case False
    with il l have "match_length Label_Rule (c # v @ s) < Suc (length v)" by (auto simp: m(1))
    with False m(2-5) w plain_no_match [OF plain_start(1) [OF v(2)]] show ?thesis
      by (simp add: best_match_def rules_def del: match_length.simps)
  qed
qed

section \<open>Scanning the pieces of a command\<close>

lemma lex_Nil [simp]: "lex [] = []"
  by (subst lex.simps) (simp split: prod.split)

lemma lex_drop_blanks: "lex s = lex (dropWhile blank s)"
proof (cases s)
  case (Cons c cs)
  show ?thesis
  proof (cases "blank c")
    case True
    have "drop (length (takeWhile blank cs)) cs = dropWhile blank cs" by (rule dropWhile_eq_drop [symmetric])
    with True Cons best_blank [OF True, of cs] show ?thesis
      by (subst lex.simps) (simp add: rule_token_def span_def)
  qed (simp add: Cons)
qed simp

lemma lex_blank: "blank c \<Longrightarrow> lex (c # s) = lex s"
  using lex_drop_blanks [of "c # s"] lex_drop_blanks [of s] by simp

lemma lex_blanks: "list_all blank w \<Longrightarrow> lex (w @ s) = lex s"
  by (induction w) (simp_all add: lex_blank)

lemma lex_mark: "mark_char c \<Longrightarrow> lex (c # s) = Mark c # lex s"
  using best_mark [of c s] by (subst lex.simps) (simp add: rule_token_def)

definition word_token :: "string \<Rightarrow> token" where
  "word_token w = (if is_label w then Label w else Extended w)"

lemma lex_word:
  assumes "w \<noteq> []" and "list_all extended_char w" and "s = [] \<or> \<not> extended_char (hd s)"
  shows "lex (w @ s) = word_token w # lex s"
  using best_word [OF assms] assms(1) by (subst lex.simps) (simp add: rule_token_def word_token_def)

lemma label_extended: "is_label w \<Longrightarrow> list_all extended_char w \<and> w \<noteq> []"
  using char_classes(2) by (auto simp: is_label_def list_all_iff)

lemma lex_label:
  assumes "is_label w" and "s = [] \<or> \<not> extended_char (hd s)"
  shows "lex (w @ s) = Label w # lex s"
  using lex_word [of w s] label_extended [OF assms(1)] assms by (simp add: word_token_def)

lemma bang_no_match:
  "\<not> extended_char CHR ''!''" "\<not> label_start CHR ''!''" "\<not> mark_char CHR ''!''" "\<not> blank CHR ''!''"
  "\<not> decimal_char CHR ''r''" "\<not> decimal_char CHR ''x''"
  by (simp_all add: extended_char_def label_start_def letters_def mark_char_def blank_def decimal_char_def)

lemma lex_start: "lex (''!rservr'' @ s) = Command_Start # lex s"
proof -
  have "best_match (''!rservr'' @ s) = (Start_Rule, 7)"
    by (simp add: best_match_def rules_def bang_no_match header_length_def numeral_eq_Suc)
  then show ?thesis by (subst lex.simps) (simp add: rule_token_def)
qed

lemma lex_route: "lex (''!route'' @ s) = Route_Start # lex s"
proof -
  have "best_match (''!route'' @ s) = (Route_Rule, 6)"
    by (simp add: best_match_def rules_def bang_no_match header_length_def numeral_eq_Suc)
  then show ?thesis by (subst lex.simps) (simp add: rule_token_def)
qed

lemma lex_unsigned:
  assumes "h \<noteq> []" and "list_all hex_char h" and "s = [] \<or> \<not> hex_char (hd s)"
  shows "lex (''!x'' @ h @ s) = UInteger (of_nat (fst (strtoul16 h))) # lex s"
proof -
  have n: "span hex_char (h @ s) = length h" using span_append [OF assms(2,3)] .
  have "best_match (''!x'' @ h @ s) = (Unsigned_Rule, 2 + length h)"
    using assms(1) n by (simp add: best_match_def rules_def bang_no_match header_length_def)
  then show ?thesis by (subst lex.simps) (simp add: rule_token_def)
qed

lemma backslash_no_match:
  "\<not> extended_char CHR 0x5C" "\<not> label_start CHR 0x5C" "\<not> mark_char CHR 0x5C" "\<not> blank CHR 0x5C"
  "\<not> hex_char CHR 0x5C"
  by (simp_all add: extended_char_def label_start_def letters_def mark_char_def blank_def hex_char_def)

lemma best_header:
  assumes "h \<noteq> []" and "list_all hex_char h"
  shows "best_match (CHR 0x5C # CHR ''T'' # h @ CHR 0x5C # s) = (Text_Rule, length h + 3)"
    and "best_match (CHR 0x5C # CHR ''B'' # h @ CHR 0x5C # s) = (Binary_Rule, length h + 3)"
proof -
  have "span hex_char (h @ CHR 0x5C # s) = length h"
    using span_append [OF assms(2), of "CHR 0x5C # s"] by (simp add: backslash_no_match)
  with assms(1) show "best_match (CHR 0x5C # CHR ''T'' # h @ CHR 0x5C # s) = (Text_Rule, length h + 3)"
    "best_match (CHR 0x5C # CHR ''B'' # h @ CHR 0x5C # s) = (Binary_Rule, length h + 3)"
    by (simp_all add: best_match_def rules_def backslash_no_match header_length_def)
qed

lemma read_counted_all:
  "list_all P d \<Longrightarrow> P c \<Longrightarrow> read_counted P (length d) (d @ c # s) = Some (d, c # s)"
  by (induction d) simp_all

text \<open>Characters that do not count make the data end later.\<close>

lemma read_counted_filter:
  "read_counted P (length (filter P d) + n) (d @ s) =
    (case read_counted P n s of None \<Rightarrow> None | Some (e, rest) \<Rightarrow> Some (filter P d @ e, rest))"
proof (induction d)
  case (Cons c d)
  show ?case
  proof (cases "P c")
    case True
    with Cons show ?thesis by (simp split: option.splits)
  next
    case False
    have "read_counted P k (c # d @ s) = read_counted P k (d @ s)" for k
      using False by (cases k) simp_all
    with Cons False show ?thesis by (cases "read_counted P n s") auto
  qed
qed (simp split: option.splits)

text \<open>Numbers in upper case.\<close>

lemma upper_digit: "n < 16 \<Longrightarrow> digit_value 16 (upper_digits ! n) = Some n"
proof -
  have "\<forall>k \<in> {0..<16}. digit_value 16 (upper_digits ! k) = Some k" by code_simp
  then show "n < 16 \<Longrightarrow> digit_value 16 (upper_digits ! n) = Some n" by simp
qed

lemma upper_hex: "n < 16 \<Longrightarrow> hex_char (upper_digits ! n)"
proof -
  have "\<forall>k \<in> {0..<16}. hex_char (upper_digits ! k)" by code_simp
  then show "n < 16 \<Longrightarrow> hex_char (upper_digits ! n)" by simp
qed

lemma print_upper_hex_all: "list_all hex_char (print_upper n)"
proof (induction n rule: print_upper.induct)
  case (1 n)
  have "hex_char (upper_digits ! (n mod 16))" by (rule upper_hex) simp
  with 1 show ?case by (subst print_upper.simps) (auto simp: upper_hex)
qed

lemma print_upper_not_Nil: "print_upper n \<noteq> []"
  by (subst print_upper.simps) simp

lemma hex_not_NUL: "\<not> hex_char CHR 0x00" "\<not> hex_char CHR ''x''" "\<not> hex_char CHR ''X''"
  by (simp_all add: hex_char_def)

lemma print_upper_hex: "list_all hex_char (print_upper n) \<and> print_upper n \<noteq> [] \<and> CHR 0x00 \<notin> set (print_upper n)"
  using print_upper_hex_all [of n] print_upper_not_Nil [of n] hex_not_NUL(1) by (auto simp: list_all_iff)

lemma read_print_upper: "read_digits 16 0 (print_upper n) = (n, [])"
proof (induction n rule: print_upper.induct)
  case (1 n)
  show ?case
  proof (cases "n < 16")
    case True
    then show ?thesis by (subst print_upper.simps) (simp add: upper_digit)
  next
    case False
    with 1 have "read_digits 16 0 (print_upper (n div 16)) = (n div 16, [])" by simp
    then have "read_digits 16 0 (print_upper (n div 16) @ [upper_digits ! (n mod 16)])
        = read_digits 16 (n div 16) [upper_digits ! (n mod 16)]"
      by (rule read_digits_append)
    with False show ?thesis by (subst print_upper.simps) (simp add: upper_digit)
  qed
qed

lemma strtoul16_upper: "n < 2 ^ 64 \<Longrightarrow> strtoul16 (print_upper n) = (n, [])"
proof -
  assume n: "n < 2 ^ 64"
  have hex: "hex_char c \<Longrightarrow> \<not> is_space c \<and> c \<noteq> CHR ''-'' \<and> c \<noteq> CHR ''+'' \<and> c \<noteq> CHR ''x'' \<and> c \<noteq> CHR ''X''" for c
    by (auto simp: hex_char_def is_space_def)
  have s: "dropWhile is_space w = w \<and> take_sign w = (False, w) \<and> take_prefix 16 w = w"
    if "list_all hex_char w" for w
    using that hex hex_not_NUL(2,3) by (cases w) (auto simp: take_sign_def take_prefix_def split: list.split)
  note s [OF print_upper_hex [THEN conjunct1]]
  with n read_print_upper [of n] print_upper_hex [of n] show ?thesis
    by (auto simp: strtoul16_def strto_def Let_def)
qed

section \<open>Numbers and data\<close>

lemma hex_end: "\<not> hex_char CHR 0x0A" "\<not> hex_char CHR 0x5C" "\<not> extended_char CHR 0x0A" "\<not> extended_char CHR '' ''"
  "blank CHR 0x0A" "blank CHR '' ''"
  by (simp_all add: hex_char_def extended_char_def letters_def blank_def)

lemma lex_number:
  assumes "v < 2 ^ 32" and "s = [] \<or> \<not> hex_char (hd s)"
  shows "lex (''!x'' @ print_upper v @ s) = UInteger (of_nat v) # lex s"
  using lex_unsigned [of "print_upper v" s] print_upper_hex [of v] strtoul16_upper [of v] assms by simp

lemma header_target_upper:
  "v < 2 ^ 32 \<Longrightarrow> header_target (CHR 0x5C # x # print_upper v @ [CHR 0x5C]) = of_nat v"
  using strtoul16_upper [of v] by (simp add: header_target_def)

lemma take_header: "take (length h + 3) (a # b # h @ c # s) = a # b # h @ [c]" "drop (length h + 3) (a # b # h @ c # s) = s"
  by (simp_all add: numeral_eq_Suc)

text \<open>Data is scanned as it was written when each of its characters counts.\<close>

lemma lex_text:
  assumes "list_all (\<lambda>c. c \<noteq> CHR 0x00) d" and "length d < 2 ^ 32 - 1" and "c \<noteq> CHR 0x00"
  shows "lex (CHR 0x5C # CHR ''T'' # print_upper (length d) @ CHR 0x5C # d @ c # s) = Text d # lex (c # s)"
proof -
  let ?h = "print_upper (length d)"
  note b = best_header(1) [of ?h "d @ c # s"] print_upper_hex [of "length d"]
  have t: "header_target (CHR 0x5C # CHR ''T'' # ?h @ [CHR 0x5C]) = of_nat (length d)"
    using header_target_upper assms(2) by simp
  have n: "(of_nat (length d) :: u32) + 1 \<noteq> 0 \<and> unat ((of_nat (length d) :: u32) + 1) - 1 = length d"
  proof -
    have "(of_nat (length d) :: u32) + 1 = of_nat (length d + 1)" by simp
    moreover have "unat (of_nat (length d + 1) :: u32) = length d + 1"
      using assms(2) by (simp add: unat_of_nat take_bit_nat_eq_self del: of_nat_add of_nat_Suc)
    ultimately show ?thesis by (metis add_diff_cancel_right' add_is_0 one_neq_zero unat_0)
  qed
  have "read_text (length d) (d @ c # s) = Some (d, c # s)"
    using read_counted_all [of _ d c s] assms(1,3) by (simp add: read_text_def)
  with b t n show ?thesis
    by (subst lex.simps) (simp add: take_header)
qed

lemma lex_binary_read:
  assumes "n < 2 ^ 32" and "n \<noteq> 0" and "read_binary n u = Some (d, rest)"
  shows "lex (CHR 0x5C # CHR ''B'' # print_upper n @ CHR 0x5C # u) = Binary d # lex rest"
proof -
  note b = best_header(2) [of "print_upper n" u] print_upper_hex [of n]
  have t: "header_target (CHR 0x5C # CHR ''B'' # print_upper n @ [CHR 0x5C]) = of_nat n"
    using header_target_upper assms(1) by simp
  have u: "unat (of_nat n :: u32) = n" using assms(1) by (simp add: unat_of_nat take_bit_nat_eq_self)
  then have "(of_nat n :: u32) \<noteq> 0" using assms(2) by (metis unat_0)
  with b t u assms(3) show ?thesis by (subst lex.simps) (simp add: take_header)
qed

lemma lex_binary:
  assumes "list_all (\<lambda>c. c \<noteq> CHR 0x0A) d" and "length d < 2 ^ 32" and "d \<noteq> []"
    and "dropWhile (\<lambda>c. c = CHR 0x0A) s = c # s'"
  shows "lex (CHR 0x5C # CHR ''B'' # print_upper (length d) @ CHR 0x5C # d @ s) = Binary d # lex (c # s')"
proof -
  have r: "read_counted (\<lambda>c. c \<noteq> CHR 0x0A) 0 s = Some ([], c # s')"
    using assms(4) by (induction s) (auto split: if_splits)
  have f: "filter (\<lambda>c. c \<noteq> CHR 0x0A) d = d" using assms(1) by (simp add: filter_id_conv list_all_iff)
  have "read_binary (length d) (d @ s) = Some (d, c # s')"
    using read_counted_filter [of "\<lambda>c. c \<noteq> CHR 0x0A" d 0 s] r f by (simp add: read_binary_def)
  with assms(2,3) show ?thesis by (intro lex_binary_read) simp_all
qed

end
