(* ===== verification/Command_Parser.thy ===== *)
theory Command_Parser
  imports Command_Lexer
begin

text \<open>
  The parser of the command language (\<open>libs/protocol/ipc/ipc-parser.y\<close>) and
  \<open>lexer_input::parse_command\<close> (\<open>common-input.cpp\<close>), which feeds it. It is a push parser: \<open>pstate\<close> is
  how far it is in the grammar, \<open>push_token\<close> what one token does, the actions of the productions included.
\<close>

section \<open>States\<close>

type_synonym frame = "string \<times> data_section list"

text \<open>
  \<open>Outside\<close> is the state before a command, which is also that after an error: \<open>input: error command\<close>
  drops what is not the start of a command. Within \<open>content\<close> the groups not yet closed are a stack,
  each with its name and the sections before it.
\<close>

datatype pstate =
    Outside
  | Started
  | Name_Expected
  | Named string
  | Name_Closed string
  | Body_Start string
  | Route_Named string
  | Routing string bool
  | Property string string
  | Value string string
  | Content string "frame list" "data_section list"
  | Section string "frame list" "data_section list" string
  | Section_Value string "frame list" "data_section list" string

text \<open>What a token does: the parser goes on; it accepts; a syntax error, after which the token is
  looked at again; \<open>YYERROR\<close> in an action, which has used the token up.\<close>

datatype push =
    Go pstate
  | Accept string "data_section list"
  | Syntax_Error
  | Action_Error

section \<open>Productions\<close>

text \<open>\<open>content\<close>, \<open>data\<close>, \<open>block\<close>, \<open>text\<close>, \<open>binary\<close> and \<open>group\<close>.\<close>

definition open_group :: "string \<Rightarrow> frame list \<Rightarrow> data_section list \<Rightarrow> string \<Rightarrow> push" where
  "open_group nm fs acc g = Go (Content nm ((g, acc) # fs) [])"

definition close_group :: "string \<Rightarrow> frame list \<Rightarrow> data_section list \<Rightarrow> push" where
  "close_group nm fs acc =
     (case fs of
        [] \<Rightarrow> Accept nm acc
      | (g, outer) # fs' \<Rightarrow> Go (Content nm fs' (outer @ [Group_Section g acc])))"

definition content_token :: "string \<Rightarrow> frame list \<Rightarrow> data_section list \<Rightarrow> token \<Rightarrow> push" where
  "content_token nm fs acc t =
     (case t of
        Text d \<Rightarrow> Go (Content nm fs (acc @ [text_data_section [] d]))
      | Binary d \<Rightarrow> Go (Content nm fs (acc @ [sized_data_section [] d]))
      | Label l \<Rightarrow> Go (Section nm fs acc l)
      | Mark m \<Rightarrow>
          if m = CHR ''{'' then open_group nm fs acc []
          else if m = CHR ''}'' then close_group nm fs acc
          else Syntax_Error
      | _ \<Rightarrow> Syntax_Error)"

definition section_value :: "string \<Rightarrow> frame list \<Rightarrow> data_section list \<Rightarrow> string \<Rightarrow> token \<Rightarrow> push" where
  "section_value nm fs acc l t =
     (case t of
        Text d \<Rightarrow> Go (Content nm fs (acc @ [text_data_section l d]))
      | Binary d \<Rightarrow> Go (Content nm fs (acc @ [sized_data_section l d]))
      | Mark m \<Rightarrow> if m = CHR ''{'' then open_group nm fs acc l else Syntax_Error
      | _ \<Rightarrow> Syntax_Error)"

text \<open>\<open>property\<close>: the value goes to the command being read.\<close>

definition property_value ::
  "string \<Rightarrow> string \<Rightarrow> token \<Rightarrow> command_transmit \<Rightarrow> push \<times> command_transmit" where
  "property_value nm l t c =
     (let done_with = (\<lambda>(ok, c'). (if ok then Go (Routing nm True) else Action_Error, c'))
      in case t of
           Label v \<Rightarrow> done_with (string_property (Some l) (Some v) c)
         | Extended v \<Rightarrow> done_with (string_property (Some l) (Some v) c)
         | SInteger v \<Rightarrow> done_with (sinteger_property (Some l) v c)
         | UInteger v \<Rightarrow> done_with (uinteger_property (Some l) v c)
         | _ \<Rightarrow> (Syntax_Error, c))"

definition want_mark :: "char \<Rightarrow> pstate \<Rightarrow> token \<Rightarrow> push" where
  "want_mark m p t = (if t = Mark m then Go p else Syntax_Error)"

text \<open>\<open>routing\<close> has at least one property.\<close>

definition routing_token :: "string \<Rightarrow> bool \<Rightarrow> token \<Rightarrow> push" where
  "routing_token nm some t =
     (case t of
        Label l \<Rightarrow> Go (Property nm l)
      | Mark m \<Rightarrow> if some \<and> m = CHR ''}'' then Go (Content nm [] []) else Syntax_Error
      | _ \<Rightarrow> Syntax_Error)"

fun push_token :: "pstate \<Rightarrow> token \<Rightarrow> command_transmit \<Rightarrow> push \<times> command_transmit" where
  "push_token Outside t c = (if t = Command_Start then Go Started else Syntax_Error, c)"
| "push_token Started t c = (want_mark CHR ''['' Name_Expected t, c)"
| "push_token Name_Expected t c = (case t of Label l \<Rightarrow> Go (Named l) | _ \<Rightarrow> Syntax_Error, c)"
| "push_token (Named nm) t c = (want_mark CHR '']'' (Name_Closed nm) t, c)"
| "push_token (Name_Closed nm) t c = (want_mark CHR ''{'' (Body_Start nm) t, c)"
| "push_token (Body_Start nm) t c =
     (if t = Route_Start then Go (Route_Named nm) else content_token nm [] [] t, c)"
| "push_token (Route_Named nm) t c = (want_mark CHR ''{'' (Routing nm False) t, c)"
| "push_token (Routing nm some) t c = (routing_token nm some t, c)"
| "push_token (Property nm l) t c = (want_mark CHR ''='' (Value nm l) t, c)"
| "push_token (Value nm l) t c = property_value nm l t c"
| "push_token (Content nm fs acc) t c = (content_token nm fs acc t, c)"
| "push_token (Section nm fs acc l) t c = (want_mark CHR ''='' (Section_Value nm fs acc l) t, c)"
| "push_token (Section_Value nm fs acc l) t c = (section_value nm fs acc l t, c)"

text \<open>After a syntax error the token is kept if a command can start with it.\<close>

definition recover :: "token \<Rightarrow> pstate" where
  "recover t = (if t = Command_Start then Started else Outside)"

section \<open>The loop\<close>

text \<open>
  \<open>parse_loop\<close>: tokens are pushed until a command is complete. The end of the input is the token zero,
  which ends an unfinished command too. What is left of the tokens is the scanner's state.
\<close>

fun parse_loop ::
  "pstate \<Rightarrow> command_transmit \<Rightarrow> token list \<Rightarrow> bool \<times> pstate \<times> command_transmit \<times> token list" where
  "parse_loop p c [] = (False, Outside, c, [])"
| "parse_loop p c (t # ts) =
     (case push_token p t c of
        (Go p', c') \<Rightarrow> parse_loop p' c' ts
      | (Accept nm tr, c') \<Rightarrow> (True, Outside, c'\<lparr>tree := tr, command_label := nm\<rparr>, ts)
      | (Syntax_Error, c') \<Rightarrow> parse_loop (recover t) c' ts
      | (Action_Error, c') \<Rightarrow> parse_loop Outside c' ts)"

record lexer_input =
  parser_state :: pstate
  context_command :: "command_transmit option"
  pending :: "token list"

definition clear_parser :: "lexer_input \<Rightarrow> lexer_input" where
  "clear_parser i = i\<lparr>parser_state := Outside, context_command := None, pending := []\<rparr>"

definition clear_command :: "u32 \<Rightarrow> command_transmit \<Rightarrow> command_transmit" where
  "clear_command pid c = command_info.extend (clear_info pid)
     \<lparr>wait_start = wait_start c, execute_type = execute_type c, no_send = no_send c, send_to = send_to c,
      command = None, tree = [], command_label = []\<rparr>"

text \<open>\<open>parse_command\<close>; \<open>finder\<close> is the program's \<open>find_command\<close>. \<open>context.command\<close> is made anew only after
  a complete command.\<close>

definition parse_command ::
  "(command_transmit \<Rightarrow> bool \<times> command_transmit) \<Rightarrow> u32 \<Rightarrow> command_transmit \<Rightarrow> lexer_input \<Rightarrow>
    bool \<times> command_transmit \<times> lexer_input" where
  "parse_command finder pid cCommand i =
     (let ctx = (case context_command i of None \<Rightarrow> new_transmit pid | Some c \<Rightarrow> c)
      in case parse_loop (parser_state i) ctx (pending i) of (complete, p, c, rest) \<Rightarrow>
        if \<not> complete then (False, cCommand, i\<lparr>parser_state := p, context_command := Some c, pending := rest\<rparr>)
        else
          let c1 = assign_transmit (clear_command pid cCommand) c;
              c2 = (if tree c1 = [] then c1\<lparr>tree := [Empty_Section []]\<rparr> else c1);
              (found, c3) = finder c2
          in (found, c3, i\<lparr>parser_state := p, context_command := None, pending := rest\<rparr>))"

end
