(* ===== verification/Command_Text.thy ===== *)
theory Command_Text
  imports Command_Parser
begin

text \<open>
  The text of a command (\<open>send_data\<close> of \<open>Transmit\<close>) and its reading: what the scanner makes of the text
  line by line, what the parser makes of these tokens, and both together.
\<close>

section \<open>Lines of the route\<close>

lemma print_upper_length: "0 < k \<Longrightarrow> n < 16 ^ k \<Longrightarrow> length (print_upper n) \<le> k"
proof (induction k arbitrary: n)
  case (Suc k)
  show ?case
  proof (cases "n < 16")
    case True
    then show ?thesis by (subst print_upper.simps) simp
  next
    case False
    then have "k \<noteq> 0" using Suc.prems(2) by (cases k) auto
    moreover have "n div 16 < 16 ^ k" using Suc.prems(2) by (simp add: less_mult_imp_div_less mult.commute)
    ultimately have "length (print_upper (n div 16)) \<le> k" using Suc.IH by simp
    with False show ?thesis by (subst print_upper.simps) simp
  qed
qed simp

lemma print_upper_u32: "n < 2 ^ 32 \<Longrightarrow> length (print_upper n) \<le> 8"
  by (rule print_upper_length) simp_all

lemma lex_space: "lex (CHR '' '' # s) = lex s" "lex (CHR 0x0A # s) = lex s"
  by (simp_all add: lex_blank hex_end)

lemma lex_marks:
  "lex (CHR ''['' # s) = Mark CHR ''['' # lex s" "lex (CHR '']'' # s) = Mark CHR '']'' # lex s"
  "lex (CHR ''{'' # s) = Mark CHR ''{'' # lex s" "lex (CHR ''}'' # s) = Mark CHR ''}'' # lex s"
  "lex (CHR ''='' # s) = Mark CHR ''='' # lex s"
  by (simp_all add: lex_mark mark_char_def)

text \<open>The labels of the properties.\<close>

definition property_labels :: "string list" where
  "property_labels = [''_v'', ''_p'', ''_or'', ''_tr'', ''_rr'', ''_cp'', ''_t'', ''_sr'', ''_oe'', ''_oa'',
     ''_te'', ''_ta'', ''_st'']"

lemma property_label: "l \<in> set property_labels \<Longrightarrow> is_label l \<and> length l \<le> 3"
  by (auto simp: property_labels_def is_label_def label_start_def label_char_def letters_def)

lemma lex_assign:
  assumes "is_label l"
  shows "lex (l @ '' = '' @ s) = Label l # Mark CHR ''='' # lex s"
  using lex_label [OF assms, of "'' = '' @ s"] by (simp add: hex_end lex_space lex_marks)

lemma lex_hex_line:
  assumes "l \<in> set property_labels" and "v < 2 ^ 32"
  shows "lex (hex_line l v @ s) = Label l # Mark CHR ''='' # UInteger (of_nat v) # lex s"
proof -
  have fits: "hex_line l v = ''    '' @ l @ '' = '' @ ''!x'' @ print_upper v @ [CHR 0x0A]"
    using property_label [OF assms(1)] print_upper_u32 [OF assms(2)]
    by (auto simp: hex_line_def snprintf_text_def)
  show ?thesis
    using lex_assign [of l "''!x'' @ print_upper v @ CHR 0x0A # s"] property_label [OF assms(1)]
      lex_number [OF assms(2), of "CHR 0x0A # s"]
    by (simp add: fits lex_space hex_end)
qed

text \<open>A value that is scanned as one word and fits in its line.\<close>

definition word_value :: "string \<Rightarrow> bool" where
  "word_value v \<longleftrightarrow> list_all extended_char v \<and> length v \<le> 244"

lemma lex_text_line:
  assumes "l \<in> set property_labels" and "word_value v" and "v \<noteq> []"
  shows "lex (text_line l v @ s) = Label l # Mark CHR ''='' # word_token v # lex s"
proof -
  have fits: "text_line l v = ''    '' @ l @ '' = '' @ v @ [CHR 0x0A]"
    using property_label [OF assms(1)] assms(2) by (auto simp: text_line_def snprintf_text_def word_value_def)
  show ?thesis
    using lex_assign [of l "v @ CHR 0x0A # s"] property_label [OF assms(1)]
      lex_word [of v "CHR 0x0A # s"] assms(2,3)
    by (simp add: fits lex_space hex_end word_value_def)
qed

section \<open>The route\<close>

definition number_tokens :: "string \<Rightarrow> u32 \<Rightarrow> token list" where
  "number_tokens l v = [Label l, Mark CHR ''='', UInteger v]"

definition word_tokens :: "string \<Rightarrow> string \<Rightarrow> token list" where
  "word_tokens l v = (if v = [] then [] else [Label l, Mark CHR ''='', word_token v])"

definition route_tokens :: "u32 \<Rightarrow> command_transmit \<Rightarrow> token list" where
  "route_tokens now c =
     [Route_Start, Mark CHR ''{''] @ word_tokens ''_v'' protocol_version @
     number_tokens ''_p'' (ucast (priority c)) @ number_tokens ''_or'' (orig_reference c) @
     number_tokens ''_tr'' (target_reference c) @ number_tokens ''_rr'' (remote_reference c) @
     number_tokens ''_cp'' (creator_pid c) @
     number_tokens ''_t'' (if send_time c \<noteq> 0 then send_time c else now) @
     (if silent_auto_response c then number_tokens ''_sr'' 1 else []) @
     word_tokens ''_oe'' (orig_entity c) @ word_tokens ''_oa'' (orig_address c) @
     word_tokens ''_te'' (target_entity c) @ word_tokens ''_ta'' (target_address c) @
     (if sender_type c \<noteq> type_none then number_tokens ''_st'' (ucast (sender_type c)) else []) @
     [Mark CHR ''}'']"

definition route_ok :: "command_transmit \<Rightarrow> bool" where
  "route_ok c \<longleftrightarrow> word_value (orig_entity c) \<and> word_value (orig_address c) \<and>
     word_value (target_entity c) \<and> word_value (target_address c)"

lemma lex_number_property:
  assumes "l \<in> set property_labels" and "v < 2 ^ 32"
  shows "lex (hex_line l v @ s) = number_tokens l (of_nat v) @ lex s"
  using lex_hex_line [OF assms] by (simp add: number_tokens_def)

lemma lex_word_property:
  assumes "l \<in> set property_labels" and "word_value v"
  shows "lex ((if v \<noteq> [] then text_line l v else []) @ s) = word_tokens l v @ lex s"
  using lex_text_line [OF assms] by (simp add: word_tokens_def)

lemma unat_lt_of: "unat (w :: 'a::len word) < 2 ^ LENGTH('a)"
  by (rule unsigned_less)

lemma unat_u32: "unat (v :: u32) < 2 ^ 32" "unat (b :: u8) < 2 ^ 32" "unat (m :: mask16) < 2 ^ 32"
proof -
  show "unat v < 2 ^ 32" using unat_lt_of [of v] by simp
  show "unat b < 2 ^ 32" using unat_lt_of [of b] by simp
  show "unat m < 2 ^ 32" using unat_lt_of [of m] by simp
qed

text \<open>The text of the route is scanned as its tokens.\<close>

lemma lex_literal_route: "lex (''  !route {'' @ [CHR 0x0A] @ s) = [Route_Start, Mark CHR ''{''] @ lex s"
  "lex (''  }'' @ [CHR 0x0A] @ s) = [Mark CHR ''}''] @ lex s"
  using lex_route [of "'' {'' @ CHR 0x0A # s"] by (simp_all add: lex_space lex_marks)

lemma version_word: "word_value protocol_version"
  by (simp add: word_value_def protocol_version_def extended_char_def letters_def)

lemma lex_silent:
  "lex ((if b then snprintf_text 256 (''    '' @ ''_sr'' @ '' = !x1'' @ [CHR 0x0A]) else []) @ s)
    = (if b then number_tokens ''_sr'' 1 else []) @ lex s"
proof -
  have "print_upper 1 = ''1''" by (subst print_upper.simps) (simp add: upper_digits_def)
  then have "snprintf_text 256 (''    '' @ ''_sr'' @ '' = !x1'' @ [CHR 0x0A]) = hex_line ''_sr'' 1"
    by (simp add: hex_line_def)
  with lex_number_property [of "''_sr''" 1 s] show ?thesis by (simp add: property_labels_def)
qed

lemma lex_route_text:
  assumes "route_ok c"
  shows "lex (route_text now c @ s) = route_tokens now c @ lex s"
proof -
  have l: "set property_labels = {''_v'', ''_p'', ''_or'', ''_tr'', ''_rr'', ''_cp'', ''_t'', ''_sr'', ''_oe'', ''_oa'',
     ''_te'', ''_ta'', ''_st''}" by (simp add: property_labels_def)
  have t: "lex ((if b then hex_line ''_st'' (unat m) else []) @ s)
      = (if b then number_tokens ''_st'' (ucast m) else []) @ lex s" for b s and m :: mask16
    using lex_number_property [of "''_st''" "unat m" s] unat_u32 l by simp
  note w = lex_word_property [unfolded l]
  note n = lex_number_property [unfolded l]
  show ?thesis
    using assms unfolding route_text_def route_tokens_def route_ok_def
    by (simp only: lex_literal_route n [OF _ unat_u32(1)] n [OF _ unat_u32(2)]
        of_nat_unat w version_word t lex_silent append_assoc insert_iff simp_thms ucast_id)
qed

section \<open>The data\<close>

text \<open>
  Trees whose text keeps them: names are labels that fit in their line, text is free of null characters,
  binary data is not empty and free of null characters and ends of lines, groups are not nested too
  deeply for the buffer; \<open>k\<close> is the length of the prefix.
\<close>

definition name_ok :: "nat \<Rightarrow> string \<Rightarrow> bool" where
  "name_ok k n \<longleftrightarrow> n = [] \<or> (is_label n \<and> k + length n \<le> 2044)"

definition data_ok :: "bool \<Rightarrow> string \<Rightarrow> bool" where
  "data_ok b d \<longleftrightarrow> no_NUL d \<and> length d < 2 ^ 32 - 1 \<and> (b \<longrightarrow> d \<noteq> [] \<and> CHR 0x0A \<notin> set d)"

fun section_ok :: "nat \<Rightarrow> data_section \<Rightarrow> bool" and tree_ok :: "nat \<Rightarrow> data_section list \<Rightarrow> bool" where
  "section_ok k (Empty_Section n) = False"
| "section_ok k (Data_Section n b d) = (name_ok k n \<and> data_ok b d)"
| "section_ok k (Group_Section n cs) = (name_ok k n \<and> k \<le> 2045 \<and> tree_ok (k + 2) cs)"
| "tree_ok k [] = True"
| "tree_ok k (x # xs) = (section_ok k x \<and> tree_ok k xs)"

definition name_tokens :: "string \<Rightarrow> token list" where
  "name_tokens n = (if n = [] then [] else [Label n, Mark CHR ''=''])"

fun section_tokens :: "data_section \<Rightarrow> token list" and tree_tokens :: "data_section list \<Rightarrow> token list" where
  "section_tokens (Empty_Section n) = name_tokens n"
| "section_tokens (Data_Section n b d) = name_tokens n @ [if b then Binary d else Text d]"
| "section_tokens (Group_Section n cs) = name_tokens n @ [Mark CHR ''{''] @ tree_tokens cs @ [Mark CHR ''}'']"
| "tree_tokens [] = []"
| "tree_tokens (x # xs) = section_tokens x @ tree_tokens xs"

definition indent :: "string \<Rightarrow> bool" where
  "indent p \<longleftrightarrow> p \<noteq> [] \<and> list_all (\<lambda>c. c = CHR '' '') p"

lemma lex_indent: "indent p \<Longrightarrow> lex (p @ s) = lex s"
  using list.pred_mono_strong [of "\<lambda>c. c = CHR '' ''" p blank] lex_blanks [of p s] hex_end(6) by (auto simp: indent_def)

lemma indent_Cons: "indent p \<Longrightarrow> \<exists>q. p = CHR '' '' # q"
  by (cases p) (auto simp: indent_def)

lemma indent_deeper: "indent p \<Longrightarrow> indent (p @ ''  '')"
  by (simp add: indent_def)

lemma lex_name:
  assumes "indent p" and "name_ok (length p) n"
  shows "lex ((if n \<noteq> [] then snprintf_text 2048 (p @ n @ '' = '') else p) @ s) = name_tokens n @ lex s"
  using assms lex_assign [of n s] lex_indent [OF assms(1)]
  by (auto simp: name_ok_def name_tokens_def snprintf_text_def)

text \<open>What follows data in the text of a command.\<close>

definition goes_on :: "string \<Rightarrow> bool" where
  "goes_on s \<longleftrightarrow> s \<noteq> [] \<and> hd s \<noteq> CHR 0x0A \<and> hd s \<noteq> CHR 0x00"

lemma lex_data:
  assumes "data_ok b d" and "goes_on s"
  shows "lex (snprintf_text 2048 ([CHR 0x5C, if b then CHR ''B'' else CHR ''T''] @ print_upper (length d)
       @ [CHR 0x5C]) @ filter (\<lambda>c. c \<noteq> CHR 0x00) d @ [CHR 0x0A] @ s) = (if b then Binary d else Text d) # lex s"
proof -
  have d: "length d < 2 ^ 32 - 1" "no_NUL d" using assms(1) by (simp_all add: data_ok_def)
  then have f: "filter (\<lambda>c. c \<noteq> CHR 0x00) d = d" by (auto simp: filter_id_conv no_NUL_def)
  have "length (print_upper (length d)) \<le> 8" using d(1) by (intro print_upper_u32) simp
  then have h: "snprintf_text 2048 ([CHR 0x5C, x] @ print_upper (length d) @ [CHR 0x5C])
      = CHR 0x5C # x # print_upper (length d) @ [CHR 0x5C]" for x
    by (simp add: snprintf_text_def)
  show ?thesis
  proof (cases b)
    case True
    then have "d \<noteq> [] \<and> list_all (\<lambda>c. c \<noteq> CHR 0x0A) d" using assms(1) by (auto simp: data_ok_def list_all_iff)
    moreover have "dropWhile (\<lambda>c. c = CHR 0x0A) (CHR 0x0A # s) = hd s # tl s"
      using assms(2) by (cases s) (auto simp: goes_on_def)
    moreover have "hd s # tl s = s" using assms(2) by (simp add: goes_on_def)
    ultimately show ?thesis using lex_binary [of d "CHR 0x0A # s" "hd s" "tl s"] d f h True by simp
  next
    case False
    have "list_all (\<lambda>c. c \<noteq> CHR 0x00) d" using d(2) by (auto simp: no_NUL_def list_all_iff)
    with False lex_text [of d "CHR 0x0A" s] d f h show ?thesis by (simp add: lex_space)
  qed
qed

lemma goes_on_name:
  assumes "indent p"
  shows "goes_on ((if n \<noteq> [] then snprintf_text 2048 (p @ n @ '' = '') else p) @ s)"
  using indent_Cons [OF assms] by (auto simp: goes_on_def snprintf_text_def)

lemma goes_on_section: "indent p \<Longrightarrow> goes_on (export_section p x @ s)"
  using goes_on_name by (cases x) simp_all

text \<open>The text of a tree, whatever goes on after it, is scanned as the tokens of the tree.\<close>

lemma lex_tree:
  "indent p \<Longrightarrow> section_ok (length p) x \<Longrightarrow> goes_on s \<Longrightarrow> lex (export_section p x @ s) = section_tokens x @ lex s"
  "indent p \<Longrightarrow> tree_ok (length p) xs \<Longrightarrow> goes_on s \<Longrightarrow>
    lex (export_tree p xs @ s) = tree_tokens xs @ lex s \<and> goes_on (export_tree p xs @ s)"
proof (induction p x and p xs arbitrary: s and s rule: export_section_export_tree.induct)
  case (2 p n b d)
  then have "lex (export_section p (Data_Section n b d) @ s) = name_tokens n @
      lex (snprintf_text 2048 ([CHR 0x5C, if b then CHR ''B'' else CHR ''T''] @ print_upper (length d)
       @ [CHR 0x5C]) @ filter (\<lambda>c. c \<noteq> CHR 0x00) d @ [CHR 0x0A] @ s)"
    unfolding export_section.simps append_assoc by (intro lex_name) simp_all
  also have "\<dots> = section_tokens (Data_Section n b d) @ lex s"
    using lex_data [of b d s] 2 by simp
  finally show ?case .
next
  case (3 p n cs)
  let ?e = "snprintf_text 2048 (p @ ''}'' @ [CHR 0x0A])"
  have e: "?e = p @ ''}'' @ [CHR 0x0A]" using 3(3) by (auto simp: snprintf_text_def)
  have le: "lex (?e @ s) = Mark CHR ''}'' # lex s" unfolding e append_assoc lex_indent [OF 3(2)] by (simp add: lex_marks lex_space)
  have ge: "goes_on (?e @ s)" unfolding e append_assoc using indent_Cons [OF 3(2)] by (auto simp: goes_on_def)
  have i: "indent (p @ ''  '')" by (rule indent_deeper [OF 3(2)])
  have t: "lex (export_tree (p @ ''  '') cs @ ?e @ s) = tree_tokens cs @ lex (?e @ s)"
    using 3(1) [OF i _ ge] 3(3) by simp
  have "lex (export_section p (Group_Section n cs) @ s) = name_tokens n @ lex (''{'' @ [CHR 0x0A] @ export_tree (p @ ''  '') cs @ ?e @ s)"
    unfolding export_section.simps append_assoc using 3 by (intro lex_name) simp_all
  also have "\<dots> = section_tokens (Group_Section n cs) @ lex s" using t le by (simp add: lex_marks lex_space)
  finally show ?case .
next
  case (5 p x xs)
  from 5(2) [OF 5(3) _ 5(5)] 5(4) have t: "lex (export_tree p xs @ s) = tree_tokens xs @ lex s" "goes_on (export_tree p xs @ s)" by simp_all
  from 5(1) [OF 5(3) _ t(2)] 5(4) t(1) show ?case
    by (simp add: goes_on_section [OF 5(3)])
qed simp_all

section \<open>Reading the tokens\<close>

text \<open>The tokens of a tree put the tree at the end of what was read in the group.\<close>

lemma parse_tree:
  "section_ok k x \<Longrightarrow>
    parse_loop (Content nm fs acc) c (section_tokens x @ ts) = parse_loop (Content nm fs (acc @ [x])) c ts"
  "tree_ok k xs \<Longrightarrow>
    parse_loop (Content nm fs acc) c (tree_tokens xs @ ts) = parse_loop (Content nm fs (acc @ xs)) c ts"
proof (induction k x and k xs arbitrary: fs acc ts and fs acc ts rule: section_ok_tree_ok.induct)
  case (2 k n b d)
  then show ?case
    by (auto simp: name_tokens_def content_token_def section_value_def want_mark_def data_ok_def
        text_data_section_def sized_data_section_def)
next
  case (3 k n cs)
  then show ?case
    by (simp add: name_tokens_def content_token_def section_value_def want_mark_def open_group_def close_group_def)
qed simp_all

definition read_property :: "string \<Rightarrow> token \<Rightarrow> command_transmit \<Rightarrow> bool \<times> command_transmit" where
  "read_property l t c =
     (case t of
        Label v \<Rightarrow> string_property (Some l) (Some v) c
      | Extended v \<Rightarrow> string_property (Some l) (Some v) c
      | SInteger v \<Rightarrow> sinteger_property (Some l) v c
      | UInteger v \<Rightarrow> uinteger_property (Some l) v c
      | _ \<Rightarrow> (False, c))"

lemma parse_property:
  assumes "read_property l t c = (True, c')"
  shows "parse_loop (Routing nm b) c ([Label l, Mark CHR ''='', t] @ ts) = parse_loop (Routing nm True) c' ts"
  using assms by (cases t) (auto simp: routing_token_def want_mark_def property_value_def read_property_def)

definition set_number :: "string \<Rightarrow> u32 \<Rightarrow> command_transmit \<Rightarrow> command_transmit" where
  "set_number l v c = snd (uinteger_property (Some l) v c)"

definition set_word :: "string \<Rightarrow> string \<Rightarrow> command_transmit \<Rightarrow> command_transmit" where
  "set_word l v c = (if v = [] then c else snd (string_property (Some l) (Some v) c))"

lemma parse_number:
  assumes "l \<in> {''_p'', ''_or'', ''_tr'', ''_rr'', ''_cp'', ''_t'', ''_sr'', ''_st''}"
  shows "parse_loop (Routing nm b) c (number_tokens l v @ ts) = parse_loop (Routing nm True) (set_number l v c) ts"
  unfolding number_tokens_def using assms
  by (intro parse_property) (auto simp: read_property_def set_number_def uinteger_property_def)

lemma parse_word:
  assumes "l \<in> {''_oe'', ''_oa'', ''_te'', ''_ta''}"
  shows "parse_loop (Routing nm True) c (word_tokens l v @ ts) = parse_loop (Routing nm True) (set_word l v c) ts"
proof (cases "v = []")
  case False
  have "string_property (Some l) (Some v) c = (True, set_word l v c)"
    using assms False by (auto simp: set_word_def string_property_def)
  with False parse_property [of l "word_token v" c "set_word l v c" nm True ts] show ?thesis
    by (simp add: word_tokens_def word_token_def read_property_def)
qed (simp add: word_tokens_def set_word_def)

lemma parse_version:
  "parse_loop (Routing nm b) c (word_tokens ''_v'' protocol_version @ ts) = parse_loop (Routing nm True) c ts"
  using parse_property [of "''_v''" "word_token protocol_version" c c nm b ts]
  by (simp add: word_tokens_def word_token_def read_property_def string_property_def protocol_version_def)

lemma parse_number_if:
  assumes "l \<in> {''_p'', ''_or'', ''_tr'', ''_rr'', ''_cp'', ''_t'', ''_sr'', ''_st''}"
  shows "parse_loop (Routing nm True) c ((if b then number_tokens l v else []) @ ts)
    = parse_loop (Routing nm True) (if b then set_number l v c else c) ts"
  using parse_number [OF assms] by simp

text \<open>What the fields of a route are read into.\<close>

definition read_route :: "u32 \<Rightarrow> command_transmit \<Rightarrow> command_transmit \<Rightarrow> command_transmit" where
  "read_route now c r = r
     \<lparr>priority := priority c, orig_reference := orig_reference c, target_reference := target_reference c,
      remote_reference := remote_reference c, creator_pid := creator_pid c,
      send_time := (if send_time c \<noteq> 0 then send_time c else now),
      silent_auto_response := silent_auto_response c \<or> silent_auto_response r,
      orig_entity := (if orig_entity c = [] then orig_entity r else orig_entity c),
      orig_address := (if orig_address c = [] then orig_address r else orig_address c),
      target_entity := (if target_entity c = [] then target_entity r else target_entity c),
      target_address := (if target_address c = [] then target_address r else target_address c),
      sender_type := (if sender_type c = type_none then sender_type r else sender_type c)\<rparr>"

lemma parse_route:
  "parse_loop (Body_Start nm) r (route_tokens now c @ ts) = parse_loop (Content nm [] []) (read_route now c r) ts"
proof -
  have o: "parse_loop (Body_Start nm) r ([Route_Start, Mark CHR ''{''] @ us) = parse_loop (Routing nm False) r us" for us
    by (simp add: want_mark_def)
  have e: "parse_loop (Routing nm True) k ([Mark CHR ''}''] @ us) = parse_loop (Content nm [] []) k us" for us k
    by (simp add: routing_token_def)
  show ?thesis
    unfolding route_tokens_def append_assoc o e
    by (simp only: parse_version parse_number parse_word parse_number_if e insert_iff simp_thms)
      (simp add: read_route_def set_number_def set_word_def string_property_def uinteger_property_def)
qed

section \<open>Whole commands\<close>

text \<open>A tree of one empty section is printed as nothing and read as no tree.\<close>

definition read_tree :: "data_section list \<Rightarrow> data_section list" where
  "read_tree t = (if t = [Empty_Section []] then [] else t)"

lemma read_tree_tokens: "tree_tokens t = tree_tokens (read_tree t)"
  by (simp add: read_tree_def name_tokens_def)

definition text_ok :: "command_transmit \<Rightarrow> bool" where
  "text_ok c \<longleftrightarrow> is_label (command_name c) \<and> length (command_name c) \<le> 243 \<and> route_ok c \<and>
     (tree_ok 2 (tree c) \<or> tree c = [Empty_Section []])"

definition command_tokens :: "u32 \<Rightarrow> command_transmit \<Rightarrow> token list" where
  "command_tokens now c =
     [Command_Start, Mark CHR ''['', Label (command_name c), Mark CHR '']'', Mark CHR ''{''] @
     route_tokens now c @ tree_tokens (tree c) @ [Mark CHR ''}'']"

lemma lex_command_route:
  assumes "is_label (command_name c)" and "length (command_name c) \<le> 243"
    and "tree_ok 2 (tree c) \<or> tree c = [Empty_Section []]"
    and "\<And>u. lex (route_text now c @ u) = R @ lex u" and "send_data now c = Some t"
  shows "lex (t @ s) = [Command_Start, Mark CHR ''['', Label (command_name c), Mark CHR '']'', Mark CHR ''{''] @
    R @ tree_tokens (tree c) @ [Mark CHR ''}''] @ lex s"
proof -
  let ?n = "command_name c"
  have tr: "tree_ok (length ''  '') (tree c) \<or> tree c = [Empty_Section []]"
    using assms(3) by (simp add: eval_nat_numeral)
  have f: "snprintf_text 256 (''!rservr['' @ ?n @ ''] {'' @ [CHR 0x0A]) = ''!rservr['' @ ?n @ ''] {'' @ [CHR 0x0A]"
    using assms(2) by (simp add: snprintf_text_def)
  have b: "\<not> extended_char CHR '']''" by (simp add: extended_char_def letters_def)
  have h: "lex (''!rservr['' @ ?n @ ''] {'' @ [CHR 0x0A] @ u)
      = [Command_Start, Mark CHR ''['', Label ?n, Mark CHR '']'', Mark CHR ''{''] @ lex u" for u
    using lex_start [of "''['' @ ?n @ ''] {'' @ CHR 0x0A # u"] lex_label [OF assms(1), of "''] {'' @ CHR 0x0A # u"] b
    by (simp add: lex_marks lex_space)
  have e: "lex (export_tree ''  '' (tree c) @ ''}'' @ [CHR 0x0A] @ s) = tree_tokens (tree c) @ [Mark CHR ''}''] @ lex s"
    using tr lex_tree(2) [of "''  ''" "tree c" "''}'' @ [CHR 0x0A] @ s"]
    by (auto simp: indent_def goes_on_def lex_marks lex_space name_tokens_def)
  have "t = (''!rservr['' @ ?n @ ''] {'' @ [CHR 0x0A]) @ route_text now c @ export_tree ''  '' (tree c) @ ''}'' @ [CHR 0x0A]"
    using assms(5) f by (simp add: send_data_def split: if_splits)
  then show ?thesis
    by (simp only: append_assoc h assms(4) e)
qed

lemma lex_command:
  assumes "text_ok c" and "send_data now c = Some t"
  shows "lex (t @ s) = command_tokens now c @ lex s"
  using lex_command_route [of c now "route_tokens now c" t s] lex_route_text assms
  by (simp add: text_ok_def command_tokens_def)

lemma parse_command_tree:
  assumes "tree_ok 2 (tree c) \<or> tree c = [Empty_Section []]"
  shows "parse_loop Outside r (command_tokens now c @ ts)
    = (True, Outside, (read_route now c r)\<lparr>tree := read_tree (tree c), command_label := command_name c\<rparr>, ts)"
proof -
  have "tree_ok 2 (read_tree (tree c))" using assms by (auto simp: read_tree_def)
  from parse_tree(2) [OF this, of "command_name c" "[]" "[]" "read_route now c r" "Mark CHR ''}'' # ts"]
    parse_route [of "command_name c" r now c "tree_tokens (read_tree (tree c)) @ Mark CHR ''}'' # ts"]
  show ?thesis
    by (simp add: command_tokens_def read_tree_tokens [of "tree c"] want_mark_def content_token_def close_group_def)
qed

lemma parse_command_tokens:
  assumes "text_ok c"
  shows "parse_loop Outside r (command_tokens now c @ ts)
    = (True, Outside, (read_route now c r)\<lparr>tree := read_tree (tree c), command_label := command_name c\<rparr>, ts)"
  using assms by (intro parse_command_tree) (simp add: text_ok_def)

text \<open>The command the other side has after reading.\<close>

definition received :: "u32 \<Rightarrow> u32 \<Rightarrow> command_transmit \<Rightarrow> command_transmit" where
  "received now pid c = (new_transmit pid)
     \<lparr>priority := priority c, orig_reference := orig_reference c, target_reference := target_reference c,
      remote_reference := remote_reference c, creator_pid := creator_pid c,
      send_time := (if send_time c \<noteq> 0 then send_time c else now),
      silent_auto_response := silent_auto_response c, orig_entity := orig_entity c,
      orig_address := orig_address c, target_entity := target_entity c, target_address := target_address c,
      sender_type := sender_type c, tree := read_tree (tree c), command_label := command_name c\<rparr>"

lemma read_route_new:
  "(read_route now c (new_transmit pid))\<lparr>tree := read_tree (tree c), command_label := command_name c\<rparr> = received now pid c"
  by (simp add: read_route_def received_def new_transmit_def clear_info_def command_info.defs)

text \<open>Labels that pass the server's tests are scanned as one word each.\<close>

lemma filters_extended: "address_filter ch \<Longrightarrow> extended_char ch" "entity_filter ch \<Longrightarrow> extended_char ch"
  by (auto simp: address_filter_def entity_filter_def extended_char_def letters_def)

lemma checked_word:
  assumes "length v \<le> 244"
  shows "check_entity_label (Some v) \<Longrightarrow> word_value v" and "check_address_label (Some v) \<Longrightarrow> word_value v"
  using assms filters_extended
  by (auto simp: word_value_def check_entity_label_def check_address_label_def list_all_iff split: if_splits)

section \<open>Streams\<close>

lemma parse_loop_shorter: "parse_loop p c ts = (b, p', c', rest) \<Longrightarrow> ts \<noteq> [] \<Longrightarrow> length rest < length ts"
proof (induction p c ts rule: parse_loop.induct)
  case (2 p c t ts)
  then show ?case by (cases ts) (auto split: prod.splits push.splits)
qed simp

function read_stream :: "u32 \<Rightarrow> token list \<Rightarrow> command_transmit list" where
  "read_stream pid ts =
     (if ts = [] then []
      else case parse_loop Outside (new_transmit pid) ts of (complete, p, c, rest) \<Rightarrow>
        if complete then c # read_stream pid rest else [])"
  by auto
termination
  by (relation "measure (length \<circ> snd)") (auto dest!: parse_loop_shorter [OF sym])

declare read_stream.simps [simp del]

end
