(* ===== verification/Command_Stream.thy ===== *)
theory Command_Stream
  imports Command_Text
begin

text \<open>
  Commands one after the other: what a reader makes of the texts written to it, what it does after input
  that is not a command, and what does not survive the text.
\<close>

section \<open>A stream of commands\<close>

lemma read_stream_command:
  assumes "text_ok c"
  shows "read_stream pid (command_tokens now c @ ts) = received now pid c # read_stream pid ts"
  using parse_command_tokens [OF assms, of "new_transmit pid" now ts]
  by (subst read_stream.simps) (simp add: read_route_new command_tokens_def)

text \<open>The example of the witnesses: a named group with a text and a binary section.\<close>

definition sample_tree :: "data_section list" where
  "sample_tree = [Group_Section ''list'' [Data_Section [] False (''a'' @ [CHR 0x0A] @ ''}''), Data_Section ''n'' True ''xy'']]"

definition sample_command :: "string \<Rightarrow> command_transmit" where
  "sample_command n = (new_transmit 7)\<lparr>command_label := n, target_entity := ''svc'',
     target_address := ''c1?127.0.0.1'', orig_reference := 0x2A, tree := sample_tree\<rparr>"

lemma sample_ok: "text_ok (sample_command ''proto_x'')"
  by (simp add: text_ok_def sample_command_def command_name_def new_transmit_def clear_info_def
      command_info.defs route_ok_def word_value_def extended_char_def letters_def is_label_def
      label_start_def label_char_def sample_tree_def name_ok_def data_ok_def no_NUL_def)

text \<open>
  C17. Commands keep their meaning on the way: the texts that \<open>send_data\<close> writes for any number of commands,
  one after the other, are read by the scanner and the parser as these commands in this order, with
  every routing field, the label and the data tree. The conditions are those of \<open>text_ok\<close>: labels that are
  words and fit in their line, text without null characters, binary data without ends of lines.
\<close>

theorem stream_round_trip:
  assumes "list_all text_ok cs" and "map (send_data now) cs = map Some texts"
  shows "read_stream pid (lex (concat texts)) = map (received now pid) cs"
  using assms
proof (induction cs arbitrary: texts)
  case Nil
  then show ?case by (simp add: read_stream.simps)
next
  case (Cons c cs)
  then obtain t us where t: "texts = t # us" "send_data now c = Some t" "map (send_data now) cs = map Some us"
    by (cases texts) auto
  with Cons lex_command [of c now t "concat us"] read_stream_command [of c pid now "lex (concat us)"]
  show ?case by simp
qed

theorem stream_round_trip_witness:
  "\<exists>t. send_data 5 (sample_command ''proto_x'') = Some t \<and>
    map tree (read_stream 7 (lex (t @ t))) = [sample_tree, sample_tree] \<and>
    map target_address (read_stream 7 (lex (t @ t))) = [''c1?127.0.0.1'', ''c1?127.0.0.1'']"
proof -
  let ?c = "sample_command ''proto_x''"
  have "command_name ?c \<noteq> []"
    by (simp add: sample_command_def command_name_def new_transmit_def command_info.defs)
  then obtain t where t: "send_data 5 ?c = Some t" by (auto simp: send_data_def)
  have "tree ?c = sample_tree" "target_address ?c = ''c1?127.0.0.1''" "sample_tree \<noteq> [Empty_Section []]"
    by (simp_all add: sample_command_def sample_tree_def)
  with stream_round_trip [of "[?c, ?c]" 5 "[t, t]" 7] sample_ok t show ?thesis
    by (simp add: received_def read_tree_def)
qed

section \<open>After an error\<close>

text \<open>The start of a command is a syntax error everywhere but between commands.\<close>

lemma start_anywhere: "parse_loop p c (Command_Start # ts) = parse_loop Started c ts"
  by (cases p) (simp_all add: want_mark_def content_token_def routing_token_def property_value_def
      section_value_def recover_def Let_def)

text \<open>
  C22. A reader finds back: wherever in a command the parser is, and whatever it has read of one, the
  next well-formed command is complete at its end, with its own label, data and numbers.
\<close>

theorem resynchronises:
  assumes "text_ok c"
  shows "parse_loop p r (command_tokens now c @ ts)
    = (True, Outside, (read_route now c r)\<lparr>tree := read_tree (tree c), command_label := command_name c\<rparr>, ts)"
  using parse_command_tokens [OF assms, of r now ts] start_anywhere [of p r] start_anywhere [of Outside r]
  by (simp add: command_tokens_def del: parse_loop.simps)

theorem resynchronises_witness:
  "fst (parse_loop (Section ''a'' [(''g'', [])] [] ''n'') (new_transmit 7)
     (command_tokens 5 (sample_command ''proto_x'')))"
  using resynchronises [OF sample_ok, of "Section ''a'' [(''g'', [])] [] ''n''" "new_transmit 7" 5 "[]"] by simp

text \<open>
  C23. The fields that are sent only when they are not empty are not reset by an error: a command without
  a target address that follows a broken one goes to the address the broken one named. Likewise for the other
  names and addresses.
\<close>

theorem broken_route_leaks:
  assumes "text_ok c" and "target_address c = []" and "orig_address c = []"
  shows "\<exists>k. parse_loop Outside (new_transmit pid)
      ([Command_Start, Mark CHR ''['', Label n, Mark CHR '']'', Mark CHR ''{'', Route_Start, Mark CHR ''{'']
        @ word_tokens ''_oa'' a @ word_tokens ''_ta'' b @ [Garbage] @ command_tokens now c)
    = (True, Outside, k, []) \<and> command_label k = command_name c \<and> orig_address k = a \<and> target_address k = b"
proof -
  let ?r = "set_word ''_ta'' b (set_word ''_oa'' a (new_transmit pid))"
  have o: "parse_loop (Routing nm False) r (word_tokens l v @ ts)
      = parse_loop (if v = [] then Routing nm False else Routing nm True) (set_word l v r) ts"
    if "l \<in> {''_oa'', ''_ta''}" for nm r l v ts
  proof (cases "v = []")
    case False
    have "string_property (Some l) (Some v) r = (True, set_word l v r)"
      using that False by (auto simp: set_word_def string_property_def)
    with False parse_property [of l "word_token v" r "set_word l v r" nm False ts] show ?thesis
      by (simp add: word_tokens_def word_token_def read_property_def)
  qed (simp add: word_tokens_def set_word_def)
  have b: "parse_loop (if v then Routing n False else Routing n True) r (word_tokens ''_ta'' b @ Garbage # ts)
      = parse_loop Outside (set_word ''_ta'' b r) ts" for v r ts
    using o [of "''_ta''" n r b "Garbage # ts"] parse_word [of "''_ta''" n r b "Garbage # ts"]
    by (auto simp: routing_token_def recover_def)
  have "parse_loop Outside (new_transmit pid)
      ([Command_Start, Mark CHR ''['', Label n, Mark CHR '']'', Mark CHR ''{'', Route_Start, Mark CHR ''{'']
        @ word_tokens ''_oa'' a @ word_tokens ''_ta'' b @ [Garbage] @ command_tokens now c)
      = parse_loop Outside ?r (command_tokens now c)"
    using o [of "''_oa''" n "new_transmit pid" a "word_tokens ''_ta'' b @ Garbage # command_tokens now c"]
      b [of "a = []" "set_word ''_oa'' a (new_transmit pid)" "command_tokens now c"]
    by (simp add: want_mark_def)
  with parse_command_tokens [OF assms(1), of ?r now "[]"] assms(2,3) show ?thesis
    by (simp add: read_route_def set_word_def string_property_def new_transmit_def clear_info_def command_info.defs)
qed

theorem broken_route_leaks_witness:
  "\<exists>k. parse_loop Outside (new_transmit 7)
      ([Command_Start, Mark CHR ''['', Label ''x'', Mark CHR '']'', Mark CHR ''{'', Route_Start, Mark CHR ''{'']
        @ word_tokens ''_oa'' [] @ word_tokens ''_ta'' ''c9?10.0.0.1'' @ [Garbage]
        @ command_tokens 5 ((sample_command ''proto_x'')\<lparr>target_address := []\<rparr>))
    = (True, Outside, k, []) \<and> target_address k = ''c9?10.0.0.1''"
proof -
  let ?c = "(sample_command ''proto_x'')\<lparr>target_address := []\<rparr>"
  have "text_ok ?c" using sample_ok by (simp add: text_ok_def route_ok_def word_value_def command_name_def split: option.splits)
  moreover have "target_address ?c = []" "orig_address ?c = []"
    by (simp_all add: sample_command_def new_transmit_def clear_info_def command_info.defs)
  ultimately show ?thesis using broken_route_leaks [of ?c 7 "''x''" "[]" "''c9?10.0.0.1''" 5] by blast
qed

section \<open>What the text does not keep\<close>

text \<open>
  In binary data an end of line does not count: it is lost, and as many characters of what follows are
  taken into the data.
\<close>

theorem binary_newline_lost:
  assumes "CHR 0x0A \<notin> set (a @ b @ [x, y])" and "length (a @ b) < 2 ^ 32 - 1"
  shows "lex ([CHR 0x5C, CHR ''B''] @ print_upper (length (a @ [CHR 0x0A] @ b)) @ [CHR 0x5C] @ (a @ [CHR 0x0A] @ b)
      @ [CHR 0x0A, x, y] @ s) = Binary (a @ b @ [x]) # lex (y # s)"
proof -
  let ?P = "\<lambda>c. c \<noteq> CHR 0x0A"
  have "filter ?P a = a" "filter ?P b = b" using assms(1) by (auto intro!: filter_True)
  then have f: "filter ?P (a @ [CHR 0x0A] @ b) = a @ b" by simp
  have l: "length (a @ [CHR 0x0A] @ b) = length (filter ?P (a @ [CHR 0x0A] @ b)) + 1" by (simp only: f) simp
  have r: "read_counted ?P 1 ([CHR 0x0A, x, y] @ s) = Some ([x], y # s)" using assms(1) by auto
  have "read_counted ?P (length (filter ?P (a @ [CHR 0x0A] @ b)) + 1) ((a @ [CHR 0x0A] @ b) @ [CHR 0x0A, x, y] @ s)
      = Some (a @ b @ [x], y # s)"
    by (subst read_counted_filter) (simp only: r f, simp)
  then have "read_binary (length (a @ [CHR 0x0A] @ b)) ((a @ [CHR 0x0A] @ b) @ [CHR 0x0A, x, y] @ s) = Some (a @ b @ [x], y # s)"
    unfolding read_binary_def l .
  with assms(2) lex_binary_read [of "length (a @ [CHR 0x0A] @ b)"] show ?thesis by simp
qed

text \<open>Binary data of length zero is no token at all, and neither is text of length \<open>0xFFFFFFFF\<close>.\<close>

theorem empty_binary_lost: "lex ([CHR 0x5C, CHR ''B''] @ ''0'' @ [CHR 0x5C] @ s) = lex s"
proof -
  have z: "print_upper 0 = ''0''" by (subst print_upper.simps) (simp add: upper_digits_def)
  have "best_match (CHR 0x5C # CHR ''B'' # ''0'' @ CHR 0x5C # s) = (Binary_Rule, 4)"
    using best_header(2) [of "print_upper 0" s] print_upper_hex [of 0] z by simp
  moreover have "header_target [CHR 0x5C, CHR ''B'', CHR ''0'', CHR 0x5C] = 0"
    using header_target_upper [of 0 "CHR ''B''"] z by simp
  ultimately show ?thesis by (subst lex.simps) simp
qed

text \<open>Null characters are not written, though the length before the data counts them.\<close>

theorem nul_breaks_framing:
  "export_section [] (Data_Section [] False [CHR ''a'', CHR 0x00, CHR ''b''])
    = [CHR 0x5C, CHR ''T'', CHR ''3'', CHR 0x5C, CHR ''a'', CHR ''b'', CHR 0x0A]"
  by code_simp

end
