(* ===== verification/Conversation.thy ===== *)
theory Conversation
  imports Server_Exec Client_Run Command_Stream
begin

text \<open>
  The server and a client together: a command one of them writes is the command the other finds, and the
  server's answer ends in the client's statuses.
\<close>

section \<open>Finding the body of a command\<close>

lemmas server_parsers = parse_server_response_def parse_server_response_list_def
  parse_server_directive_def parse_set_timing_def parse_update_timing_def parse_monitor_data_def
lemmas common_parsers = parse_client_response_def parse_client_response_list_def
  parse_short_response_def parse_register_client_def parse_indicate_ready_def
  parse_client_register_response_def parse_client_message_def parse_term_request_def
  parse_term_return_def parse_ping_client_def parse_ping_server_def
lemmas admin_parsers = parse_create_client_def parse_detached_client_def parse_remove_client_def
  parse_remove_find_client_def parse_remove_pid_client_def parse_terminate_server_def
  parse_find_clients_def parse_find_control_clients_def parse_set_monitor_types_def
lemmas service_parsers = parse_service_request_def parse_service_request_list_def
  parse_service_response_def parse_service_response_list_def parse_partial_response_def
  parse_partial_response_list_def parse_find_services_def
lemmas resource_parsers = parse_register_service_def parse_deregister_own_service_def
  parse_deregister_all_own_services_def parse_deregister_remote_services_def
  parse_find_resource_clients_def parse_remote_service_action_def
  parse_remote_service_back_action_def parse_remote_service_disconnect_def
  parse_monitor_resource_exit_def parse_unmonitor_resource_exit_def parse_resource_exit_def

lemma generate_server: "\<exists>b'. generate (server_tag b) = Some (Server_Command b') \<and>
    server_generator b' = server_generator b \<and> server_tag b' = server_tag b"
  by (cases b; simp add: generate_def body_parse_def label_other server_parse_def
      server_parsers server_local_def allow_parse_builtin_def)

lemma generate_common: "\<exists>b'. generate (common_tag b) = Some (Common_Command b') \<and>
    common_generator b' = common_generator b \<and> common_tag b' = common_tag b"
  by (cases b; simp add: generate_def body_parse_def label_other server_parse_def common_parse_def
      common_parsers server_local_def allow_parse_builtin_def)

lemma generate_admin: "\<exists>b'. generate (admin_tag b) = Some (Admin_Command b') \<and>
    admin_generator b' = admin_generator b \<and> admin_tag b' = admin_tag b"
  by (cases b; simp add: generate_def body_parse_def label_other server_parse_def common_parse_def admin_parse_def
      admin_parsers server_local_def allow_parse_builtin_def)

lemma generate_service: "\<exists>b'. generate (service_tag b) = Some (Service_Command b') \<and>
    service_generator b' = service_generator b \<and> service_tag b' = service_tag b"
  by (cases b; simp add: generate_def body_parse_def label_other server_parse_def common_parse_def admin_parse_def service_parse_def
      service_parsers server_local_def allow_parse_builtin_def)

lemma generate_resource: "\<exists>b'. generate (resource_tag b) = Some (Resource_Command b') \<and>
    resource_generator b' = resource_generator b \<and> resource_tag b' = resource_tag b"
  by (cases b; simp add: generate_def body_parse_def label_other server_parse_def common_parse_def admin_parse_def service_parse_def resource_parse_def
      resource_parsers server_local_def allow_parse_builtin_def)

lemma generate_built:
  assumes "body_generator b = Some g"
  shows "\<exists>b0. generate (body_name b) = Some b0 \<and> body_generator b0 = Some g \<and> body_name b0 = body_name b \<and>
    (\<forall>n. b0 \<noteq> Null_Command n)"
  using assms generate_server generate_common generate_admin generate_service generate_resource
  by (cases b) (fastforce simp del: not_None_eq)+

lemma body_name_not_Nil: "body_generator b = Some g \<Longrightarrow> body_name b \<noteq> []"
proof -
  have "server_tag b1 \<noteq> []" "common_tag b2 \<noteq> []" "admin_tag b3 \<noteq> []" "service_tag b4 \<noteq> []" "resource_tag b5 \<noteq> []"
    for b1 b2 b3 b4 b5
    by ((cases b1; simp), (cases b2; simp), (cases b3; simp), (cases b4; simp), (cases b5; simp))
  then show "body_generator b = Some g \<Longrightarrow> body_name b \<noteq> []" by (cases b) auto
qed

lemma assembled_not_Nil: "body_assemble l b = Some t \<Longrightarrow> t \<noteq> []"
  by (cases b; (rename_tac x, case_tac x)?; auto simp: common_build_defs server_build_defs admin_build_defs
      resource_build_defs service_build_defs add_defs add_empty_def Let_def split: if_splits option.splits)

lemma finds_body:
  assumes "body_generator b = Some g" and "body_assemble m b = Some t" and "body_ok b"
    and "parse_permissions_gen l g" and "tree c = t"
  shows "\<exists>b0. generate (body_name b) = Some b0 \<and> body_generator b0 = Some g \<and>
    set_command l (Some b0) c = (True, c\<lparr>command := Some b\<rparr>)"
proof -
  obtain b0 where b0: "generate (body_name b) = Some b0" "body_generator b0 = Some g" "body_name b0 = body_name b"
    "\<forall>n. b0 \<noteq> Null_Command n" using generate_built [OF assms(1)] by blast
  have "compile_body l b0 t = body_parse l (body_name b) t"
    using b0(3,4) by (cases b0) (simp_all add: compile_body_def)
  also have "\<dots> = Some b" by (rule body_parse_built [OF assms(2,1,4,3)])
  finally have "compile_body l b0 t = Some b" .
  with b0 assembled_not_Nil [OF assms(2)] assms(5) show ?thesis by (auto simp: set_command_def)
qed

section \<open>Trees programs build\<close>

text \<open>Of the conditions of \<open>text_ok\<close> a tree that a program built meets all but those on the sizes of its data
  and on the characters of binary data.\<close>

fun section_fits :: "data_section \<Rightarrow> bool" and tree_fits :: "data_section list \<Rightarrow> bool" where
  "section_fits (Empty_Section n) = True"
| "section_fits (Data_Section n b d) = (length d < 2 ^ 32 - 1 \<and> (b \<longrightarrow> no_NUL d \<and> CHR 0x0A \<notin> set d))"
| "section_fits (Group_Section n cs) = tree_fits cs"
| "tree_fits [] = True"
| "tree_fits (x # xs) = (section_fits x \<and> tree_fits xs)"

lemma tree_ok_append: "tree_ok k (xs @ ys) \<longleftrightarrow> tree_ok k xs \<and> tree_ok k ys"
  "tree_fits (xs @ ys) \<longleftrightarrow> tree_fits xs \<and> tree_fits ys"
  by (induction xs) auto

lemma section_ok_text: "section_fits (text_data_section n s) \<Longrightarrow> name_ok k n \<Longrightarrow> section_ok k (text_data_section n s)"
  by (simp add: text_data_section_def data_ok_def)

lemma section_ok_sized: "section_fits (sized_data_section n s) \<Longrightarrow> name_ok k n \<Longrightarrow> section_ok k (sized_data_section n s)"
  by (auto simp: sized_data_section_def data_ok_def split: if_splits)

lemma tree_ok_texts:
  "tree_fits (map (text_data_section []) ds) \<Longrightarrow> tree_ok k (map (text_data_section []) ds)"
  by (induction ds) (auto simp: section_ok_text name_ok_def)

lemma built_names: "name_ok k []"
  "name_ok 2 ''type''" "name_ok 2 ''command''" "name_ok 2 ''opt''" "name_ok 2 ''perms''" "name_ok 2 ''priority''"
  "name_ok 2 ''gid''" "name_ok 2 ''uid''" "name_ok 2 ''pid''" "name_ok 2 ''disable''" "name_ok 2 ''name''"
  by (simp_all add: name_ok_def is_label_def label_start_def label_char_def letters_def)

lemmas built_tree_rules = section_ok_text section_ok_sized tree_ok_texts built_names tree_ok_append

lemma built_tree_ok:
  assumes "body_assemble l b = Some t" and "tree_fits t"
  shows "tree_ok 2 t \<or> t = [Empty_Section []]"
  using assms
  by (cases b; (rename_tac x, case_tac x)?; auto simp: common_build_defs server_build_defs admin_build_defs
      resource_build_defs service_build_defs add_defs add_empty_def built_tree_rules Let_def
      split: if_splits option.splits)

lemma tag_label:
  assumes "body_generator b = Some g"
  shows "is_label (body_name b) \<and> length (body_name b) \<le> 243"
proof -
  have "is_label (server_tag b1) \<and> length (server_tag b1) \<le> 243" "is_label (common_tag b2) \<and> length (common_tag b2) \<le> 243"
    "is_label (admin_tag b3) \<and> length (admin_tag b3) \<le> 243" "is_label (service_tag b4) \<and> length (service_tag b4) \<le> 243"
    "is_label (resource_tag b5) \<and> length (resource_tag b5) \<le> 243" for b1 b2 b3 b4 b5
    by ((cases b1; simp add: is_label_def label_start_def label_char_def letters_def),
      (cases b2; simp add: is_label_def label_start_def label_char_def letters_def),
      (cases b3; simp add: is_label_def label_start_def label_char_def letters_def),
      (cases b4; simp add: is_label_def label_start_def label_char_def letters_def),
      (cases b5; simp add: is_label_def label_start_def label_char_def letters_def))
  with assms show ?thesis by (cases b) simp_all
qed

lemma built_text_ok:
  assumes "command c = Some b" and "body_generator b = Some g" and "body_assemble m b = Some (tree c)"
    and "tree_fits (tree c)" and "route_ok c"
  shows "text_ok c"
  using tag_label [OF assms(2)] built_tree_ok [OF assms(3,4)] assms(1,5) by (simp add: text_ok_def command_name_def)

section \<open>From text to command\<close>

definition reading :: "string \<Rightarrow> lexer_input" where
  "reading t = \<lparr>parser_state = Outside, context_command = None, pending = lex t\<rparr>"

text \<open>What \<open>find_command\<close> is given after a text has been read, in a command \<open>k\<close> used before.\<close>

definition arriving :: "u32 \<Rightarrow> u32 \<Rightarrow> command_transmit \<Rightarrow> command_transmit \<Rightarrow> command_transmit" where
  "arriving now pid k c = (received now pid c)\<lparr>wait_start := wait_start k, tree := tree c\<rparr>"

lemma parse_command_text:
  assumes "text_ok c" and "send_data now c = Some t" and "tree c \<noteq> []"
  shows "parse_command finder pid k (reading (t @ s))
    = (case finder (arriving now pid k c) of (ok, c') \<Rightarrow> (ok, c', reading s))"
proof -
  let ?r = "received now pid c"
  have l: "parse_loop Outside (new_transmit pid) (lex (t @ s)) = (True, Outside, ?r, lex s)"
    by (simp only: lex_command [OF assms(1,2)] parse_command_tokens [OF assms(1)] read_route_new)
  let ?k = "assign_transmit (clear_command pid k) ?r"
  have k: "?k = (received now pid c)\<lparr>wait_start := wait_start k\<rparr>"
    by (simp add: assign_transmit_def property_equal_def clear_command_def received_def new_transmit_def command_info.defs)
  have "(if tree ?k = [] then ?k\<lparr>tree := [Empty_Section []]\<rparr> else ?k) = arriving now pid k c"
    unfolding k using assms(3) by (auto simp: arriving_def received_def read_tree_def)
  with l show ?thesis by (simp add: parse_command_def reading_def Let_def)
qed

text \<open>
  C19. A built-in command that a client assembled and wrote to the server is the command the server queues:
  \<open>parse_command\<close> reads one command from the text, finds the same body with all its fields, the type its
  generator gives, and the routing fields that were sent; the input stands before what follows.
\<close>

theorem command_reaches_server:
  assumes "command c = Some b" and "body_generator b = Some g" and "body_ok b"
    and "body_assemble m b = Some (tree c)" and "is_server l" and "check_none (execution_type g) command_plugin"
    and "target_address c = []" and "orig_address c = []"
    and "route_ok c" and "tree_fits (tree c)" and "send_data now c = Some t"
  shows "parse_command (find_command l) pid k (reading (t @ s)) =
    (True, (arriving now pid k c)\<lparr>command := Some b, execute_type := execution_type g\<rparr>, reading s)"
proof -
  let ?c = "(arriving now pid k c)\<lparr>execute_type := command_null\<rparr>"
  have p: "parse_permissions_gen l g"
    using assms(5,6) by (simp add: parse_permissions_gen_def allow_parse_plugin_def allow_parse_builtin_def)
  have n: "command_label (arriving now pid k c) = body_name b" "target_address (arriving now pid k c) = []"
    "orig_address (arriving now pid k c) = []" "tree ?c = tree c"
    using assms(1,7,8) by (simp_all add: arriving_def received_def command_name_def)
  obtain b0 where b0: "generate (body_name b) = Some b0" "body_generator b0 = Some g"
      "set_command l (Some b0) ?c = (True, ?c\<lparr>command := Some b\<rparr>)"
    using finds_body [OF assms(2,4,3) p n(4)] by blast
  have f: "find_command l (arriving now pid k c)
      = (True, (arriving now pid k c)\<lparr>command := Some b, execute_type := execution_type g\<rparr>)"
    using b0 n p body_name_not_Nil [OF assms(2)]
    by (simp add: find_command_def empty_server_command_def server_command_type_def)
  show ?thesis
    using parse_command_text [OF built_text_ok [OF assms(1,2,4,10,9)] assms(11) assembled_not_Nil [OF assms(4)]] f
    by simp
qed

section \<open>The server's answer\<close>

lemma client_finds:
  assumes "command c = Some b" and "body_generator b = Some g" and "body_ok b"
    and "body_assemble m b = Some (tree c)" and "parse_permissions_gen l g"
    and "target_address c = []" and "orig_address c = []"
  shows "client_find_command l (arriving now pid k c) =
    (True, (arriving now pid k c)\<lparr>command := Some b, execute_type := execution_type g\<rparr>)"
proof -
  let ?c = "(arriving now pid k c)\<lparr>execute_type := execution_type g\<rparr>"
  have n: "command_label (arriving now pid k c) = body_name b" "target_address (arriving now pid k c) = []"
    "orig_address (arriving now pid k c) = []" "tree ?c = tree c"
    using assms(1,6,7) by (simp_all add: arriving_def received_def command_name_def)
  obtain b0 where "generate (body_name b) = Some b0" "body_generator b0 = Some g"
      "set_command l (Some b0) ?c = (True, ?c\<lparr>command := Some b\<rparr>)"
    using finds_body [OF assms(2,4,3,5) n(4)] by blast
  with n assms(5) body_name_not_Nil [OF assms(2)] show ?thesis
    by (simp add: client_find_command_def empty_client_command_def client_command_type_def)
qed

text \<open>The record the server writes as its response.\<close>

lemma send_server_response_record:
  assumes "send_server_response e c ev s = (True, s')"
  shows "\<exists>r. outbox s' = outbox s @ [(send_to c, r)] \<and>
    command r = Some (Server_Command (Server_Response (server_name s) ev [])) \<and>
    body_assemble (local_server s) (Server_Command (Server_Response (server_name s) ev [])) = Some (tree r) \<and>
    orig_entity r = server_name s \<and> orig_address r = [] \<and> target_entity r = orig_entity c \<and>
    target_address r = orig_address c \<and> target_reference r = orig_reference c \<and> creator_pid r = creator_pid c \<and>
    \<not> silent_auto_response r"
proof -
  let ?b = "Server_Command (Server_Response (server_name s) ev [])"
  have a: "\<not> silent_auto_response c" "send_to c \<noteq> 0" "response_output (send_to c) s"
    using send_server_response_sent [OF assms] by simp_all
  obtain l where l: "copy_to_response s ?b (base_transmit e) c = Some l"
    and f: "command l = Some ?b" "tree l = []" "orig_entity l = server_name s" "orig_address l = []"
      "target_entity l = orig_entity c" "target_address l = orig_address c"
      "target_reference l = orig_reference c" "creator_pid l = creator_pid c" "\<not> silent_auto_response l"
    using a by (simp add: copy_to_response_def set_command_def base_transmit_def
        new_transmit_def clear_info_def command_info.defs)
  obtain t where t: "body_assemble (local_server s) ?b = Some t"
    using server_builds [of "server_name s" "Server_Response (server_name s) ev []"]
    by (auto simp: local_server_def)
  have "auto_send_command e l (send_to c) s = send_protected_output e (send_to c) (l\<lparr>tree := t\<rparr>) s"
    using f t by (simp add: auto_send_command_def command_sendable_def assemble_command_def)
  with assms l a have "send_protected_output e (send_to c) (l\<lparr>tree := t\<rparr>) s = (True, s')"
    by (simp add: send_server_response_def)
  from send_protected_sent [OF this] f t show ?thesis by auto
qed

lemma client_turn_response:
  assumes "command k = Some (Server_Command (Server_Response n ev []))"
    and "execute_type k = command_response OR command_privileged OR command_builtin"
    and "target_address k = []" and "orig_address k = []" and "creator_pid k = own_pid e"
    and "\<not> is_server (local_client s)" and "\<not> super_user e" and "\<not> super_group e"
  shows "client_turn e k s = Some (snd (update_status e (target_reference k) ev (Some (k\<lparr>send_to := 1\<rparr>)) s))"
proof -
  let ?ty = "command_response OR command_privileged OR command_builtin :: mask16"
  have t: "check_all ?ty command_response" "\<not> check_none ?ty command_response" "\<not> check_all ?ty command_null"
    by (simp_all add: flag_defs check_all_def check_none_def)
  have x: "allow_execute_client False ?ty"
    by (simp add: allow_execute_client_def check_valid_type_def flag_defs check_all_def check_any_def)
  show ?thesis
    using assms t x
    by (simp add: client_turn_def command_ready_def evaluate_client_def announce_receipt_def interface_given_def
        command_name_def event_response_def take_response_def update_either_status_def to_remote_def from_remote_def
        update_local_command_status_def requirement_fail_def)
qed

lemma print_digits_length: "0 < k \<Longrightarrow> n < 16 ^ k \<Longrightarrow> length (print_digits 16 n) \<le> k"
proof (induction k arbitrary: n)
  case (Suc k)
  show ?case
  proof (cases "n < 16")
    case True
    then show ?thesis by (subst print_digits.simps) simp
  next
    case False
    then have "k \<noteq> 0" using Suc.prems(2) by (cases k) auto
    moreover have "n div 16 < 16 ^ k" using Suc.prems(2) by (simp add: less_mult_imp_div_less mult.commute)
    ultimately have "length (print_digits 16 (n div 16)) \<le> k" using Suc.IH by simp
    with False show ?thesis by (subst print_digits.simps) simp
  qed
qed simp

lemma response_fits:
  assumes "body_assemble l (Server_Command (Server_Response n ev [])) = Some t" and "length n \<le> 244"
  shows "tree_fits t"
proof -
  have c: "length (c_str x) \<le> length x" for x by (simp add: c_str_def length_takeWhile_le)
  have "length (c_str n) \<le> 244" using c [of n] assms(2) by simp
  moreover have "length (print_digits 16 (unat ev)) \<le> 8"
    using unat_u32(1) [of ev] by (intro print_digits_length) simp_all
  then have "length (c_str (print_digits 16 (unat ev))) \<le> 8" using c [of "print_digits 16 (unat ev)"] by simp
  ultimately show ?thesis
    using assms(1) by (auto simp: server_build_defs add_defs text_data_section_def convert_integer16_def split: if_splits)
qed

text \<open>
  C20. A client that sends the server a command learns of its event: the response the server writes is read by
  the client as one command, whose turn sets the status of exactly the reference the client had
  given its command, and changes the statuses as the abstract map of references says.
\<close>

theorem response_reaches_status:
  assumes "send_server_response e c ev s = (True, s')"
    and "orig_address c = []" and "creator_pid c = own_pid ce"
    and "word_value (orig_entity c)" and "word_value (server_name s)" and "no_NUL (server_name s)"
    and "\<not> is_server (local_client cl)" and "\<not> super_user ce" and "\<not> super_group ce" and "status_ok cl"
  shows "\<exists>r t k' cl' i. outbox s' = outbox s @ [(send_to c, r)] \<and> send_data now r = Some t \<and>
    parse_command (client_find_command (local_client cl)) pid k (reading (t @ u)) = (True, k', reading u) \<and>
    client_turn ce k' cl = Some cl' \<and>
    statuses cl' = status_spec ce (Event (orig_reference c) ev (Some i)) (statuses cl)"
proof -
  let ?b = "Server_Command (Server_Response (server_name s) ev [])"
  obtain r where r: "outbox s' = outbox s @ [(send_to c, r)]" "command r = Some ?b"
      "body_assemble (local_server s) ?b = Some (tree r)" "orig_entity r = server_name s" "orig_address r = []"
      "target_entity r = orig_entity c" "target_address r = []" "target_reference r = orig_reference c"
      "creator_pid r = own_pid ce"
    using send_server_response_record [OF assms(1)] assms(2,3) by auto
  let ?g = "server_generator (Server_Response (server_name s) ev [])"
  have g: "body_generator ?b = Some ?g" "body_ok ?b" using assms(6) by simp_all
  have p: "parse_permissions_gen (local_client cl) ?g"
    by (simp add: parse_permissions_gen_def generator_not_plugin allow_parse_builtin_def generator_def flag_defs
        check_all_def check_none_def)
  have "route_ok r" using r assms(4,5) by (simp add: route_ok_def word_value_def)
  with r g response_fits [OF r(3)] assms(5) have ok: "text_ok r"
    by (intro built_text_ok [of r ?b ?g "local_server s"]) (simp_all add: word_value_def)
  have "command_name r \<noteq> []" using ok by (auto simp: text_ok_def is_label_def)
  then obtain t where t: "send_data now r = Some t" by (auto simp: send_data_def)
  let ?k = "(arriving now pid k r)\<lparr>command := Some ?b, execute_type := execution_type ?g\<rparr>"
  have c: "parse_command (client_find_command (local_client cl)) pid k (reading (t @ u)) = (True, ?k, reading u)"
    using parse_command_text [OF ok t assembled_not_Nil [OF r(3)]]
      client_finds [OF r(2) g r(3) p r(7,5)] by simp
  let ?i = "?k\<lparr>send_to := 1\<rparr>"
  have "client_turn ce ?k cl = Some (snd (update_status ce (orig_reference c) ev (Some ?i) cl))"
    using client_turn_response [of ?k "server_name s" ev ce cl] r assms(7-9)
    by (simp add: arriving_def received_def generator_def)
  moreover have "statuses (snd (update_status ce (orig_reference c) ev (Some ?i) cl))
      = status_spec ce (Event (orig_reference c) ev (Some ?i)) (statuses cl)"
    using status_step_refines [OF assms(10), of ce "Event (orig_reference c) ev (Some ?i)"] by simp
  ultimately show ?thesis using r(1) t c by blast
qed

theorem response_reaches_status_witness:
  "\<exists>r t k' cl'. outbox (snd (send_server_response tiny_env
        ((new_transmit 7)\<lparr>send_to := 4, orig_entity := ''a'', orig_reference := 3\<rparr>) event_complete
        (tiny_server [(new_client_id 4)\<lparr>attached_client := True\<rparr>]))) = [(4, r)] \<and>
    send_data 5 r = Some t \<and>
    parse_command (client_find_command (local_client initial_client)) 7 (new_transmit 7) (reading t) = (True, k', reading []) \<and>
    client_turn tiny_cenv k' (snd (register_reference 3 initial_client)) = Some cl' \<and>
    find_command_status 3 cl' = event_complete"
proof -
  let ?c = "(new_transmit 7)\<lparr>send_to := 4, orig_entity := ''a'', orig_reference := 3\<rparr>"
  let ?s = "tiny_server [(new_client_id 4)\<lparr>attached_client := True\<rparr>]"
  let ?cl = "snd (register_reference 3 initial_client)"
  obtain ok s' where r: "send_server_response tiny_env ?c event_complete ?s = (ok, s')"
    by (cases "send_server_response tiny_env ?c event_complete ?s")
  have ok: ok
    using r by (auto simp: send_server_response_def copy_to_response_def set_command_def
        base_transmit_def new_transmit_def clear_info_def command_info.defs tiny_env_def tiny_server_def
        response_output_def open_output_def get_client_id_def find_by_handle_def new_client_id_def
        auto_send_command_def local_server_def command_sendable_def assemble_command_def
        build_server_response_def allow_create_builtin_def server_local_def flag_defs
        check_all_def check_none_def send_protected_output_def)
  have c: "orig_address ?c = []" "creator_pid ?c = own_pid tiny_cenv" "send_to ?c = 4" "orig_reference ?c = 3"
    by (simp_all add: new_transmit_def clear_info_def command_info.defs tiny_cenv_def)
  have w: "word_value (orig_entity ?c)" "word_value (server_name ?s)" "no_NUL (server_name ?s)" "outbox ?s = []"
    by (simp_all add: word_value_def extended_char_def letters_def tiny_server_def no_NUL_def)
  have cl: "\<not> is_server (local_client ?cl)" "\<not> super_user tiny_cenv" "\<not> super_group tiny_cenv" "status_ok ?cl"
      "local_client ?cl = local_client initial_client" "statuses ?cl 3 = Some new_command_status"
    by (simp_all add: register_reference_def initial_client_def tiny_cenv_def status_ok_def statuses_def)
  from response_reaches_status [OF r [unfolded ok [THEN eqTrueI]] c(1,2) w(1-3) cl(1-4), of 5 7 "new_transmit 7" "[]"]
  obtain m t k' cl' i where *: "outbox s' = [(4, m)]" "send_data 5 m = Some t"
      "parse_command (client_find_command (local_client initial_client)) 7 (new_transmit 7) (reading t) = (True, k', reading [])"
      "client_turn tiny_cenv k' ?cl = Some cl'"
      "statuses cl' = status_spec tiny_cenv (Event 3 event_complete (Some i)) (statuses ?cl)"
    unfolding c(3,4) w(4) cl(5) by auto
  have "find_command_status 3 cl' = event_complete"
    using cl(6) by (simp add: find_command_status_map *(5) command_status_update_def new_command_status_def)
  with * r show ?thesis by auto
qed

theorem command_reaches_server_witness:
  "\<exists>t k. send_data 5 ((new_transmit 7)\<lparr>command := Some (Common_Command (Client_Message ''hi'')), orig_entity := ''a'',
        tree := the (common_build \<lparr>is_server = False, local_type = type_control_client_all, entity_name = ''a''\<rparr> (Client_Message ''hi''))\<rparr>)
      = Some t \<and>
    parse_command (find_command (server_local ''srv'')) 1 (new_transmit 1) (reading (t @ ''!rservr'')) = (True, k, reading ''!rservr'') \<and>
    command k = Some (Common_Command (Client_Message ''hi''))"
proof -
  let ?l = "\<lparr>is_server = False, local_type = type_control_client_all, entity_name = ''a''\<rparr>"
  let ?b = "Common_Command (Client_Message ''hi'')"
  let ?c = "(new_transmit 7)\<lparr>command := Some ?b, orig_entity := ''a'', tree := the (common_build ?l (Client_Message ''hi''))\<rparr>"
  have a: "body_assemble ?l ?b = Some (tree ?c)" "tree_fits (tree ?c)"
    by (simp_all add: build_client_message_def allow_create_builtin_def flag_defs check_all_def check_none_def
        add_defs text_data_section_def c_str_def)
  have r: "route_ok ?c" "target_address ?c = []" "orig_address ?c = []" "command ?c = Some ?b"
    by (simp_all add: route_ok_def word_value_def new_transmit_def clear_info_def command_info.defs extended_char_def letters_def)
  have g: "check_none (execution_type (common_generator (Client_Message ''hi''))) command_plugin" "body_ok ?b"
    by (simp_all add: generator_def flag_defs check_none_def no_NUL_def)
  obtain t where t: "send_data 5 ?c = Some t" using r(4) by (simp add: send_data_def command_name_def)
  from command_reaches_server [OF r(4) _ g(2) a(1) _ g(1) r(2,3,1) a(2) t, of "server_local ''srv''" 1 "new_transmit 1" "''!rservr''"] t
  show ?thesis by (auto simp: server_local_def)
qed

end
