(* ===== verification/Parser_Tables.thy ===== *)
theory Parser_Tables
  imports Command_Parser
begin

text \<open>
  The parser as it is compiled (\<open>libs/protocol/ipc/ipc-parser.tab.cpp\<close>): the tables bison made of the grammar and
  \<open>yypush_parse\<close>, which shifts and reduces by them, with its stacks of states and values, its recovery from
  errors and its limit on the depth of the stack.
\<close>

section \<open>The tables\<close>

definition yydefact :: "nat list" where
  "yydefact =
    [0, 5, 0, 0, 3, 2, 0, 1, 0, 0, 7, 0, 26, 0, 0, 15, 17, 26, 20, 21, 22, 23, 25, 0, 0, 0, 8, 0,
     0, 24, 4, 0, 6, 9, 14, 16, 26, 19, 10, 11, 13, 12, 0, 18]"

definition yydefgoto :: "int list" where
  "yydefgoto =
    [- 1, 3, 4, 12, 25, 26, 18, 19, 20, 21, 22, 23]"

definition yypact :: "int list" where
  "yypact =
    [8, - 7, - 1, 10, - 18, - 18, 9, - 18, 7, 1, 14, 11, 0, 23, 12, - 18, - 18, 0, - 18, - 18,
     - 18, - 18, 0, 16, 13, - 2, - 18, 2, 17, - 18, - 18, 15, - 18, - 18, - 18, - 18, 0, - 18,
     - 18, - 18, - 18, - 18, 18, - 18]"

definition yypgoto :: "int list" where
  "yypgoto =
    [- 18, - 18, 26, - 18, - 18, 5, - 18, - 18, - 18, 19, - 18, - 17]"

definition yytable :: "int list" where
  "yytable =
    [28, 24, 2, 14, 15, 16, 34, 35, - 5, 1, 7, 6, 8, 32, 17, 10, 36, 2, 38, 42, 9, 39, 40, 41, 11,
     13, 24, 5, 27, 31, 33, 30, 37, 43, 0, 0, 0, 0, 0, 0, 0, 29]"

definition yycheck :: "int list" where
  "yycheck =
    [17, 3, 9, 3, 4, 5, 4, 5, 0, 1, 0, 12, 3, 15, 14, 14, 14, 9, 3, 36, 13, 6, 7, 8, 10, 14, 3, 1,
     16, 16, 25, 15, 15, 15, - 1, - 1, - 1, - 1, - 1, - 1, - 1, 22]"

definition yyr1 :: "nat list" where
  "yyr1 =
    [0, 17, 18, 18, 19, 19, 20, 20, 21, 21, 22, 22, 22, 22, 23, 23, 24, 24, 25, 25, 26, 26, 26, 27,
     27, 28, 28]"

definition yyr2 :: "nat list" where
  "yyr2 =
    [0, 2, 2, 1, 8, 0, 4, 0, 1, 2, 3, 3, 3, 3, 3, 1, 3, 1, 5, 3, 1, 1, 1, 1, 2, 1, 0]"

definition YYFINAL :: nat where "YYFINAL = 7"
definition YYLAST :: int where "YYLAST = 41"
definition YYNTOKENS :: nat where "YYNTOKENS = 17"
definition YYMAXDEPTH :: nat where "YYMAXDEPTH = 10000"
definition YYPACT_NINF :: int where "YYPACT_NINF = - 18"

text \<open>\<open>YYTRANSLATE\<close>: the number of a token; the end of the input is zero, \<open>error\<close> one. The scanner returns no
  other marks than the five.\<close>

definition mark_number :: "char \<Rightarrow> nat" where
  "mark_number m =
     (if m = CHR ''['' then 12 else if m = CHR '']'' then 13 else if m = CHR ''{'' then 14
      else if m = CHR ''}'' then 15 else if m = CHR ''='' then 16 else 2)"

fun token_number :: "token \<Rightarrow> nat" where
  "token_number (Label s) = 3"
| "token_number (Text s) = 4"
| "token_number (Binary s) = 5"
| "token_number (Extended s) = 6"
| "token_number (UInteger u) = 7"
| "token_number (SInteger i) = 8"
| "token_number Command_Start = 9"
| "token_number Route_Start = 10"
| "token_number Garbage = 11"
| "token_number (Mark m) = mark_number m"

definition yytranslate :: "token option \<Rightarrow> nat" where
  "yytranslate yychar = (case yychar of None \<Rightarrow> 0 | Some t \<Rightarrow> token_number t)"

section \<open>What to do in a state\<close>

datatype decision = Shift nat | Reduce nat | Error | Need_Token

definition default_decision :: "nat \<Rightarrow> decision" where
  "default_decision s = (if yydefact ! s = 0 then Error else Reduce (yydefact ! s))"

text \<open>\<open>yybackup\<close>: without a token where the state does not ask for one.\<close>

definition yybackup :: "nat \<Rightarrow> nat option \<Rightarrow> decision" where
  "yybackup s yytoken =
     (if yypact ! s = YYPACT_NINF then default_decision s
      else case yytoken of
        None \<Rightarrow> Need_Token
      | Some k \<Rightarrow>
          let yyn = yypact ! s + int k
          in if yyn < 0 \<or> YYLAST < yyn \<or> yycheck ! nat yyn \<noteq> int k then default_decision s
             else if yytable ! nat yyn \<le> 0 then Reduce (nat (- (yytable ! nat yyn)))
             else Shift (nat (yytable ! nat yyn)))"

text \<open>The state after a reduction to the symbol \<open>x\<close> on top of the state \<open>s\<close>.\<close>

definition yygoto :: "nat \<Rightarrow> nat \<Rightarrow> nat" where
  "yygoto x s =
     (let y = yypgoto ! (x - YYNTOKENS) + int s
      in nat (if 0 \<le> y \<and> y \<le> YYLAST \<and> yycheck ! nat y = int s then yytable ! nat y
              else yydefgoto ! (x - YYNTOKENS)))"

definition error_shift :: "nat \<Rightarrow> nat option" where
  "error_shift s =
     (let yyn = yypact ! s + 1
      in if yypact ! s \<noteq> YYPACT_NINF \<and> 0 \<le> yyn \<and> yyn \<le> YYLAST \<and> yycheck ! nat yyn = 1 \<and> 0 < yytable ! nat yyn
         then Some (nat (yytable ! nat yyn)) else None)"

section \<open>The actions\<close>

text \<open>Values: of tokens, of the symbols that hold sections, and of those whose value is never read.\<close>

datatype yyvalue = Token_Value token | Holding "data_section list" | No_Value

fun token_string :: "token \<Rightarrow> string" where
  "token_string (Label s) = s"
| "token_string (Text s) = s"
| "token_string (Binary s) = s"
| "token_string (Extended s) = s"
| "token_string _ = []"

definition value_string :: "yyvalue \<Rightarrow> string" where
  "value_string v = (case v of Token_Value t \<Rightarrow> token_string t | _ \<Rightarrow> [])"

definition value_holding :: "yyvalue \<Rightarrow> data_section list" where
  "value_holding v = (case v of Holding t \<Rightarrow> t | _ \<Rightarrow> [])"

definition value_property :: "string \<Rightarrow> yyvalue \<Rightarrow> command_transmit \<Rightarrow> bool \<times> command_transmit" where
  "value_property l v c =
     (case v of
        Token_Value (SInteger i) \<Rightarrow> sinteger_property (Some l) i c
      | Token_Value (UInteger u) \<Rightarrow> uinteger_property (Some l) u c
      | _ \<Rightarrow> string_property (Some l) (Some (value_string v)) c)"

text \<open>The switch of \<open>yyreduce\<close>. The result: whether there was no \<open>YYERROR\<close>, the value of the left side, the
  command and \<open>complete\<close>.\<close>

definition yyaction ::
  "nat \<Rightarrow> yyvalue list \<Rightarrow> command_transmit \<Rightarrow> bool \<Rightarrow> bool \<times> yyvalue \<times> command_transmit \<times> bool" where
  "yyaction yyn vs c complete =
     (let yyval = (case vs of [] \<Rightarrow> No_Value | v # _ \<Rightarrow> v);
          holding = (\<lambda>t. (True, Holding t, c, complete))
      in if yyn = 4 then (True, yyval, c\<lparr>tree := value_holding (vs ! 6), command_label := value_string (vs ! 2)\<rparr>, True)
         else if yyn \<in> {10, 11, 12, 13} then
           (case value_property (value_string (vs ! 0)) (vs ! 2) c of (ok, c') \<Rightarrow> (ok, yyval, c', complete))
         else if yyn = 14 then holding [text_data_section (value_string (vs ! 0)) (value_string (vs ! 2))]
         else if yyn = 15 then holding [text_data_section [] (value_string (vs ! 0))]
         else if yyn = 16 then holding [sized_data_section (value_string (vs ! 0)) (value_string (vs ! 2))]
         else if yyn = 17 then holding [sized_data_section [] (value_string (vs ! 0))]
         else if yyn = 18 then holding [Group_Section (value_string (vs ! 0)) (value_holding (vs ! 3))]
         else if yyn = 19 then holding [Group_Section [] (value_holding (vs ! 1))]
         else if yyn \<in> {20, 21, 22, 23, 25} then holding (value_holding (vs ! 0))
         else if yyn = 24 then holding (value_holding (vs ! 0) @ value_holding (vs ! 1))
         else if yyn = 26 then holding []
         else (True, yyval, c, complete))"

section \<open>The machine\<close>

text \<open>
  \<open>yychar\<close> is \<open>None\<close> for \<open>YYEMPTY\<close>, \<open>Some None\<close> for the end of the input. The stacks of states and of values are one,
  the top first.
\<close>

record yyconfig =
  yyss :: "(nat \<times> yyvalue) list"
  yyerrstatus :: nat
  yychar :: "token option option"
  yycommand :: command_transmit
  yycomplete :: bool

datatype yyresult = Push_More | Accepted | Aborted | Exhausted

datatype yyoutcome = Running yyconfig | Stopped yyresult yyconfig

text \<open>\<open>yynewstate\<close>: the stack doubles when it is full, up to \<open>YYMAXDEPTH\<close>.\<close>

definition yynewstate :: "nat \<Rightarrow> yyvalue \<Rightarrow> yyconfig \<Rightarrow> yyoutcome" where
  "yynewstate s v g =
     (let g' = g\<lparr>yyss := (s, v) # yyss g\<rparr>
      in if length (yyss g') \<ge> YYMAXDEPTH then Stopped Exhausted g'
         else if s = YYFINAL then Stopped Accepted g'
         else Running g')"

definition yyerrlab1 :: "yyconfig \<Rightarrow> yyoutcome" where
  "yyerrlab1 g =
     (let st = dropWhile (\<lambda>x. error_shift (fst x) = None) (yyss g);
          g' = g\<lparr>yyss := st, yyerrstatus := 3\<rparr>
      in case st of
           [] \<Rightarrow> Stopped Aborted g'
         | x # _ \<Rightarrow> (case error_shift (fst x) of None \<Rightarrow> Stopped Aborted g' | Some s \<Rightarrow> yynewstate s No_Value g'))"

definition yyerrlab :: "yyconfig \<Rightarrow> yyoutcome" where
  "yyerrlab g =
     (if yyerrstatus g = 3 then
        (case yychar g of
           Some None \<Rightarrow> Stopped Aborted g
         | Some (Some t) \<Rightarrow> yyerrlab1 (g\<lparr>yychar := None\<rparr>)
         | None \<Rightarrow> yyerrlab1 g)
      else yyerrlab1 g)"

definition yyreduce :: "nat \<Rightarrow> yyconfig \<Rightarrow> yyoutcome" where
  "yyreduce yyn g =
     (let yylen = yyr2 ! yyn;
          vs = rev (map snd (take yylen (yyss g)));
          st = drop yylen (yyss g)
      in case yyaction yyn vs (yycommand g) (yycomplete g) of (ok, yyval, c, complete) \<Rightarrow>
           let g' = g\<lparr>yyss := st, yycommand := c, yycomplete := complete\<rparr>
           in if \<not> ok then yyerrlab1 g' else yynewstate (yygoto (yyr1 ! yyn) (fst (hd st))) yyval g')"

definition yystep :: "yyconfig \<Rightarrow> yyoutcome" where
  "yystep g =
     (case yybackup (fst (hd (yyss g))) (map_option yytranslate (yychar g)) of
        Need_Token \<Rightarrow> Stopped Push_More g
      | Shift s \<Rightarrow> yynewstate s (case yychar g of Some (Some t) \<Rightarrow> Token_Value t | _ \<Rightarrow> No_Value)
          (g\<lparr>yyerrstatus := yyerrstatus g - 1, yychar := None\<rparr>)
      | Reduce yyn \<Rightarrow> yyreduce yyn g
      | Error \<Rightarrow> yyerrlab g)"

partial_function (option) yyloop :: "yyconfig \<Rightarrow> (yyresult \<times> yyconfig) option" where
  "yyloop g = (case yystep g of Running g' \<Rightarrow> yyloop g' | Stopped r g' \<Rightarrow> Some (r, g'))"

text \<open>\<open>yypush_parse\<close>. A state that is new, or that has returned anything but \<open>YYPUSH_MORE\<close>, starts from the beginning;
  it is \<open>None\<close>. Otherwise the stack and \<open>yyerrstatus\<close> are kept.\<close>

type_synonym yypstate = "((nat \<times> yyvalue) list \<times> nat) option"

definition yypush_parse ::
  "yypstate \<Rightarrow> token option \<Rightarrow> command_transmit \<Rightarrow> (yyresult \<times> yypstate \<times> command_transmit \<times> bool) option" where
  "yypush_parse yyps yypushed_char c =
     (case (case yyps of None \<Rightarrow> ([(0, No_Value)], 0) | Some x \<Rightarrow> x) of (st, e) \<Rightarrow>
        map_option (\<lambda>(r, g). (r, if r = Push_More then Some (yyss g, yyerrstatus g) else None, yycommand g, yycomplete g))
          (yyloop \<lparr>yyss = st, yyerrstatus = e, yychar = Some yypushed_char, yycommand = c, yycomplete = False\<rparr>))"

text \<open>\<open>parse_loop\<close> with this parser; \<open>None\<close> if it does not return.\<close>

fun table_parse_loop ::
  "yypstate \<Rightarrow> command_transmit \<Rightarrow> token list \<Rightarrow> (bool \<times> yypstate \<times> command_transmit \<times> token list) option" where
  "table_parse_loop yyps c [] =
     (case yypush_parse yyps None c of
        None \<Rightarrow> None
      | Some (status, yyps', c', complete) \<Rightarrow>
          if status = Push_More \<and> \<not> complete then None else Some (complete, yyps', c', []))"
| "table_parse_loop yyps c (t # ts) =
     (case yypush_parse yyps (Some t) c of
        None \<Rightarrow> None
      | Some (status, yyps', c', complete) \<Rightarrow>
          if status = Push_More \<and> \<not> complete then table_parse_loop yyps' c' ts
          else Some (complete, yyps', c', ts))"

end
