(* ===== verification/Parser_Steps.thy ===== *)
theory Parser_Steps
  imports Parser_Tables
begin

text \<open>
  What the tables of the parser say, state by state, and the steps of \<open>yyloop\<close>; on these rests the proof that the
  compiled parser reads the language of \<open>Command_Parser\<close>.
\<close>

section \<open>The tables, state by state\<close>

lemmas table_defs = yybackup_def default_decision_def YYPACT_NINF_def YYLAST_def YYNTOKENS_def
  yydefact_def yydefgoto_def yypact_def yypgoto_def yytable_def yycheck_def yyr1_def yyr2_def

text \<open>States that reduce without a token.\<close>

lemma default_states:
  "yybackup 4 k = Reduce 3"
  "yybackup 5 k = Reduce 2"
  "yybackup 7 k = Reduce 1"
  "yybackup 15 k = Reduce 15"
  "yybackup 16 k = Reduce 17"
  "yybackup 18 k = Reduce 20"
  "yybackup 19 k = Reduce 21"
  "yybackup 20 k = Reduce 22"
  "yybackup 21 k = Reduce 23"
  "yybackup 26 k = Reduce 8"
  "yybackup 29 k = Reduce 24"
  "yybackup 30 k = Reduce 4"
  "yybackup 32 k = Reduce 6"
  "yybackup 33 k = Reduce 9"
  "yybackup 34 k = Reduce 14"
  "yybackup 35 k = Reduce 16"
  "yybackup 37 k = Reduce 19"
  "yybackup 38 k = Reduce 10"
  "yybackup 39 k = Reduce 11"
  "yybackup 40 k = Reduce 13"
  "yybackup 41 k = Reduce 12"
  "yybackup 43 k = Reduce 18"
  by (simp_all add: table_defs)

text \<open>States that look at a token.\<close>

lemma asking_states:
  "yybackup 0 None = Need_Token"
  "yybackup 1 None = Need_Token"
  "yybackup 2 None = Need_Token"
  "yybackup 3 None = Need_Token"
  "yybackup 6 None = Need_Token"
  "yybackup 8 None = Need_Token"
  "yybackup 9 None = Need_Token"
  "yybackup 10 None = Need_Token"
  "yybackup 11 None = Need_Token"
  "yybackup 12 None = Need_Token"
  "yybackup 13 None = Need_Token"
  "yybackup 14 None = Need_Token"
  "yybackup 17 None = Need_Token"
  "yybackup 22 None = Need_Token"
  "yybackup 23 None = Need_Token"
  "yybackup 24 None = Need_Token"
  "yybackup 25 None = Need_Token"
  "yybackup 27 None = Need_Token"
  "yybackup 28 None = Need_Token"
  "yybackup 31 None = Need_Token"
  "yybackup 36 None = Need_Token"
  "yybackup 42 None = Need_Token"
  by (simp_all add: table_defs)

lemma below_17: "(k::nat) < 17 \<Longrightarrow> k \<in> {0, 1, 2, 3, 4, 5, 6, 7, 8, 9, 10, 11, 12, 13, 14, 15, 16}"
  by (simp add: less_Suc_eq numeral_eq_Suc)

lemma token_states:
  assumes "k < 17"
  shows
    "yybackup 0 (Some k) = (if k = 0 then Reduce 5 else if k = 1 then Shift 1 else if k = 9 then Shift 2 else Error)"
    "yybackup 1 (Some k) = (if k = 9 then Shift 2 else Reduce 5)"
    "yybackup 2 (Some k) = (if k = 12 then Shift 6 else Error)"
    "yybackup 3 (Some k) = (if k = 0 then Shift 7 else Error)"
    "yybackup 6 (Some k) = (if k = 3 then Shift 8 else Error)"
    "yybackup 8 (Some k) = (if k = 13 then Shift 9 else Error)"
    "yybackup 9 (Some k) = (if k = 14 then Shift 10 else Error)"
    "yybackup 10 (Some k) = (if k = 10 then Shift 11 else Reduce 7)"
    "yybackup 11 (Some k) = (if k = 14 then Shift 13 else Error)"
    "yybackup 12 (Some k) = (if k = 3 then Shift 14 else if k = 4 then Shift 15 else if k = 5 then Shift 16 else if k = 14 then Shift 17 else Reduce 26)"
    "yybackup 13 (Some k) = (if k = 3 then Shift 24 else Error)"
    "yybackup 14 (Some k) = (if k = 16 then Shift 27 else Error)"
    "yybackup 17 (Some k) = (if k = 3 then Shift 14 else if k = 4 then Shift 15 else if k = 5 then Shift 16 else if k = 14 then Shift 17 else Reduce 26)"
    "yybackup 22 (Some k) = (if k = 3 then Shift 14 else if k = 4 then Shift 15 else if k = 5 then Shift 16 else if k = 14 then Shift 17 else Reduce 25)"
    "yybackup 23 (Some k) = (if k = 15 then Shift 30 else Error)"
    "yybackup 24 (Some k) = (if k = 16 then Shift 31 else Error)"
    "yybackup 25 (Some k) = (if k = 3 then Shift 24 else if k = 15 then Shift 32 else Error)"
    "yybackup 27 (Some k) = (if k = 4 then Shift 34 else if k = 5 then Shift 35 else if k = 14 then Shift 36 else Error)"
    "yybackup 28 (Some k) = (if k = 15 then Shift 37 else Error)"
    "yybackup 31 (Some k) = (if k = 3 then Shift 38 else if k = 6 then Shift 39 else if k = 7 then Shift 40 else if k = 8 then Shift 41 else Error)"
    "yybackup 36 (Some k) = (if k = 3 then Shift 14 else if k = 4 then Shift 15 else if k = 5 then Shift 16 else if k = 14 then Shift 17 else Reduce 26)"
    "yybackup 42 (Some k) = (if k = 15 then Shift 43 else Error)"
  using below_17 [OF assms] by (elim insertE emptyE; simp add: table_defs)+

lemma goto_states:
  "yygoto 18 0 = 3"
  "yygoto 19 0 = 4"
  "yygoto 19 1 = 5"
  "yygoto 20 10 = 12"
  "yygoto 21 13 = 25"
  "yygoto 22 13 = 26"
  "yygoto 22 25 = 33"
  "yygoto 23 12 = 18"
  "yygoto 23 17 = 18"
  "yygoto 23 36 = 18"
  "yygoto 23 22 = 18"
  "yygoto 24 12 = 19"
  "yygoto 24 17 = 19"
  "yygoto 24 36 = 19"
  "yygoto 24 22 = 19"
  "yygoto 25 12 = 20"
  "yygoto 25 17 = 20"
  "yygoto 25 36 = 20"
  "yygoto 25 22 = 20"
  "yygoto 26 12 = 21"
  "yygoto 26 17 = 21"
  "yygoto 26 36 = 21"
  "yygoto 26 22 = 29"
  "yygoto 27 12 = 22"
  "yygoto 27 17 = 22"
  "yygoto 27 36 = 22"
  "yygoto 28 12 = 23"
  "yygoto 28 17 = 28"
  "yygoto 28 36 = 42"
  by (simp_all add: yygoto_def table_defs)

lemma rules:
  "yyr1 ! 2 = 18" "yyr2 ! 2 = 2"
  "yyr1 ! 3 = 18" "yyr2 ! 3 = 1"
  "yyr1 ! 4 = 19" "yyr2 ! 4 = 8"
  "yyr1 ! 5 = 19" "yyr2 ! 5 = 0"
  "yyr1 ! 6 = 20" "yyr2 ! 6 = 4"
  "yyr1 ! 7 = 20" "yyr2 ! 7 = 0"
  "yyr1 ! 8 = 21" "yyr2 ! 8 = 1"
  "yyr1 ! 9 = 21" "yyr2 ! 9 = 2"
  "yyr1 ! 10 = 22" "yyr2 ! 10 = 3"
  "yyr1 ! 11 = 22" "yyr2 ! 11 = 3"
  "yyr1 ! 12 = 22" "yyr2 ! 12 = 3"
  "yyr1 ! 13 = 22" "yyr2 ! 13 = 3"
  "yyr1 ! 14 = 23" "yyr2 ! 14 = 3"
  "yyr1 ! 15 = 23" "yyr2 ! 15 = 1"
  "yyr1 ! 16 = 24" "yyr2 ! 16 = 3"
  "yyr1 ! 17 = 24" "yyr2 ! 17 = 1"
  "yyr1 ! 18 = 25" "yyr2 ! 18 = 5"
  "yyr1 ! 19 = 25" "yyr2 ! 19 = 3"
  "yyr1 ! 20 = 26" "yyr2 ! 20 = 1"
  "yyr1 ! 21 = 26" "yyr2 ! 21 = 1"
  "yyr1 ! 22 = 26" "yyr2 ! 22 = 1"
  "yyr1 ! 23 = 27" "yyr2 ! 23 = 1"
  "yyr1 ! 24 = 27" "yyr2 ! 24 = 2"
  "yyr1 ! 25 = 28" "yyr2 ! 25 = 1"
  "yyr1 ! 26 = 28" "yyr2 ! 26 = 0"
  by (simp_all add: table_defs)

lemma error_shift_table: "map error_shift [0..<44] = Some 1 # replicate 43 None"
  by (simp add: error_shift_def table_defs upt_rec [of _ 44] numeral_eq_Suc)

lemma error_shift: "s < 44 \<Longrightarrow> error_shift s = (if s = 0 then Some 1 else None)"
  using nth_map [of s "[0..<44]" error_shift] by (cases s) (simp_all add: error_shift_table)

lemma token_number_less: "token_number t < 17" "token_number t \<noteq> 0" "token_number t \<noteq> 1"
  by (cases t; simp add: mark_number_def)+

end
