(* ===== verification/Parser_Simulation.thy ===== *)
theory Parser_Simulation
  imports Parser_Steps
begin

text \<open>
  The parser of the tables reads what the grammar says: a stack for every state of \<open>Command_Parser\<close>, and every
  token, an error or the end of the input included, has the same effect on both.
\<close>

text \<open>State one is written as it is in the tables.\<close>

declare One_nat_def [simp del]

section \<open>Steps\<close>

abbreviation config ::
  "(nat \<times> yyvalue) list \<Rightarrow> nat \<Rightarrow> token option option \<Rightarrow> command_transmit \<Rightarrow> bool \<Rightarrow> yyconfig" where
  "config st e la c d \<equiv> \<lparr>yyss = st, yyerrstatus = e, yychar = la, yycommand = c, yycomplete = d\<rparr>"

lemma step_more:
  assumes "yybackup s None = Need_Token"
  shows "yyloop (config ((s, v) # st) e None c d) = Some (Push_More, config ((s, v) # st) e None c d)"
  using assms by (subst yyloop.simps) (simp add: yystep_def)

lemma step_shift:
  assumes "yybackup s (Some (token_number t)) = Shift n" and "n \<noteq> YYFINAL" and "length st + 2 < YYMAXDEPTH"
  shows "yyloop (config ((s, v) # st) e (Some (Some t)) c d)
    = yyloop (config ((n, Token_Value t) # (s, v) # st) (e - 1) None c d)"
  using assms by (subst yyloop.simps) (simp add: yystep_def yytranslate_def yynewstate_def)

lemma step_reduce:
  assumes "yybackup s (map_option yytranslate la) = Reduce n"
  shows "yyloop (config ((s, v) # st) e la c d)
    = (case yyreduce n (config ((s, v) # st) e la c d) of
        Running g \<Rightarrow> yyloop g | Stopped r g \<Rightarrow> Some (r, g))"
  using assms by (subst yyloop.simps) (simp add: yystep_def)

section \<open>Recovery\<close>

text \<open>Stacks that reach down to the state zero; no state above it takes the symbol \<open>error\<close>.\<close>

definition grounded :: "(nat \<times> yyvalue) list \<Rightarrow> bool" where
  "grounded st \<longleftrightarrow> (\<exists>u a. st = u @ [(0, a)] \<and> (\<forall>x \<in> set u. fst x \<noteq> 0 \<and> fst x < 44))"

lemma grounded_Nil: "grounded [(0, a)]"
  by (simp add: grounded_def)

lemma grounded_Cons: "grounded st \<Longrightarrow> s \<noteq> 0 \<Longrightarrow> s < 44 \<Longrightarrow> grounded ((s, v) # st)"
  unfolding grounded_def by (metis append_Cons fst_conv set_ConsD)

lemma grounded_pop:
  assumes "grounded st"
  shows "\<exists>a. dropWhile (\<lambda>x. error_shift (fst x) = None) st = [(0, a)]"
proof -
  obtain u a where u: "st = u @ [(0, a)]" "\<forall>x \<in> set u. fst x \<noteq> 0 \<and> fst x < 44"
    using assms by (auto simp: grounded_def)
  then have "\<forall>x \<in> set u. error_shift (fst x) = None" by (simp add: error_shift)
  then have "dropWhile (\<lambda>x. error_shift (fst x) = None) st = dropWhile (\<lambda>x. error_shift (fst x) = None) [(0, a)]"
    using u(1) by (simp add: dropWhile_append2)
  then show ?thesis by (simp add: error_shift)
qed

lemma errlab1_grounded:
  assumes "grounded st"
  shows "\<exists>a. yyerrlab1 (config st e la c d) = Running (config [(1, No_Value), (0, a)] 3 la c d)"
  using grounded_pop [OF assms]
  by (auto simp: yyerrlab1_def Let_def error_shift yynewstate_def YYMAXDEPTH_def YYFINAL_def)

lemma step_error:
  assumes "yybackup s (map_option yytranslate la) = Error" and "grounded ((s, v) # st)" and "e \<noteq> 3"
  shows "\<exists>a. yyloop (config ((s, v) # st) e la c d) = yyloop (config [(1, No_Value), (0, a)] 3 la c d)"
proof -
  obtain a where "yyerrlab1 (config ((s, v) # st) e la c d) = Running (config [(1, No_Value), (0, a)] 3 la c d)"
    using errlab1_grounded [OF assms(2)] by blast
  with assms(1,3) have "yystep (config ((s, v) # st) e la c d) = Running (config [(1, No_Value), (0, a)] 3 la c d)"
    by (simp add: yystep_def yyerrlab_def)
  then show ?thesis by (subst yyloop.simps) auto
qed

text \<open>What the parser does with the token that showed the error.\<close>

lemmas table_facts = default_states asking_states token_states goto_states rules token_number_less

lemma at_one: "take 1 (x # xs) = [x]" "drop 1 (x # xs) = xs" "(x # xs) ! 1 = xs ! 0"
  by (simp_all add: One_nat_def)

lemmas machine_defs = at_one yyreduce_def yyaction_def yynewstate_def YYMAXDEPTH_def YYFINAL_def Let_def

lemma after_error:
  "\<exists>st e'. yyloop (config [(1, v), (0, a)] 3 (Some (Some t)) c d) = Some (Push_More, config st e' None c d) \<and>
    (if t = Command_Start then e' = 2 \<and> (\<exists>v w. st = [(2, v), (1, w), (0, a)])
     else e' = 3 \<and> (\<exists>w b. st = [(1, w), (0, b)]))"
proof (cases "t = Command_Start")
  case True
  then show ?thesis
    by (simp add: step_shift step_more table_facts YYMAXDEPTH_def YYFINAL_def)
next
  case False
  then have k: "token_number t \<noteq> 9" by (cases t) (auto simp: mark_number_def split: if_splits)
  have "yyloop (config [(1, v), (0, a)] 3 (Some (Some t)) c d)
      = yyloop (config [(3, v), (0, a)] 3 (Some (Some t)) c d)"
    using k by (simp add: step_reduce yytranslate_def table_facts machine_defs)
  also have "\<dots> = yyloop (config [(1, No_Value), (0, a)] 3 None c d)"
    using token_number_less [of t]
    by (subst yyloop.simps) (simp add: yystep_def yytranslate_def table_facts yyerrlab_def yyerrlab1_def error_shift machine_defs)
  also have "\<dots> = Some (Push_More, config [(1, No_Value), (0, a)] 3 None c d)"
    by (rule step_more) (simp add: asking_states)
  finally show ?thesis using False by simp
qed

section \<open>Stacks\<close>

definition ground :: "(nat \<times> yyvalue) list \<Rightarrow> bool" where
  "ground st \<longleftrightarrow> (\<exists>a b. st = [(0, a)] \<or> st = [(1, b), (0, a)])"

definition header :: "string \<Rightarrow> (nat \<times> yyvalue) list \<Rightarrow> bool" where
  "header nm st \<longleftrightarrow> (\<exists>v w x y b. st = (10, v) # (9, w) # (8, Token_Value (Label nm)) # (6, x) # (2, y) # b \<and> ground b)"

text \<open>The stack within data: the sections read in a group are one entry, if there are any; below is the brace
  that opened the group, with its name if it has one, or the route.\<close>

definition with_data :: "data_section list \<Rightarrow> (nat \<times> yyvalue) list \<Rightarrow> (nat \<times> yyvalue) list" where
  "with_data acc st = (if acc = [] then st else (22, Holding acc) # st)"

fun below :: "string \<Rightarrow> frame list \<Rightarrow> (nat \<times> yyvalue) list \<Rightarrow> bool" where
  "below nm [] st \<longleftrightarrow> (\<exists>v u. st = (12, v) # u \<and> header nm u)"
| "below nm ((g, acc) # fs) st \<longleftrightarrow>
     (\<exists>u. below nm fs u \<and>
       ((\<exists>v. g = [] \<and> st = (17, v) # with_data acc u) \<or>
        (\<exists>v w. st = (36, v) # (27, w) # (14, Token_Value (Label g)) # with_data acc u)))"

definition content :: "string \<Rightarrow> frame list \<Rightarrow> data_section list \<Rightarrow> (nat \<times> yyvalue) list \<Rightarrow> bool" where
  "content nm fs acc st \<longleftrightarrow> (\<exists>u. below nm fs u \<and> st = with_data acc u)"

definition routing :: "string \<Rightarrow> bool \<Rightarrow> (nat \<times> yyvalue) list \<Rightarrow> bool" where
  "routing nm some st \<longleftrightarrow>
     (\<exists>v w u. header nm u \<and> (if some then \<exists>x. st = (25, x) # (13, v) # (11, w) # u else st = (13, v) # (11, w) # u))"

fun related :: "pstate \<Rightarrow> (nat \<times> yyvalue) list \<Rightarrow> nat \<Rightarrow> bool" where
  "related Outside st e \<longleftrightarrow>
     (\<exists>a v. (st = [(1, v), (0, a)] \<and> e = 3) \<or> (st = [(3, v), (0, a)] \<and> e = 0) \<or> (st = [(0, a)] \<and> e = 0))"
| "related Started st e \<longleftrightarrow> (\<exists>v b. st = (2, v) # b \<and> ground b \<and> e \<le> 2)"
| "related Name_Expected st e \<longleftrightarrow> (\<exists>v w b. st = (6, v) # (2, w) # b \<and> ground b \<and> e \<le> 1)"
| "related (Named nm) st e \<longleftrightarrow>
     (\<exists>v w b. st = (8, Token_Value (Label nm)) # (6, v) # (2, w) # b \<and> ground b \<and> e = 0)"
| "related (Name_Closed nm) st e \<longleftrightarrow>
     (\<exists>u v w b. st = (9, u) # (8, Token_Value (Label nm)) # (6, v) # (2, w) # b \<and> ground b \<and> e = 0)"
| "related (Body_Start nm) st e \<longleftrightarrow> header nm st \<and> e = 0"
| "related (Route_Named nm) st e \<longleftrightarrow> (\<exists>v u. st = (11, v) # u \<and> header nm u \<and> e = 0)"
| "related (Routing nm some) st e \<longleftrightarrow> routing nm some st \<and> e = 0"
| "related (Property nm l) st e \<longleftrightarrow> (\<exists>some u. st = (24, Token_Value (Label l)) # u \<and> routing nm some u \<and> e = 0)"
| "related (Value nm l) st e \<longleftrightarrow>
     (\<exists>some v u. st = (31, v) # (24, Token_Value (Label l)) # u \<and> routing nm some u \<and> e = 0)"
| "related (Content nm fs acc) st e \<longleftrightarrow> content nm fs acc st \<and> e = 0"
| "related (Section nm fs acc l) st e \<longleftrightarrow>
     (\<exists>u. st = (14, Token_Value (Label l)) # u \<and> content nm fs acc u \<and> e = 0)"
| "related (Section_Value nm fs acc l) st e \<longleftrightarrow>
     (\<exists>v u. st = (27, v) # (14, Token_Value (Label l)) # u \<and> content nm fs acc u \<and> e = 0)"

text \<open>Every such stack is grounded, and no deeper than the groups ask for.\<close>

lemma grounded_ground: "ground st \<Longrightarrow> grounded st \<and> length st \<le> 2"
  by (auto simp: ground_def intro: grounded_Cons grounded_Nil)

lemma grounded_header: "header nm st \<Longrightarrow> grounded st \<and> length st \<le> 7"
  by (auto simp: header_def intro!: grounded_Cons dest!: grounded_ground)

lemma grounded_below: "below nm fs st \<Longrightarrow> grounded st \<and> length st \<le> 8 + 4 * length fs"
proof (induction nm fs st rule: below.induct)
  case (1 nm st)
  then show ?case by (auto intro!: grounded_Cons dest!: grounded_header)
next
  case (2 nm g acc fs st)
  then obtain u where u: "below nm fs u" "(\<exists>v. st = (17, v) # with_data acc u) \<or>
      (\<exists>v w. st = (36, v) # (27, w) # (14, Token_Value (Label g)) # with_data acc u)" by auto
  with 2(1) have "grounded u \<and> length u \<le> 8 + 4 * length fs" by blast
  then have "grounded (with_data acc u) \<and> length (with_data acc u) \<le> 9 + 4 * length fs"
    by (simp add: with_data_def grounded_Cons)
  with u(2) show ?case by (auto intro!: grounded_Cons)
qed

lemma grounded_content: "content nm fs acc st \<Longrightarrow> grounded st \<and> length st \<le> 9 + 4 * length fs"
  by (auto simp: content_def with_data_def intro!: grounded_Cons dest!: grounded_below)

lemma grounded_routing: "routing nm some st \<Longrightarrow> grounded st \<and> length st \<le> 10"
  by (auto simp: routing_def intro!: grounded_Cons dest!: grounded_header split: if_splits)

fun frames :: "pstate \<Rightarrow> frame list" where
  "frames (Content nm fs acc) = fs"
| "frames (Section nm fs acc l) = fs"
| "frames (Section_Value nm fs acc l) = fs"
| "frames _ = []"

lemma grounded_related: "related p st e \<Longrightarrow> grounded st \<and> length st \<le> 12 + 4 * length (frames p)"
  by (cases p) (auto intro!: grounded_Cons grounded_Nil dest!: grounded_ground grounded_header grounded_content grounded_routing)

section \<open>A token\<close>

definition simulates :: "push \<times> command_transmit \<Rightarrow> token \<Rightarrow> (yyresult \<times> yyconfig) option \<Rightarrow> bool" where
  "simulates x t r \<longleftrightarrow>
     (\<exists>st e. case x of
        (Go p, c) \<Rightarrow> r = Some (Push_More, config st e None c False) \<and> related p st e
      | (Accept nm tr, c) \<Rightarrow>
          r = Some (Push_More, config st e None (c\<lparr>tree := tr, command_label := nm\<rparr>) True) \<and> related Outside st e
      | (Syntax_Error, c) \<Rightarrow> r = Some (Push_More, config st e None c False) \<and> related (recover t) st e
      | (Action_Error, c) \<Rightarrow> r = Some (Push_More, config st e None c False) \<and> related Outside st e)"

lemma simulates_error:
  assumes "yybackup s (Some (token_number t)) = Error" and "grounded ((s, v) # st)" and "e \<noteq> 3"
  shows "simulates (Syntax_Error, c) t (yyloop (config ((s, v) # st) e (Some (Some t)) c False))"
proof -
  obtain a where a: "yyloop (config ((s, v) # st) e (Some (Some t)) c False)
      = yyloop (config [(1, No_Value), (0, a)] 3 (Some (Some t)) c False)"
    using step_error [of s "Some (Some t)" v st e c False] assms by (auto simp: yytranslate_def)
  obtain st' e' where "yyloop (config [(1, No_Value), (0, a)] 3 (Some (Some t)) c False)
      = Some (Push_More, config st' e' None c False)"
      "if t = Command_Start then e' = 2 \<and> (\<exists>v w. st' = [(2, v), (1, w), (0, a)])
       else e' = 3 \<and> (\<exists>w b. st' = [(1, w), (0, b)])"
    using after_error [of No_Value a t c False] by blast
  with a show ?thesis by (cases "t = Command_Start") (auto simp: simulates_def recover_def ground_def)
qed

text \<open>A shift after which the parser asks for the next token.\<close>

lemma simulates_shift:
  assumes "yybackup s (Some (token_number t)) = Shift n" and "n \<noteq> YYFINAL" and "length st + 2 < YYMAXDEPTH"
    and "yybackup n None = Need_Token" and "related p ((n, Token_Value t) # (s, v) # st) (e - 1)"
  shows "simulates (Go p, c) t (yyloop (config ((s, v) # st) e (Some (Some t)) c False))"
  using assms by (auto simp: simulates_def step_shift step_more)

lemma mark_numbers: "token_number t = 12 \<longleftrightarrow> t = Mark CHR ''[''" "token_number t = 13 \<longleftrightarrow> t = Mark CHR '']''"
  "token_number t = 14 \<longleftrightarrow> t = Mark CHR ''{''" "token_number t = 15 \<longleftrightarrow> t = Mark CHR ''}''"
  "token_number t = 16 \<longleftrightarrow> t = Mark CHR ''=''" "token_number t = 9 \<longleftrightarrow> t = Command_Start"
  "token_number t = 10 \<longleftrightarrow> t = Route_Start" "token_number t = 3 \<longleftrightarrow> (\<exists>l. t = Label l)"
  "token_number t = 4 \<longleftrightarrow> (\<exists>d. t = Text d)" "token_number t = 5 \<longleftrightarrow> (\<exists>d. t = Binary d)"
  "token_number t = 6 \<longleftrightarrow> (\<exists>l. t = Extended l)" "token_number t = 7 \<longleftrightarrow> (\<exists>u. t = UInteger u)"
  "token_number t = 8 \<longleftrightarrow> (\<exists>i. t = SInteger i)"
  by (cases t; simp add: mark_number_def)+

lemma simulates_mark:
  assumes "\<And>k. k < 17 \<Longrightarrow> yybackup s (Some k) = (if k = mark_number m then Shift n else Error)"
    and "n \<noteq> YYFINAL" and "yybackup n None = Need_Token" and "mark_number m \<noteq> 2"
    and "grounded ((s, v) # st)" and "e \<noteq> 3" and "length st + 2 < YYMAXDEPTH"
    and "related p ((n, Token_Value (Mark m)) # (s, v) # st) (e - 1)"
  shows "simulates (want_mark m p t, c) t (yyloop (config ((s, v) # st) e (Some (Some t)) c False))"
proof (cases "t = Mark m")
  case True
  with assms show ?thesis
    using simulates_shift [of s t n st p v e c] token_number_less [of t] by (simp add: want_mark_def)
next
  case False
  then have "token_number t \<noteq> mark_number m"
    using assms(4) by (cases t) (auto simp: mark_number_def split: if_splits)
  with False assms(1) [of "token_number t"] simulates_error [of s t v st e c] assms(5,6) token_number_less [of t]
  show ?thesis by (simp add: want_mark_def)
qed

lemma sim_marks:
  assumes "related p st e" and "length st + 4 < YYMAXDEPTH"
  shows "p = Started \<Longrightarrow> simulates (push_token p t c) t (yyloop (config st e (Some (Some t)) c False))"
    and "p = Named nm \<Longrightarrow> simulates (push_token p t c) t (yyloop (config st e (Some (Some t)) c False))"
    and "p = Name_Closed nm \<Longrightarrow> simulates (push_token p t c) t (yyloop (config st e (Some (Some t)) c False))"
    and "p = Route_Named nm \<Longrightarrow> simulates (push_token p t c) t (yyloop (config st e (Some (Some t)) c False))"
    and "p = Property nm l \<Longrightarrow> simulates (push_token p t c) t (yyloop (config st e (Some (Some t)) c False))"
    and "p = Section nm fs acc l \<Longrightarrow> simulates (push_token p t c) t (yyloop (config st e (Some (Some t)) c False))"
proof -
  note g = grounded_related [OF assms(1), THEN conjunct1]
  let ?goal = "simulates (push_token p t c) t (yyloop (config st e (Some (Some t)) c False))"
  show ?goal if "p = Started"
    using assms g that
    by (clarsimp simp del: related.simps(3)) (rule simulates_mark; force simp: table_facts mark_number_def YYFINAL_def)
  show ?goal if "p = Named nm"
    using assms g that by clarsimp (rule simulates_mark; force simp: table_facts mark_number_def YYFINAL_def)
  show ?goal if "p = Name_Closed nm"
    using assms g that
    by clarsimp (rule simulates_mark; force simp: table_facts mark_number_def YYFINAL_def header_def)
  show ?goal if "p = Route_Named nm"
    using assms g that
    by clarsimp (rule simulates_mark; force simp: table_facts mark_number_def YYFINAL_def routing_def)
  show ?goal if "p = Property nm l"
    using assms g that
    by clarsimp (rule simulates_mark; force simp: table_facts mark_number_def YYFINAL_def)
  show ?goal if "p = Section nm fs acc l"
    using assms g that
    by clarsimp (rule simulates_mark; force simp: table_facts mark_number_def YYFINAL_def)
qed

section \<open>Data\<close>

lemma below_top: "below nm fs st \<Longrightarrow> \<exists>s v u. st = (s, v) # u \<and> s \<in> {12, 17, 36}"
  by (cases fs) (auto elim: below.elims)

text \<open>A section that is complete goes to the end of those read before.\<close>

lemma add_section:
  assumes "n \<in> {18, 19, 20}" and "s \<in> {12, 17, 36}" and "length st + 4 < YYMAXDEPTH"
  shows "yyloop (config ((n, Holding [x]) # with_data acc ((s, v) # st)) e None c d)
    = Some (Push_More, config (with_data (acc @ [x]) ((s, v) # st)) e None c d)"
  using assms by (cases "acc = []")
    (auto simp: with_data_def step_reduce step_more table_facts machine_defs value_holding_def)

lemma content_top:
  assumes "content nm fs acc st"
  shows "\<exists>s v u. st = with_data acc ((s, v) # u) \<and> below nm fs ((s, v) # u) \<and> s \<in> {12, 17, 36}"
  using assms below_top by (fastforce simp: content_def)

lemma content_data:
  assumes "content nm fs acc st" and "length st + 4 < YYMAXDEPTH" and "n \<in> {18, 19, 20}"
  shows "\<exists>st'. yyloop (config ((n, Holding [x]) # st) e None c d) = Some (Push_More, config st' e None c d) \<and>
    content nm fs (acc @ [x]) st'"
proof -
  obtain s v u where u: "st = with_data acc ((s, v) # u)" "below nm fs ((s, v) # u)" "s \<in> {12, 17, 36}"
    using content_top [OF assms(1)] by blast
  have "length u + 4 < YYMAXDEPTH" using assms(2) u(1) by (auto simp: with_data_def split: if_splits)
  with add_section [OF assms(3) u(3), of u x acc v e c d] u show ?thesis by (auto simp: content_def)
qed

text \<open>The end of the data in a group: what was read becomes \<open>content\<close>.\<close>

definition content_state :: "nat \<Rightarrow> nat" where
  "content_state s = (if s = 12 then 23 else if s = 17 then 28 else 42)"

lemma reduce_content:
  assumes "s \<in> {12, 17, 36}" and "yytranslate t \<notin> {3, 4, 5, 14}" and "yytranslate t < 17"
    and "length st + 4 < YYMAXDEPTH"
  shows "yyloop (config (with_data acc ((s, v) # st)) e (Some t) c d)
    = yyloop (config ((content_state s, Holding acc) # (s, v) # st) e (Some t) c d)"
  using assms by (cases "acc = []")
    (auto simp: with_data_def step_reduce table_facts machine_defs value_holding_def content_state_def)

lemma content_error:
  assumes "content nm fs acc st" and "yytranslate t \<notin> {3, 4, 5, 14, 15}" and "yytranslate t < 17"
    and "length st + 4 < YYMAXDEPTH"
  shows "\<exists>n v u. yyloop (config st 0 (Some t) c d) = yyloop (config ((n, v) # u) 0 (Some t) c d) \<and>
    yybackup n (Some (yytranslate t)) = Error \<and> grounded ((n, v) # u)"
proof -
  obtain s v u where u: "st = with_data acc ((s, v) # u)" "below nm fs ((s, v) # u)" "s \<in> {12, 17, 36}"
    using content_top [OF assms(1)] by blast
  have l: "length u + 4 < YYMAXDEPTH" using assms(4) u(1) by (auto simp: with_data_def split: if_splits)
  have "yybackup (content_state s) (Some (yytranslate t)) = Error"
    using u(3) assms(2,3) by (auto simp: content_state_def token_states)
  moreover have "grounded ((content_state s, Holding acc) # (s, v) # u)"
    using grounded_below [OF u(2)] by (auto intro!: grounded_Cons simp: content_state_def)
  ultimately show ?thesis
    using reduce_content [OF u(3) _ assms(3) l, of acc v 0 c d] assms(2) u(1) by auto
qed

lemma simulates_content:
  assumes "\<exists>st'. r = Some (Push_More, config st' 0 None c False) \<and> content nm fs acc st'"
  shows "simulates (Go (Content nm fs acc), c) t r"
  using assms by (auto simp: simulates_def)

lemma with_data_top: "below nm fs w \<Longrightarrow> \<exists>q z u. with_data acc w = (q, z) # u \<and> q \<in> {12, 17, 22, 36}"
  using below_top [of nm fs w] by (auto simp: with_data_def)

lemma section_goto:
  "q \<in> {12, 17, 22, 36} \<Longrightarrow> yygoto 23 q = 18" "q \<in> {12, 17, 22, 36} \<Longrightarrow> yygoto 24 q = 19"
  "q \<in> {12, 17, 22, 36} \<Longrightarrow> yygoto 25 q = 20"
  by (elim insertE emptyE; simp add: goto_states)+

lemma close_unnamed:
  assumes "q \<in> {12, 17, 22, 36}" and "length st + 8 < YYMAXDEPTH"
  shows "yyloop (config ((28, Holding acc) # (17, v) # (q, z) # st) e (Some (Some (Mark CHR ''}''))) c d)
    = yyloop (config ((20, Holding [Group_Section [] acc]) # (q, z) # st) (e - 1) None c d)"
  using assms(2) section_goto [OF assms(1)]
  by (simp add: mark_number_def step_shift step_reduce default_states token_states rules machine_defs value_holding_def)

lemma close_named:
  assumes "q \<in> {12, 17, 22, 36}" and "length st + 8 < YYMAXDEPTH"
  shows "yyloop (config ((42, Holding acc) # (36, v) # (27, y) # (14, Token_Value (Label g)) # (q, z) # st) e
      (Some (Some (Mark CHR ''}''))) c d)
    = yyloop (config ((20, Holding [Group_Section g acc]) # (q, z) # st) (e - 1) None c d)"
  using assms(2) section_goto [OF assms(1)]
  by (simp add: mark_number_def step_shift step_reduce default_states token_states rules machine_defs value_holding_def
      value_string_def)

text \<open>The brace that ends a group or the command.\<close>

lemma sim_close:
  assumes "content nm fs acc st" and "length st + 8 < YYMAXDEPTH"
  shows "simulates (close_group nm fs acc, c) (Mark CHR ''}'')
    (yyloop (config st 0 (Some (Some (Mark CHR ''}''))) c False))"
proof -
  let ?t = "Mark CHR ''}''"
  have k: "yytranslate (Some ?t) = 15" "token_number ?t = 15" by (simp_all add: yytranslate_def mark_number_def)
  obtain s v u where u: "st = with_data acc ((s, v) # u)" "below nm fs ((s, v) # u)" "s \<in> {12, 17, 36}"
    using content_top [OF assms(1)] by blast
  have l: "length u + 8 < YYMAXDEPTH" using assms(2) u(1) by (auto simp: with_data_def split: if_splits)
  have r: "yyloop (config st 0 (Some (Some ?t)) c False)
      = yyloop (config ((content_state s, Holding acc) # (s, v) # u) 0 (Some (Some ?t)) c False)"
    using reduce_content [OF u(3), of "Some ?t" u acc v 0 c False] l u(1) k by simp
  show ?thesis
  proof (cases fs)
    case Nil
    then have s: "s = 12" and h: "header nm u" using u(2) by auto
    then obtain w x y z a b where "u = (10, w) # (9, x) # (8, Token_Value (Label nm)) # (6, y) # (2, z) # b"
      and b: "b = [(0, a)] \<or> (\<exists>a'. b = [(1, a'), (0, a)])" by (auto simp: header_def ground_def)
    with s l r Nil show ?thesis
      by (auto simp: content_state_def close_group_def simulates_def mark_number_def step_shift step_reduce step_more table_facts
          machine_defs value_holding_def value_string_def)
  next
    case (Cons f fs')
    obtain g outer where f: "f = (g, outer)" by (cases f)
    with u(2) Cons obtain w where w: "below nm fs' w"
      and cases: "(g = [] \<and> s = 17 \<and> u = with_data outer w) \<or>
        (\<exists>y. s = 36 \<and> u = (27, y) # (14, Token_Value (Label g)) # with_data outer w)" by auto
    have c: "content nm fs' outer (with_data outer w)" using w by (auto simp: content_def)
    obtain n where n: "n \<in> {18, 19, 20}" "yyloop (config st 0 (Some (Some ?t)) c False)
        = yyloop (config ((n, Holding [Group_Section g acc]) # with_data outer w) 0 None c False)"
    proof -
      obtain q z x where q: "with_data outer w = (q, z) # x" "q \<in> {12, 17, 22, 36}"
        using with_data_top [OF w] by blast
      have "length x + 8 < YYMAXDEPTH" using l cases q(1) by auto
      with close_unnamed [OF q(2) this, of acc v z 0 c False] close_named [OF q(2) this, of acc v _ g z 0 c False]
        r cases q(1) that [of 20] show thesis by (auto simp: content_state_def)
    qed
    have "length (with_data outer w) + 4 < YYMAXDEPTH" using cases l by auto
    from content_data [OF c this n(1), of "Group_Section g acc" 0 c False] show ?thesis
      unfolding n(2) close_group_def using Cons f by (auto intro!: simulates_content)
  qed
qed

lemma content_states:
  assumes "q \<in> {12, 17, 22, 36}"
  shows "yybackup q (Some 3) = Shift 14" "yybackup q (Some 4) = Shift 15" "yybackup q (Some 5) = Shift 16"
    "yybackup q (Some 14) = Shift 17"
  using assms by (elim insertE emptyE; simp add: token_states)+

lemma token_section:
  assumes "q \<in> {12, 17, 22, 36}" and "length st + 8 < YYMAXDEPTH"
  shows "yyloop (config ((q, z) # st) e (Some (Some (Text d))) c b)
      = yyloop (config ((18, Holding [text_data_section [] d]) # (q, z) # st) (e - 1) None c b)"
    "yyloop (config ((q, z) # st) e (Some (Some (Binary d))) c b)
      = yyloop (config ((19, Holding [sized_data_section [] d]) # (q, z) # st) (e - 1) None c b)"
  using assms(2) content_states [OF assms(1)] section_goto [OF assms(1)]
  by (simp_all add: step_shift step_reduce default_states rules machine_defs value_string_def)

lemma sim_content:
  assumes "content nm fs acc st" and "length st + 8 < YYMAXDEPTH"
  shows "simulates (content_token nm fs acc t, c) t (yyloop (config st 0 (Some (Some t)) c False))"
proof -
  obtain w where w: "below nm fs w" "st = with_data acc w" using assms(1) by (auto simp: content_def)
  obtain q z x where q: "st = (q, z) # x" "q \<in> {12, 17, 22, 36}" using with_data_top [OF w(1)] w(2) by blast
  have l: "length x + 8 < YYMAXDEPTH" using assms(2) q(1) by simp
  have g: "grounded st" using grounded_content [OF assms(1)] by simp
  have d: "simulates (Go (Content nm fs (acc @ [y])), c) t' (yyloop (config ((n, Holding [y]) # st) 0 None c False))"
    if "n \<in> {18, 19, 20}" for n y t'
    using content_data [OF assms(1) _ that, of y 0 c False] assms(2) by (auto intro!: simulates_content)
  have e: "simulates (Syntax_Error, c) t (yyloop (config st 0 (Some (Some t)) c False))"
    if k: "token_number t \<notin> {3, 4, 5, 14, 15}"
  proof -
    have "yytranslate (Some t) \<notin> {3, 4, 5, 14, 15}" "yytranslate (Some t) < 17" "length st + 4 < YYMAXDEPTH"
      using k token_number_less [of t] assms(2) by (simp_all add: yytranslate_def)
    from content_error [OF assms(1) this, of c False] obtain n v u
      where "yyloop (config st 0 (Some (Some t)) c False) = yyloop (config ((n, v) # u) 0 (Some (Some t)) c False)"
        "yybackup n (Some (token_number t)) = Error" "grounded ((n, v) # u)" by (auto simp: yytranslate_def)
    then show ?thesis using simulates_error [of n t v u 0 c] by simp
  qed
  show ?thesis
  proof (cases t)
    case (Label l')
    have "simulates (Go (Section nm fs acc l'), c) t (yyloop (config st 0 (Some (Some t)) c False))"
      unfolding q(1) using content_states [OF q(2)] l assms(1) q(1) Label
      by (intro simulates_shift) (auto simp: asking_states YYFINAL_def)
    with Label show ?thesis by (simp add: content_token_def)
  next
    case (Text d')
    with token_section(1) [OF q(2) l, of z 0 d' c False] d [of 18] q(1) show ?thesis by (simp add: content_token_def)
  next
    case (Binary d')
    with token_section(2) [OF q(2) l, of z 0 d' c False] d [of 19] q(1) show ?thesis by (simp add: content_token_def)
  next
    case (Mark m)
    have "simulates (Go (Content nm (([], acc) # fs) []), c) t (yyloop (config st 0 (Some (Some t)) c False))"
      if "m = CHR ''{''"
    proof -
      have "below nm (([], acc) # fs) ((17, Token_Value t) # st)" using w by auto
      then show ?thesis
        unfolding q(1) using content_states [OF q(2)] l q(1) Mark that
        by (intro simulates_shift) (auto simp: asking_states YYFINAL_def mark_number_def content_def with_data_def)
    qed
    with Mark sim_close [OF assms(1,2), of c] e show ?thesis
      by (auto simp: content_token_def open_group_def mark_number_def)
  qed (use e in \<open>simp_all add: content_token_def\<close>)
qed

lemma named_section:
  assumes "q \<in> {12, 17, 22, 36}" and "length st + 8 < YYMAXDEPTH"
  shows "yyloop (config ((27, y) # (14, Token_Value (Label l)) # (q, z) # st) e (Some (Some (Text d))) c b)
      = yyloop (config ((18, Holding [text_data_section l d]) # (q, z) # st) (e - 1) None c b)"
    "yyloop (config ((27, y) # (14, Token_Value (Label l)) # (q, z) # st) e (Some (Some (Binary d))) c b)
      = yyloop (config ((19, Holding [sized_data_section l d]) # (q, z) # st) (e - 1) None c b)"
  using assms(2) section_goto [OF assms(1)]
  by (simp_all add: step_shift step_reduce default_states token_states rules machine_defs value_string_def)

lemma sim_section_value:
  assumes "content nm fs acc st" and "length st + 8 < YYMAXDEPTH"
  shows "simulates (section_value nm fs acc l t, c) t
    (yyloop (config ((27, y) # (14, Token_Value (Label l)) # st) 0 (Some (Some t)) c False))"
proof -
  let ?st = "(27, y) # (14, Token_Value (Label l)) # st"
  obtain w where w: "below nm fs w" "st = with_data acc w" using assms(1) by (auto simp: content_def)
  obtain q z x where q: "st = (q, z) # x" "q \<in> {12, 17, 22, 36}" using with_data_top [OF w(1)] w(2) by blast
  have len: "length x + 8 < YYMAXDEPTH" using assms(2) q(1) by simp
  have g: "grounded ?st" using grounded_content [OF assms(1)] by (intro grounded_Cons) simp_all
  have d: "simulates (Go (Content nm fs (acc @ [y])), c) t' (yyloop (config ((n, Holding [y]) # st) 0 None c False))"
    if "n \<in> {18, 19, 20}" for n y t'
    using content_data [OF assms(1) _ that, of y 0 c False] assms(2) by (auto intro!: simulates_content)
  have e: "simulates (Syntax_Error, c) t (yyloop (config ?st 0 (Some (Some t)) c False))"
    if "token_number t \<notin> {4, 5, 14}"
    using that token_number_less [of t] g by (intro simulates_error) (auto simp: token_states)
  show ?thesis
  proof (cases t)
    case (Text d')
    with named_section(1) [OF q(2) len, of y l z 0 d' c False] d [of 18] q(1) show ?thesis by (simp add: section_value_def)
  next
    case (Binary d')
    with named_section(2) [OF q(2) len, of y l z 0 d' c False] d [of 19] q(1) show ?thesis by (simp add: section_value_def)
  next
    case (Mark m)
    have "simulates (Go (Content nm ((l, acc) # fs) []), c) t (yyloop (config ?st 0 (Some (Some t)) c False))"
      if "m = CHR ''{''"
    proof -
      have "below nm ((l, acc) # fs) ((36, Token_Value t) # ?st)" using w by auto
      then show ?thesis
        using assms(2) Mark that
        by (intro simulates_shift) (auto simp: asking_states token_states YYFINAL_def mark_number_def content_def with_data_def)
    qed
    with Mark e show ?thesis by (auto simp: section_value_def open_group_def mark_number_def)
  qed (use e in \<open>simp_all add: section_value_def\<close>)
qed

section \<open>The rest of a command\<close>

lemma sim_name:
  assumes "related Name_Expected st e" and "length st + 8 < YYMAXDEPTH"
  shows "simulates (push_token Name_Expected t c) t (yyloop (config st e (Some (Some t)) c False))"
proof -
  obtain v w b where st: "st = (6, v) # (2, w) # b" "ground b" "e \<le> 1" using assms(1) by auto
  have g: "grounded st" using grounded_related [OF assms(1)] by simp
  show ?thesis
  proof (cases "\<exists>l. t = Label l")
    case True
    with st assms(2) show ?thesis
      by clarsimp (rule simulates_shift; auto simp: asking_states token_states YYFINAL_def)
  next
    case False
    then have "token_number t \<noteq> 3" by (simp add: mark_numbers)
    with g st token_number_less [of t]
    have "simulates (Syntax_Error, c) t (yyloop (config st e (Some (Some t)) c False))"
      unfolding st(1) by (intro simulates_error) (auto simp: token_states)
    with False show ?thesis by (cases t) simp_all
  qed
qed

lemma sim_body:
  assumes "header nm st" and "length st + 9 < YYMAXDEPTH"
  shows "simulates (push_token (Body_Start nm) t c) t (yyloop (config st 0 (Some (Some t)) c False))"
proof -
  obtain v u where st: "st = (10, v) # u" using assms(1) by (auto simp: header_def)
  show ?thesis
  proof (cases "t = Route_Start")
    case True
    with st assms show ?thesis
      by simp (rule simulates_shift; force simp: asking_states token_states YYFINAL_def)
  next
    case False
    then have k: "token_number t \<noteq> 10" by (simp add: mark_numbers)
    have "yyloop (config st 0 (Some (Some t)) c False) = yyloop (config ((12, No_Value) # st) 0 (Some (Some t)) c False)"
      using k token_number_less [of t] assms(2) st
      by (simp add: step_reduce yytranslate_def token_states goto_states rules machine_defs)
    moreover have "content nm [] [] ((12, No_Value) # st)" using assms(1) by (simp add: content_def with_data_def)
    ultimately show ?thesis using sim_content [of nm "[]" "[]" "(12, No_Value) # st" t c] assms(2) False by simp
  qed
qed

lemma sim_routing:
  assumes "routing nm some st" and "length st + 8 < YYMAXDEPTH"
  shows "simulates (push_token (Routing nm some) t c) t (yyloop (config st 0 (Some (Some t)) c False))"
proof -
  obtain v w u s x where u: "header nm u" "if some then st = (25, x) # (13, v) # (11, w) # u else st = (13, v) # (11, w) # u"
    and st: "st = (if some then 25 else 13, x) # s" using assms(1) by (auto simp: routing_def split: if_splits)
  have g: "grounded st" using grounded_routing [OF assms(1)] by simp
  have e: "simulates (Syntax_Error, c) t (yyloop (config st 0 (Some (Some t)) c False))"
    if "token_number t \<noteq> 3" "some \<longrightarrow> token_number t \<noteq> 15"
    using that g token_number_less [of t] unfolding st by (intro simulates_error) (auto simp: token_states)
  show ?thesis
  proof (cases t)
    case (Label l)
    have "simulates (Go (Property nm l), c) t (yyloop (config st 0 (Some (Some t)) c False))"
      unfolding st using assms Label st
      by (intro simulates_shift) (auto simp: asking_states token_states YYFINAL_def)
    with Label show ?thesis by (simp add: routing_token_def)
  next
    case (Mark m)
    show ?thesis
    proof (cases "some \<and> m = CHR ''}''")
      case True
      have h: "\<exists>y z. u = (10, y) # z" using u(1) by (auto simp: header_def)
      have "yyloop (config st 0 (Some (Some t)) c False) = Some (Push_More, config ((12, w) # u) 0 None c False)"
        using True Mark u(2) assms(2) h
        by (auto simp: mark_number_def step_shift step_reduce step_more table_facts machine_defs)
      with True Mark u(1) show ?thesis
        by (auto simp: routing_token_def simulates_def content_def with_data_def)
    next
      case False
      with Mark e show ?thesis by (auto simp: routing_token_def mark_number_def)
    qed
  qed (use e in \<open>simp_all add: routing_token_def\<close>)
qed

definition value_token :: "token \<Rightarrow> bool" where
  "value_token t \<longleftrightarrow> token_number t \<in> {3, 6, 7, 8}"

lemma property_value_table:
  "property_value nm l t c =
    (if value_token t then
       (case value_property l (Token_Value t) c of (ok, c') \<Rightarrow> (if ok then Go (Routing nm True) else Action_Error, c'))
     else (Syntax_Error, c))"
  by (cases t) (simp_all add: property_value_def value_token_def value_property_def value_string_def mark_number_def)

definition value_rule :: "token \<Rightarrow> nat" where
  "value_rule t = (if token_number t = 3 then 10 else if token_number t = 6 then 11 else if token_number t = 7 then 13 else 12)"

text \<open>Reading the value up to the point where the action has run.\<close>

lemma value_reduce:
  assumes "value_token t" and "length st + 8 < YYMAXDEPTH"
  shows "yyloop (config ((31, v) # (24, Token_Value (Label l)) # st) e (Some (Some t)) c False)
    = (case value_property l (Token_Value t) c of (ok, c') \<Rightarrow>
        (case (if \<not> ok then yyerrlab1 (config st (e - 1) None c' False)
               else yynewstate (yygoto 22 (fst (hd st))) (Token_Value (Label l)) (config st (e - 1) None c' False)) of
           Running g \<Rightarrow> yyloop g | Stopped r g \<Rightarrow> Some (r, g)))"
proof -
  have "token_number t \<in> {3, 6, 7, 8}" using assms(1) by (simp add: value_token_def)
  then show ?thesis
    using assms(2)
    by (elim insertE emptyE)
      (simp_all add: step_shift step_reduce default_states token_states rules yyreduce_def yyaction_def at_one
        value_string_def YYMAXDEPTH_def YYFINAL_def Let_def split: prod.split)
qed

lemma sim_value:
  assumes "routing nm some st" and "length st + 8 < YYMAXDEPTH"
  shows "simulates (push_token (Value nm l) t c) t
    (yyloop (config ((31, v) # (24, Token_Value (Label l)) # st) 0 (Some (Some t)) c False))"
proof -
  let ?st = "(31, v) # (24, Token_Value (Label l)) # st"
  have g: "grounded st" using grounded_routing [OF assms(1)] by simp
  show ?thesis
  proof (cases "value_token t")
    case False
    then have "simulates (Syntax_Error, c) t (yyloop (config ?st 0 (Some (Some t)) c False))"
      using g token_number_less [of t]
      by (intro simulates_error) (auto simp: token_states value_token_def intro!: grounded_Cons)
    with False show ?thesis by (simp add: property_value_table)
  next
    case True
    obtain ok c' where p: "value_property l (Token_Value t) c = (ok, c')" by fastforce
    note r = value_reduce [OF True assms(2), of v l 0 c, unfolded p, simplified]
    show ?thesis
    proof (cases ok)
      case False
      obtain a where "yyerrlab1 (config st 0 None c' False) = Running (config [(1, No_Value), (0, a)] 3 None c' False)"
        using errlab1_grounded [OF g] by blast
      with r False True p show ?thesis
        by (auto simp: property_value_table simulates_def step_more asking_states)
    next
      case ok: True
      obtain x y u where u: "header nm u"
        and st: "st = (13, x) # (11, y) # u \<or> (\<exists>z. st = (25, z) # (13, x) # (11, y) # u)"
        using assms(1) by (auto simp: routing_def split: if_splits)
      have "\<exists>st'. yyloop (config ?st 0 (Some (Some t)) c False) = Some (Push_More, config st' 0 None c' False) \<and>
          routing nm True st'"
        using r ok st u assms(2)
        by (auto simp: step_reduce step_more table_facts machine_defs routing_def)
      with ok True p show ?thesis by (auto simp: property_value_table simulates_def)
    qed
  qed
qed

lemma outside_recovers:
  "simulates (Syntax_Error, c) t r \<Longrightarrow> simulates (push_token Outside t c) t r"
  by (auto simp: simulates_def recover_def simp del: related.simps)

lemma sim_outside:
  assumes "related Outside st e"
  shows "simulates (push_token Outside t c) t (yyloop (config st e (Some (Some t)) c False))"
proof -
  have k: "token_number t < 17" "token_number t \<noteq> 0" "token_number t \<noteq> 1" by (rule token_number_less)+
  consider a v where "st = [(1, v), (0, a)]" "e = 3" | a v where "st = [(3, v), (0, a)]" "e = 0" | a where "st = [(0, a)]" "e = 0"
    using assms by auto
  then show ?thesis
  proof cases
    case 1
have "simulates (Go Started, c) t (yyloop (config [(1, v), (0, a)] 3 (Some (Some t)) c False))"
      if "t = Command_Start"
      using that by (intro simulates_shift) (auto simp: table_facts YYMAXDEPTH_def YYFINAL_def ground_def)
    moreover obtain st' e' where "yyloop (config [(1, v), (0, a)] 3 (Some (Some t)) c False)
        = Some (Push_More, config st' e' None c False)"
      "if t = Command_Start then e' = 2 \<and> (\<exists>v w. st' = [(2, v), (1, w), (0, a)])
       else e' = 3 \<and> (\<exists>w b. st' = [(1, w), (0, b)])"
      using after_error [of v a t c False] by blast
    ultimately show ?thesis using 1 by (auto simp: simulates_def recover_def)
  next
    case 2
    have "simulates (Syntax_Error, c) t (yyloop (config [(3, v), (0, a)] 0 (Some (Some t)) c False))"
      using k by (intro simulates_error) (auto simp: token_states intro!: grounded_Cons grounded_Nil)
    with 2 outside_recovers show ?thesis by simp
  next
    case 3
    show ?thesis
    proof (cases "t = Command_Start")
      case True
      then have "simulates (Go Started, c) t (yyloop (config [(0, a)] 0 (Some (Some t)) c False))"
        by (intro simulates_shift) (auto simp: table_facts YYMAXDEPTH_def YYFINAL_def ground_def)
      with True 3 show ?thesis by simp
    next
      case False
      then have "simulates (Syntax_Error, c) t (yyloop (config [(0, a)] 0 (Some (Some t)) c False))"
        using k by (intro simulates_error) (auto simp: token_states mark_numbers intro!: grounded_Nil)
      with 3 outside_recovers show ?thesis by simp
    qed
  qed
qed

text \<open>Every token has the same effect on both parsers, as long as there is room on the stack.\<close>

lemma sim_token:
  assumes "related p st e" and "length st + 9 < YYMAXDEPTH"
  shows "simulates (push_token p t c) t (yyloop (config st e (Some (Some t)) c False))"
proof (cases p)
  case Outside
  with assms sim_outside show ?thesis by simp
next
  case Name_Expected
  with assms sim_name show ?thesis by simp
next
  case (Body_Start nm)
  with assms sim_body show ?thesis by simp
next
  case (Routing nm some)
  with assms sim_routing [of nm some st t c] show ?thesis by simp
next
  case (Value nm l)
  then obtain some v u where "st = (31, v) # (24, Token_Value (Label l)) # u" "routing nm some u" "e = 0"
    using assms(1) by auto
  with Value assms(2) sim_value [where nm = nm and some = some and st = u and l = l and t = t and v = v and c = c] show ?thesis by simp
next
  case (Content nm fs acc)
  with assms sim_content [of nm fs acc st t c] show ?thesis by simp
next
  case (Section_Value nm fs acc l)
  then obtain v u where "st = (27, v) # (14, Token_Value (Label l)) # u" "content nm fs acc u" "e = 0"
    using assms(1) by auto
  with Section_Value assms(2) sim_section_value [where nm = nm and fs = fs and acc = acc and st = u and l = l and t = t and y = v and c = c] show ?thesis by simp
qed (use assms sim_marks [OF assms(1)] in auto)

section \<open>The end of the input\<close>

definition accepts_end :: "command_transmit \<Rightarrow> (yyresult \<times> yyconfig) option \<Rightarrow> bool" where
  "accepts_end c r \<longleftrightarrow> (\<exists>g. r = Some (Accepted, g) \<and> yycommand g = c \<and> \<not> yycomplete g)"

lemma end_in_3:
  "accepts_end c (yyloop (config [(3, v), (0, a)] e (Some None) c False))"
proof -
  have "yystep (config [(3, v), (0, a)] e (Some None) c False)
      = Stopped Accepted (config [(7, No_Value), (3, v), (0, a)] (e - 1) None c False)"
    by (simp add: yystep_def yytranslate_def token_states yynewstate_def YYMAXDEPTH_def YYFINAL_def)
  then show ?thesis by (subst yyloop.simps) (simp add: accepts_end_def)
qed

lemma end_in_1:
  "accepts_end c (yyloop (config [(1, v), (0, a)] e (Some None) c False))"
  using end_in_3 [of c _ a e] by (simp add: step_reduce yytranslate_def table_facts machine_defs)

lemma end_in_0:
  "accepts_end c (yyloop (config [(0, a)] e (Some None) c False))"
  using end_in_3 [of c _ a e] by (simp add: step_reduce yytranslate_def table_facts machine_defs)

lemma end_error:
  assumes "yybackup s (Some 0) = Error" and "grounded ((s, v) # st)" and "e \<noteq> 3"
  shows "accepts_end c (yyloop (config ((s, v) # st) e (Some None) c False))"
proof -
  obtain a where "yyloop (config ((s, v) # st) e (Some None) c False) = yyloop (config [(1, No_Value), (0, a)] 3 (Some None) c False)"
    using step_error [of s "Some None" v st e c False] assms by (auto simp: yytranslate_def)
  with end_in_1 show ?thesis by simp
qed

lemma end_content:
  assumes "content nm fs acc st" and "length st + 4 < YYMAXDEPTH"
  shows "accepts_end c (yyloop (config st 0 (Some None) c False))"
  using content_error [OF assms(1), of None c False] assms(2) end_error by (fastforce simp: yytranslate_def)

lemma end_body:
  assumes "header nm st" and "length st + 9 < YYMAXDEPTH"
  shows "accepts_end c (yyloop (config st 0 (Some None) c False))"
proof -
  obtain v u where st: "st = (10, v) # u" using assms(1) by (auto simp: header_def)
  have "yyloop (config st 0 (Some None) c False) = yyloop (config ((12, No_Value) # st) 0 (Some None) c False)"
    using assms(2) st by (simp add: step_reduce yytranslate_def token_states goto_states rules machine_defs)
  moreover have "content nm [] [] ((12, No_Value) # st)" using assms(1) by (simp add: content_def with_data_def)
  ultimately show ?thesis using end_content [of nm "[]" "[]" "(12, No_Value) # st" c] assms(2) by simp
qed

lemma sim_end:
  assumes "related p st e" and "length st + 9 < YYMAXDEPTH"
  shows "accepts_end c (yyloop (config st e (Some None) c False))"
proof -
  have g: "grounded st" using grounded_related [OF assms(1)] by simp
  show ?thesis
  proof (cases p)
    case Outside
    with assms(1) show ?thesis using end_in_0 end_in_1 end_in_3 by auto
  next
    case (Body_Start nm)
    with assms show ?thesis using end_body [of nm st c] by simp
  next
    case (Content nm fs acc)
    with assms show ?thesis using end_content [of nm fs acc st c] by simp
  next
    case (Routing nm some)
    with assms(1) g show ?thesis
      by (auto simp: routing_def token_states split: if_splits intro!: end_error)
  qed (use assms(1) g in \<open>auto simp: token_states intro!: end_error\<close>)
qed

section \<open>The loop\<close>

fun nesting :: "nat \<Rightarrow> token list \<Rightarrow> nat" where
  "nesting k [] = k"
| "nesting k (t # ts) =
     max k (nesting (if t = Mark CHR ''{'' then k + 1 else if t = Mark CHR ''}'' then k - 1 else k) ts)"

lemma frames_push:
  assumes "push_token p t c = (Go p', c')" and "length (frames p) \<le> k"
  shows "length (frames p') \<le> (if t = Mark CHR ''{'' then k + 1 else if t = Mark CHR ''}'' then k - 1 else k)"
  using assms
  by (cases p; cases t) (auto simp: want_mark_def content_token_def section_value_def open_group_def close_group_def
      property_value_def routing_token_def split: if_splits list.splits prod.splits)

lemma nesting_ge: "k \<le> nesting k ts"
  by (cases ts) simp_all

text \<open>A parser that has not read anything yet, or has ended, is between commands.\<close>

definition parser_at :: "pstate \<Rightarrow> yypstate \<Rightarrow> bool" where
  "parser_at p yyps \<longleftrightarrow>
     (case yyps of None \<Rightarrow> p = Outside | Some (st, e) \<Rightarrow> related p st e)"

lemma parser_at_stack:
  assumes "parser_at p yyps"
  shows "\<exists>st e. (case yyps of None \<Rightarrow> ([(0, No_Value)], 0) | Some x \<Rightarrow> x) = (st, e) \<and> related p st e"
  using assms by (auto simp: parser_at_def split: option.splits)

lemma push_more:
  assumes "parser_at p yyps" and "length (frames p) \<le> 2400" and "push_token p t c = x"
  shows "\<exists>st e. yypush_parse yyps (Some t) c = (case x of
      (Accept nm tr, c') \<Rightarrow> Some (Push_More, Some (st, e), c'\<lparr>tree := tr, command_label := nm\<rparr>, True)
    | (_, c') \<Rightarrow> Some (Push_More, Some (st, e), c', False)) \<and>
    related (case fst x of Go p' \<Rightarrow> p' | Accept nm tr \<Rightarrow> Outside | Syntax_Error \<Rightarrow> recover t | Action_Error \<Rightarrow> Outside) st e"
proof -
  obtain st e where st: "(case yyps of None \<Rightarrow> ([(0, No_Value)], 0) | Some x \<Rightarrow> x) = (st, e)" "related p st e"
    using parser_at_stack [OF assms(1)] by blast
  have "length st + 9 < YYMAXDEPTH" using grounded_related [OF st(2)] assms(2) by (simp add: YYMAXDEPTH_def)
  from sim_token [OF st(2) this, of t c] have m: "simulates x t (yyloop (config st e (Some (Some t)) c False))"
    unfolding assms(3) .
  obtain y c' where x: "x = (y, c')" by (cases x)
  show ?thesis using m unfolding x by (cases y) (auto simp: simulates_def yypush_parse_def st(1) simp del: related.simps)
qed

lemma push_end:
  assumes "parser_at p yyps" and "length (frames p) \<le> 2400"
  shows "yypush_parse yyps None c = Some (Accepted, None, c, False)"
proof -
  obtain st e where st: "(case yyps of None \<Rightarrow> ([(0, No_Value)], 0) | Some x \<Rightarrow> x) = (st, e)" "related p st e"
    using parser_at_stack [OF assms(1)] by blast
  have "length st + 9 < YYMAXDEPTH" using grounded_related [OF st(2)] assms(2) by (simp add: YYMAXDEPTH_def)
  from sim_end [OF st(2) this, of c] show ?thesis
    by (auto simp: accepts_end_def yypush_parse_def st(1))
qed

lemma table_loop:
  assumes "parser_at p yyps" and "length (frames p) \<le> k" and "nesting k ts \<le> 2400"
    and "parse_loop p c ts = (complete, q, c', rest)"
  shows "q = Outside \<and> (\<exists>yyps'. table_parse_loop yyps c ts = Some (complete, yyps', c', rest) \<and> parser_at Outside yyps')"
  using assms
proof (induction ts arbitrary: p yyps c k)
  case Nil
  then show ?case using push_end [of p yyps c] by (auto simp: parser_at_def)
next
  case (Cons t ts)
  let ?k = "if t = Mark CHR ''{'' then k + 1 else if t = Mark CHR ''}'' then k - 1 else k"
  have n: "k \<le> 2400" "nesting ?k ts \<le> 2400" using Cons.prems(3) by simp_all
  obtain x c1 where x: "push_token p t c = (x, c1)" by fastforce
  obtain st e where st: "yypush_parse yyps (Some t) c = (case (x, c1) of
      (Accept nm tr, c') \<Rightarrow> Some (Push_More, Some (st, e), c'\<lparr>tree := tr, command_label := nm\<rparr>, True)
    | (_, c') \<Rightarrow> Some (Push_More, Some (st, e), c', False))"
    "related (case x of Go p' \<Rightarrow> p' | Accept nm tr \<Rightarrow> Outside | Syntax_Error \<Rightarrow> recover t | Action_Error \<Rightarrow> Outside) st e"
    using push_more [OF Cons.prems(1) _ x] Cons.prems(2) n(1) by (auto simp del: related.simps)
  have r: "length (frames (recover t)) \<le> ?k" "length (frames Outside) \<le> ?k" by (simp_all add: recover_def)
  note IH = Cons.IH [where yyps = "Some (st, e)" and k = ?k, OF _ _ n(2)]
  show ?case
  proof (cases x)
    case (Go p')
    with IH [of p' c1] st x frames_push [of p t c p' c1 k] Cons.prems(2,4) show ?thesis by (simp add: parser_at_def)
  next
    case (Accept nm tr)
    with st x Cons.prems(4) show ?thesis by (auto simp: parser_at_def)
  next
    case Syntax_Error
    with IH [of "recover t" c1] st x r(1) Cons.prems(4) show ?thesis by (simp add: parser_at_def)
  next
    case Action_Error
    with IH [of Outside c1] st x r(2) Cons.prems(4) show ?thesis by (simp add: parser_at_def del: related.simps)
  qed
qed

text \<open>
  C21. The parser that is compiled, with bison's tables, its stacks, its reductions without a token, its recovery
  from errors and the limit on its stack, always returns and does on every sequence of tokens what the
  grammar says: it completes the same command, with the same fields, label and tree, at the same token, or
  reports that there was none. The condition is that braces do not nest deeper than 2400, for which the
  10000 entries of the stack are enough.
\<close>

theorem tables_implement_grammar:
  assumes "nesting 0 ts \<le> 2400" and "parser_at Outside yyps"
  shows "\<exists>yyps'. parser_at Outside yyps' \<and>
    table_parse_loop yyps c ts = (case parse_loop Outside c ts of (complete, p, c', rest) \<Rightarrow> Some (complete, yyps', c', rest))"
proof -
  obtain b q c' rest where p: "parse_loop Outside c ts = (b, q, c', rest)" by (cases "parse_loop Outside c ts")
  show ?thesis using table_loop [OF assms(2) _ assms(1) p] p by auto
qed

theorem tables_implement_grammar_witness:
  "\<exists>yyps'. table_parse_loop None (new_transmit 7) [Command_Start, Mark CHR ''['', Label ''x'', Mark CHR '']'', Mark CHR ''{'',
      Mark CHR ''{'', Text ''hi'', Mark CHR ''}'', Mark CHR ''}'', Garbage]
    = Some (True, yyps', (new_transmit 7)\<lparr>tree := [Group_Section [] [Data_Section [] False ''hi'']], command_label := ''x''\<rparr>, [Garbage])"
  using tables_implement_grammar [of "[Command_Start, Mark CHR ''['', Label ''x'', Mark CHR '']'', Mark CHR ''{'',
      Mark CHR ''{'', Text ''hi'', Mark CHR ''}'', Mark CHR ''}'', Garbage]" None "new_transmit 7"]
  by (auto simp: parser_at_def want_mark_def content_token_def open_group_def close_group_def text_data_section_def c_str_def)

end
