(* ===== verification/Input_Buffer.thy ===== *)
theory Input_Buffer
  imports Prelude
begin

text \<open>
  The reading end of a connection (\<open>common-input.cpp\<close>): the buffers of \<open>input_base\<close> and
  \<open>buffered_common_input_nolex\<close>, and \<open>parser_get_input\<close>, which hands pieces of them to the scanner. The bytes
  that have been written and not yet read are part of the state; how many of them a \<open>read\<close> returns is an argument.
\<close>

section \<open>Limits of \<open>param.h\<close>\<close>

definition max_input_section :: nat where "max_input_section = 1024"
definition max_holding_input :: nat where "max_holding_input = 4096"
definition max_command_data :: nat where "max_command_data = 2 * max_holding_input"
definition max_transmission :: nat where "max_transmission = max_command_data"

lemmas param_defs = max_input_section_def max_holding_input_def max_command_data_def max_transmission_def

section \<open>State\<close>

definition input_none :: u32 where [flag_defs]: "input_none = 0"
definition input_binary :: u32 where [flag_defs]: "input_binary = 1"
definition input_allow_underrun :: u32 where [flag_defs]: "input_allow_underrun = 2"
definition universal_transmission_reset :: u32 where [flag_defs]: "universal_transmission_reset = 4"

text \<open>\<open>incoming\<close> is what is in the pipe; \<open>read_cancel\<close> is where a \<open>read\<close> under way puts its data.\<close>

record input_buffer =
  current_data :: string
  current_line :: string
  loaded_data :: string
  current_mode :: u32
  total_transmission :: u32
  input_pipe :: int
  input_underrun :: bool
  eof_reached :: bool
  read_cancel :: "nat option"
  last_read :: nat
  incoming :: string

definition new_input :: "int \<Rightarrow> input_buffer" where
  "new_input p = \<lparr>current_data = [], current_line = [], loaded_data = [], current_mode = input_none,
     total_transmission = 0, input_pipe = p, input_underrun = False, eof_reached = False, read_cancel = None,
     last_read = 0, incoming = []\<rparr>"

definition is_terminated :: "input_buffer \<Rightarrow> bool" where
  "is_terminated b \<longleftrightarrow> eof_reached b \<or> input_pipe b < 0"

definition end_of_data :: "input_buffer \<Rightarrow> bool" where
  "end_of_data b \<longleftrightarrow> input_underrun b \<or> is_terminated b"

definition residual_data :: "input_buffer \<Rightarrow> bool" where
  "residual_data b \<longleftrightarrow> current_data b \<noteq> [] \<or> current_line b \<noteq> [] \<or> loaded_data b \<noteq> []"

definition holding :: "input_buffer \<Rightarrow> nat" where
  "holding b = length (current_data b) + length (current_line b) + length (loaded_data b)"

definition clear_buffer :: "input_buffer \<Rightarrow> input_buffer" where
  "clear_buffer b = b\<lparr>current_data := [], current_line := [], loaded_data := []\<rparr>"

definition clear_cancel :: "input_buffer \<Rightarrow> input_buffer" where
  "clear_cancel b =
     (case read_cancel b of
        None \<Rightarrow> b
      | Some n \<Rightarrow> b\<lparr>loaded_data := take n (loaded_data b), read_cancel := None\<rparr>)"

definition reset_underrun :: "input_buffer \<Rightarrow> input_buffer" where
  "reset_underrun b = b\<lparr>input_underrun := False\<rparr>"

definition reset_transmission_limit :: "input_buffer \<Rightarrow> input_buffer" where
  "reset_transmission_limit b = b\<lparr>total_transmission := 0\<rparr>"

definition set_input_mode :: "u32 \<Rightarrow> input_buffer \<Rightarrow> input_buffer" where
  "set_input_mode m b =
     (if m = universal_transmission_reset then reset_transmission_limit b
      else
        let b1 = reset_underrun b;
            b2 = (if current_mode b1 \<noteq> m \<and> m AND input_binary \<noteq> 0 then b1\<lparr>current_line := []\<rparr> else b1)
        in b2\<lparr>current_mode := m\<rparr>)"

section \<open>Reading\<close>

text \<open>What \<open>read\<close> answers: up to so many of the bytes there are, none being the end of the file; \<open>EAGAIN\<close> or
  \<open>EINTR\<close>; another error.\<close>

datatype read_answer = Available nat | Read_Again | Read_Error

text \<open>The body of the loop of \<open>read_binary_input\<close>, up to the test of how much is held.\<close>

definition read_section :: "read_answer \<Rightarrow> input_buffer \<Rightarrow> input_buffer" where
  "read_section a b =
     (let b1 = (case a of
             Available n \<Rightarrow>
               (let got = take (min n max_input_section) (incoming b)
                in if got = [] then b\<lparr>eof_reached := True\<rparr>
                   else b\<lparr>loaded_data := loaded_data b @ got, incoming := drop (length got) (incoming b)\<rparr>)
           | Read_Again \<Rightarrow> b
           | Read_Error \<Rightarrow> b\<lparr>eof_reached := True\<rparr>)
      in if length (loaded_data b1) \<le> length (loaded_data b) then b1\<lparr>input_underrun := True\<rparr> else b1)"

text \<open>\<open>read_binary_input\<close>. The loop has one turn: either data has been read, or there is an underrun.\<close>

definition read_binary_input :: "read_answer \<Rightarrow> input_buffer \<Rightarrow> bool \<times> input_buffer" where
  "read_binary_input a b =
     (if eof_reached b then (False, b)
      else
        let b0 = b\<lparr>input_underrun := False\<rparr>
        in if end_of_data b0 then (True, b0)
           else if max_holding_input \<le> length (loaded_data b0) then (False, clear_buffer b0)
           else
             let b1 = read_section a b0
             in if max_holding_input < holding b1 then (False, clear_buffer b1)
                else (\<not> input_underrun b1, b1))"

definition receive_input :: "read_answer \<Rightarrow> input_buffer \<Rightarrow> input_buffer" where
  "receive_input a b =
     (let b0 = clear_cancel b
      in if current_mode b0 AND input_binary \<noteq> 0 then
           if current_data b0 \<noteq> [] then b0
           else if max_holding_input < holding b0 then clear_buffer b0
           else
             let (ok, b1) = (if loaded_data b0 = [] then read_binary_input a b0 else (True, b0))
             in if \<not> ok then b1 else b1\<lparr>current_data := loaded_data b1, loaded_data := []\<rparr>
         else b0\<lparr>current_data := []\<rparr>)"

definition next_input :: "nat \<Rightarrow> input_buffer \<Rightarrow> bool \<times> input_buffer" where
  "next_input n b =
     (if length (current_data b) < n then (False, b)
      else
        let next_size = (if n \<noteq> 0 then n else length (current_data b));
            b1 = b\<lparr>total_transmission := total_transmission b + of_nat next_size\<rparr>
        in if word_of_nat max_transmission < total_transmission b1 then (False, b1)
           else (True, b1\<lparr>current_data := (if n = 0 then [] else drop n (current_data b1))\<rparr>))"

text \<open>\<open>parser_get_input\<close>, which does not look at what \<open>next_input\<close> returns. It is returned here.\<close>

definition parser_get_input :: "nat \<Rightarrow> read_answer \<Rightarrow> input_buffer \<Rightarrow> string \<times> bool \<times> input_buffer" where
  "parser_get_input mMax a b =
     (let b1 = receive_input a (set_input_mode (input_binary OR input_allow_underrun) b);
          used = min (length (current_data b1)) mMax;
          piece = take used (current_data b1);
          (ok, b2) = next_input used (b1\<lparr>last_read := used\<rparr>)
      in (piece, ok, b2))"

text \<open>\<open>receive_input\<close> stopped by the cancellation of its thread within \<open>read\<close>; \<open>junk\<close> is the room that was made.\<close>

definition cancelled_read :: "string \<Rightarrow> input_buffer \<Rightarrow> input_buffer" where
  "cancelled_read junk b =
     (let b0 = clear_cancel b
      in b0\<lparr>input_underrun := False, read_cancel := Some (length (loaded_data b0)), loaded_data := loaded_data b0 @ junk\<rparr>)"

definition empty_read :: "input_buffer \<Rightarrow> bool" where
  "empty_read b \<longleftrightarrow> last_read b = 0"

definition check_input_waiting :: "read_answer \<Rightarrow> input_buffer \<Rightarrow> multi_result \<times> input_buffer" where
  "check_input_waiting a b =
     (let b1 = set_input_mode input_binary b;
          b2 = (if empty_read b1 then receive_input a b1 else b1);
          outcome = (\<not> empty_read b1 \<or> current_data b2 \<noteq> [])
      in (if \<not> outcome \<and> is_terminated b2 then result_invalid
          else if outcome then result_success else result_fail, b2))"

text \<open>\<open>receive_protected_input\<close>, where \<open>parsed\<close> is what \<open>parse_command\<close> returned.\<close>

definition receive_protected_input :: "bool \<Rightarrow> read_answer \<Rightarrow> input_buffer \<Rightarrow> multi_result \<times> input_buffer" where
  "receive_protected_input parsed a b =
     (if parsed then (result_success, b)
      else
        let b1 = receive_input a b
        in (if current_data b1 \<noteq> [] then result_fail
            else if is_terminated b1 then result_invalid else result_fail, b1))"

definition close_input_pipe :: "input_buffer \<Rightarrow> input_buffer" where
  "close_input_pipe b = b\<lparr>eof_reached := False, input_pipe := -1\<rparr>"

text \<open>\<open>file_swap\<close>; a new pipe has its own bytes.\<close>

definition file_swap :: "int \<Rightarrow> string \<Rightarrow> input_buffer \<Rightarrow> input_buffer" where
  "file_swap fFile bytes b =
     (if 0 \<le> fFile \<and> fFile \<noteq> input_pipe b
      then (set_input_mode input_binary ((clear_buffer b)\<lparr>read_cancel := None, eof_reached := False\<rparr>))
             \<lparr>input_pipe := fFile, incoming := bytes\<rparr>
      else b\<lparr>input_pipe := fFile\<rparr>)"

section \<open>What a reader does\<close>

text \<open>
  The events at the reading end: bytes are written; \<open>parse_command\<close> starts on a new command; the scanner asks for a
  piece of at most so many bytes; \<open>check_input_waiting\<close>; the thread is cancelled while it reads.
\<close>

datatype reader_op = Arrive string | New_Command | Get nat read_answer | Check read_answer | Cancelled string

definition at_read :: "input_buffer \<Rightarrow> bool" where
  "at_read b \<longleftrightarrow> current_mode b AND input_binary \<noteq> 0 \<and> current_data b = [] \<and> loaded_data (clear_cancel b) = [] \<and>
     \<not> is_terminated b"

text \<open>The piece the scanner gets; that \<open>next_input\<close> has not refused.\<close>

fun reader_step :: "reader_op \<Rightarrow> input_buffer \<Rightarrow> string \<times> bool \<times> input_buffer" where
  "reader_step (Arrive t) b = ([], True, b\<lparr>incoming := incoming b @ t\<rparr>)"
| "reader_step New_Command b =
     ([], True, set_input_mode universal_transmission_reset (set_input_mode input_binary b))"
| "reader_step (Get m a) b = parser_get_input m a b"
| "reader_step (Check a) b = ([], True, snd (check_input_waiting a b))"
| "reader_step (Cancelled junk) b = ([], True, if at_read b then cancelled_read junk b else b)"

fun reader_run :: "reader_op list \<Rightarrow> input_buffer \<Rightarrow> string \<times> bool \<times> input_buffer" where
  "reader_run [] b = ([], True, b)"
| "reader_run (x # xs) b =
     (let (p, ok, b1) = reader_step x b; (ps, oks, b2) = reader_run xs b1 in (p @ ps, ok \<and> oks, b2))"

definition arrived :: "reader_op list \<Rightarrow> string" where
  "arrived xs = concat (map (\<lambda>x. case x of Arrive t \<Rightarrow> t | _ \<Rightarrow> []) xs)"

text \<open>The scanner never asks for nothing: flex makes room for at least one byte.\<close>

definition op_ok :: "reader_op \<Rightarrow> bool" where
  "op_ok x = (case x of Get m a \<Rightarrow> 0 < m | _ \<Rightarrow> True)"

text \<open>Between the events nothing is left in \<open>loaded_data\<close>, and no more is held than one \<open>read\<close> gives.\<close>

definition buffer_ok :: "input_buffer \<Rightarrow> bool" where
  "buffer_ok b \<longleftrightarrow> current_line b = [] \<and> loaded_data (clear_cancel b) = [] \<and>
     length (current_data b) \<le> max_input_section"

definition unread :: "input_buffer \<Rightarrow> string" where
  "unread b = current_data b @ incoming b"

lemma mode_bits [simp]:
  "input_binary \<noteq> 0" "(input_binary OR input_allow_underrun) AND input_binary \<noteq> 0"
  "input_binary \<noteq> universal_transmission_reset" "(input_binary OR input_allow_underrun) \<noteq> universal_transmission_reset"
  by (simp_all add: flag_defs)

lemma clear_cancel_fields [simp]:
  "current_data (clear_cancel b) = current_data b" "current_line (clear_cancel b) = current_line b"
  "current_mode (clear_cancel b) = current_mode b" "total_transmission (clear_cancel b) = total_transmission b"
  "input_pipe (clear_cancel b) = input_pipe b" "eof_reached (clear_cancel b) = eof_reached b"
  "incoming (clear_cancel b) = incoming b" "last_read (clear_cancel b) = last_read b"
  "read_cancel (clear_cancel b) = None"
  by (simp_all add: clear_cancel_def split: option.split)

lemma clear_cancel_None: "read_cancel b = None \<Longrightarrow> clear_cancel b = b"
  by (simp add: clear_cancel_def)

lemma set_mode_buffers:
  assumes "current_line b = []" and "m \<noteq> universal_transmission_reset"
  shows "set_input_mode m b = b\<lparr>input_underrun := False, current_mode := m\<rparr>"
  using assms by (simp add: set_input_mode_def reset_underrun_def Let_def)

lemma set_mode_clear_cancel:
  "clear_cancel (b\<lparr>input_underrun := u, current_mode := m\<rparr>) =
    (clear_cancel b)\<lparr>input_underrun := u, current_mode := m\<rparr>"
  by (simp add: clear_cancel_def split: option.split)

subsection \<open>Bytes are neither lost nor doubled\<close>

lemma take_append_rest: "take k xs @ drop (length (take k xs)) xs = xs"
  by (simp add: min_def)

lemma read_section_cases:
  assumes "loaded_data b = []"
  shows "(\<exists>e. read_section a b = b\<lparr>eof_reached := e, input_underrun := True\<rparr>) \<or>
    (\<exists>g. g \<noteq> [] \<and> length g \<le> max_input_section \<and> g @ drop (length g) (incoming b) = incoming b \<and>
      read_section a b = b\<lparr>loaded_data := g, incoming := drop (length g) (incoming b)\<rparr>)"
proof (cases a)
  case (Available n)
  define g where "g = take (min n max_input_section) (incoming b)"
  have g: "g @ drop (length g) (incoming b) = incoming b" "length g \<le> max_input_section"
    unfolding g_def by (rule take_append_rest) simp
  have r: "read_section a b =
      (if g = [] then b\<lparr>eof_reached := True, input_underrun := True\<rparr>
       else b\<lparr>loaded_data := g, incoming := drop (length g) (incoming b)\<rparr>)"
    using assms Available by (simp add: read_section_def g_def [symmetric] Let_def)
  with g show ?thesis by (cases "g = []") auto
next
  case Read_Again
  then show ?thesis
    by (intro disjI1 exI [of _ "eof_reached b"]) (simp add: read_section_def)
qed (auto simp: read_section_def)

lemma receive_held:
  assumes "current_mode b AND input_binary \<noteq> 0" and "current_data b \<noteq> []"
  shows "receive_input a b = clear_cancel b"
  using assms by (simp add: receive_input_def Let_def)

lemma receive_empty:
  assumes "current_mode b AND input_binary \<noteq> 0" and "buffer_ok b" and "current_data b = []"
  shows "(\<exists>e u. receive_input a b = (clear_cancel b)\<lparr>eof_reached := e, input_underrun := u\<rparr>) \<or>
    (\<exists>g. g \<noteq> [] \<and> length g \<le> max_input_section \<and> g @ drop (length g) (incoming b) = incoming b \<and>
      receive_input a b =
        (clear_cancel b)\<lparr>input_underrun := False, current_data := g, incoming := drop (length g) (incoming b)\<rparr>)"
proof -
  let ?c = "clear_cancel b"
  let ?b0 = "?c\<lparr>input_underrun := False\<rparr>"
  have l: "loaded_data ?c = []" "current_line b = []" "\<not> max_holding_input < holding ?c"
    using assms by (simp_all add: buffer_ok_def holding_def param_defs)
  have r: "receive_input a b = (case read_binary_input a ?c of (ok, b1) \<Rightarrow>
      if \<not> ok then b1 else b1\<lparr>current_data := loaded_data b1, loaded_data := []\<rparr>)"
    using assms(1,3) l by (simp add: receive_input_def Let_def)
  show ?thesis
  proof (cases "is_terminated ?c")
    case True
    then have "read_binary_input a ?c = (False, ?c) \<or> read_binary_input a ?c = (True, ?b0)"
      by (auto simp: read_binary_input_def Let_def end_of_data_def is_terminated_def)
    then show ?thesis
    proof
      assume "read_binary_input a ?c = (False, ?c)"
      with r show ?thesis
        by (intro disjI1 exI [of _ "eof_reached ?c"] exI [of _ "input_underrun ?c"]) simp
    next
      assume "read_binary_input a ?c = (True, ?b0)"
      with r l assms(3) show ?thesis
        by (intro disjI1 exI [of _ "eof_reached ?c"] exI [of _ False]) simp
    qed
  next
    case False
    then have t: "read_binary_input a ?c =
        (let b1 = read_section a ?b0
         in if max_holding_input < holding b1 then (False, clear_buffer b1) else (\<not> input_underrun b1, b1))"
      using l by (simp add: read_binary_input_def Let_def end_of_data_def is_terminated_def param_defs)
    have "loaded_data ?b0 = []" using l by simp
    from read_section_cases [OF this, of a]
    show ?thesis
    proof (elim disjE exE conjE)
      fix e assume "read_section a ?b0 = ?b0\<lparr>eof_reached := e, input_underrun := True\<rparr>"
      with r t l assms(3) show ?thesis
        by (intro disjI1 exI [of _ e] exI [of _ True]) (simp add: holding_def param_defs)
    next
      fix g
      assume g: "g \<noteq> []" "length g \<le> max_input_section" "g @ drop (length g) (incoming ?b0) = incoming ?b0"
        "read_section a ?b0 = ?b0\<lparr>loaded_data := g, incoming := drop (length g) (incoming ?b0)\<rparr>"
      with r t l assms(3) show ?thesis
        by (intro disjI2 exI [of _ g]) (simp add: holding_def param_defs)
    qed
  qed
qed

lemma receive_keeps:
  assumes "current_mode b AND input_binary \<noteq> 0" and "buffer_ok b"
  shows "buffer_ok (receive_input a b) \<and> unread (receive_input a b) = unread b \<and>
    total_transmission (receive_input a b) = total_transmission b \<and>
    current_mode (receive_input a b) = current_mode b"
proof (cases "current_data b = []")
  case False
  with assms receive_held [OF assms(1) False, of a] show ?thesis
    by (simp add: buffer_ok_def unread_def clear_cancel_None)
next
  case True
  from receive_empty [OF assms True, of a] assms(2) True show ?thesis
    by (elim disjE exE conjE) (simp_all add: buffer_ok_def unread_def clear_cancel_None)
qed

lemma set_mode_keeps:
  assumes "buffer_ok b" and "m \<noteq> universal_transmission_reset"
  shows "buffer_ok (set_input_mode m b)" "unread (set_input_mode m b) = unread b"
    "current_mode (set_input_mode m b) = m" "total_transmission (set_input_mode m b) = total_transmission b"
  using assms by (simp_all add: buffer_ok_def set_mode_buffers set_mode_clear_cancel unread_def)

lemma next_input_used:
  assumes "n = min (length (current_data b)) m" and "0 < m"
  shows "next_input n b =
    (let b1 = b\<lparr>total_transmission := total_transmission b + of_nat n\<rparr>
     in if word_of_nat max_transmission < total_transmission b + of_nat n then (False, b1)
        else (True, b1\<lparr>current_data := drop n (current_data b)\<rparr>))"
  using assms by (auto simp: next_input_def Let_def)

lemma get_input:
  fixes b :: input_buffer and a :: read_answer
  defines "r \<equiv> receive_input a (set_input_mode (input_binary OR input_allow_underrun) b)"
  assumes "buffer_ok b" and "0 < m" and "parser_get_input m a b = (p, ok, b')"
  shows "p = take m (current_data r)" and "buffer_ok r" and "unread r = unread b"
    and "ok \<longleftrightarrow> total_transmission b + of_nat (length p) \<le> word_of_nat max_transmission"
    and "b' = r\<lparr>last_read := length p, total_transmission := total_transmission b + of_nat (length p),
           current_data := (if ok then drop (length p) (current_data r) else current_data r)\<rparr>"
proof -
  let ?m = "input_binary OR input_allow_underrun" and ?n = "min (length (current_data r)) m"
  note k = set_mode_keeps [OF assms(2), of ?m]
  have m: "current_mode (set_input_mode ?m b) AND input_binary \<noteq> 0" using k by simp
  note v = receive_keeps [OF m k(1), of a, folded r_def]
  show "buffer_ok r" "unread r = unread b" using v k by simp_all
  have t: "take ?n (current_data r) = take m (current_data r)" "length (take m (current_data r)) = ?n"
    by (simp_all add: min_def)
  have "parser_get_input m a b =
      (case next_input ?n (r\<lparr>last_read := ?n\<rparr>) of (ok, b2) \<Rightarrow> (take ?n (current_data r), ok, b2))"
    by (simp add: parser_get_input_def r_def Let_def)
  moreover have "next_input ?n (r\<lparr>last_read := ?n\<rparr>) =
      (let b1 = r\<lparr>last_read := ?n, total_transmission := total_transmission b + of_nat ?n\<rparr>
       in if word_of_nat max_transmission < total_transmission b + of_nat ?n then (False, b1)
          else (True, b1\<lparr>current_data := drop ?n (current_data r)\<rparr>))"
    using next_input_used [of ?n "r\<lparr>last_read := ?n\<rparr>" m] assms(3) v k by (simp add: Let_def)
  ultimately have r: "p = take m (current_data r)"
    "ok = (\<not> word_of_nat max_transmission < total_transmission b + of_nat ?n)"
    "b' = r\<lparr>last_read := ?n, total_transmission := total_transmission b + of_nat ?n,
       current_data := if ok then drop ?n (current_data r) else current_data r\<rparr>"
    using assms(4) unfolding t by (simp_all add: Let_def split: if_splits)
  then show "p = take m (current_data r)"
    "ok \<longleftrightarrow> total_transmission b + of_nat (length p) \<le> word_of_nat max_transmission"
    "b' = r\<lparr>last_read := length p, total_transmission := total_transmission b + of_nat (length p),
       current_data := (if ok then drop (length p) (current_data r) else current_data r)\<rparr>"
    unfolding t(2) [symmetric] by (simp_all add: not_less)
qed

lemma get_keeps:
  assumes "buffer_ok b" and "0 < m" and "parser_get_input m a b = (p, ok, b')"
  shows "buffer_ok b'" and "ok \<Longrightarrow> p @ unread b' = unread b" and "\<not> ok \<Longrightarrow> unread b' = unread b"
    and "total_transmission b' = total_transmission b + of_nat (length p)"
    and "length p \<le> length (unread b)"
proof -
  note g = get_input [OF assms]
  define r where "r = receive_input a (set_input_mode (input_binary OR input_allow_underrun) b)"
  have d: "take m c @ drop (length (take m c)) c = c" for c :: string by (rule take_append_rest)
  show "buffer_ok b'"
    using g(2) unfolding g(5) r_def [symmetric]
    by (auto simp: buffer_ok_def clear_cancel_def split: option.splits intro: le_trans [OF diff_le_self])
  show "ok \<Longrightarrow> p @ unread b' = unread b" "\<not> ok \<Longrightarrow> unread b' = unread b"
    using g(3) d [of "current_data r"] by (simp_all add: g(1,5) unread_def r_def flip: append_assoc)
  show "total_transmission b' = total_transmission b + of_nat (length p)" by (simp add: g(5))
  show "length p \<le> length (unread b)"
    unfolding g(3) [symmetric] by (simp add: g(1) unread_def)
qed

lemma cancelled_read_undone:
  "clear_cancel (cancelled_read junk b) = (clear_cancel b)\<lparr>input_underrun := False\<rparr>"
  by (simp add: cancelled_read_def Let_def clear_cancel_def split: option.split)

lemma cancelled_keeps: "buffer_ok (cancelled_read junk b) = buffer_ok b" "unread (cancelled_read junk b) = unread b"
  by (simp_all add: buffer_ok_def unread_def cancelled_read_undone) (simp_all add: cancelled_read_def Let_def)

lemma check_keeps:
  assumes "buffer_ok b"
  shows "buffer_ok (snd (check_input_waiting a b))" "unread (snd (check_input_waiting a b)) = unread b"
    "total_transmission (snd (check_input_waiting a b)) = total_transmission b"
proof -
  note k = set_mode_keeps [OF assms, of input_binary]
  have "current_mode (set_input_mode input_binary b) AND input_binary \<noteq> 0" using k by simp
  from receive_keeps [OF this, of a] k
  show "buffer_ok (snd (check_input_waiting a b))" "unread (snd (check_input_waiting a b)) = unread b"
    "total_transmission (snd (check_input_waiting a b)) = total_transmission b"
    by (simp_all add: check_input_waiting_def Let_def)
qed

lemma new_command_keeps:
  assumes "buffer_ok b"
  shows "buffer_ok (snd (snd (reader_step New_Command b)))" "unread (snd (snd (reader_step New_Command b))) = unread b"
    "total_transmission (snd (snd (reader_step New_Command b))) = 0"
  using assms
  by (simp_all add: buffer_ok_def set_mode_buffers set_mode_clear_cancel unread_def)
    (simp_all add: set_input_mode_def reset_transmission_limit_def clear_cancel_def buffer_ok_def split: option.splits)

lemma step_keeps:
  assumes "buffer_ok b" and "op_ok x" and "reader_step x b = (p, ok, b')"
  shows "buffer_ok b'" and "ok \<Longrightarrow> p @ unread b' = unread b @ arrived [x]"
proof -
  have "buffer_ok b' \<and> (ok \<longrightarrow> p @ unread b' = unread b @ arrived [x])"
  proof (cases x)
    case (Arrive t)
    with assms show ?thesis by (auto simp: buffer_ok_def unread_def arrived_def clear_cancel_def split: option.splits)
  next
    case New_Command
    with assms new_command_keeps [OF assms(1)] show ?thesis by (auto simp: arrived_def)
  next
    case (Get m a)
    with assms get_keeps [of b m a p ok b'] show ?thesis by (auto simp: op_ok_def arrived_def)
  next
    case (Check a)
    with assms check_keeps [OF assms(1)] show ?thesis by (auto simp: arrived_def)
  next
    case (Cancelled junk)
    with assms show ?thesis by (auto simp: cancelled_keeps arrived_def)
  qed
  then show "buffer_ok b'" "ok \<Longrightarrow> p @ unread b' = unread b @ arrived [x]" by simp_all
qed

lemma arrived_Cons: "arrived (x # xs) = arrived [x] @ arrived xs"
  by (simp add: arrived_def)

lemma run_keeps:
  assumes "buffer_ok b" and "list_all op_ok xs" and "reader_run xs b = (ps, ok, b')"
  shows "buffer_ok b' \<and> (ok \<longrightarrow> ps @ unread b' = unread b @ arrived xs)"
  using assms
proof (induction xs arbitrary: b ps ok b')
  case Nil
  then show ?case by (simp add: arrived_def)
next
  case (Cons x xs)
  obtain p ok1 b1 where 1: "reader_step x b = (p, ok1, b1)" by (cases "reader_step x b")
  obtain qs ok2 b2 where 2: "reader_run xs b1 = (qs, ok2, b2)" by (cases "reader_run xs b1")
  have r: "ps = p @ qs" "ok = (ok1 \<and> ok2)" "b' = b2" using Cons.prems(3) 1 2 by auto
  note s = step_keeps [OF Cons.prems(1) _ 1]
  have "op_ok x" "list_all op_ok xs" using Cons.prems(2) by simp_all
  from Cons.IH [OF s(1) [OF this(1)] this(2) 2] s(2) [OF this(1)] show ?case
    unfolding r arrived_Cons [of x xs] by (metis append_assoc)
qed

subsection \<open>The limit of a transmission\<close>

lemma step_within:
  assumes "buffer_ok b" and "op_ok x" and "reader_step x b = (p, ok, b')"
    and "unat (total_transmission b) + length (unread b @ arrived (x # xs)) \<le> max_transmission"
  shows "ok \<and> unat (total_transmission b') + length (unread b' @ arrived xs) \<le> max_transmission"
proof (cases "\<exists>m a. x = Get m a")
  case False
  have "total_transmission b' = total_transmission b \<or> total_transmission b' = 0"
    using assms(3) False check_keeps [OF assms(1)] new_command_keeps [OF assms(1)]
    by (cases x) (auto simp: cancelled_read_def Let_def)
  then have t: "unat (total_transmission b') \<le> unat (total_transmission b)" by auto
  have o: "ok" "p = []" using assms(3) False by (cases x; auto)+
  from step_keeps(2) [OF assms(1-3) o(1)] o(2) t assms(4) o(1) show ?thesis
    by (simp add: arrived_Cons [of x xs])
next
  case True
  then obtain m a where x: "x = Get m a" by blast
  with assms have g: "0 < m" "parser_get_input m a b = (p, ok, b')" by (simp_all add: op_ok_def)
  note k = get_keeps [OF assms(1) g]
  have ar: "arrived (x # xs) = arrived xs" by (simp add: arrived_def x)
  have l: "unat (total_transmission b) + length p \<le> max_transmission"
    using k(5) assms(4) by (simp add: ar)
  then have u: "unat (total_transmission b + of_nat (length p)) = unat (total_transmission b) + length p"
    by (simp add: unat_word_ariths unat_of_nat param_defs)
  have "ok" using get_input(4) [OF assms(1) g] u l by (simp add: word_le_nat_alt param_defs)
  with k(2) [symmetric] k(4) u assms(4) ar show ?thesis by simp
qed

lemma run_within:
  assumes "buffer_ok b" and "list_all op_ok xs" and "reader_run xs b = (ps, ok, b')"
    and "unat (total_transmission b) + length (unread b @ arrived xs) \<le> max_transmission"
  shows "ok"
  using assms
proof (induction xs arbitrary: b ps ok b')
  case Nil
  then show ?case by simp
next
  case (Cons x xs)
  obtain p ok1 b1 where 1: "reader_step x b = (p, ok1, b1)" by (cases "reader_step x b")
  obtain qs ok2 b2 where 2: "reader_run xs b1 = (qs, ok2, b2)" by (cases "reader_run xs b1")
  have "op_ok x" "list_all op_ok xs" using Cons.prems(2) by simp_all
  note s = step_within [OF Cons.prems(1) this(1) 1 Cons.prems(4)]
  from Cons.IH [OF step_keeps(1) [OF Cons.prems(1) \<open>op_ok x\<close> 1] \<open>list_all op_ok xs\<close> 2] s
  show ?case using Cons.prems(3) 1 2 by auto
qed

lemma new_input_ok: "buffer_ok (new_input p)" "unread (new_input p) = []" "total_transmission (new_input p) = 0"
  by (simp_all add: buffer_ok_def new_input_def clear_cancel_def unread_def)

lemma reset_mode: "set_input_mode universal_transmission_reset b = b\<lparr>total_transmission := 0\<rparr>"
  by (simp add: set_input_mode_def reset_transmission_limit_def)

lemma started:
  assumes "reader_run [Arrive t, New_Command] (new_input p) = (ps, ok, b)"
  shows "buffer_ok b" "unread b = t" "total_transmission b = 0" "current_data b = []"
    "is_terminated b \<longleftrightarrow> p < 0"
  using assms
  by (auto simp: new_input_def set_mode_buffers reset_mode buffer_ok_def unread_def clear_cancel_def is_terminated_def)

subsection \<open>Beyond the limit\<close>

lemma reader_run_append:
  "reader_run (xs @ ys) b =
    (case reader_run xs b of (ps, ok1, b1) \<Rightarrow> case reader_run ys b1 of (qs, ok2, b2) \<Rightarrow> (ps @ qs, ok1 \<and> ok2, b2))"
  by (induction xs arbitrary: b) (auto split: prod.splits)

lemma get_held:
  assumes "buffer_ok b" and "0 < m" and "current_data b \<noteq> []"
    and "parser_get_input m a b = (p, ok, b')"
  shows "p = take m (current_data b)" and "incoming b' = incoming b" and "\<not> ok \<Longrightarrow> current_data b' = current_data b"
proof -
  let ?s = "set_input_mode (input_binary OR input_allow_underrun) b"
  have c: "current_data ?s = current_data b" "incoming ?s = incoming b"
    using assms(1) by (simp_all add: buffer_ok_def set_mode_buffers)
  have r: "receive_input a ?s = clear_cancel ?s"
    using set_mode_keeps [OF assms(1)] assms(3) c by (intro receive_held) simp_all
  note g = get_input [OF assms(1,2,4), unfolded r]
  show "p = take m (current_data b)" "incoming b' = incoming b" "\<not> ok \<Longrightarrow> current_data b' = current_data b"
    using g(1) c by (simp_all add: g(5))
qed

text \<open>A piece that was refused is handed out again, as long as the counter does not wrap.\<close>

lemma refused_repeats:
  assumes "buffer_ok b" and "0 < m" and "current_data b \<noteq> []"
    and "max_transmission < unat (total_transmission b)"
    and "unat (total_transmission b) + length as * length (take m (current_data b)) < 2 ^ 32"
  shows "fst (reader_run (map (Get m) as) b) = concat (replicate (length as) (take m (current_data b)))"
  using assms
proof (induction as arbitrary: b)
  case Nil
  then show ?case by simp
next
  case (Cons a as)
  obtain p ok b1 where 1: "parser_get_input m a b = (p, ok, b1)" by (cases "parser_get_input m a b")
  note h = get_held [OF Cons.prems(1-3) 1] and k = get_keeps [OF Cons.prems(1,2) 1]
  have l: "unat (total_transmission b) + length p + length as * length p < 2 ^ 32"
    using Cons.prems(5) by (simp add: h(1))
  then have u: "unat (total_transmission b + of_nat (length p)) = unat (total_transmission b) + length p"
    by (simp add: unat_word_ariths unat_of_nat)
  have "\<not> ok"
    using get_input(4) [OF Cons.prems(1,2) 1] u Cons.prems(4) by (simp add: word_le_nat_alt param_defs)
  with h have c: "current_data b1 = current_data b" by simp
  have "fst (reader_run (map (Get m) as) b1) = concat (replicate (length as) p)"
    using Cons.IH [OF k(1) Cons.prems(2)] c Cons.prems(3,4) k(4) u l by (simp add: h(1))
  with 1 show ?case by (cases "reader_run (map (Get m) as) b1") (simp add: h(1))
qed

definition ready :: "input_buffer \<Rightarrow> bool" where
  "ready b \<longleftrightarrow> buffer_ok b \<and> current_data b = [] \<and> \<not> is_terminated b"

lemma drop_length_take: "drop (length (take n xs)) xs = drop n xs"
  by (simp add: min_def)

lemma receive_available:
  assumes "ready b" and "current_mode b AND input_binary \<noteq> 0" and "0 < k" and "incoming b \<noteq> []"
  shows "receive_input (Available k) b =
    (clear_cancel b)\<lparr>input_underrun := False, current_data := take (min k max_input_section) (incoming b),
       incoming := drop (min k max_input_section) (incoming b)\<rparr>"
proof -
  define n where "n = min k max_input_section"
  let ?b0 = "(clear_cancel b)\<lparr>input_underrun := False\<rparr>" and ?g = "take n (incoming b)"
  have l: "loaded_data (clear_cancel b) = []" "current_line b = []" "current_data b = []"
    "\<not> eof_reached b" "\<not> input_pipe b < 0" "\<not> max_holding_input < holding (clear_cancel b)"
    using assms by (simp_all add: ready_def buffer_ok_def holding_def param_defs is_terminated_def)
  have g: "?g \<noteq> []" "\<not> max_holding_input < length ?g"
    using assms(3,4) by (auto simp: n_def param_defs)
  have "read_section (Available k) ?b0 = ?b0\<lparr>loaded_data := ?g, incoming := drop n (incoming b)\<rparr>"
    using l g by (simp add: read_section_def Let_def drop_length_take del: length_take flip: n_def)
  then have "read_binary_input (Available k) (clear_cancel b) =
      (True, ?b0\<lparr>loaded_data := ?g, incoming := drop n (incoming b)\<rparr>)"
    using l g by (simp add: read_binary_input_def Let_def end_of_data_def is_terminated_def holding_def param_defs
        del: length_take)
  with l assms(2) show ?thesis by (simp add: receive_input_def Let_def flip: n_def)
qed

text \<open>As long as there is something to read and to hand out, a piece is not empty.\<close>

lemma get_progress:
  assumes "buffer_ok b" and "\<not> is_terminated b" and "0 < m" and "0 < k" and "unread b \<noteq> []"
    and "parser_get_input m (Available k) b = (p, ok, b')"
  shows "p \<noteq> []" and "\<not> is_terminated b'"
proof -
  let ?s = "set_input_mode (input_binary OR input_allow_underrun) b"
  note ks = set_mode_keeps [OF assms(1), of "input_binary OR input_allow_underrun"]
  have s: "?s = b\<lparr>input_underrun := False, current_mode := input_binary OR input_allow_underrun\<rparr>"
    using assms(1) by (simp add: set_mode_buffers buffer_ok_def)
  have m: "current_mode ?s AND input_binary \<noteq> 0" using ks by simp
  have r: "current_data (receive_input (Available k) ?s) \<noteq> [] \<and> \<not> is_terminated (receive_input (Available k) ?s)"
  proof (cases "current_data b = []")
    case False
    with receive_held [OF m] assms(2) show ?thesis by (simp add: s is_terminated_def)
  next
    case True
    with assms(5) have "incoming ?s \<noteq> []" by (simp add: unread_def s)
    moreover have "ready ?s" using ks True assms(2) by (simp add: ready_def) (simp add: s is_terminated_def)
    ultimately show ?thesis
      using receive_available [of ?s k] m assms(2,4) by (simp add: s is_terminated_def param_defs)
  qed
  note g = get_input [OF assms(1,3,6)]
  show "p \<noteq> []" using r assms(3) by (simp add: g(1))
  show "\<not> is_terminated b'" using r by (simp add: g(5) is_terminated_def)
qed

lemma get_nothing:
  assumes "buffer_ok b" and "0 < m" and "unread b = []" and "parser_get_input m a b = (p, ok, b')"
  shows "unread b' = []"
  using get_keeps(2,3) [OF assms(1,2,4)] assms(3) by (cases ok) simp_all

text \<open>Asking often enough empties the pipe, as long as the limit is kept.\<close>

lemma run_drains:
  assumes "buffer_ok b" and "\<not> is_terminated b \<or> unread b = []" and "0 < m" and "0 < k"
    and "length (unread b) \<le> n" and "reader_run (replicate n (Get m (Available k))) b = (ps, True, b')"
  shows "unread b' = []"
  using assms
proof (induction n arbitrary: b ps)
  case 0
  then show ?case by simp
next
  case (Suc n)
  obtain p ok1 b1 where 1: "parser_get_input m (Available k) b = (p, ok1, b1)"
    by (cases "parser_get_input m (Available k) b")
  obtain qs ok2 b2 where 2: "reader_run (replicate n (Get m (Available k))) b1 = (qs, ok2, b2)"
    by (cases "reader_run (replicate n (Get m (Available k))) b1")
  have o: "ok1" "ok2" "b2 = b'" using Suc.prems(6) 1 2 by auto
  note g = get_keeps [OF Suc.prems(1,3) 1]
  have "(\<not> is_terminated b1 \<or> unread b1 = []) \<and> length (unread b1) \<le> n"
  proof (cases "unread b = []")
    case True
    with get_nothing [OF Suc.prems(1,3) _ 1] show ?thesis by simp
  next
    case False
    with get_progress [OF Suc.prems(1) _ Suc.prems(3,4) False 1] Suc.prems(2)
    have "p \<noteq> []" "\<not> is_terminated b1" by simp_all
    with g(2) [OF o(1), symmetric] Suc.prems(5) show ?thesis by (cases p) simp_all
  qed
  with Suc.IH [OF g(1) _ Suc.prems(3,4)] 2 o show ?case by simp
qed

lemma get_full:
  assumes "ready b" and "max_input_section \<le> m" and "max_input_section \<le> length (incoming b)"
    and "parser_get_input m (Available max_input_section) b = (p, ok, b')"
  shows "p = take max_input_section (incoming b)"
    and "incoming b' = drop max_input_section (incoming b)"
    and "total_transmission b' = total_transmission b + of_nat max_input_section"
    and "ok \<longleftrightarrow> total_transmission b' \<le> word_of_nat max_transmission"
    and "buffer_ok b'" and "if ok then ready b' else current_data b' = p"
proof -
  let ?s = "set_input_mode (input_binary OR input_allow_underrun) b"
  have bo: "buffer_ok b" "0 < m" using assms by (simp_all add: ready_def param_defs)
  note k = set_mode_keeps [OF bo(1), of "input_binary OR input_allow_underrun"]
  have s: "?s = b\<lparr>input_underrun := False, current_mode := input_binary OR input_allow_underrun\<rparr>"
    using bo by (simp add: set_mode_buffers buffer_ok_def)
  have rs: "ready ?s" "current_mode ?s AND input_binary \<noteq> 0" "max_input_section \<le> length (incoming ?s)"
    using assms(1,3) k by (simp_all add: ready_def) (simp_all add: s is_terminated_def)
  have ne: "0 < max_input_section" "incoming ?s \<noteq> []" using rs(3) by (auto simp: param_defs)
  note r = receive_available [OF rs(1,2) ne, simplified]
  note g = get_input [OF bo assms(4), unfolded r]
  show p: "p = take max_input_section (incoming b)" using g(1) assms(2) s by (simp add: min_def)
  have l: "length p = max_input_section" using p assms(3) by simp
  show "incoming b' = drop max_input_section (incoming b)"
    "total_transmission b' = total_transmission b + of_nat max_input_section"
    by (simp_all add: g(5) l s)
  show "ok \<longleftrightarrow> total_transmission b' \<le> word_of_nat max_transmission" using g(4) by (simp add: g(5))
  show b: "buffer_ok b'" by (rule get_keeps(1) [OF bo assms(4)])
  show "if ok then ready b' else current_data b' = p"
  proof -
    have "current_data b' = (if ok then [] else p)" "is_terminated b' = is_terminated b"
      using p l by (simp_all add: g(5) s is_terminated_def)
    with b assms(1) show ?thesis by (simp add: ready_def)
  qed
qed

lemma full_gets:
  assumes "ready b" and "max_input_section \<le> m" and "n * max_input_section \<le> length (incoming b)"
    and "unat (total_transmission b) + n * max_input_section \<le> max_transmission"
  shows "\<exists>b'. reader_run (replicate n (Get m (Available max_input_section))) b =
      (take (n * max_input_section) (incoming b), True, b') \<and> ready b' \<and>
      incoming b' = drop (n * max_input_section) (incoming b) \<and>
      unat (total_transmission b') = unat (total_transmission b) + n * max_input_section"
  using assms
proof (induction n arbitrary: b)
  case 0
  then show ?case by simp
next
  case (Suc n)
  obtain p ok b1 where 1: "parser_get_input m (Available max_input_section) b = (p, ok, b1)"
    by (cases "parser_get_input m (Available max_input_section) b")
  have "max_input_section \<le> length (incoming b)" using Suc.prems(3) by simp
  note g = get_full [OF Suc.prems(1,2) this 1]
  have u: "unat (total_transmission b1) = unat (total_transmission b) + max_input_section"
    using Suc.prems(4) by (simp add: g(3) unat_word_ariths unat_of_nat param_defs)
  have ok: "ok" using g(4) u Suc.prems(4) by (simp add: word_le_nat_alt param_defs)
  have n: "n * max_input_section \<le> length (incoming b1)" using Suc.prems(3) by (simp add: g(2))
  have t: "unat (total_transmission b1) + n * max_input_section \<le> max_transmission"
    using Suc.prems(4) by (simp add: u)
  have "ready b1" using g(6) ok by simp
  from Suc.IH [OF this Suc.prems(2) n t] obtain b' where
    "reader_run (replicate n (Get m (Available max_input_section))) b1 =
      (take (n * max_input_section) (incoming b1), True, b') \<and> ready b' \<and>
      incoming b' = drop (n * max_input_section) (incoming b1) \<and>
      unat (total_transmission b') = unat (total_transmission b1) + n * max_input_section"
    by blast
  with 1 ok u g(1,2) show ?case by (simp add: take_add algebra_simps)
qed

end
