(* ===== verification/Transport.thy ===== *)
theory Transport
  imports Transmit Input_Buffer Complex_Main "HOL-Library.Sublist"
begin

text \<open>
  The writing end of a connection, \<open>common_output\<close> (\<open>common-output.cpp\<close>), which caches the text of a command
  and writes it. What \<open>write\<close> answers is an argument.
\<close>

section \<open>The cache\<close>

text \<open>\<open>PARAM_CACHE_COMMAND_OUTPUT\<close> is defined: a command is collected and then written as a whole.\<close>

record common_output =
  cached_output :: string
  broken_pipe :: bool
  output_pipe :: int

definition new_output :: "int \<Rightarrow> common_output" where
  "new_output p = \<lparr>cached_output = [], broken_pipe = False, output_pipe = p\<rparr>"

definition output_closed :: "common_output \<Rightarrow> bool" where
  "output_closed o' \<longleftrightarrow> broken_pipe o' \<or> output_pipe o' < 0"

text \<open>\<open>send_output\<close>: what exceeds the limit has been added to the cache when that is noticed.\<close>

definition send_output :: "string \<Rightarrow> common_output \<Rightarrow> bool \<times> common_output" where
  "send_output t o' =
     (if output_pipe o' < 0 then (False, o')
      else let o1 = o'\<lparr>cached_output := cached_output o' @ t\<rparr>
           in (length (cached_output o1) \<le> max_transmission, o1))"

text \<open>What \<open>write\<close> answers: some bytes, of those it was given; \<open>EAGAIN\<close> or \<open>EINTR\<close>; another error.\<close>

datatype write_answer = Wrote nat | Write_Again | Write_Error

definition write_pipe :: "(nat \<Rightarrow> write_answer) \<Rightarrow> common_output \<Rightarrow> nat \<Rightarrow> write_answer" where
  "write_pipe ans o' i = (if output_pipe o' < 0 then Write_Error else ans i)"

text \<open>
  The condition of the loop of \<open>common_send\<close> with the test for errors: the outcome, or how much of the \<open>len\<close>
  bytes has been written so far.
\<close>

definition write_turn :: "write_answer \<Rightarrow> nat \<Rightarrow> common_output \<Rightarrow> nat \<Rightarrow> (bool \<times> nat \<times> common_output) + nat" where
  "write_turn a len o' sent =
     (case a of
        Write_Error \<Rightarrow> Inl (False, sent, o'\<lparr>broken_pipe := True\<rparr>)
      | Write_Again \<Rightarrow> Inr sent
      | Wrote n \<Rightarrow>
          (let sent' = sent + min n (len - sent) in if len \<le> sent' then Inl (True, sent', o') else Inr sent'))"

text \<open>
  The loop. \<open>retry_limit\<close> waits as long as what it has waited is below \<open>most\<close>, \<open>iv\<close> at a time. \<open>i\<close> counts
  the calls of \<open>write\<close>, \<open>sent\<close> the bytes written, which are returned with the outcome.
\<close>

partial_function (option) write_cycle ::
  "rat \<Rightarrow> rat \<Rightarrow> (nat \<Rightarrow> write_answer) \<Rightarrow> nat \<Rightarrow> common_output \<Rightarrow> nat \<Rightarrow> rat \<Rightarrow> nat \<Rightarrow>
    (bool \<times> nat \<times> common_output) option" where
  "write_cycle iv most ans len o' i waited sent =
     (case write_turn (write_pipe ans o' i) len o' sent of
        Inl r \<Rightarrow> Some r
      | Inr sent' \<Rightarrow>
          if output_closed o' \<or> \<not> waited < most then Some (False, sent', o')
          else write_cycle iv most ans len o' (Suc i) (waited + iv) sent')"

text \<open>\<open>common_send\<close> and \<open>synchronize\<close>; the string is what has gone into the pipe.\<close>

definition common_send ::
  "rat \<Rightarrow> rat \<Rightarrow> (nat \<Rightarrow> write_answer) \<Rightarrow> string \<Rightarrow> common_output \<Rightarrow> (bool \<times> string \<times> common_output) option" where
  "common_send iv most ans t o' =
     map_option (\<lambda>(ok, n, o1). (ok, take n t, o1)) (write_cycle iv most ans (length t) o' 0 0 0)"

definition reset_cached_output :: "common_output \<Rightarrow> common_output" where
  "reset_cached_output o' = o'\<lparr>cached_output := []\<rparr>"

definition synchronize ::
  "rat \<Rightarrow> rat \<Rightarrow> (nat \<Rightarrow> write_answer) \<Rightarrow> common_output \<Rightarrow> (bool \<times> string \<times> common_output) option" where
  "synchronize iv most ans o' =
     map_option (\<lambda>(ok, w, o1). (ok, w, if ok then reset_cached_output o1 else o1))
       (common_send iv most ans (cached_output o') o')"

text \<open>\<open>send_protected_output\<close>. \<open>send_data\<close> does not look at what \<open>send_output\<close> returns, and the cache is written
  whether the command was exported or not.\<close>

definition output_command ::
  "rat \<Rightarrow> rat \<Rightarrow> (nat \<Rightarrow> write_answer) \<Rightarrow> u32 \<Rightarrow> command_transmit \<Rightarrow> common_output \<Rightarrow>
    (bool \<times> string \<times> common_output) option" where
  "output_command iv most ans now c o' =
     (let (exported, o1) = (case send_data now c of
              None \<Rightarrow> (False, o')
            | Some t \<Rightarrow> (True, snd (send_output t o')))
      in map_option (\<lambda>(ok, w, o2). (ok \<and> exported, w, o2)) (synchronize iv most ans o1))"

definition set_output_mode :: "u32 \<Rightarrow> common_output \<Rightarrow> bool \<times> common_output" where
  "set_output_mode m o' = (if m = universal_transmission_reset then (True, reset_cached_output o') else (False, o'))"

definition close_output_pipe :: "common_output \<Rightarrow> common_output" where
  "close_output_pipe o' = o'\<lparr>output_pipe := -1\<rparr>"

text \<open>That a command goes to the cache line by line makes no difference.\<close>

lemma send_output_cache:
  "snd (send_output t o') = (if output_pipe o' < 0 then o' else o'\<lparr>cached_output := cached_output o' @ t\<rparr>)"
  by (simp add: send_output_def Let_def)

lemma send_output_pieces:
  "fold (\<lambda>t o'. snd (send_output t o')) ts o' =
     (if ts = [] then o' else snd (send_output (concat ts) o'))"
  by (induction ts arbitrary: o') (auto simp: send_output_cache)

subsection \<open>The loop of \<open>common_send\<close>\<close>

lemma write_turn_Inl:
  "write_turn a len o' sent = Inl (ok, n, o1) \<Longrightarrow> sent \<le> len \<Longrightarrow>
    cached_output o1 = cached_output o' \<and> output_pipe o1 = output_pipe o' \<and> n \<le> len \<and>
    (ok \<longrightarrow> n = len \<and> o1 = o')"
  by (auto simp: write_turn_def Let_def split: write_answer.splits if_splits)

lemma write_turn_Inr: "write_turn a len o' sent = Inr k \<Longrightarrow> sent \<le> len \<Longrightarrow> k \<le> len"
  by (auto simp: write_turn_def Let_def split: write_answer.splits if_splits)

lemma write_cycle_keeps:
  assumes "write_cycle iv most ans len o' i waited sent = Some (ok, n, o1)" and "sent \<le> len"
  shows "cached_output o1 = cached_output o' \<and> output_pipe o1 = output_pipe o' \<and> n \<le> len \<and>
    (ok \<longrightarrow> n = len \<and> o1 = o')"
proof -
  let ?Q = "\<lambda>iv most ans len o' i waited sent y. \<forall>ok n o1. y = (ok, n, o1) \<longrightarrow> sent \<le> len \<longrightarrow>
    cached_output o1 = cached_output o' \<and> output_pipe o1 = output_pipe o' \<and> n \<le> len \<and>
    (ok \<longrightarrow> n = len \<and> o1 = o')"
  have "?Q iv most ans len o' i waited sent (ok, n, o1)"
  proof (rule write_cycle.raw_induct [OF _ assms(1), where P = ?Q], goal_cases)
    case (1 cyc iv most ans len o' i waited sent y)
    show ?case
    proof (cases "write_turn (write_pipe ans o' i) len o' sent")
      case (Inl r)
      with 1(2) have "r = y" by simp
      with Inl write_turn_Inl show ?thesis by blast
    next
      case (Inr k)
      show ?thesis
      proof (cases "output_closed o' \<or> \<not> waited < most")
        case True
        with 1(2) Inr have "y = (False, k, o')" by simp
        with write_turn_Inr [OF Inr] show ?thesis by blast
      next
        case False
        with 1(2) Inr have "cyc iv most ans len o' (Suc i) (waited + iv) k = Some y" by simp
        from 1(1) [OF this] write_turn_Inr [OF Inr] show ?thesis by blast
      qed
    qed
  qed
  with assms(2) show ?thesis by blast
qed

lemma write_cycle_returns:
  assumes "0 < iv"
  shows "write_cycle iv most ans len o' i waited sent \<noteq> None"
proof (induction "nat \<lceil>(most - waited) / iv\<rceil>" arbitrary: i waited sent rule: less_induct)
  case less
  have "nat \<lceil>(most - (waited + iv)) / iv\<rceil> < nat \<lceil>(most - waited) / iv\<rceil>" if "waited < most"
  proof -
    have "(most - (waited + iv)) / iv = (most - waited) / iv - 1"
      using assms by (simp add: field_simps)
    moreover have "0 < (most - waited) / iv" using assms that by simp
    ultimately show ?thesis by (simp add: ceiling_diff_one)
  qed
  with less have "waited < most \<Longrightarrow> write_cycle iv most ans len o' (Suc i) (waited + iv) k \<noteq> None" for k
    by blast
  then show ?case
    by (cases "write_turn (write_pipe ans o' i) len o' sent"; subst write_cycle.simps; simp del: not_None_eq)
qed

lemma common_send_returns: "0 < iv \<Longrightarrow> \<exists>ok w o1. common_send iv most ans t o' = Some (ok, w, o1)"
  using write_cycle_returns [of iv most ans "length t" o' 0 0 0] by (auto simp: common_send_def)

lemma synchronize_writes:
  assumes "synchronize iv most ans o' = Some (ok, w, o1)"
  shows "output_pipe o1 = output_pipe o' \<and> prefix w (cached_output o') \<and>
    (if ok then w = cached_output o' \<and> cached_output o1 = [] \<and> broken_pipe o1 = broken_pipe o'
     else cached_output o1 = cached_output o')"
proof -
  obtain n o2 where c: "write_cycle iv most ans (length (cached_output o')) o' 0 0 0 = Some (ok, n, o2)"
    and w: "w = take n (cached_output o')" and o1: "o1 = (if ok then o2\<lparr>cached_output := []\<rparr> else o2)"
    using assms by (auto simp: synchronize_def common_send_def reset_cached_output_def)
  from write_cycle_keeps [OF c] have "cached_output o2 = cached_output o' \<and> output_pipe o2 = output_pipe o' \<and>
      (ok \<longrightarrow> n = length (cached_output o') \<and> o2 = o')"
    by simp
  then show ?thesis by (simp add: w o1 take_is_prefix)
qed

subsection \<open>Commands written one after the other\<close>

fun output_commands ::
  "rat \<Rightarrow> rat \<Rightarrow> u32 \<Rightarrow> (command_transmit \<times> (nat \<Rightarrow> write_answer)) list \<Rightarrow> common_output \<Rightarrow>
    (bool list \<times> string \<times> common_output) option" where
  "output_commands iv most now [] o' = Some ([], [], o')"
| "output_commands iv most now ((c, ans) # js) o' =
     (case output_command iv most ans now c o' of
        None \<Rightarrow> None
      | Some (ok, w, o1) \<Rightarrow>
          map_option (\<lambda>(oks, ws, o2). (ok # oks, w @ ws, o2)) (output_commands iv most now js o1))"

lemma output_command_returns:
  assumes "0 < iv"
  shows "\<exists>x. output_command iv most ans now c o' = Some x"
proof -
  obtain exported o1 where e: "(case send_data now c of None \<Rightarrow> (False, o')
      | Some t \<Rightarrow> (True, snd (send_output t o'))) = (exported, o1)"
    by fastforce
  obtain ok w o2 where "common_send iv most ans (cached_output o1) o1 = Some (ok, w, o2)"
    using common_send_returns [OF assms] by blast
  then show ?thesis by (simp add: output_command_def e synchronize_def)
qed

lemma output_commands_return: "0 < iv \<Longrightarrow> \<exists>x. output_commands iv most now js o' = Some x"
proof (induction js arbitrary: o')
  case Nil
  then show ?case by simp
next
  case (Cons j js)
  obtain c ans where j: "j = (c, ans)" by (cases j)
  obtain ok w o1 where o1: "output_command iv most ans now c o' = Some (ok, w, o1)"
    using output_command_returns [OF Cons.prems] by (metis prod_cases3)
  from Cons obtain x where "output_commands iv most now js o1 = Some x" by blast
  with j o1 show ?case by (cases x) simp
qed

lemma synchronize_closed:
  "output_pipe o' < 0 \<Longrightarrow> synchronize iv most ans o' = Some (ok, w, o1) \<Longrightarrow> \<not> ok"
  by (auto simp: synchronize_def common_send_def write_cycle.simps [of _ _ _ _ _ 0] write_pipe_def write_turn_def)

lemma output_command_split:
  assumes "output_command iv most ans now c o' = Some (ok, w, o2)" and "send_data now c = Some t"
  shows "synchronize iv most ans (snd (send_output t o')) = Some (ok, w, o2)"
  using assms by (auto simp: output_command_def)

lemma output_command_sent:
  assumes "output_command iv most ans now c o' = Some (True, w, o2)"
  shows "0 \<le> output_pipe o'" and "\<exists>t. send_data now c = Some t \<and> w = cached_output o' @ t"
    and "cached_output o2 = []" and "output_pipe o2 = output_pipe o'"
proof -
  from assms obtain t where t: "send_data now c = Some t"
    by (auto simp: output_command_def split: option.splits)
  note s = output_command_split [OF assms t]
  show p: "0 \<le> output_pipe o'"
    using synchronize_closed [OF _ s] by (cases "output_pipe o' < 0") (auto simp: send_output_cache)
  show "\<exists>t. send_data now c = Some t \<and> w = cached_output o' @ t" "cached_output o2 = []"
    "output_pipe o2 = output_pipe o'"
    using synchronize_writes [OF s] t p by (auto simp: send_output_cache)
qed

lemma output_command_refused:
  assumes "output_command iv most ans now c o' = Some (False, w, o2)"
    and "send_data now c = Some t" and "0 \<le> output_pipe o'"
  shows "cached_output o2 = cached_output o' @ t" and "prefix w (cached_output o' @ t)"
    and "output_pipe o2 = output_pipe o'"
  using synchronize_writes [OF output_command_split [OF assms(1,2)]] assms(3)
  by (simp_all add: send_output_cache)

lemma output_commands_sent:
  assumes "output_commands iv most now js o' = Some (oks, ws, o2)" and "list_all (\<lambda>b. b) oks"
    and "cached_output o' = []"
  shows "\<exists>texts. map (send_data now \<circ> fst) js = map Some texts \<and> ws = concat texts"
  using assms
proof (induction js arbitrary: o' oks ws)
  case Nil
  then show ?case by simp
next
  case (Cons j js)
  obtain c ans where j: "j = (c, ans)" by (cases j)
  with Cons.prems obtain w o1 oks1 ws1 where
    s: "output_command iv most ans now c o' = Some (True, w, o1)" and
    r: "output_commands iv most now js o1 = Some (oks1, ws1, o2)" "list_all (\<lambda>b. b) oks1" "ws = w @ ws1"
    by (auto split: option.splits)
  from output_command_sent [OF s] Cons.prems(3) obtain t where
    t: "send_data now c = Some t" "w = t" "cached_output o1 = []" by auto
  from Cons.IH [OF r(1,2) t(3)] obtain texts where
    "map (send_data now \<circ> fst) js = map Some texts \<and> ws1 = concat texts" by blast
  with t r(3) j have "map (send_data now \<circ> fst) (j # js) = map Some (t # texts) \<and> ws = concat (t # texts)"
    by simp
  then show ?case by blast
qed

lemma write_cycle_full:
  assumes "write_cycle iv most (\<lambda>_. Write_Again) len o' i waited 0 = Some y" and "0 \<le> output_pipe o'"
  shows "y = (False, 0, o')"
proof -
  let ?Q = "\<lambda>(iv :: rat) (most :: rat) (ans :: nat \<Rightarrow> write_answer) (len :: nat) o' (i :: nat) (waited :: rat) (sent :: nat) y.
    ans = (\<lambda>_. Write_Again) \<longrightarrow> sent = 0 \<longrightarrow> 0 \<le> output_pipe o' \<longrightarrow> y = (False, 0 :: nat, o')"
  have "?Q iv most (\<lambda>_. Write_Again) len o' i waited 0 y"
  proof (rule write_cycle.raw_induct [OF _ assms(1), where P = ?Q], goal_cases)
    case (1 cyc iv most ans len o' i waited sent y)
    show ?case
    proof (intro impI)
      assume *: "ans = (\<lambda>_. Write_Again)" "sent = 0" "0 \<le> output_pipe o'"
      then have r: "y = (False, 0, o') \<or> cyc iv most ans len o' (Suc i) (waited + iv) 0 = Some y"
        using 1(2) by (auto simp: write_turn_def write_pipe_def split: if_splits)
      with 1(1) [of iv most ans len o' "Suc i" "waited + iv" 0 y] * show "y = (False, 0, o')" by blast
    qed
  qed
  with assms(2) show ?thesis by blast
qed

lemma full_pipe_refuses:
  assumes "0 < iv" and "0 \<le> output_pipe o'" and "send_data now c = Some t"
  shows "\<exists>o1. output_command iv most (\<lambda>_. Write_Again) now c o' = Some (False, [], o1) \<and>
    cached_output o1 = cached_output o' @ t \<and> output_pipe o1 = output_pipe o'"
proof -
  let ?o = "o'\<lparr>cached_output := cached_output o' @ t\<rparr>"
  obtain y where y: "write_cycle iv most (\<lambda>_. Write_Again) (length (cached_output ?o)) ?o 0 0 0 = Some y"
    using write_cycle_returns [OF assms(1)] by blast
  with write_cycle_full [OF y] assms(2) have "y = (False, 0, ?o)" by simp
  with y assms show ?thesis
    by (simp add: output_command_def synchronize_def common_send_def send_output_cache)
qed

end
