(* ===== verification/Channel.thy ===== *)
theory Channel
  imports Transport Input_Buffer Command_Stream
begin

text \<open>
  Both ends of a connection and what is between them: commands written by \<open>common_output\<close>, read in any pieces
  from the buffers and given to the scanner; what happens beyond the limit and when a command is written again.
\<close>

section \<open>Commands through a connection\<close>


text \<open>The example: the pipe is full at first; the text is read seven bytes at a time.\<close>

lemma sample_text: "\<exists>t. send_data 5 (sample_command ''proto_x'') = Some t \<and> length t \<le> 1000"
  by (rule exI, rule conjI, code_simp, code_simp)




section \<open>Beyond the limit\<close>

text \<open>What is over the limit is reported by \<open>send_output\<close>, but it is in the cache by then and is written.\<close>

lemma oversize_command_written:
  assumes "send_data now c = Some t" and "max_transmission < length t" and "0 \<le> f"
  shows "\<not> fst (send_output t (new_output f))"
    and "output_command iv most (\<lambda>_. Wrote (length t)) now c (new_output f) = Some (True, t, new_output f)"
  using assms
  by (simp_all add: output_command_def synchronize_def common_send_def reset_cached_output_def send_output_def new_output_def Let_def
      write_cycle.simps [of _ _ _ _ _ 0] write_turn_def write_pipe_def)

text \<open>
  C24. The reader does not get past the limit: of more than nine sections in the pipe it delivers nine, and then the
  ninth again and again, as often as the scanner asks and until the counter of 32 bits wraps, whatever else
  there is to read. \<open>next_input\<close> refuses to remove a piece beyond the limit, and \<open>parser_get_input\<close> does not look.
\<close>

theorem oversize_repeats:
  assumes "0 \<le> p" and "max_input_section \<le> m" and "9 * max_input_section \<le> length s"
    and "length as < 4194295"
  shows "fst (reader_run ([Arrive s, New_Command] @ replicate 9 (Get m (Available max_input_section)) @ map (Get m) as)
      (new_input p)) =
    take (9 * max_input_section) s @
    concat (replicate (length as) (take max_input_section (drop (8 * max_input_section) s)))"
proof -
  let ?G = "Get m (Available max_input_section)"
  obtain b1 where b1: "reader_run [Arrive s, New_Command] (new_input p) = ([], True, b1)" by simp
  with started [OF b1] assms(1) have k: "ready b1" "incoming b1 = s" "unat (total_transmission b1) = 0"
    by (simp_all add: ready_def unread_def)
  have "8 * max_input_section \<le> length (incoming b1)" using assms(3) by (simp add: k)
  from full_gets [OF k(1) assms(2) this] obtain b2 where
    b2: "reader_run (replicate 8 ?G) b1 = (take (8 * max_input_section) s, True, b2)" and
    r2: "ready b2" "incoming b2 = drop (8 * max_input_section) s" and
    t2: "unat (total_transmission b2) = 8 * max_input_section"
    by (auto simp: k param_defs)
  obtain q ok b3 where b3: "parser_get_input m (Available max_input_section) b2 = (q, ok, b3)"
    by (cases "parser_get_input m (Available max_input_section) b2")
  have "max_input_section \<le> length (incoming b2)" using assms(3) by (simp add: r2)
  note g = get_full [OF r2(1) assms(2) this b3]
  have q: "q = take max_input_section (drop (8 * max_input_section) s)" by (simp add: g(1) r2)
  have l: "length q = max_input_section" using assms(3) by (simp add: q)
  have t3: "unat (total_transmission b3) = 9 * max_input_section"
    using t2 by (simp add: g(3) unat_word_ariths unat_of_nat param_defs)
  then have nok: "\<not> ok" using g(4) by (simp add: word_le_nat_alt param_defs)
  then have c: "current_data b3 = q" "buffer_ok b3" using g(5,6) by simp_all
  have tq: "take m q = q" using l assms(2) by simp
  have m: "0 < m" and ne: "current_data b3 \<noteq> []" using assms(2) l c by (auto simp: param_defs)
  have rep: "fst (reader_run (map (Get m) as) b3) = concat (replicate (length as) q)"
    using refused_repeats [OF c(2) m ne, of as] assms(4) by (simp add: t3 c(1) tq l param_defs)
  have nine: "replicate 9 ?G = replicate 8 ?G @ [?G]" by (simp add: eval_nat_numeral)
  have "take (9 * max_input_section) s = take (8 * max_input_section) s @ q"
    using take_add [of "8 * max_input_section" max_input_section s] by (simp add: q)
  with b1 b2 b3 rep q show ?thesis
    unfolding nine append_assoc by (simp only: reader_run_append) (auto split: prod.split)
qed

theorem oversize_repeats_witness:
  "fst (reader_run ([Arrive (replicate 9216 CHR ''a'' @ ''!''), New_Command] @
      replicate 9 (Get 8192 (Available max_input_section)) @ map (Get 8192) [Available 1, Read_Error])
      (new_input 0)) =
    take (9 * max_input_section) (replicate 9216 CHR ''a'' @ ''!'') @
    concat (replicate 2 (take max_input_section (drop (8 * max_input_section) (replicate 9216 CHR ''a'' @ ''!''))))"
proof -
  have 2: "length [Available 1, Read_Error] = 2" by simp
  have m: "max_input_section \<le> 8192" by (simp add: param_defs)
  have l: "9 * max_input_section \<le> length (replicate 9216 CHR ''a'' @ ''!'')"
    by (simp only: param_defs length_append length_replicate)
  have n: "length [Available 1, Read_Error] < 4194295" by simp
  show ?thesis by (rule oversize_repeats [OF order_refl m l n, unfolded 2])
qed

section \<open>Commands written again\<close>

lemma full_pipe_collects:
  assumes "0 < iv" and "0 \<le> output_pipe o'" and "send_data now c = Some t"
    and "output_commands iv most now (replicate k (c, \<lambda>_. Write_Again) @ [(c, ans)]) o' = Some (oks, ws, o2)"
    and "last oks"
  shows "oks = replicate k False @ [True] \<and> ws = cached_output o' @ concat (replicate (Suc k) t)"
  using assms
proof (induction k arbitrary: o' oks ws)
  case 0
  then obtain ok w where s: "output_command iv most ans now c o' = Some (ok, w, o2)" "oks = [ok]" "ws = w"
    by (auto split: option.splits)
  with 0 have "ok" by simp
  with output_command_sent(2) [of iv most ans now c o' w o2] s 0(3) show ?case by auto
next
  case (Suc k)
  obtain o1 where o1: "output_command iv most (\<lambda>_. Write_Again) now c o' = Some (False, [], o1)"
    "cached_output o1 = cached_output o' @ t" "output_pipe o1 = output_pipe o'"
    using full_pipe_refuses [OF Suc.prems(1-3)] by blast
  with Suc.prems(4) obtain oks1 ws1 where
    r: "output_commands iv most now (replicate k (c, \<lambda>_. Write_Again) @ [(c, ans)]) o1 = Some (oks1, ws1, o2)"
      "oks = False # oks1" "ws = ws1"
    by auto
  with Suc.prems(5) have "last oks1" by (cases oks1) (auto split: if_splits)
  with Suc.IH [OF Suc.prems(1) _ Suc.prems(3) r(1)] o1 Suc.prems(2) r show ?case by simp
qed

text \<open>
  C25. The cache is emptied only when all of it was written. A command that could not be sent because the pipe was
  full, and is sent again, as the router does with a command its receiver does not take, is therefore received
  once for every attempt.
\<close>

theorem retried_command_repeated:
  assumes "0 < iv" and "0 \<le> f" and "text_ok c"
    and "output_commands iv most now (replicate k (c, \<lambda>_. Write_Again) @ [(c, ans)]) (new_output f) = Some (oks, ws, o2)"
    and "last oks"
  shows "oks = replicate k False @ [True] \<and> read_stream pid (lex ws) = replicate (Suc k) (received now pid c)"
proof -
  have "command_name c \<noteq> []" using assms(3) by (auto simp: text_ok_def is_label_def)
  then obtain t where t: "send_data now c = Some t" by (auto simp: send_data_def)
  have o: "0 \<le> output_pipe (new_output f)" "cached_output (new_output f) = []"
    using assms(2) by (simp_all add: new_output_def)
  from full_pipe_collects [OF assms(1) o(1) t assms(4,5)] o(2)
  have w: "oks = replicate k False @ [True]" "ws = concat (replicate (Suc k) t)" by simp_all
  have "read_stream pid (lex (concat (replicate (Suc k) t))) = map (received now pid) (replicate (Suc k) c)"
    by (rule stream_round_trip) (use assms(3) t in \<open>auto simp: list_all_iff map_replicate_const\<close>)
  with w show ?thesis by simp
qed

theorem retried_command_repeated_witness:
  "\<exists>t oks ws o2. send_data 5 (sample_command ''proto_x'') = Some t \<and>
    output_commands 1 5 5 [(sample_command ''proto_x'', \<lambda>_. Write_Again), (sample_command ''proto_x'', \<lambda>_. Wrote 4000)]
      (new_output 3) = Some (oks, ws, o2) \<and> oks = [False, True] \<and>
    map tree (read_stream 7 (lex ws)) = [sample_tree, sample_tree]"
proof -
  let ?c = "sample_command ''proto_x''"
  obtain t where t: "send_data 5 ?c = Some t" "length t \<le> 1000" using sample_text by blast
  obtain o1 where o1: "output_command 1 5 (\<lambda>_. Write_Again) 5 ?c (new_output 3) = Some (False, [], o1)"
    "cached_output o1 = t" "output_pipe o1 = 3"
    using full_pipe_refuses [of 1 "new_output 3" 5 ?c t 5] t(1) by (auto simp: new_output_def)
  have s: "\<exists>o2. output_command 1 5 (\<lambda>_. Wrote 4000) 5 ?c o1 = Some (True, t @ t, o2)"
    using t o1(2,3)
    by (simp add: output_command_def synchronize_def common_send_def reset_cached_output_def send_output_cache
        write_cycle.simps [of _ _ _ _ _ 0] write_turn_def write_pipe_def)
  then obtain o2 where "output_commands 1 5 5 (replicate 1 (?c, \<lambda>_. Write_Again) @ [(?c, \<lambda>_. Wrote 4000)])
      (new_output 3) = Some ([False, True], t @ t, o2)"
    using o1 by auto
  moreover from retried_command_repeated [OF _ _ sample_ok this, of 7]
  have "read_stream 7 (lex (t @ t)) = [received 5 7 ?c, received 5 7 ?c]" by (simp add: eval_nat_numeral)
  then have "map tree (read_stream 7 (lex (t @ t))) = [sample_tree, sample_tree]"
    by (simp add: received_def sample_command_def read_tree_def sample_tree_def)
  ultimately show ?thesis using t(1) by auto
qed

end
