(* ===== verification/Long_Addresses.thy ===== *)
theory Long_Addresses
  imports Command_Stream
begin

text \<open>
  Names and addresses that do not fit in the line buffer of \<open>send_data\<close> (\<open>command-transmit.cpp\<close>): what is
  received of a command that carries them.
\<close>

text \<open>The conditions of \<open>text_ok\<close> without those on the length of the names and addresses.\<close>

definition sendable_text :: "command_transmit \<Rightarrow> bool" where
  "sendable_text c \<longleftrightarrow> is_label (command_name c) \<and> length (command_name c) \<le> 243 \<and>
     list_all extended_char (orig_entity c) \<and> list_all extended_char (orig_address c) \<and>
     list_all extended_char (target_entity c) \<and> list_all extended_char (target_address c) \<and>
     (tree_ok 2 (tree c) \<or> tree c = [Empty_Section []])"

text \<open>The buffer has room for 245 characters of a name or an address.\<close>

definition cut_fields :: "command_transmit \<Rightarrow> command_transmit" where
  "cut_fields c = c\<lparr>orig_entity := take 245 (orig_entity c), orig_address := take 245 (orig_address c),
     target_entity := take 245 (target_entity c), target_address := take 245 (target_address c)\<rparr>"

definition starts_blank :: "string \<Rightarrow> bool" where
  "starts_blank s \<longleftrightarrow> s \<noteq> [] \<and> blank (hd s)"

lemma starts_blank_lines [simp]:
  "starts_blank (''  }'' @ s)"
  "starts_blank (hex_line l v @ s)" "starts_blank (text_line l w @ s)"
  "starts_blank s \<Longrightarrow> starts_blank ((if b then hex_line l v else []) @ s)"
  "starts_blank s \<Longrightarrow> starts_blank ((if b then text_line l w else []) @ s)"
  by (simp_all add: starts_blank_def hex_line_def text_line_def snprintf_text_def blank_def)

lemma lex_long_property:
  assumes "l \<in> {''_oe'', ''_oa'', ''_te'', ''_ta''}" and "list_all extended_char v" and "starts_blank s"
  shows "lex ((if v \<noteq> [] then text_line l v else []) @ s) = word_tokens l (take 245 v) @ lex s"
proof (cases "length v \<le> 244")
  case True
  have "l \<in> set property_labels" using assms(1) by (auto simp: property_labels_def)
  with lex_word_property [of l v s] True assms(2) show ?thesis by (simp add: word_value_def)
next
  case False
  have l: "is_label l" "length l = 3"
    using assms(1) by (auto simp: is_label_def label_start_def label_char_def letters_def)
  have t: "text_line l v = ''    '' @ l @ '' = '' @ take 245 v"
    using False l(2) by (simp add: text_line_def snprintf_text_def)
  obtain x r where s: "s = x # r" "blank x" using assms(3) by (cases s) (auto simp: starts_blank_def)
  then have x: "\<not> extended_char x" using hex_end by (auto simp: blank_def extended_char_def letters_def)
  have w: "list_all extended_char (take 245 v)" "take 245 v \<noteq> []"
    using assms(2) False by (auto simp: list_all_iff dest: in_set_takeD)
  have "lex (take 245 v @ s) = word_token (take 245 v) # lex s"
    using lex_word [of "take 245 v" s] w x s by simp
  with False w(2) show ?thesis
    using lex_assign [OF l(1), of "take 245 v @ s"] by (simp add: t word_tokens_def lex_space)
qed

lemma cut_fields_simps [simp]:
  "priority (cut_fields c) = priority c" "orig_reference (cut_fields c) = orig_reference c"
  "target_reference (cut_fields c) = target_reference c" "remote_reference (cut_fields c) = remote_reference c"
  "creator_pid (cut_fields c) = creator_pid c" "send_time (cut_fields c) = send_time c"
  "silent_auto_response (cut_fields c) = silent_auto_response c" "sender_type (cut_fields c) = sender_type c"
  "tree (cut_fields c) = tree c" "command_name (cut_fields c) = command_name c"
  by (simp_all add: cut_fields_def command_name_def split: option.split)

lemma lex_route_cut:
  assumes "sendable_text c"
  shows "lex (route_text now c @ s) = route_tokens now (cut_fields c) @ lex s"
proof -
  have l: "set property_labels = {''_v'', ''_p'', ''_or'', ''_tr'', ''_rr'', ''_cp'', ''_t'', ''_sr'', ''_oe'', ''_oa'',
     ''_te'', ''_ta'', ''_st''}" by (simp add: property_labels_def)
  have t: "lex ((if b then hex_line ''_st'' (unat m) else []) @ s)
      = (if b then number_tokens ''_st'' (ucast m) else []) @ lex s" for b s and m :: mask16
    using lex_number_property [of "''_st''" "unat m" s] unat_u32 l by simp
  note n = lex_number_property [unfolded l]
  have f: "orig_entity (cut_fields c) = take 245 (orig_entity c)" "orig_address (cut_fields c) = take 245 (orig_address c)"
    "target_entity (cut_fields c) = take 245 (target_entity c)" "target_address (cut_fields c) = take 245 (target_address c)"
    by (simp_all add: cut_fields_def)
  have v: "lex ((if protocol_version \<noteq> [] then text_line ''_v'' protocol_version else []) @ s)
      = word_tokens ''_v'' protocol_version @ lex s" for s
    by (rule lex_word_property) (simp_all add: l version_word)
  have w: "list_all extended_char (orig_entity c)" "list_all extended_char (orig_address c)"
    "list_all extended_char (target_entity c)" "list_all extended_char (target_address c)"
    using assms by (simp_all add: sendable_text_def)
  show ?thesis
    unfolding route_text_def route_tokens_def f cut_fields_simps
    by (simp only: lex_literal_route n [OF _ unat_u32(1)] n [OF _ unat_u32(2)] v
        of_nat_unat lex_long_property w starts_blank_lines t lex_silent append_assoc insert_iff simp_thms ucast_id)
qed

lemma received_cut: "received now pid (cut_fields c) =
    (read_route now (cut_fields c) (new_transmit pid))\<lparr>tree := read_tree (tree c), command_label := command_name c\<rparr>"
  by (simp flip: read_route_new)

lemma read_stream_cut:
  assumes "sendable_text c" and "send_data now c = Some t"
  shows "read_stream pid (lex (t @ s)) = received now pid (cut_fields c) # read_stream pid (lex s)"
proof -
  have "lex (t @ s) = command_tokens now (cut_fields c) @ lex s"
    using lex_command_route [OF _ _ _ lex_route_cut [OF assms(1)] assms(2), of s] assms(1)
    by (simp add: sendable_text_def command_tokens_def)
  moreover have "parse_loop Outside (new_transmit pid) (command_tokens now (cut_fields c) @ lex s) =
      (True, Outside, received now pid (cut_fields c), lex s)"
    unfolding received_cut using parse_command_tree [of "cut_fields c" "new_transmit pid" now "lex s"] assms(1)
    by (simp add: sendable_text_def)
  ultimately show ?thesis
    by (subst read_stream.simps) (simp add: command_tokens_def)
qed

text \<open>
  C40. Names and addresses of any length: the commands written by \<open>send_data\<close> are received in order and whole,
  except that of each name and address only the first 245 characters arrive. Nothing marks the loss: the line
  ends without its end, which the next line's blanks make up for, so a longer address, which
  \<open>check_address_label\<close> accepts up to 2048 characters, silently becomes another one.
\<close>

theorem long_addresses_cut:
  assumes "list_all sendable_text cs" and "map (send_data now) cs = map Some texts"
  shows "read_stream pid (lex (concat texts)) = map (\<lambda>c. received now pid (cut_fields c)) cs"
  using assms
proof (induction cs arbitrary: texts)
  case Nil
  then show ?case by (simp add: read_stream.simps)
next
  case (Cons c cs)
  then obtain t us where t: "texts = t # us" "send_data now c = Some t" "map (send_data now) cs = map Some us"
    by (cases texts) auto
  with Cons read_stream_cut [of c now t pid "concat us"] show ?case by simp
qed

definition long_address :: string where
  "long_address = ''c?'' @ replicate 250 CHR ''a''"

lemma long_address_accepted: "check_address_label (Some long_address)"
proof -
  have "hop_ok (''c'', replicate 250 CHR ''a'')" "length long_address = 252"
    by (simp_all add: hop_ok_def plain_def client_scope_char_def address_scope_char_def long_address_def)
  moreover have "long_address = scope_of [(''c'', replicate 250 CHR ''a'')]"
    by (simp add: long_address_def hop_text_def client_scope_char_def)
  moreover have "list_all address_filter long_address"
    by (simp add: long_address_def address_filter_def entity_filter_def list_all_iff)
  ultimately show ?thesis
    unfolding check_address_label_exact
    by (intro conjI disjI2 disjI1 exI [of _ "[(''c'', replicate 250 CHR ''a'')]"])
      (simp_all add: route_hops_def PARAM_ADDRESS_LIMIT_def PARAM_SCOPE_LIMIT_def)
qed

theorem long_addresses_cut_witness:
  "check_address_label (Some long_address) \<and> length long_address = 252 \<and>
   (\<exists>t. send_data 5 ((sample_command ''proto_x'')\<lparr>target_address := long_address\<rparr>) = Some t \<and>
     map target_address (read_stream 7 (lex t)) = [take 245 long_address])"
proof -
  let ?c = "(sample_command ''proto_x'')\<lparr>target_address := long_address\<rparr>"
  have n: "command_name ?c = ''proto_x''" "target_address ?c = long_address"
    by (simp_all add: sample_command_def command_name_def new_transmit_def command_info.defs)
  obtain t where t: "send_data 5 ?c = Some t" using n by (auto simp: send_data_def)
  have "list_all extended_char long_address"
    by (simp add: long_address_def extended_char_def letters_def list_all_iff)
  then have "sendable_text ?c"
    using sample_ok by (simp add: sendable_text_def text_ok_def route_ok_def word_value_def sample_command_def
        command_name_def new_transmit_def command_info.defs)
  with long_addresses_cut [of "[?c]" 5 "[t]" 7] t
  have "read_stream 7 (lex t) = [received 5 7 (cut_fields ?c)]" by simp
  then have "map target_address (read_stream 7 (lex t)) = [take 245 long_address]"
    by (simp add: received_def cut_fields_def n)
  with t long_address_accepted show ?thesis by (simp add: long_address_def)
qed

end
