(* ===== verification/Spec2Isabelle.thy ===== *)
theory Spec2Isabelle
  imports Label_Check Proto_Bodies Server_Run Terminal_Request Client_Run Conversation Parser_Simulation Channel Long_Addresses
begin

text \<open>
  A verification development for the resource server \<open>rservr\<close>.

  The server keeps a table of clients, each a process or a detached program that talks to it over a
  pipe or a socket. Clients register under names with types that are permissions, offer services
  under further names, send each other commands through the server, and ask the server itself for
  things: to start and end clients, to be told of events, to have the terminal. Every client has a
  thread in the server that parses its commands and queues them by priority; one thread takes them
  from the queue and forwards them to their targets or executes them.

  \<^bold>\<open>The protocol library\<close> (\<open>src/libs/protocol\<close>, \<open>src/libs/proto\<close>):
  \<^item> \<open>Command_Types\<close>: the permission masks and their tests (\<open>api-command.cpp\<close>, \<open>local-check.h\<close>).
  \<^item> \<open>Numbers\<close>: numbers as text (\<open>api-tools.cpp\<close>); \<open>Sections\<close>: the sections a command's data is made
    of, the macros that build and parse them (\<open>source-macro.hpp\<close>).
  \<^item> \<open>Proto_Common\<close>, \<open>Proto_Server\<close>, \<open>Proto_Admin\<close>, \<open>Proto_Resource\<close>, \<open>Proto_Service\<close>: the built-in
    commands of each group, their fields, trees and permissions; \<open>Proto_Bodies\<close> puts them together.
  \<^item> \<open>Transmit\<close>: \<open>command_transmit\<close>, a command with its routing data, its tree and its text form.
  \<^item> \<open>Address_Scope\<close>, \<open>Label_Check\<close>: the routes through several servers and the tests of names.

  \<^bold>\<open>The command language\<close> (\<open>src/libs/protocol/ipc\<close>):
  \<^item> \<open>Command_Lexer\<close>: the rules of the scanner (\<open>ipc-lexer.l\<close>), the choice of the longest match and the two modes
    that count the characters of data; \<open>Command_Parser\<close>: the grammar (\<open>ipc-parser.y\<close>) as a push parser with
    its actions and its recovery from errors, and \<open>parse_command\<close> (\<open>common-input.cpp\<close>).
  \<^item> \<open>Parser_Tables\<close>: the parser that is compiled (\<open>ipc-parser.tab.cpp\<close>), bison's tables and \<open>yypush_parse\<close>;
    \<open>Parser_Steps\<close> reads the tables state by state, \<open>Parser_Simulation\<close> shows that it does what the grammar says.
  \<^item> \<open>Command_Text\<close>: what the scanner and the parser make of the text \<open>send_data\<close> writes, line by line, up to
    whole commands; \<open>Command_Stream\<close>: commands one after the other, input that is not a command, and what
    the text does not keep; \<open>Long_Addresses\<close>: names and addresses that do not fit in their lines.
  \<^item> \<open>Transport\<close>: the cache of the writing end and the retries of its writes (\<open>common-output.cpp\<close>);
    \<open>Input_Buffer\<close>: the buffers of the reading end, their limits and the pieces the scanner is handed
    (\<open>common-input.cpp\<close>); \<open>Channel\<close>: commands from one end to the other, beyond the limit, and sent again.
  \<^item> \<open>Conversation\<close>: the text of a built-in command read by the server, and of the server's answer read by the
    client, whose statuses it ends in.

  \<^bold>\<open>The server\<close> (\<open>src/libs/server\<close>):
  \<^item> \<open>Server_State\<close>: the record \<open>server\<close> of everything the server keeps, in place of its static objects
    and lists, and the record \<open>env\<close> of what the system answers. Pointers to clients are the numbers
    \<open>handle\<close>; the allocator answers with a fresh one (\<open>env_ok\<close>).
  \<^item> \<open>Heap_Queue\<close>, \<open>Execute_Queue\<close>, \<open>Queue_Access\<close>: the array heap of waiting commands, its order and
    its limits.
  \<^item> \<open>Server_Messages\<close>: what the server writes to clients; writes are kept in the \<open>outbox\<close>.
  \<^item> \<open>Service_List\<close>, \<open>Monitors\<close>, \<open>Terminal_Control\<close>, \<open>Client_List\<close>: the tables and their operations.
  \<^item> \<open>Router\<close>: \<open>send_client_command\<close> with its permission tests, retries and refusals.
  \<^item> \<open>Server_Params\<close>: the parameters the server's configuration sets.
  \<^item> \<open>Server_Interface\<close>, \<open>Terminal_Request\<close>: the operations commands may call, with their tests.
  \<^item> \<open>Server_Exec\<close>, \<open>Execution\<close>: the evaluation of every built-in command and the execution thread.
  \<^item> \<open>Local_Client\<close>: the thread of a client; \<open>Server_Run\<close>: all threads together as a step relation.

  \<^bold>\<open>The client library\<close> (\<open>src/libs/client\<close>):
  \<^item> \<open>Client_State\<close>: the record \<open>client_program\<close> of the static data of a client, and the record \<open>cenv\<close> of
    what its system answers. Queued commands and messages are at addresses, numbers \<open>handle\<close> here.
  \<^item> \<open>Client_Queue\<close>: the commands made and not yet destroyed (\<open>command-queue.cpp\<close>); \<open>Message_Queue\<close>: the
    messages received, the flags that block them, pausing, starting and stopping
    (\<open>api-message-queue.cpp\<close>); \<open>Client_Status\<close>: the statuses of sent commands, sending and waiting
    (\<open>api-command-queue.cpp\<close>).
  \<^item> \<open>Client_Commands\<close>: the table of commands, commands to and from other servers, the making of
    commands (\<open>client-command.cpp\<close>, \<open>api-command-queue.cpp\<close>).
  \<^item> \<open>Client_Interface\<close>, \<open>Client_Eval\<close>: what commands may do to a client and what each built-in command
    does there (\<open>api-message-queue.cpp\<close>, \<open>libs/proto\<close>), up to a turn of the queue, \<open>client_receive\<close>.
  \<^item> \<open>Client_Api\<close>: the calls of the application (\<open>api-client.cpp\<close> and the other \<open>api-\<close> files).
  \<^item> \<open>Client_Turns\<close>, \<open>Client_Run\<close>: what a turn may change; the program over time as a step relation.

  A client has several threads: the one that reads commands, the timer that ends a pause, and those of
  the application. Each locks the lists it works on, so the steps of \<open>client_step\<close> are whole operations.
  A call that waits polls a status between sleeps; \<open>other n\<close> is what the other threads do during the
  \<open>n\<close>th sleep, any sequence of steps (\<open>others_step\<close>). The loop is a \<open>partial_function\<close>; it ends if
  the sleep takes time.

  \<^bold>\<open>What is shown.\<close> \<open>Client_Tables\<close>, \<open>Interface_Tables\<close> and \<open>Exec_Tables\<close> show for one operation
  after the other that it keeps the invariant \<open>run_ok\<close>: addresses and names are unique, types lie
  within permissions and permissions within the server's maximum, services belong to clients, and
  the queue is a heap whose stamps are not ahead of the counter. \<open>Server_Run\<close> lifts this to every
  state the threads reach, those of clients started meanwhile included: they attach, pass the test of their loop,
  receive and end, in any order with each other and with the execution thread. The locales state the interfaces this rests on: the heap of an
  order and the queue it gives (\<open>heap_order\<close>, \<open>command_queue\<close>), the directory of names
  (\<open>name_directory\<close>), the table of subscriptions (\<open>subscription_table\<close>), the device with one holder
  (\<open>exclusive_device\<close>) and the invariant with a clock (\<open>clocked_invariant\<close>); each is interpreted on
  the definitions of the model. Loops end by measures: the heap's by the length of the array, the
  removal of clients by the length of the table, the execution of the cache by its length.
  For clients, \<open>Client_Status\<close> shows that the list of statuses is a map (the locale \<open>simulation\<close>, interpreted
  as \<open>status_map\<close>), what sending does and that waiting ends; \<open>Client_Turns\<close> that a command stays within
  what its type and the flags allow (\<open>stays_within\<close>); \<open>Client_Run\<close> that every reachable state is
  well-formed and its queue typed, and that the calls that wait return in such a state.

  \<^bold>\<open>Bounds.\<close> The counter that stamps commands has 64 bits. The theorems on runs ask for
  fewer commands than that, counted from where the counter stands; one above that limit the ages of
  waiting commands, and with them the order of the heap, would wrap around. The stack of the compiled parser has
  10000 entries; braces nested 2400 deep, each with at most four entries, are within that. Between two starts of
  \<open>parse_command\<close> the scanner is handed at most 8192 bytes (\<open>max_transmission\<close>); no more than one \<open>read\<close> gives,
  1024 bytes, is held at a time, so the limit of 4096 on what is held is never reached (\<open>buffer_ok\<close>).

  \<^bold>\<open>Not modelled.\<close> The parsers of timing and of the other configuration files: what they
  deliver is an argument. How flex asks for input: a text is scanned as a whole, and its end is the end of the
  input; \<open>Channel\<close> ties the pieces it is handed to that text. Regular expressions are the system's
  (\<open>expression\<close> of \<open>env\<close>). Forks, pipes, sockets and the terminal are answered by \<open>env\<close> and \<open>cenv\<close>;
  signals and the waiting of threads are left out. Of the client library, logging, the hook of queue
  events, \<open>message_queue_sync\<close>, which only blocks, and the table of plug-ins are left out; timing tables
  are the texts they were set from; functors of the application answer whether they are done and change
  nothing else; times are rationals. The plug-ins and the programs are not modelled.
\<close>

end
